(* ===== verification/Gateway_Prelude.thy ===== *)
theory Gateway_Prelude
  imports Main "HOL-Library.Char_ord" "HOL-Library.List_Lexorder"
    "HOL-Library.Product_Lexorder" "HOL-Library.Word" "HOL-Library.Code_Target_Numeral"
begin

text \<open>
  Shared vocabulary of the development.

  \<^item> Results.  Rust's \<open>Result\<close> is the sum \<open>'e + 'a\<close> with \<open>Inl\<close> for the error;
    \<open>rbind\<close> is the question-mark operator, \<open>ensure\<close> is \<open>anyhow::ensure!\<close>, \<open>checks\<close> runs a
    sequence of fallible checks and returns the first error.
  \<^item> Actions.  A method that takes \<open>&mut self\<close> and returns a \<open>Result\<close> is an action
    \<open>'s \<Rightarrow> ('e + 'a) \<times> 's\<close>.  The state is returned on the error path as well, so a mutation
    made before a failing check stays visible, as it does in the source.
  \<^item> Machine integers.  \<open>u64\<close> is \<open>64 word\<close>; \<open>i64\<close> is \<open>int\<close> with the saturating operations
    written out; \<open>usize\<close> lengths are \<open>nat\<close>.
  \<^item> Strings.  A Rust \<open>str\<close> is its UTF-8 byte sequence, one \<open>char\<close> per byte, so \<open>length\<close> is
    \<open>str::len\<close> and the library's lexicographic order is Rust's order on strings.
\<close>

named_theorems result_simps \<open>equations that evaluate results and actions\<close>
named_theorems ok_simps \<open>when a fallible check succeeds\<close>

section \<open>Results\<close>

definition rbind :: "'e + 'a \<Rightarrow> ('a \<Rightarrow> 'e + 'b) \<Rightarrow> 'e + 'b" where
  "rbind r f = (case r of Inl e \<Rightarrow> Inl e | Inr a \<Rightarrow> f a)"

definition ensure :: "bool \<Rightarrow> 'e \<Rightarrow> 'e + unit" where
  "ensure b e = (if b then Inr () else Inl e)"

definition ok_or :: "'a option \<Rightarrow> 'e \<Rightarrow> 'e + 'a" where
  "ok_or x e = (case x of None \<Rightarrow> Inl e | Some a \<Rightarrow> Inr a)"

fun checks :: "('e + unit) list \<Rightarrow> 'e + unit" where
  "checks [] = Inr ()"
| "checks (c # cs) = (case c of Inl e \<Rightarrow> Inl e | Inr _ \<Rightarrow> checks cs)"

definition for_each :: "('a \<Rightarrow> 'e + unit) \<Rightarrow> 'a list \<Rightarrow> 'e + unit" where
  "for_each f xs = checks (map f xs)"

definition if_some :: "'a option \<Rightarrow> ('a \<Rightarrow> 'e + unit) \<Rightarrow> 'e + unit" where
  "if_some x f = (case x of None \<Rightarrow> Inr () | Some a \<Rightarrow> f a)"

definition is_ok :: "'e + 'a \<Rightarrow> bool" where
  "is_ok r = (case r of Inl _ \<Rightarrow> False | Inr _ \<Rightarrow> True)"

lemma rbind_simps [simp, result_simps]:
  "rbind (Inl e) f = Inl e"
  "rbind (Inr a) f = f a"
  by (simp_all add: rbind_def)

lemma is_ok_simps [simp]: "is_ok (Inr a)" "\<not> is_ok (Inl e)"
  by (simp_all add: is_ok_def)

lemma is_ok_unit: "is_ok r \<longleftrightarrow> r = Inr ()"
  by (cases r) simp_all

lemma rbind_Inr_iff: "rbind r f = Inr b \<longleftrightarrow> (\<exists>a. r = Inr a \<and> f a = Inr b)"
  by (cases r) auto

lemma is_ok_rbind [ok_simps]: "is_ok (rbind r f) \<longleftrightarrow> (\<exists>a. r = Inr a \<and> is_ok (f a))"
  by (cases r) auto

lemma is_ok_ensure [simp, ok_simps]: "is_ok (ensure b e) \<longleftrightarrow> b"
  by (simp add: ensure_def)

lemma ensure_Inr [simp]: "ensure b e = Inr u \<longleftrightarrow> b"
  by (simp add: ensure_def)

lemma is_ok_checks [simp, ok_simps]: "is_ok (checks cs) \<longleftrightarrow> (\<forall>c \<in> set cs. is_ok c)"
  by (induction cs) (auto split: sum.splits)

lemma is_ok_for_each [simp, ok_simps]: "is_ok (for_each f xs) \<longleftrightarrow> (\<forall>x \<in> set xs. is_ok (f x))"
  by (simp add: for_each_def)

lemma is_ok_if_some [simp, ok_simps]: "is_ok (if_some x f) \<longleftrightarrow> (\<forall>a. x = Some a \<longrightarrow> is_ok (f a))"
  by (simp add: if_some_def split: option.splits)

lemma ok_or_Inr [simp]: "ok_or x e = Inr a \<longleftrightarrow> x = Some a"
  by (simp add: ok_or_def split: option.splits)

lemma ok_or_simps [simp, result_simps]:
  "ok_or None e = Inl e"
  "ok_or (Some a) e = Inr a"
  by (simp_all add: ok_or_def)

section \<open>Actions on a mutable state\<close>

type_synonym ('s, 'e, 'a) action = "'s \<Rightarrow> ('e + 'a) \<times> 's"

definition aret :: "'a \<Rightarrow> ('s, 'e, 'a) action" where
  "aret a s = (Inr a, s)"

definition afail :: "'e \<Rightarrow> ('s, 'e, 'a) action" where
  "afail e s = (Inl e, s)"

definition alift :: "'e + 'a \<Rightarrow> ('s, 'e, 'a) action" where
  "alift r s = (r, s)"

definition aget :: "('s \<Rightarrow> 'a) \<Rightarrow> ('s, 'e, 'a) action" where
  "aget f s = (Inr (f s), s)"

definition amodify :: "('s \<Rightarrow> 's) \<Rightarrow> ('s, 'e, unit) action" where
  "amodify f s = (Inr (), f s)"

definition abind :: "('s, 'e, 'a) action \<Rightarrow> ('a \<Rightarrow> ('s, 'e, 'b) action) \<Rightarrow> ('s, 'e, 'b) action" where
  "abind m f s = (case m s of (Inl e, s') \<Rightarrow> (Inl e, s') | (Inr a, s') \<Rightarrow> f a s')"

definition athen :: "('s, 'e, 'a) action \<Rightarrow> ('s, 'e, 'b) action \<Rightarrow> ('s, 'e, 'b) action" where
  "athen m n = abind m (\<lambda>_. n)"

definition aensure :: "bool \<Rightarrow> 'e \<Rightarrow> ('s, 'e, unit) action" where
  "aensure b e = alift (ensure b e)"

text \<open>The result and the final state of a run.\<close>

abbreviation result_of :: "('s, 'e, 'a) action \<Rightarrow> 's \<Rightarrow> 'e + 'a" where
  "result_of m s \<equiv> fst (m s)"

abbreviation state_after :: "('s, 'e, 'a) action \<Rightarrow> 's \<Rightarrow> 's" where
  "state_after m s \<equiv> snd (m s)"

lemma action_simps [simp, result_simps]:
  "aret a s = (Inr a, s)"
  "afail e s = (Inl e, s)"
  "alift r s = (r, s)"
  "aget f s = (Inr (f s), s)"
  "amodify g s = (Inr (), g s)"
  by (simp_all add: aret_def afail_def alift_def aget_def amodify_def)

lemma abind_alift: "abind (alift (Inr a)) f = f a" "abind (alift (Inl e)) f = afail e"
  by (simp_all add: abind_def fun_eq_iff alift_def afail_def)

lemma aensure_simps [simp, result_simps]:
  "aensure True e s = (Inr (), s)"
  "aensure False e s = (Inl e, s)"
  by (simp_all add: aensure_def ensure_def)

lemma state_after_aensure [simp]: "state_after (aensure b e) s = s"
  by (simp add: aensure_def)

text \<open>
  Invariants of actions: every outcome, success or error, keeps \<open>P\<close>.  The sequencing rule lets a
  composed method inherit the invariant from its parts.
\<close>

definition keeps :: "('s \<Rightarrow> bool) \<Rightarrow> ('s, 'e, 'a) action \<Rightarrow> bool" where
  "keeps P m \<longleftrightarrow> (\<forall>s. P s \<longrightarrow> P (snd (m s)))"

named_theorems keeps_intros \<open>actions that keep an invariant\<close>

lemma keepsI: "(\<And>s. P s \<Longrightarrow> P (snd (m s))) \<Longrightarrow> keeps P m"
  by (simp add: keeps_def)

lemma keepsD: "keeps P m \<Longrightarrow> P s \<Longrightarrow> P (snd (m s))"
  by (simp add: keeps_def)

lemma keeps_basic [keeps_intros, simp]:
  "keeps P (aret a)" "keeps P (afail e)" "keeps P (alift r)" "keeps P (aget f)" "keeps P (aensure b e)"
  by (simp_all add: keeps_def)

lemma keeps_abind [keeps_intros]:
  assumes "keeps P m" and "\<And>a. keeps P (f a)"
  shows "keeps P (abind m f)"
proof (rule keepsI)
  fix s assume "P s"
  obtain r s' where m: "m s = (r, s')" by (cases "m s")
  with assms(1) \<open>P s\<close> have "P s'" by (auto simp: keeps_def)
  with m assms(2) show "P (snd (abind m f s))"
    by (cases r) (auto simp: abind_def keeps_def)
qed

lemma keeps_athen [keeps_intros]: "keeps P m \<Longrightarrow> keeps P n \<Longrightarrow> keeps P (athen m n)"
  by (simp add: athen_def keeps_abind)

lemma keeps_amodify [keeps_intros]: "(\<And>s. P s \<Longrightarrow> P (g s)) \<Longrightarrow> keeps P (amodify g)"
  by (simp add: keeps_def)

lemma keeps_if [keeps_intros]: "keeps P m \<Longrightarrow> keeps P n \<Longrightarrow> keeps P (if b then m else n)"
  by simp

lemma keeps_conj: "keeps P m \<Longrightarrow> keeps Q m \<Longrightarrow> keeps (\<lambda>s. P s \<and> Q s) m"
  by (simp add: keeps_def)

lemma abind_Inr_iff:
  "abind m f s = (Inr b, t) \<longleftrightarrow> (\<exists>a s'. m s = (Inr a, s') \<and> f a s' = (Inr b, t))"
  by (auto simp: abind_def split: prod.splits sum.splits)

lemma athen_Inr_iff:
  "athen m n s = (Inr b, t) \<longleftrightarrow> (\<exists>a s'. m s = (Inr a, s') \<and> n s' = (Inr b, t))"
  by (auto simp: athen_def abind_Inr_iff)

lemma aensure_Inr_iff [simp]: "aensure b e s = (Inr u, t) \<longleftrightarrow> b \<and> t = s"
  by (cases b) auto

section \<open>Machine integers\<close>

definition I64_MIN :: int where "I64_MIN = - (2 ^ 63)"
definition I64_MAX :: int where "I64_MAX = 2 ^ 63 - 1"

definition i64_clamp :: "int \<Rightarrow> int" where
  "i64_clamp x = max I64_MIN (min I64_MAX x)"

definition i64_saturating_sub :: "int \<Rightarrow> int \<Rightarrow> int" where
  "i64_saturating_sub a b = i64_clamp (a - b)"

definition i64_saturating_mul :: "int \<Rightarrow> int \<Rightarrow> int" where
  "i64_saturating_mul a b = i64_clamp (a * b)"

type_synonym u64 = "64 word"

definition u64_checked_succ :: "u64 \<Rightarrow> u64 option" where
  "u64_checked_succ w = (if w = - 1 then None else Some (w + 1))"

definition u64_saturating_succ :: "u64 \<Rightarrow> u64" where
  "u64_saturating_succ w = (if w = - 1 then w else w + 1)"

lemma u64_checked_succ_greater:
  assumes "u64_checked_succ w = Some v"
  shows "w < v" "unat v = unat w + 1"
proof -
  from assms have "w \<noteq> - 1" and v: "v = 1 + w"
    by (auto simp: u64_checked_succ_def add.commute split: if_splits)
  then have "1 + w \<noteq> 0" by (metis add_eq_0_iff)
  then show unat: "unat v = unat w + 1" by (simp add: v unatSuc)
  then show "w < v" by (simp add: word_less_nat_alt)
qed

section \<open>Strings\<close>

definition strip_prefix :: "string \<Rightarrow> string \<Rightarrow> string option" where
  "strip_prefix p s = (if take (length p) s = p then Some (drop (length p) s) else None)"

fun split_once :: "char \<Rightarrow> string \<Rightarrow> (string \<times> string) option" where
  "split_once c [] = None"
| "split_once c (x # xs) =
     (if x = c then Some ([], xs) else map_option (\<lambda>(a, b). (x # a, b)) (split_once c xs))"

definition is_ascii_lowercase :: "char \<Rightarrow> bool" where
  "is_ascii_lowercase c \<longleftrightarrow> CHR ''a'' \<le> c \<and> c \<le> CHR ''z''"

definition is_ascii_uppercase :: "char \<Rightarrow> bool" where
  "is_ascii_uppercase c \<longleftrightarrow> CHR ''A'' \<le> c \<and> c \<le> CHR ''Z''"

definition is_ascii_digit :: "char \<Rightarrow> bool" where
  "is_ascii_digit c \<longleftrightarrow> CHR ''0'' \<le> c \<and> c \<le> CHR ''9''"

definition is_ascii_alphanumeric :: "char \<Rightarrow> bool" where
  "is_ascii_alphanumeric c \<longleftrightarrow> is_ascii_lowercase c \<or> is_ascii_uppercase c \<or> is_ascii_digit c"

text \<open>
  \<open>char::is_control\<close> holds for the scalar values U+0000 to U+001F, U+007F and U+0080 to U+009F.
  In UTF-8 the first two groups are single bytes and the last group is the byte \<open>0xC2\<close> followed by
  a byte from \<open>0x80\<close> to \<open>0x9F\<close>.
\<close>

fun has_control :: "string \<Rightarrow> bool" where
  "has_control [] = False"
| "has_control [c] = (c < CHR 0x20 \<or> c = CHR 0x7F)"
| "has_control (c # d # cs) =
     (c < CHR 0x20 \<or> c = CHR 0x7F \<or> (c = CHR 0xC2 \<and> CHR 0x80 \<le> d \<and> d \<le> CHR 0x9F)
      \<or> has_control (d # cs))"

definition u8_to_ascii_lower :: "char \<Rightarrow> char" where
  "u8_to_ascii_lower c = (if is_ascii_uppercase c then char_of (of_char c + 32 :: nat) else c)"

definition eq_ignore_ascii_case :: "string \<Rightarrow> string \<Rightarrow> bool" where
  "eq_ignore_ascii_case a b \<longleftrightarrow> map u8_to_ascii_lower a = map u8_to_ascii_lower b"

lemma strip_prefix_append [simp]: "strip_prefix p (p @ s) = Some s"
  by (simp add: strip_prefix_def)

lemma split_once_append:
  "c \<notin> set p \<Longrightarrow> split_once c (p @ c # s) = Some (p, s)"
  by (induction p) auto

lemma split_once_Some: "split_once c s = Some (a, b) \<Longrightarrow> s = a @ c # b \<and> c \<notin> set a"
  by (induction s arbitrary: a) (auto split: if_splits)

section \<open>Lists and options\<close>

fun find_map :: "('a \<Rightarrow> 'b option) \<Rightarrow> 'a list \<Rightarrow> 'b option" where
  "find_map f [] = None"
| "find_map f (x # xs) = (case f x of None \<Rightarrow> find_map f xs | Some b \<Rightarrow> Some b)"

definition is_some_and :: "'a option \<Rightarrow> ('a \<Rightarrow> bool) \<Rightarrow> bool" where
  "is_some_and x P = (case x of None \<Rightarrow> False | Some a \<Rightarrow> P a)"

definition is_none_or :: "'a option \<Rightarrow> ('a \<Rightarrow> bool) \<Rightarrow> bool" where
  "is_none_or x P = (case x of None \<Rightarrow> True | Some a \<Rightarrow> P a)"

lemma is_some_and_simps [simp]:
  "is_some_and None P = False" "is_some_and (Some a) P = P a"
  by (simp_all add: is_some_and_def)

lemma is_none_or_simps [simp]:
  "is_none_or None P = True" "is_none_or (Some a) P = P a"
  by (simp_all add: is_none_or_def)

lemma is_some_and_iff: "is_some_and x P \<longleftrightarrow> (\<exists>a. x = Some a \<and> P a)"
  by (cases x) simp_all

lemma is_none_or_iff: "is_none_or x P \<longleftrightarrow> (\<forall>a. x = Some a \<longrightarrow> P a)"
  by (cases x) simp_all

lemma find_eq_Some_D: "List.find P xs = Some x \<Longrightarrow> x \<in> set xs \<and> P x"
  by (induction xs) (auto split: if_splits)

lemma find_eq_None_iff: "List.find P xs = None \<longleftrightarrow> (\<forall>x \<in> set xs. \<not> P x)"
  by (induction xs) auto

lemma find_eq_Some_ex: "(\<exists>y. List.find P xs = Some y) \<longleftrightarrow> (\<exists>x \<in> set xs. P x)"
  by (metis find_eq_None_iff not_None_eq)

lemma find_unique:
  assumes "x \<in> set xs" and "P x" and "\<And>y. y \<in> set xs \<Longrightarrow> P y \<Longrightarrow> y = x"
  shows "List.find P xs = Some x"
  using assms by (metis find_eq_None_iff find_eq_Some_D option.exhaust)

text \<open>The minimum of a possibly empty iterator, Rust's \<open>Iterator::min\<close>.\<close>

definition list_min :: "'a::linorder list \<Rightarrow> 'a option" where
  "list_min xs = (if xs = [] then None else Some (foldr min (tl xs) (hd xs)))"

lemma foldr_min_mem: "foldr min xs (x :: 'a::linorder) \<in> set (x # xs)"
  by (induction xs) (auto simp: min_def)

lemma foldr_min_le: "y \<in> set (x # xs) \<Longrightarrow> foldr min xs (x :: 'a::linorder) \<le> y"
  by (induction xs) (auto simp: min.coboundedI2)

lemma list_min_None [simp]: "list_min xs = None \<longleftrightarrow> xs = []"
  by (simp add: list_min_def)

lemma list_min_Some: "list_min xs = Some x \<Longrightarrow> x \<in> set xs \<and> (\<forall>y \<in> set xs. x \<le> y)"
  using foldr_min_mem [of "tl xs" "hd xs"] foldr_min_le [of _ "hd xs" "tl xs"]
  by (cases xs) (auto simp: list_min_def)

end
