(* ===== verification/Ordered_Map.thy ===== *)
theory Ordered_Map
  imports Gateway_Prelude
begin

text \<open>
  Rust's \<open>BTreeMap\<close> and \<open>BTreeSet\<close>.  A map is the list of its entries in strictly increasing key
  order, so iteration order, \<open>values().find\<close> and equality are those of the source.  The interface
  that the ledger relies on is the locale \<open>keyed_store\<close>; the type \<open>btree_map\<close> is its instance.
\<close>

section \<open>The interface\<close>

locale keyed_store =
  fixes lookup :: "'m \<Rightarrow> 'k \<Rightarrow> 'v option"
    and insert :: "'k \<Rightarrow> 'v \<Rightarrow> 'm \<Rightarrow> 'm"
    and remove :: "'k \<Rightarrow> 'm \<Rightarrow> 'm"
    and retain :: "('k \<Rightarrow> 'v \<Rightarrow> bool) \<Rightarrow> 'm \<Rightarrow> 'm"
    and len :: "'m \<Rightarrow> nat"
  assumes lookup_insert: "lookup (insert k v m) = (lookup m)(k \<mapsto> v)"
    and lookup_remove: "lookup (remove k m) = (lookup m)(k := None)"
    and lookup_retain: "lookup (retain P m) k =
      (case lookup m k of None \<Rightarrow> None | Some v \<Rightarrow> if P k v then Some v else None)"
    and len_card: "len m = card (dom (lookup m))"
    and finite_dom: "finite (dom (lookup m))"
begin

definition remove_all :: "'k list \<Rightarrow> 'm \<Rightarrow> 'm" where
  "remove_all ks m = foldl (\<lambda>m k. remove k m) m ks"

lemma lookup_remove_all:
  "lookup (remove_all ks m) k = (if k \<in> set ks then None else lookup m k)"
  unfolding remove_all_def
  by (induction ks arbitrary: m) (auto simp: lookup_remove)

lemma len_remove: "lookup m k = Some v \<Longrightarrow> len (remove k m) + 1 = len m"
proof -
  assume k: "lookup m k = Some v"
  have "dom (lookup (remove k m)) = dom (lookup m) - {k}"
    by (auto simp: lookup_remove)
  moreover have "k \<in> dom (lookup m)" using k by auto
  ultimately show ?thesis
    using card_Suc_Diff1 [OF finite_dom, of k m] by (simp add: len_card)
qed

lemma len_remove_less: "lookup m k = Some v \<Longrightarrow> len (remove k m) < len m"
  using len_remove by fastforce

lemma len_remove_le: "len (remove k m) \<le> len m"
  by (auto simp: len_card lookup_remove finite_dom intro!: card_mono)

lemma len_retain_le: "len (retain P m) \<le> len m"
  by (auto simp: len_card lookup_retain finite_dom intro!: card_mono split: option.splits if_splits)

lemma len_retain_less:
  assumes "lookup m k = Some v" and "\<not> P k v"
  shows "len (retain P m) < len m"
proof -
  have "dom (lookup (retain P m)) \<subseteq> dom (lookup m) - {k}"
    using assms by (auto simp: lookup_retain split: option.splits if_splits)
  then have "dom (lookup (retain P m)) \<subset> dom (lookup m)"
    using assms(1) by blast
  then show ?thesis by (simp add: len_card finite_dom psubset_card_mono)
qed

lemma len_insert_new: "lookup m k = None \<Longrightarrow> len (insert k v m) = len m + 1"
  by (simp add: len_card lookup_insert card_insert_if finite_dom domIff)

lemma len_insert_old: "lookup m k \<noteq> None \<Longrightarrow> len (insert k v m) = len m"
  by (simp add: len_card lookup_insert insert_absorb domIff)

lemma len_mono: "dom (lookup m) \<subseteq> dom (lookup m') \<Longrightarrow> len m \<le> len m'"
  by (simp add: len_card card_mono finite_dom)

end

section \<open>Sorted association lists\<close>

fun ins_sorted :: "'k::linorder \<Rightarrow> 'v \<Rightarrow> ('k \<times> 'v) list \<Rightarrow> ('k \<times> 'v) list" where
  "ins_sorted k v [] = [(k, v)]"
| "ins_sorted k v ((a, b) # xs) =
     (if k < a then (k, v) # (a, b) # xs
      else if k = a then (k, v) # xs
      else (a, b) # ins_sorted k v xs)"

lemma fst_set_ins_sorted: "fst ` set (ins_sorted k v xs) = insert k (fst ` set xs)"
  by (induction k v xs rule: ins_sorted.induct) auto

lemma ins_sorted_sorted:
  "sorted_wrt (<) (map fst xs) \<Longrightarrow> sorted_wrt (<) (map fst (ins_sorted k v xs))"
proof (induction k v xs rule: ins_sorted.induct)
  case (2 k v a b xs)
  have "\<forall>x \<in> fst ` set (ins_sorted k v xs). x = k \<or> x \<in> fst ` set xs"
    by (simp add: fst_set_ins_sorted)
  with 2 show ?case by (fastforce simp: image_iff)
qed simp

lemma map_of_ins_sorted: "map_of (ins_sorted k v xs) = (map_of xs)(k \<mapsto> v)"
  by (induction k v xs rule: ins_sorted.induct) (auto simp: fun_eq_iff)

lemma sorted_wrt_map_filter: "sorted_wrt R (map f xs) \<Longrightarrow> sorted_wrt R (map f (filter P xs))"
  by (induction xs) auto

lemma sorted_wrt_less_distinct: "sorted_wrt (<) (xs :: 'a::linorder list) \<Longrightarrow> distinct xs"
  by (induction xs) auto

section \<open>The type\<close>

typedef (overloaded) ('k::linorder, 'v) btree_map =
  "{xs :: ('k \<times> 'v) list. sorted_wrt (<) (map fst xs)}"
  morphisms bm_entries Abs_btree_map
  by (rule exI [of _ "[]"]) simp

setup_lifting type_definition_btree_map

lift_definition bm_empty :: "('k::linorder, 'v) btree_map" is "[]"
  by simp

lift_definition bm_insert :: "'k::linorder \<Rightarrow> 'v \<Rightarrow> ('k, 'v) btree_map \<Rightarrow> ('k, 'v) btree_map"
  is ins_sorted
  by (rule ins_sorted_sorted)

lift_definition bm_remove :: "'k::linorder \<Rightarrow> ('k, 'v) btree_map \<Rightarrow> ('k, 'v) btree_map"
  is "\<lambda>k. filter (\<lambda>(k', _). k' \<noteq> k)"
  by (rule sorted_wrt_map_filter)

lift_definition bm_retain :: "('k::linorder \<Rightarrow> 'v \<Rightarrow> bool) \<Rightarrow> ('k, 'v) btree_map \<Rightarrow> ('k, 'v) btree_map"
  is "\<lambda>P. filter (\<lambda>(k, v). P k v)"
  by (rule sorted_wrt_map_filter)

lift_definition bm_map :: "('k::linorder \<Rightarrow> 'v \<Rightarrow> 'w) \<Rightarrow> ('k, 'v) btree_map \<Rightarrow> ('k, 'w) btree_map"
  is "\<lambda>f. map (\<lambda>(k, v). (k, f k v))"
  by (simp add: comp_def case_prod_unfold)

definition bm_get :: "('k::linorder, 'v) btree_map \<Rightarrow> 'k \<Rightarrow> 'v option" where
  "bm_get m k = map_of (bm_entries m) k"

definition bm_keys :: "('k::linorder, 'v) btree_map \<Rightarrow> 'k list" where
  "bm_keys m = map fst (bm_entries m)"

definition bm_values :: "('k::linorder, 'v) btree_map \<Rightarrow> 'v list" where
  "bm_values m = map snd (bm_entries m)"

definition bm_len :: "('k::linorder, 'v) btree_map \<Rightarrow> nat" where
  "bm_len m = length (bm_entries m)"

definition bm_contains :: "('k::linorder, 'v) btree_map \<Rightarrow> 'k \<Rightarrow> bool" where
  "bm_contains m k \<longleftrightarrow> bm_get m k \<noteq> None"

instantiation btree_map :: (linorder, equal) equal
begin

definition equal_btree_map :: "('a, 'b) btree_map \<Rightarrow> ('a, 'b) btree_map \<Rightarrow> bool" where
  "equal_btree_map m m' \<longleftrightarrow> bm_entries m = bm_entries m'"

instance
  by standard (simp add: equal_btree_map_def bm_entries_inject)

end

text \<open>\<open>get_mut\<close> followed by an update in place.\<close>

definition bm_update :: "'k::linorder \<Rightarrow> ('v \<Rightarrow> 'v) \<Rightarrow> ('k, 'v) btree_map \<Rightarrow> ('k, 'v) btree_map" where
  "bm_update k f m = bm_map (\<lambda>k' v. if k' = k then f v else v) m"

text \<open>The key of the first entry that satisfies a predicate, in iteration order.\<close>

definition bm_find_key :: "('v \<Rightarrow> bool) \<Rightarrow> ('k::linorder, 'v) btree_map \<Rightarrow> 'k option" where
  "bm_find_key P m = map_option fst (List.find (\<lambda>(_, v). P v) (bm_entries m))"

type_synonym 'k btree_set = "('k, unit) btree_map"

abbreviation bs_insert :: "'k::linorder \<Rightarrow> 'k btree_set \<Rightarrow> 'k btree_set" where
  "bs_insert k \<equiv> bm_insert k ()"

lemma bm_entries_simps [simp]:
  "bm_entries bm_empty = []"
  "bm_entries (bm_insert k v m) = ins_sorted k v (bm_entries m)"
  "bm_entries (bm_remove k m) = filter (\<lambda>(k', _). k' \<noteq> k) (bm_entries m)"
  "bm_entries (bm_retain P m) = filter (\<lambda>(k, v). P k v) (bm_entries m)"
  "bm_entries (bm_map f m) = map (\<lambda>(k, v). (k, f k v)) (bm_entries m)"
  by (simp_all add: bm_empty.rep_eq bm_insert.rep_eq bm_remove.rep_eq bm_retain.rep_eq bm_map.rep_eq)

lemma bm_entries_sorted: "sorted_wrt (<) (map fst (bm_entries m))"
  using bm_entries [of m] by simp

lemma bm_entries_distinct: "distinct (map fst (bm_entries m))"
  by (rule sorted_wrt_less_distinct [OF bm_entries_sorted])

lemma bm_get_iff: "bm_get m k = Some v \<longleftrightarrow> (k, v) \<in> set (bm_entries m)"
  by (simp add: bm_get_def bm_entries_distinct)

lemma bm_get_None_iff: "bm_get m k = None \<longleftrightarrow> k \<notin> set (bm_keys m)"
  by (auto simp: bm_get_def bm_keys_def map_of_eq_None_iff)

lemma in_bm_values: "v \<in> set (bm_values m) \<longleftrightarrow> (\<exists>k. bm_get m k = Some v)"
  by (force simp: bm_values_def bm_get_iff)

lemma in_bm_keys: "k \<in> set (bm_keys m) \<longleftrightarrow> (\<exists>v. bm_get m k = Some v)"
  by (metis bm_get_None_iff not_None_eq)

lemma bm_get_empty [simp]: "bm_get bm_empty k = None"
  by (simp add: bm_get_def)

lemma bm_get_insert [simp]: "bm_get (bm_insert k v m) = (bm_get m)(k \<mapsto> v)"
  by (simp add: fun_eq_iff bm_get_def map_of_ins_sorted)

lemma bm_get_remove [simp]: "bm_get (bm_remove k m) = (bm_get m)(k := None)"
proof
  fix k'
  have "\<And>v. bm_get (bm_remove k m) k' = Some v \<longleftrightarrow> ((bm_get m)(k := None)) k' = Some v"
    by (auto simp: bm_get_iff)
  then show "bm_get (bm_remove k m) k' = ((bm_get m)(k := None)) k'"
    by (metis not_None_eq)
qed

lemma bm_get_retain [simp]:
  "bm_get (bm_retain P m) k =
    (case bm_get m k of None \<Rightarrow> None | Some v \<Rightarrow> if P k v then Some v else None)"
proof -
  have "distinct (map fst xs) \<Longrightarrow> map_of (filter (\<lambda>(k, v). P k v) xs) k =
    (case map_of xs k of None \<Rightarrow> None | Some v \<Rightarrow> if P k v then Some v else None)" for xs
  proof (induction xs)
    case (Cons x xs)
    have "k \<notin> fst ` set xs \<Longrightarrow> map_of (filter (\<lambda>(k, v). P k v) xs) k = None"
      by (auto simp: map_of_eq_None_iff)
    with Cons show ?case by (cases x) auto
  qed simp
  then show ?thesis by (simp add: bm_get_def bm_entries_distinct)
qed

lemma bm_get_map [simp]: "bm_get (bm_map f m) k = map_option (f k) (bm_get m k)"
proof -
  have "map_of (map (\<lambda>(k, v). (k, f k v)) xs) k = map_option (f k) (map_of xs k)" for xs
    by (induction xs) auto
  then show ?thesis by (simp add: bm_get_def)
qed

lemma bm_get_update [simp]:
  "bm_get (bm_update k f m) = (bm_get m)(k := map_option f (bm_get m k))"
  by (auto simp: fun_eq_iff bm_update_def option.map_ident)

lemma bm_len_update [simp]: "bm_len (bm_update k f m) = bm_len m"
  by (simp add: bm_len_def bm_update_def)

lemma bm_len_map [simp]: "bm_len (bm_map f m) = bm_len m"
  by (simp add: bm_len_def)

lemma bm_len_empty [simp]: "bm_len bm_empty = 0"
  by (simp add: bm_len_def)

lemma bm_contains_iff [simp]: "bm_contains m k \<longleftrightarrow> (\<exists>v. bm_get m k = Some v)"
  by (simp add: bm_contains_def)

lemma dom_bm_get: "dom (bm_get m) = set (bm_keys m)"
  by (auto simp: in_bm_keys)

interpretation bm: keyed_store bm_get bm_insert bm_remove bm_retain bm_len
proof
  fix m :: "('k::linorder, 'v) btree_map"
  show "bm_len m = card (dom (bm_get m))"
    using distinct_card [OF bm_entries_distinct, of m] by (simp add: dom_bm_get bm_keys_def bm_len_def)
  show "finite (dom (bm_get m))" by (simp add: dom_bm_get)
qed simp_all

lemma bm_ext:
  assumes "\<And>k. bm_get m k = bm_get m' k"
  shows "m = m'"
proof -
  have set: "set (bm_entries m) = set (bm_entries m')"
    using assms by (auto simp: bm_get_iff [symmetric])
  have "map fst (bm_entries m) = map fst (bm_entries m')"
    by (rule sorted_distinct_set_unique)
      (simp_all add: bm_entries_distinct set strict_sorted_iff [THEN iffD1, OF bm_entries_sorted])
  moreover have "map snd (bm_entries m) = map (\<lambda>k. the (bm_get m k)) (map fst (bm_entries m))" for m :: "('a, 'b) btree_map"
    by (auto simp: bm_get_def bm_entries_distinct)
  ultimately have "bm_entries m = bm_entries m'"
    using assms by (metis (no_types, lifting) map_eq_conv zip_map_fst_snd)
  then show ?thesis by (simp add: bm_entries_inject)
qed

lemma bm_find_key_Some:
  "bm_find_key P m = Some k \<Longrightarrow> \<exists>v. bm_get m k = Some v \<and> P v"
  by (auto simp: bm_find_key_def bm_get_iff dest!: find_eq_Some_D)

lemma bm_find_key_None: "bm_find_key P m = None \<longleftrightarrow> (\<forall>v \<in> set (bm_values m). \<not> P v)"
  by (auto simp: bm_find_key_def find_eq_None_iff bm_values_def)

end
