(* ===== verification/Ledger_Types.thy ===== *)
theory Ledger_Types
  imports Ordered_Map
begin

text \<open>
  The persisted identity ledger (\<open>request_state_types.rs\<close>): its limits, its entries and the two
  nested records.  Field names carry a prefix for the struct they belong to, because Isabelle
  records share one name space for selectors.
\<close>

section \<open>Limits\<close>

definition REQUEST_STATE_VERSION :: nat where "REQUEST_STATE_VERSION = 1"
definition INITIAL_REQUEST_STATE_REVISION :: u64 where "INITIAL_REQUEST_STATE_REVISION = 1"
definition MAX_TOOL_INVENTORY_REVOCATIONS :: nat where "MAX_TOOL_INVENTORY_REVOCATIONS = 4096"
definition MAX_REQUEST_STATE_BYTES :: nat where "MAX_REQUEST_STATE_BYTES = 512 * 1024 * 1024"
definition MAX_OWNERS :: nat where "MAX_OWNERS = 64"
definition MAX_SCOPES :: nat where "MAX_SCOPES = 1024"
definition MAX_SCOPED_INSTALLATIONS :: nat where "MAX_SCOPED_INSTALLATIONS = 2048"
definition MAX_CONVERSATIONS :: nat where "MAX_CONVERSATIONS = 16384"
definition MAX_CHILD_THREADS :: nat where "MAX_CHILD_THREADS = 65536"
definition MAX_TURNS :: nat where "MAX_TURNS = 262144"
definition MAX_GENERATED_ITEMS :: nat where "MAX_GENERATED_ITEMS = 524288"
definition MAX_COMPACTION_MARKERS :: nat where "MAX_COMPACTION_MARKERS = 262144"
definition MAX_WIRE_ID_PAIRS :: nat where "MAX_WIRE_ID_PAIRS = 1048576"
definition MAX_SCOPE_INSTALLATIONS :: nat where "MAX_SCOPE_INSTALLATIONS = 64"
definition MAX_SCOPE_CONVERSATIONS :: nat where "MAX_SCOPE_CONVERSATIONS = 8192"
definition MAX_SCOPE_CHILD_THREADS :: nat where "MAX_SCOPE_CHILD_THREADS = 16384"
definition MAX_SCOPE_TURNS :: nat where "MAX_SCOPE_TURNS = 65536"
definition MAX_SCOPE_GENERATED_ITEMS :: nat where "MAX_SCOPE_GENERATED_ITEMS = 131072"
definition MAX_SCOPE_COMPACTION_MARKERS :: nat where "MAX_SCOPE_COMPACTION_MARKERS = 65536"
definition MAX_SCOPE_WIRE_ID_PAIRS :: nat where "MAX_SCOPE_WIRE_ID_PAIRS = 262144"
definition MAX_WIRE_ID_BYTES :: nat where "MAX_WIRE_ID_BYTES = 512"
definition DETAIL_RETENTION_DAYS :: int where "DETAIL_RETENTION_DAYS = 30"

section \<open>Entries\<close>

record identity_entry =
  ie_id :: string
  ie_last_seen_day :: int

record conversation_entry =
  conv_id :: string
  conv_window_number :: u64
  conv_current_turn_id :: "string option"
  conv_last_seen_day :: int

record child_thread_entry =
  ct_id :: string
  ct_session_id :: string
  ct_parent_thread_id :: "string option"
  ct_window_number :: u64
  ct_current_turn_id :: "string option"
  ct_last_seen_day :: int

record turn_entry =
  te_id :: string
  te_thread_id :: string
  te_inventory_source_thread_id :: "string option"
  te_classifier :: bool
  te_root_turn_id :: string
  te_parent_turn_id :: "string option"
  te_started_at_unix_ms :: int
  te_last_seen_day :: int

record generated_item_entry =
  gi_id :: string
  gi_turn_id :: "string option"
  gi_create_time_micros :: "int option"
  gi_last_seen_day :: int

record compaction_marker_entry =
  cm_thread_id :: string
  cm_window_number :: u64
  cm_last_seen_day :: int

datatype wire_id_domain =
  ContextWindow | Installation | Session | Thread | Turn | Response | Conversation | Stream
  | Item | Call | Approval

datatype wire_id_origin = Downstream | Upstream

record wire_id_owner =
  wo_session_id :: string
  wo_thread_id :: string

record wire_id_entry =
  we_domain :: wire_id_domain
  we_origin :: wire_id_origin
  we_downstream_id :: string
  we_upstream_id :: string
  we_upstream_lookup :: string
  we_owner :: "wire_id_owner option"
  we_last_seen_day :: int

text \<open>\<open>WireIdDomain\<close> derives \<open>Ord\<close>: the order of its declaration.\<close>

fun domain_rank :: "wire_id_domain \<Rightarrow> nat" where
  "domain_rank ContextWindow = 0"
| "domain_rank Installation = 1"
| "domain_rank Session = 2"
| "domain_rank Thread = 3"
| "domain_rank Turn = 4"
| "domain_rank Response = 5"
| "domain_rank Conversation = 6"
| "domain_rank Stream = 7"
| "domain_rank Item = 8"
| "domain_rank Call = 9"
| "domain_rank Approval = 10"

lemma domain_rank_inject: "domain_rank a = domain_rank b \<Longrightarrow> a = b"
  by (cases a; cases b) simp_all

instantiation wire_id_domain :: linorder
begin

definition less_eq_wire_id_domain :: "wire_id_domain \<Rightarrow> wire_id_domain \<Rightarrow> bool" where
  "less_eq_wire_id_domain a b \<longleftrightarrow> domain_rank a \<le> domain_rank b"

definition less_wire_id_domain :: "wire_id_domain \<Rightarrow> wire_id_domain \<Rightarrow> bool" where
  "less_wire_id_domain a b \<longleftrightarrow> domain_rank a < domain_rank b"

instance
  by standard (auto simp: less_eq_wire_id_domain_def less_wire_id_domain_def intro: domain_rank_inject)

end

section \<open>Ledger\<close>

record scope_state =
  sc_last_seen_day :: int
  scoped_installations :: "(string, identity_entry) btree_map"
  conversations :: "(string, conversation_entry) btree_map"
  child_threads :: "(string, child_thread_entry) btree_map"
  turns :: "(string, turn_entry) btree_map"
  generated_items :: "(string, generated_item_entry) btree_map"
  compaction_markers :: "(string, compaction_marker_entry) btree_map"
  wire_ids :: "(string, wire_id_entry) btree_map"
  wire_upstream_index :: "(string, string) btree_map"

record persisted_request_state =
  ps_version :: nat
  ps_revision :: u64
  ps_installation_id :: string
  ps_owners :: "string btree_set"
  ps_scopes :: "(string, scope_state) btree_map"
  ps_tool_inventory_revocations :: "string btree_set"
  ps_tool_inventory_uncertain :: bool
  ps_tool_inventory_revision :: nat

definition scope_new :: "int \<Rightarrow> scope_state" where
  "scope_new day = \<lparr>
     sc_last_seen_day = day,
     scoped_installations = bm_empty,
     conversations = bm_empty,
     child_threads = bm_empty,
     turns = bm_empty,
     generated_items = bm_empty,
     compaction_markers = bm_empty,
     wire_ids = bm_empty,
     wire_upstream_index = bm_empty\<rparr>"

text \<open>\<open>installation\<close> is the UUID v4 drawn for the new ledger.\<close>

definition state_new :: "string \<Rightarrow> string btree_set \<Rightarrow> persisted_request_state" where
  "state_new installation owners = \<lparr>
     ps_version = REQUEST_STATE_VERSION,
     ps_revision = INITIAL_REQUEST_STATE_REVISION,
     ps_installation_id = installation,
     ps_owners = owners,
     ps_scopes = bm_empty,
     ps_tool_inventory_revocations = bm_empty,
     ps_tool_inventory_uncertain = False,
     ps_tool_inventory_revision = 0\<rparr>"

section \<open>Protected keys\<close>

text \<open>
  The keys one edit has touched (\<open>ProtectedStateKeys\<close> in \<open>request_state_editor.rs\<close>): pruning may
  not remove them.  Pairs are a scope key and an entry key.
\<close>

record protected_state_keys =
  pk_scopes :: "string set"
  pk_installations :: "(string \<times> string) set"
  pk_conversations :: "(string \<times> string) set"
  pk_child_threads :: "(string \<times> string) set"
  pk_turns :: "(string \<times> string) set"
  pk_generated_items :: "(string \<times> string) set"
  pk_compaction_markers :: "(string \<times> string) set"
  pk_wire_ids :: "(string \<times> string) set"

definition protected_default :: protected_state_keys where
  "protected_default = \<lparr>pk_scopes = {}, pk_installations = {}, pk_conversations = {},
     pk_child_threads = {}, pk_turns = {}, pk_generated_items = {}, pk_compaction_markers = {},
     pk_wire_ids = {}\<rparr>"

section \<open>Errors and the code outside the repository\<close>

text \<open>
  An \<open>anyhow\<close> error is its message; \<open>RequiredWireReferenceUnavailable\<close> is the one typed error
  that callers downcast to.
\<close>

datatype ledger_error =
  Msg string
  | NotFound string \<comment> \<open>an I/O error of kind \<open>NotFound\<close> under this context\<close>
  | UuidError string \<comment> \<open>the parse error of the UUID crate for this text\<close>
  | RequiredWireReferenceUnavailable wire_id_domain

type_synonym 'a result = "ledger_error + 'a"

text \<open>
  Third-party functions the ledger calls.  \<open>uuid_version s\<close> is \<open>Uuid::parse_str(s)\<close> followed by
  \<open>get_version_num\<close>, \<open>None\<close> when the parse fails; \<open>new_v4 n\<close> and \<open>now_v7 n\<close> are the values the
  UUID generators return at their \<open>n\<close>-th call; the last three are the hash, MAC and base64 crates.
\<close>

record externals =
  uuid_version :: "string \<Rightarrow> nat option"
  new_v4 :: "nat \<Rightarrow> string"
  now_v7 :: "nat \<Rightarrow> string"
  sha256 :: "string \<Rightarrow> string"
  hmac_sha256 :: "string \<Rightarrow> string \<Rightarrow> string"
  base64_url_safe_no_pad :: "string \<Rightarrow> string"

end
