(* ===== verification/Lookup_Keys.thy ===== *)
theory Lookup_Keys
  imports Ledger_Types
begin

text \<open>
  Lookup keys of the ledger (\<open>request_state_lookup.rs\<close>).  Every map of a scope is keyed by a MAC
  over length-prefixed components.  The lemmas show that the framing is unambiguous, so two lookups
  that meet in one key are a collision of the MAC itself.
\<close>

record lookup_key_factory =
  lkf_key :: string
  lkf_scope :: string

definition KEY_DOMAIN :: string where "KEY_DOMAIN = ''mini-sub2api/request-state-key/v1''"
definition FILE_DOMAIN :: string where "FILE_DOMAIN = ''mini-sub2api/request-state-file/v1''"

definition factory_new :: "externals \<Rightarrow> string \<Rightarrow> string \<Rightarrow> lookup_key_factory" where
  "factory_new ext account_namespace downstream_scope =
     \<lparr>lkf_key = sha256 ext (KEY_DOMAIN @ [CHR 0x00] @ account_namespace),
      lkf_scope = downstream_scope\<rparr>"

definition account_state_ref :: "externals \<Rightarrow> string \<Rightarrow> string" where
  "account_state_ref ext account_namespace =
     ''rs_'' @ base64_url_safe_no_pad ext (sha256 ext (FILE_DOMAIN @ [CHR 0x00] @ account_namespace))"

text \<open>\<open>(len as u64).to_be_bytes()\<close>.\<close>

fun be_bytes :: "nat \<Rightarrow> nat \<Rightarrow> string" where
  "be_bytes 0 n = []"
| "be_bytes (Suc k) n = be_bytes k (n div 256) @ [char_of (n mod 256)]"

definition update_component :: "string \<Rightarrow> string" where
  "update_component value = be_bytes 8 (length value mod 2 ^ 64) @ value"

definition mac_message :: "lookup_key_factory \<Rightarrow> string \<Rightarrow> string list \<Rightarrow> string" where
  "mac_message keys kind components =
     update_component (lkf_scope keys) @ update_component kind
       @ concat (map update_component components)"

definition lookup_key :: "externals \<Rightarrow> lookup_key_factory \<Rightarrow> string \<Rightarrow> string list \<Rightarrow> string" where
  "lookup_key ext keys kind components =
     ''lk_'' @ base64_url_safe_no_pad ext
       (hmac_sha256 ext (lkf_key keys) (mac_message keys kind components))"

fun wire_domain :: "wire_id_domain \<Rightarrow> string" where
  "wire_domain ContextWindow = ''context_window''"
| "wire_domain Installation = ''installation''"
| "wire_domain Session = ''session''"
| "wire_domain Thread = ''thread''"
| "wire_domain Turn = ''turn''"
| "wire_domain Response = ''response''"
| "wire_domain Conversation = ''conversation''"
| "wire_domain Stream = ''stream''"
| "wire_domain Item = ''item''"
| "wire_domain Call = ''call''"
| "wire_domain Approval = ''approval''"

definition factory_scope_key :: "externals \<Rightarrow> lookup_key_factory \<Rightarrow> string" where
  "factory_scope_key ext keys = lookup_key ext keys ''scope'' [lkf_scope keys]"

definition identity_key :: "externals \<Rightarrow> lookup_key_factory \<Rightarrow> string \<Rightarrow> string \<Rightarrow> string" where
  "identity_key ext keys kind raw = lookup_key ext keys kind [raw]"

definition derived_key :: "externals \<Rightarrow> lookup_key_factory \<Rightarrow> string \<Rightarrow> string list \<Rightarrow> string" where
  "derived_key ext keys kind components = lookup_key ext keys kind components"

definition wire_downstream :: "externals \<Rightarrow> lookup_key_factory \<Rightarrow> wire_id_domain \<Rightarrow> string \<Rightarrow> string" where
  "wire_downstream ext keys d raw = lookup_key ext keys ''wire-downstream'' [wire_domain d, raw]"

definition wire_upstream :: "externals \<Rightarrow> lookup_key_factory \<Rightarrow> wire_id_domain \<Rightarrow> string \<Rightarrow> string" where
  "wire_upstream ext keys d raw = lookup_key ext keys ''wire-upstream'' [wire_domain d, raw]"

section \<open>The framing is injective\<close>

lemma length_be_bytes [simp]: "length (be_bytes k n) = k"
  by (induction k arbitrary: n) simp_all

lemma be_bytes_inject:
  "be_bytes k m = be_bytes k n \<Longrightarrow> m < 256 ^ k \<Longrightarrow> n < 256 ^ k \<Longrightarrow> m = n"
proof (induction k arbitrary: m n)
  case (Suc k)
  from Suc.prems(1) have hi: "be_bytes k (m div 256) = be_bytes k (n div 256)"
    and lo: "(char_of (m mod 256) :: char) = char_of (n mod 256)"
    by auto
  have "m div 256 = n div 256"
    using Suc.prems(2,3) by (intro Suc.IH [OF hi]) (simp_all add: less_mult_imp_div_less mult.commute)
  moreover have "m mod 256 = n mod 256"
    using lo by (simp add: char_of_eq_iff of_char_mod_256 char_of_def)
      (metis char_of_def lo mod_mod_trivial of_char_of)
  ultimately show ?case by (metis div_mult_mod_eq)
qed simp

lemma update_component_append_inject:
  assumes "update_component a @ xs = update_component b @ ys"
    and "length a < 2 ^ 64" "length b < 2 ^ 64"
  shows "a = b \<and> xs = ys"
proof -
  have "be_bytes 8 (length a) = be_bytes 8 (length b)"
    and rest: "a @ xs = b @ ys"
    using assms by (auto simp: update_component_def)
  moreover have "(256 :: nat) ^ 8 = 2 ^ 64" using power_mult [of "2 :: nat" 8 8] by simp
  ultimately have "length a = length b"
    using assms(2,3) be_bytes_inject [of 8 "length a" "length b"] by metis
  with rest show ?thesis by simp
qed

lemma concat_components_inject:
  assumes "concat (map update_component xs) = concat (map update_component ys)"
    and "\<forall>x \<in> set xs. length x < 2 ^ 64" "\<forall>y \<in> set ys. length y < 2 ^ 64"
  shows "xs = ys"
  using assms
proof (induction xs arbitrary: ys)
  case Nil
  then show ?case by (cases ys) (auto simp: update_component_def dest: arg_cong [where f = length])
next
  case (Cons x xs)
  show ?case
  proof (cases ys)
    case Nil
    with Cons.prems(1) show ?thesis
      by (auto simp: update_component_def dest: arg_cong [where f = length])
  next
    case (Cons y ys')
    with Cons.prems have "update_component x @ concat (map update_component xs) =
      update_component y @ concat (map update_component ys')" by simp
    from update_component_append_inject [OF this] Cons.prems Cons
    have "x = y" and "concat (map update_component xs) = concat (map update_component ys')"
      by simp_all
    with Cons.IH Cons.prems Cons show ?thesis by simp
  qed
qed

lemma mac_message_inject:
  assumes "mac_message f kind cs = mac_message g kind' cs'"
    and "\<forall>x \<in> {lkf_scope f, kind} \<union> set cs. length x < 2 ^ 64"
    and "\<forall>x \<in> {lkf_scope g, kind'} \<union> set cs'. length x < 2 ^ 64"
  shows "lkf_scope f = lkf_scope g \<and> kind = kind' \<and> cs = cs'"
proof -
  have "lkf_scope f # kind # cs = lkf_scope g # kind' # cs'"
    using assms by (intro concat_components_inject) (simp_all add: mac_message_def)
  then show ?thesis by simp
qed

lemma wire_domain_inject: "wire_domain a = wire_domain b \<longleftrightarrow> a = b"
  by (cases a; cases b) simp_all

end
