(* ===== verification/Ancestry.thy ===== *)
theory Ancestry
  imports Main
begin

text \<open>
  Bounded walks along parent pointers.  The ledger checks the ancestry of threads and turns with a
  loop of \<open>n + 1\<close> rounds over a table of \<open>n\<close> entries; pruning walks the same pointers.  A step
  function returns \<open>None\<close> when the pointer dangles, \<open>Some None\<close> at a root and \<open>Some (Some y)\<close> when
  \<open>y\<close> is the parent.
\<close>

fun walk :: "('a \<Rightarrow> 'a option option) \<Rightarrow> nat \<Rightarrow> 'a option \<Rightarrow> 'a option option" where
  "walk step 0 c = Some c"
| "walk step (Suc n) None = Some None"
| "walk step (Suc n) (Some x) = (case step x of None \<Rightarrow> None | Some c \<Rightarrow> walk step n c)"

text \<open>The complete chain of nodes visited from a pointer to a root.\<close>

fun chain :: "('a \<Rightarrow> 'a option option) \<Rightarrow> 'a option \<Rightarrow> 'a list \<Rightarrow> bool" where
  "chain step c [] = (c = None)"
| "chain step c (y # ys) =
     (c = Some y \<and> (case step y of None \<Rightarrow> False | Some c' \<Rightarrow> chain step c' ys))"

lemma chain_unique: "chain step c xs \<Longrightarrow> chain step c ys \<Longrightarrow> xs = ys"
proof (induction xs arbitrary: c ys)
  case Nil
  then show ?case by (cases ys) auto
next
  case (Cons x xs)
  then show ?case by (cases ys) (auto split: option.splits)
qed

lemma chain_suffix: "chain step c (xs @ y # ys) \<Longrightarrow> chain step (Some y) (y # ys)"
proof (induction xs arbitrary: c)
  case (Cons x xs)
  then obtain c' where "chain step c' (xs @ y # ys)" by (auto split: option.splits)
  then show ?case by (rule Cons.IH)
qed simp

lemma chain_distinct: "chain step c xs \<Longrightarrow> distinct xs"
proof (induction xs arbitrary: c)
  case (Cons x xs)
  have "x \<notin> set xs"
  proof
    assume "x \<in> set xs"
    then obtain us vs where xs: "xs = us @ x # vs" by (auto simp: in_set_conv_decomp)
    from Cons.prems xs have "chain step (Some x) (x # vs)"
      using chain_suffix [of step c "x # us" x vs] by simp
    moreover from Cons.prems have "chain step (Some x) (x # xs)" by simp
    ultimately have "x # xs = x # vs" by (rule chain_unique [rotated])
    with xs show False by simp
  qed
  with Cons show ?case by (auto split: option.splits)
qed simp

lemma walk_chain: "chain step c xs \<Longrightarrow> length xs \<le> n \<Longrightarrow> walk step n c = Some None"
proof (induction xs arbitrary: c n)
  case Nil
  then show ?case by (cases n) auto
next
  case (Cons x xs)
  then obtain m where "n = Suc m" by (cases n) auto
  with Cons show ?case by (auto split: option.splits)
qed

lemma walk_to_root: "walk step n c = Some None \<Longrightarrow> \<exists>xs. chain step c xs \<and> length xs \<le> n"
proof (induction step n c rule: walk.induct)
  case (1 step c)
  then show ?case by (intro exI [of _ "[]"]) simp
next
  case (2 step n)
  then show ?case by (intro exI [of _ "[]"]) simp
next
  case (3 step n x)
  then obtain c where c: "step x = Some c" "walk step n c = Some None"
    by (auto split: option.splits)
  with "3.IH" obtain xs where "chain step c xs \<and> length xs \<le> n" by blast
  with c show ?case by (intro exI [of _ "x # xs"]) simp
qed

lemma chain_cong:
  "chain step c xs \<Longrightarrow> (\<And>x. x \<in> set xs \<Longrightarrow> step' x = step x) \<Longrightarrow> chain step' c xs"
  by (induction xs arbitrary: c) (auto split: option.splits)

text \<open>
  The bound of the loop is enough: a pointer that reaches a root does so through distinct nodes, so
  any bound not below the number of nodes that can occur suffices.
\<close>

lemma walk_bound:
  assumes "chain step c xs" and "set xs \<subseteq> A" and "finite A" and "card A \<le> n"
  shows "walk step n c = Some None"
proof -
  have "length xs = card (set xs)" using chain_distinct [OF assms(1)] by (simp add: distinct_card)
  also have "\<dots> \<le> card A" using assms(2,3) by (rule card_mono [rotated])
  finally have "length xs \<le> n" using assms(4) by simp
  with assms(1) show ?thesis by (rule walk_chain)
qed

lemma chain_invariant:
  assumes "chain step c xs" and "\<And>x. c = Some x \<Longrightarrow> L x"
    and "\<And>x y. L x \<Longrightarrow> step x = Some (Some y) \<Longrightarrow> L y"
  shows "\<forall>x \<in> set xs. L x \<and> step x \<noteq> None"
  using assms(1,2)
proof (induction xs arbitrary: c)
  case (Cons a xs)
  then obtain c' where c': "c = Some a" "step a = Some c'" "chain step c' xs" by (auto split: option.splits)
  with Cons.prems(2) have "L a" by blast
  moreover from this have "c' = Some x \<Longrightarrow> L x" for x using assms(3) c'(2) by blast
  ultimately show ?case using Cons.IH [OF c'(3)] c'(2) by auto
qed simp

text \<open>Transport of a successful walk to a table in which every node of the chain is unchanged.\<close>

lemma walk_transport:
  assumes "walk step n c = Some None"
    and "\<And>xs. chain step c xs \<Longrightarrow> \<forall>x \<in> set xs. step' x = step x \<and> x \<in> A"
    and "finite A" and "card A \<le> m"
  shows "walk step' m c = Some None"
proof -
  obtain xs where xs: "chain step c xs" using walk_to_root [OF assms(1)] by blast
  from assms(2) [OF xs] have "chain step' c xs" by (intro chain_cong [OF xs]) simp
  moreover from assms(2) [OF xs] have "set xs \<subseteq> A" by blast
  ultimately show ?thesis using assms(3,4) by (rule walk_bound)
qed

section \<open>Closure by repeated passes\<close>

text \<open>
  The descendant loops of the pruner push every entry selected by the identifiers collected so far,
  pass after pass, until a pass pushes nothing.
\<close>

fun push_pass :: "('a \<Rightarrow> 'i) \<Rightarrow> ('a \<Rightarrow> 'i list \<Rightarrow> bool) \<Rightarrow> 'a list \<Rightarrow> 'i list \<Rightarrow> 'i list" where
  "push_pass idf sel [] ids = ids"
| "push_pass idf sel (x # xs) ids =
     push_pass idf sel xs (if sel x ids \<and> idf x \<notin> set ids then ids @ [idf x] else ids)"

lemma push_pass_new: "\<exists>ys. push_pass idf sel xs ids = ids @ ys \<and> set ys \<inter> set ids = {}"
proof (induction xs arbitrary: ids)
  case (Cons x xs)
  show ?case
  proof (cases "sel x ids \<and> idf x \<notin> set ids")
    case True
    obtain ys where ys: "push_pass idf sel xs (ids @ [idf x]) = (ids @ [idf x]) @ ys"
        "set ys \<inter> set (ids @ [idf x]) = {}"
      using Cons.IH by blast
    with True show ?thesis by (intro exI [of _ "idf x # ys"]) auto
  next
    case False
    then have "push_pass idf sel (x # xs) ids = push_pass idf sel xs ids" by auto
    with Cons.IH [of ids] show ?thesis by simp
  qed
qed simp

lemma push_pass_prefix: "\<exists>ys. push_pass idf sel xs ids = ids @ ys"
  using push_pass_new [of idf sel xs ids] by auto

lemma push_pass_subset: "set (push_pass idf sel xs ids) \<subseteq> set ids \<union> idf ` set xs"
proof (induction xs arbitrary: ids)
  case (Cons x xs)
  have "set (push_pass idf sel (x # xs) ids)
      \<subseteq> set (if sel x ids \<and> idf x \<notin> set ids then ids @ [idf x] else ids) \<union> idf ` set xs"
    using Cons.IH by simp
  also have "\<dots> \<subseteq> set ids \<union> idf ` set (x # xs)" by auto
  finally show ?case .
qed simp

lemma push_pass_mono: "set ids \<subseteq> set (push_pass idf sel xs ids)"
  using push_pass_prefix [of idf sel xs ids] by auto

lemma push_pass_distinct: "distinct ids \<Longrightarrow> distinct (push_pass idf sel xs ids)"
  by (induction xs arbitrary: ids) auto

text \<open>A pass without a push leaves a closed set.\<close>

lemma push_pass_fixed:
  "push_pass idf sel xs ids = ids \<Longrightarrow> x \<in> set xs \<Longrightarrow> sel x ids \<Longrightarrow> idf x \<in> set ids"
proof (induction xs)
  case (Cons a xs)
  have keep: "\<not> (sel a ids \<and> idf a \<notin> set ids)"
  proof
    assume "sel a ids \<and> idf a \<notin> set ids"
    with Cons.prems(1) have "push_pass idf sel xs (ids @ [idf a]) = ids" by simp
    with push_pass_prefix [of idf sel xs "ids @ [idf a]"] show False by auto
  qed
  with Cons.prems(1) have "push_pass idf sel xs ids = ids" by simp
  with Cons keep show ?case by auto
qed simp

lemma push_pass_least:
  assumes "set ids \<subseteq> S"
    and "\<And>x js. x \<in> set xs \<Longrightarrow> set js \<subseteq> S \<Longrightarrow> sel x js \<Longrightarrow> idf x \<in> S"
  shows "set (push_pass idf sel xs ids) \<subseteq> S"
  using assms
proof (induction xs arbitrary: ids)
  case (Cons x xs)
  have "set (if sel x ids \<and> idf x \<notin> set ids then ids @ [idf x] else ids) \<subseteq> S"
    using Cons.prems by auto
  then show ?case using Cons.IH Cons.prems(2) by simp
qed simp

function closure_loop :: "('a \<Rightarrow> 'i) \<Rightarrow> ('a \<Rightarrow> 'i list \<Rightarrow> bool) \<Rightarrow> 'a list \<Rightarrow> 'i list \<Rightarrow> 'i list" where
  "closure_loop idf sel xs ids =
     (let ids' = push_pass idf sel xs ids in
      if ids' = ids then ids else closure_loop idf sel xs ids')"
  by pat_completeness auto
termination
proof (relation "measure (\<lambda>(idf, sel, xs, ids). card (idf ` set xs - set ids))")
  fix idf :: "'a \<Rightarrow> 'i" and sel xs ids ids'
  assume ids': "ids' = push_pass idf sel xs ids" and neq: "ids' \<noteq> ids"
  obtain ys where ys: "ids' = ids @ ys" "set ys \<inter> set ids = {}"
    using push_pass_new ids' by metis
  then obtain y where y: "y \<in> set ys" using neq by (cases ys) auto
  then have new: "y \<notin> set ids" using ys(2) by blast
  moreover have "y \<in> idf ` set xs"
  proof -
    have "y \<in> set (push_pass idf sel xs ids)" using ys(1) y ids' by (metis Un_iff set_append)
    then show ?thesis using push_pass_subset [of idf sel xs ids] new by blast
  qed
  ultimately have "idf ` set xs - set ids' \<subset> idf ` set xs - set ids"
    using ys y by auto
  then show "((idf, sel, xs, ids'), idf, sel, xs, ids)
      \<in> measure (\<lambda>(idf, sel, xs, ids). card (idf ` set xs - set ids))"
    by (simp add: psubset_card_mono)
qed simp

declare closure_loop.simps [simp del]

lemma closure_loop_contains: "set ids \<subseteq> set (closure_loop idf sel xs ids)"
proof (induction idf sel xs ids rule: closure_loop.induct)
  case (1 idf sel xs ids)
  then show ?case
    using push_pass_mono [of ids idf sel xs]
    by (subst closure_loop.simps) (auto simp: Let_def)
qed

lemma closure_loop_closed:
  "x \<in> set xs \<Longrightarrow> sel x (closure_loop idf sel xs ids) \<Longrightarrow> idf x \<in> set (closure_loop idf sel xs ids)"
proof (induction idf sel xs ids rule: closure_loop.induct)
  case (1 idf sel xs ids)
  show ?case
  proof (cases "push_pass idf sel xs ids = ids")
    case True
    then have "closure_loop idf sel xs ids = ids" by (simp add: closure_loop.simps)
    with 1 True push_pass_fixed [OF True] show ?thesis by simp
  next
    case False
    then have "closure_loop idf sel xs ids = closure_loop idf sel xs (push_pass idf sel xs ids)"
      by (subst closure_loop.simps) (simp add: Let_def)
    with 1 False show ?thesis by simp
  qed
qed

lemma closure_loop_least:
  assumes "set ids \<subseteq> S"
    and "\<And>x js. x \<in> set xs \<Longrightarrow> set js \<subseteq> S \<Longrightarrow> sel x js \<Longrightarrow> idf x \<in> S"
  shows "set (closure_loop idf sel xs ids) \<subseteq> S"
  using assms
proof (induction idf sel xs ids rule: closure_loop.induct)
  case (1 idf sel xs ids)
  have "set (push_pass idf sel xs ids) \<subseteq> S"
    using "1.prems" by (rule push_pass_least)
  with 1 show ?case by (subst closure_loop.simps) (auto simp: Let_def)
qed

end
