(* ===== verification/Ledger_Validation.thy ===== *)
theory Ledger_Validation
  imports Lookup_Keys Ancestry
begin

text \<open>
  Structural validation of the ledger (\<open>request_state_validation.rs\<close>).  The long method
  \<open>ScopeState::validate\<close> is split into the sections of its body, run in the source's order.
\<close>

section \<open>Scalars\<close>

definition valid_key_byte :: "char \<Rightarrow> bool" where
  "valid_key_byte b \<longleftrightarrow> is_ascii_alphanumeric b \<or> b = CHR ''-'' \<or> b = CHR ''_''"

definition validate_lookup_key :: "string \<Rightarrow> unit result" where
  "validate_lookup_key key =
     (let encoded = (case strip_prefix ''lk_'' key of Some e \<Rightarrow> e | None \<Rightarrow> [])
      in checks
        [ensure (length encoded = 43) (Msg ''invalid request state lookup key''),
         ensure (list_all valid_key_byte encoded) (Msg ''invalid request state lookup key'')])"

definition validate_account_ref :: "string \<Rightarrow> unit result" where
  "validate_account_ref account_ref =
     (let suffix = (case strip_prefix ''acct_'' account_ref of Some s \<Rightarrow> s | None \<Rightarrow> [])
      in ensure (suffix \<noteq> [] \<and> length suffix \<le> 128 \<and> list_all valid_key_byte suffix)
           (Msg ''invalid request state owner''))"

definition validate_uuid_version :: "externals \<Rightarrow> string \<Rightarrow> nat \<Rightarrow> string \<Rightarrow> unit result" where
  "validate_uuid_version ext value version description =
     rbind (ok_or (uuid_version ext value) (Msg (''invalid '' @ description @ '' UUID'')))
       (\<lambda>parsed. ensure (parsed = version) (Msg (''invalid '' @ description @ '' UUID version'')))"

definition validate_optional_uuid_v7 :: "externals \<Rightarrow> string option \<Rightarrow> string \<Rightarrow> unit result" where
  "validate_optional_uuid_v7 ext value description =
     if_some value (\<lambda>v. validate_uuid_version ext v 7 description)"

definition valid_prefix :: "string \<Rightarrow> bool" where
  "valid_prefix prefix \<longleftrightarrow>
     prefix \<noteq> [] \<and> length prefix \<le> 32
     \<and> list_all (\<lambda>b. is_ascii_lowercase b \<or> is_ascii_digit b) prefix"

definition validate_prefixed_uuid_v7 :: "externals \<Rightarrow> string \<Rightarrow> unit result" where
  "validate_prefixed_uuid_v7 ext value =
     (let (prefix, uuid) = (case split_once CHR ''_'' value of Some p \<Rightarrow> p | None \<Rightarrow> ([], []))
      in checks
        [ensure (valid_prefix prefix) (Msg ''invalid generated item prefix''),
         validate_uuid_version ext uuid 7 ''generated item''])"

definition validate_wire_id :: "string \<Rightarrow> unit result" where
  "validate_wire_id value =
     ensure (value \<noteq> [] \<and> length value \<le> MAX_WIRE_ID_BYTES \<and> \<not> has_control value)
       (Msg ''invalid persisted wire ID'')"

definition validate_day :: "int \<Rightarrow> unit result" where
  "validate_day day = ensure (day \<ge> 0) (Msg ''invalid request state activity day'')"

definition validate_map_keys :: "(string, 'v) btree_map \<Rightarrow> unit result" where
  "validate_map_keys m = for_each validate_lookup_key (bm_keys m)"

section \<open>Relationships\<close>

definition thread_belongs_to_session :: "scope_state \<Rightarrow> string \<Rightarrow> string option" where
  "thread_belongs_to_session scope thread_id =
     (case List.find (\<lambda>c. conv_id c = thread_id) (bm_values (conversations scope)) of
        Some conversation \<Rightarrow> Some (conv_id conversation)
      | None \<Rightarrow> map_option ct_session_id
          (List.find (\<lambda>t. ct_id t = thread_id) (bm_values (child_threads scope))))"

definition find_child :: "scope_state \<Rightarrow> string \<Rightarrow> child_thread_entry option" where
  "find_child scope thread_id =
     List.find (\<lambda>t. ct_id t = thread_id) (bm_values (child_threads scope))"

definition find_turn :: "scope_state \<Rightarrow> string \<Rightarrow> turn_entry option" where
  "find_turn scope turn_id = List.find (\<lambda>t. te_id t = turn_id) (bm_values (turns scope))"

text \<open>
  The two bounded ancestry loops.  The thread loop leaves at the session's own root thread; both
  return the pointer that is left after the last round.
\<close>

fun thread_ancestry :: "scope_state \<Rightarrow> string \<Rightarrow> nat \<Rightarrow> string option \<Rightarrow> string option result" where
  "thread_ancestry scope session 0 current = Inr current"
| "thread_ancestry scope session (Suc n) None = Inr None"
| "thread_ancestry scope session (Suc n) (Some parent_id) =
     (if parent_id = session then Inr None
      else rbind (ok_or (find_child scope parent_id) (Msg ''parent thread is dangling''))
        (\<lambda>parent. thread_ancestry scope session n (ct_parent_thread_id parent)))"

fun turn_ancestry :: "scope_state \<Rightarrow> nat \<Rightarrow> string option \<Rightarrow> string option result" where
  "turn_ancestry scope 0 current = Inr current"
| "turn_ancestry scope (Suc n) None = Inr None"
| "turn_ancestry scope (Suc n) (Some parent_id) =
     rbind (ok_or (find_turn scope parent_id) (Msg ''parent turn is dangling''))
       (\<lambda>parent. turn_ancestry scope n (te_parent_turn_id parent))"

lemma thread_ancestry_code [code]:
  "thread_ancestry scope session n current =
     (if n = 0 then Inr current
      else case current of
        None \<Rightarrow> Inr None
      | Some parent_id \<Rightarrow>
          if parent_id = session then Inr None
          else rbind (ok_or (find_child scope parent_id) (Msg ''parent thread is dangling''))
            (\<lambda>parent. thread_ancestry scope session (n - 1) (ct_parent_thread_id parent)))"
  by (cases n; cases current) simp_all

lemma turn_ancestry_code [code]:
  "turn_ancestry scope n current =
     (if n = 0 then Inr current
      else case current of
        None \<Rightarrow> Inr None
      | Some parent_id \<Rightarrow>
          rbind (ok_or (find_turn scope parent_id) (Msg ''parent turn is dangling''))
            (\<lambda>parent. turn_ancestry scope (n - 1) (te_parent_turn_id parent)))"
  by (cases n; cases current) simp_all

definition validate_child_relationship :: "scope_state \<Rightarrow> child_thread_entry \<Rightarrow> unit result" where
  "validate_child_relationship scope child = checks
     [ensure (\<exists>conversation \<in> set (bm_values (conversations scope)).
                conv_id conversation = ct_session_id child)
        (Msg ''child session is dangling''),
      if_some (ct_parent_thread_id child) (\<lambda>parent_id. checks
        [ensure (parent_id \<noteq> ct_id child) (Msg ''child thread is its own parent''),
         ensure (is_some_and (thread_belongs_to_session scope parent_id)
                  (\<lambda>session. session = ct_session_id child))
           (Msg ''parent thread is dangling or crosses sessions'')]),
      rbind (thread_ancestry scope (ct_session_id child) (Suc (bm_len (child_threads scope)))
               (ct_parent_thread_id child))
        (\<lambda>current. ensure (current = None) (Msg ''child thread ancestry contains a cycle''))]"

definition validate_thread_relationships :: "scope_state \<Rightarrow> unit result" where
  "validate_thread_relationships scope =
     for_each (validate_child_relationship scope) (bm_values (child_threads scope))"

definition validate_classifier_turn :: "scope_state \<Rightarrow> turn_entry \<Rightarrow> unit result" where
  "validate_classifier_turn scope turn =
     (if te_classifier turn then
        rbind (ok_or (Option.bind (find_child scope (te_thread_id turn)) ct_parent_thread_id)
                 (Msg ''classifier canonical source is missing''))
          (\<lambda>source. if_some (te_parent_turn_id turn) (\<lambda>parent.
             ensure (\<exists>t \<in> set (bm_values (turns scope)). te_id t = parent \<and> te_thread_id t = source)
               (Msg ''classifier parent belongs to another source'')))
      else Inr ())"

definition validate_turn_root :: "scope_state \<Rightarrow> string \<Rightarrow> turn_entry \<Rightarrow> unit result" where
  "validate_turn_root scope session turn =
     rbind (ok_or (find_turn scope (te_root_turn_id turn)) (Msg ''root turn is dangling''))
       (\<lambda>root. checks
         [ensure (te_root_turn_id root = te_id root) (Msg ''root turn does not identify itself''),
          ensure (thread_belongs_to_session scope (te_thread_id root) = Some session)
            (Msg ''root turn crosses sessions'')])"

definition validate_turn_parent :: "scope_state \<Rightarrow> string \<Rightarrow> turn_entry \<Rightarrow> unit result" where
  "validate_turn_parent scope session turn =
     if_some (te_parent_turn_id turn) (\<lambda>parent_id.
       rbind (ensure (parent_id \<noteq> te_id turn) (Msg ''turn is its own parent'')) (\<lambda>_.
       rbind (ok_or (find_turn scope parent_id) (Msg ''parent turn is dangling'')) (\<lambda>parent.
       checks
         [ensure (te_root_turn_id parent = te_root_turn_id turn) (Msg ''parent turn crosses roots''),
          ensure (thread_belongs_to_session scope (te_thread_id parent) = Some session)
            (Msg ''parent turn crosses sessions'')])))"

definition validate_turn_relationship :: "scope_state \<Rightarrow> turn_entry \<Rightarrow> unit result" where
  "validate_turn_relationship scope turn =
     rbind (ok_or (thread_belongs_to_session scope (te_thread_id turn)) (Msg ''turn thread is dangling''))
       (\<lambda>session. checks
         [validate_classifier_turn scope turn,
          validate_turn_root scope session turn,
          validate_turn_parent scope session turn,
          rbind (turn_ancestry scope (Suc (bm_len (turns scope))) (te_parent_turn_id turn))
            (\<lambda>current. ensure (current = None) (Msg ''turn ancestry contains a cycle''))])"

definition validate_turn_relationships :: "scope_state \<Rightarrow> unit result" where
  "validate_turn_relationships scope =
     for_each (validate_turn_relationship scope) (bm_values (turns scope))"

section \<open>Scopes\<close>

definition validate_scope_keys :: "scope_state \<Rightarrow> unit result" where
  "validate_scope_keys scope = checks
     [validate_map_keys (scoped_installations scope),
      validate_map_keys (conversations scope),
      validate_map_keys (child_threads scope),
      validate_map_keys (turns scope),
      validate_map_keys (generated_items scope),
      validate_map_keys (compaction_markers scope),
      validate_map_keys (wire_ids scope),
      validate_map_keys (wire_upstream_index scope)]"

definition validate_scope_caps :: "scope_state \<Rightarrow> unit result" where
  "validate_scope_caps scope = checks
     [ensure (bm_len (scoped_installations scope) \<le> MAX_SCOPE_INSTALLATIONS)
        (Msg ''too many scoped installations''),
      ensure (bm_len (conversations scope) \<le> MAX_SCOPE_CONVERSATIONS)
        (Msg ''too many scoped conversations''),
      ensure (bm_len (child_threads scope) \<le> MAX_SCOPE_CHILD_THREADS)
        (Msg ''too many scoped child threads''),
      ensure (bm_len (turns scope) \<le> MAX_SCOPE_TURNS) (Msg ''too many scoped turns''),
      ensure (bm_len (generated_items scope) \<le> MAX_SCOPE_GENERATED_ITEMS)
        (Msg ''too many scoped generated items''),
      ensure (bm_len (compaction_markers scope) \<le> MAX_SCOPE_COMPACTION_MARKERS)
        (Msg ''too many scoped compaction markers''),
      ensure (bm_len (wire_ids scope) \<le> MAX_SCOPE_WIRE_ID_PAIRS)
        (Msg ''too many scoped wire ID pairs''),
      ensure (bm_len (wire_upstream_index scope) = bm_len (wire_ids scope))
        (Msg ''wire ID index cardinality mismatch'')]"

definition validate_installation_entry :: "externals \<Rightarrow> identity_entry \<Rightarrow> unit result" where
  "validate_installation_entry ext entry = checks
     [validate_uuid_version ext (ie_id entry) 4 ''scoped installation'',
      validate_day (ie_last_seen_day entry)]"

definition validate_conversation_entry :: "externals \<Rightarrow> conversation_entry \<Rightarrow> unit result" where
  "validate_conversation_entry ext entry = checks
     [validate_uuid_version ext (conv_id entry) 7 ''conversation'',
      validate_optional_uuid_v7 ext (conv_current_turn_id entry) ''conversation turn'',
      validate_day (conv_last_seen_day entry)]"

definition validate_child_entry :: "externals \<Rightarrow> child_thread_entry \<Rightarrow> unit result" where
  "validate_child_entry ext entry = checks
     [validate_uuid_version ext (ct_id entry) 7 ''child thread'',
      validate_uuid_version ext (ct_session_id entry) 7 ''child session'',
      if_some (ct_parent_thread_id entry)
        (\<lambda>parent. validate_uuid_version ext parent 7 ''parent thread''),
      validate_optional_uuid_v7 ext (ct_current_turn_id entry) ''child thread turn'',
      validate_day (ct_last_seen_day entry)]"

definition validate_turn_entry :: "externals \<Rightarrow> turn_entry \<Rightarrow> unit result" where
  "validate_turn_entry ext entry = checks
     [validate_uuid_version ext (te_id entry) 7 ''turn'',
      validate_uuid_version ext (te_thread_id entry) 7 ''turn thread'',
      validate_optional_uuid_v7 ext (te_inventory_source_thread_id entry) ''inventory source thread'',
      validate_uuid_version ext (te_root_turn_id entry) 7 ''root turn'',
      if_some (te_parent_turn_id entry)
        (\<lambda>parent. validate_uuid_version ext parent 7 ''parent turn''),
      ensure (te_started_at_unix_ms entry \<ge> 0) (Msg ''invalid turn start time''),
      validate_day (te_last_seen_day entry)]"

text \<open>The pairs of a thread's id and its current turn pointer, conversations first.\<close>

definition current_turn_pointers :: "scope_state \<Rightarrow> (string \<times> string option) list" where
  "current_turn_pointers scope =
     map (\<lambda>e. (conv_id e, conv_current_turn_id e)) (bm_values (conversations scope))
     @ map (\<lambda>e. (ct_id e, ct_current_turn_id e)) (bm_values (child_threads scope))"

definition validate_current_turn :: "scope_state \<Rightarrow> string \<times> string option \<Rightarrow> unit result" where
  "validate_current_turn scope pointer =
     if_some (snd pointer) (\<lambda>current.
       ensure (\<exists>turn \<in> set (bm_values (turns scope)).
                 te_id turn = current \<and> te_thread_id turn = fst pointer)
         (Msg ''current turn pointer is dangling''))"

definition validate_item_entry :: "externals \<Rightarrow> scope_state \<Rightarrow> generated_item_entry \<Rightarrow> unit result" where
  "validate_item_entry ext scope entry = checks
     [validate_prefixed_uuid_v7 ext (gi_id entry),
      if_some (gi_turn_id entry) (\<lambda>turn_id. checks
        [validate_uuid_version ext turn_id 7 ''item turn'',
         ensure (\<exists>turn \<in> set (bm_values (turns scope)). te_id turn = turn_id)
           (Msg ''generated item turn is dangling'')]),
      if_some (gi_create_time_micros entry)
        (\<lambda>create_time. ensure (create_time \<ge> 0) (Msg ''invalid item create time'')),
      validate_day (gi_last_seen_day entry)]"

definition validate_marker_entry :: "externals \<Rightarrow> scope_state \<Rightarrow> compaction_marker_entry \<Rightarrow> unit result" where
  "validate_marker_entry ext scope entry = checks
     [validate_uuid_version ext (cm_thread_id entry) 7 ''compaction thread'',
      ensure (thread_belongs_to_session scope (cm_thread_id entry) \<noteq> None)
        (Msg ''compaction thread is dangling''),
      validate_day (cm_last_seen_day entry)]"

definition validate_context_window_pair :: "externals \<Rightarrow> wire_id_entry \<Rightarrow> unit result" where
  "validate_context_window_pair ext entry =
     (if we_domain entry = ContextWindow then checks
        [ensure (uuid_version ext (we_downstream_id entry) \<noteq> None) (UuidError (we_downstream_id entry)),
         ensure (uuid_version ext (we_upstream_id entry) \<noteq> None) (UuidError (we_upstream_id entry))]
      else Inr ())"

definition validate_wire_owner :: "externals \<Rightarrow> scope_state \<Rightarrow> wire_id_entry \<Rightarrow> unit result" where
  "validate_wire_owner ext scope entry =
     if_some (we_owner entry) (\<lambda>owner. checks
       [ensure (we_domain entry = Response)
          (Msg ''only response wire IDs may own request identity''),
        validate_uuid_version ext (wo_session_id owner) 7 ''wire owner session'',
        validate_uuid_version ext (wo_thread_id owner) 7 ''wire owner thread'',
        ensure (is_some_and (thread_belongs_to_session scope (wo_thread_id owner))
                 (\<lambda>session. session = wo_session_id owner))
          (Msg ''wire ID owner is dangling'')])"

definition validate_wire_entry :: "externals \<Rightarrow> scope_state \<Rightarrow> string \<times> wire_id_entry \<Rightarrow> unit result" where
  "validate_wire_entry ext scope pair =
     (let (downstream_lookup, entry) = pair in checks
       [validate_wire_id (we_downstream_id entry),
        validate_wire_id (we_upstream_id entry),
        validate_context_window_pair ext entry,
        ensure (we_downstream_id entry \<noteq> we_upstream_id entry)
          (Msg ''wire ID pair is not pseudonymized''),
        validate_lookup_key (we_upstream_lookup entry),
        validate_wire_owner ext scope entry,
        validate_day (we_last_seen_day entry),
        ensure (bm_get (wire_upstream_index scope) (we_upstream_lookup entry) = Some downstream_lookup)
          (Msg ''wire ID reverse index mismatch'')])"

definition validate_index_entry :: "scope_state \<Rightarrow> string \<times> string \<Rightarrow> unit result" where
  "validate_index_entry scope pair =
     (let (upstream_lookup, downstream_lookup) = pair in checks
       [validate_lookup_key upstream_lookup,
        validate_lookup_key downstream_lookup,
        ensure (is_some_and (bm_get (wire_ids scope) downstream_lookup)
                 (\<lambda>entry. we_upstream_lookup entry = upstream_lookup))
          (Msg ''wire ID reverse index is dangling'')])"

definition validate_scope :: "externals \<Rightarrow> scope_state \<Rightarrow> unit result" where
  "validate_scope ext scope = checks
     [validate_day (sc_last_seen_day scope),
      validate_scope_keys scope,
      validate_scope_caps scope,
      for_each (validate_installation_entry ext) (bm_values (scoped_installations scope)),
      for_each (validate_conversation_entry ext) (bm_values (conversations scope)),
      for_each (validate_child_entry ext) (bm_values (child_threads scope)),
      validate_thread_relationships scope,
      for_each (validate_turn_entry ext) (bm_values (turns scope)),
      validate_turn_relationships scope,
      for_each (validate_current_turn scope) (current_turn_pointers scope),
      for_each (validate_item_entry ext scope) (bm_values (generated_items scope)),
      for_each (validate_marker_entry ext scope) (bm_values (compaction_markers scope)),
      for_each (validate_wire_entry ext scope) (bm_entries (wire_ids scope)),
      for_each (validate_index_entry scope) (bm_entries (wire_upstream_index scope))]"

section \<open>The whole ledger\<close>

definition sum_scopes :: "(scope_state \<Rightarrow> nat) \<Rightarrow> persisted_request_state \<Rightarrow> nat" where
  "sum_scopes f state = sum_list (map f (bm_values (ps_scopes state)))"

definition validate_global_caps :: "persisted_request_state \<Rightarrow> unit result" where
  "validate_global_caps state = for_each
     (\<lambda>(actual, maximum, description).
        ensure (actual \<le> maximum) (Msg (''too many request state '' @ description)))
     [(sum_scopes (\<lambda>s. bm_len (scoped_installations s)) state, MAX_SCOPED_INSTALLATIONS,
         ''scoped installations''),
      (sum_scopes (\<lambda>s. bm_len (conversations s)) state, MAX_CONVERSATIONS, ''conversations''),
      (sum_scopes (\<lambda>s. bm_len (child_threads s)) state, MAX_CHILD_THREADS, ''child threads''),
      (sum_scopes (\<lambda>s. bm_len (turns s)) state, MAX_TURNS, ''turns''),
      (sum_scopes (\<lambda>s. bm_len (generated_items s)) state, MAX_GENERATED_ITEMS, ''generated items''),
      (sum_scopes (\<lambda>s. bm_len (compaction_markers s)) state, MAX_COMPACTION_MARKERS,
         ''compaction markers''),
      (sum_scopes (\<lambda>s. bm_len (wire_ids s)) state, MAX_WIRE_ID_PAIRS, ''wire ID pairs'')]"

definition validate_state :: "externals \<Rightarrow> persisted_request_state \<Rightarrow> unit result" where
  "validate_state ext state = checks
     [ensure (ps_version state = REQUEST_STATE_VERSION) (Msg ''unsupported request state version''),
      ensure (ps_revision state \<ge> INITIAL_REQUEST_STATE_REVISION)
        (Msg ''invalid request state revision''),
      validate_uuid_version ext (ps_installation_id state) 4 ''installation'',
      ensure (ps_tool_inventory_revision state \<le> 1) (Msg ''unsupported inventory revision''),
      ensure (bm_len (ps_tool_inventory_revocations state) \<le> MAX_TOOL_INVENTORY_REVOCATIONS)
        (Msg ''too many tool inventory revocations''),
      for_each validate_lookup_key (bm_keys (ps_tool_inventory_revocations state)),
      ensure (bm_len (ps_owners state) \<noteq> 0) (Msg ''request state has no owners''),
      ensure (bm_len (ps_owners state) \<le> MAX_OWNERS) (Msg ''too many request state owners''),
      ensure (bm_len (ps_scopes state) \<le> MAX_SCOPES) (Msg ''too many request state scopes''),
      for_each validate_account_ref (bm_keys (ps_owners state)),
      for_each (\<lambda>(key, scope). checks [validate_lookup_key key, validate_scope ext scope])
        (bm_entries (ps_scopes state)),
      validate_global_caps state]"

end
