(* ===== verification/Ledger_Prune.thy ===== *)
theory Ledger_Prune
  imports Ledger_Validation
begin

text \<open>
  Bounded retention of the ledger (\<open>request_state_prune.rs\<close>, \<open>request_state_prune_policy.rs\<close>):
  which entry is the oldest one that may go, what leaves with it, and the loops that bring every
  map under its limit.  Reads of an entry through a key of the same map cannot miss; the source
  would panic there, the model returns a default and \<open>entry_day_total\<close> shows the case does not
  arise.
\<close>

datatype entry_kind =
  KInstallation | KConversation | KChildThread | KTurn | KGeneratedItem | KCompactionMarker | KWireId

fun entry_count :: "scope_state \<Rightarrow> entry_kind \<Rightarrow> nat" where
  "entry_count scope KInstallation = bm_len (scoped_installations scope)"
| "entry_count scope KConversation = bm_len (conversations scope)"
| "entry_count scope KChildThread = bm_len (child_threads scope)"
| "entry_count scope KTurn = bm_len (turns scope)"
| "entry_count scope KGeneratedItem = bm_len (generated_items scope)"
| "entry_count scope KCompactionMarker = bm_len (compaction_markers scope)"
| "entry_count scope KWireId = bm_len (wire_ids scope)"

fun entry_keys :: "scope_state \<Rightarrow> entry_kind \<Rightarrow> string list" where
  "entry_keys scope KInstallation = bm_keys (scoped_installations scope)"
| "entry_keys scope KConversation = bm_keys (conversations scope)"
| "entry_keys scope KChildThread = bm_keys (child_threads scope)"
| "entry_keys scope KTurn = bm_keys (turns scope)"
| "entry_keys scope KGeneratedItem = bm_keys (generated_items scope)"
| "entry_keys scope KCompactionMarker = bm_keys (compaction_markers scope)"
| "entry_keys scope KWireId = bm_keys (wire_ids scope)"

definition total_entries :: "persisted_request_state \<Rightarrow> entry_kind \<Rightarrow> nat" where
  "total_entries state kind = sum_list (map (\<lambda>scope. entry_count scope kind) (bm_values (ps_scopes state)))"

fun scope_entry_day :: "scope_state \<Rightarrow> entry_kind \<Rightarrow> string \<Rightarrow> int option" where
  "scope_entry_day scope KInstallation key =
     map_option ie_last_seen_day (bm_get (scoped_installations scope) key)"
| "scope_entry_day scope KConversation key =
     map_option conv_last_seen_day (bm_get (conversations scope) key)"
| "scope_entry_day scope KChildThread key =
     map_option ct_last_seen_day (bm_get (child_threads scope) key)"
| "scope_entry_day scope KTurn key = map_option te_last_seen_day (bm_get (turns scope) key)"
| "scope_entry_day scope KGeneratedItem key =
     map_option gi_last_seen_day (bm_get (generated_items scope) key)"
| "scope_entry_day scope KCompactionMarker key =
     map_option cm_last_seen_day (bm_get (compaction_markers scope) key)"
| "scope_entry_day scope KWireId key = map_option we_last_seen_day (bm_get (wire_ids scope) key)"

definition entry_day :: "persisted_request_state \<Rightarrow> entry_kind \<Rightarrow> string \<Rightarrow> string \<Rightarrow> int option" where
  "entry_day state kind sk key =
     Option.bind (bm_get (ps_scopes state) sk) (\<lambda>scope. scope_entry_day scope kind key)"

section \<open>Descendants\<close>

definition descendant_thread_ids :: "scope_state \<Rightarrow> string \<Rightarrow> string list" where
  "descendant_thread_ids scope root =
     closure_loop ct_id
       (\<lambda>child ids. is_some_and (ct_parent_thread_id child) (\<lambda>parent. parent \<in> set ids))
       (bm_values (child_threads scope)) [root]"

definition descendant_turn_ids :: "scope_state \<Rightarrow> string \<Rightarrow> string list" where
  "descendant_turn_ids scope root =
     closure_loop te_id
       (\<lambda>turn ids. te_root_turn_id turn = root
          \<or> is_some_and (te_parent_turn_id turn) (\<lambda>parent. parent \<in> set ids))
       (bm_values (turns scope)) [root]"

definition session_thread_ids :: "scope_state \<Rightarrow> string \<Rightarrow> string list" where
  "session_thread_ids scope session_id =
     session_id # map ct_id (filter (\<lambda>t. ct_session_id t = session_id) (bm_values (child_threads scope)))"

section \<open>Protection\<close>

definition protected_thread_ids ::
    "scope_state \<Rightarrow> string \<Rightarrow> string list \<Rightarrow> protected_state_keys \<Rightarrow> bool" where
  "protected_thread_ids scope sk thread_ids protected \<longleftrightarrow>
     (\<exists>(key, thread) \<in> set (bm_entries (child_threads scope)).
        ct_id thread \<in> set thread_ids \<and> (sk, key) \<in> pk_child_threads protected)
     \<or> (\<exists>(key, turn) \<in> set (bm_entries (turns scope)).
        te_thread_id turn \<in> set thread_ids \<and> (sk, key) \<in> pk_turns protected)
     \<or> (\<exists>(key, item) \<in> set (bm_entries (generated_items scope)).
        is_some_and (gi_turn_id item) (\<lambda>turn_id.
          \<exists>turn \<in> set (bm_values (turns scope)).
            te_id turn = turn_id \<and> te_thread_id turn \<in> set thread_ids)
        \<and> (sk, key) \<in> pk_generated_items protected)"

definition protected_owned_response ::
    "scope_state \<Rightarrow> string \<Rightarrow> string \<Rightarrow> string option \<Rightarrow> protected_state_keys \<Rightarrow> bool" where
  "protected_owned_response scope sk session_id thread_id protected \<longleftrightarrow>
     (\<exists>(key, entry) \<in> set (bm_entries (wire_ids scope)).
        is_some_and (we_owner entry) (\<lambda>owner.
          (session_id = [] \<or> wo_session_id owner = session_id)
          \<and> is_none_or thread_id (\<lambda>thread. wo_thread_id owner = thread))
        \<and> (sk, key) \<in> pk_wire_ids protected)"

definition protected_conversation_graph ::
    "scope_state \<Rightarrow> string \<Rightarrow> string \<Rightarrow> protected_state_keys \<Rightarrow> bool" where
  "protected_conversation_graph scope sk session_id protected \<longleftrightarrow>
     protected_thread_ids scope sk (session_thread_ids scope session_id) protected
     \<or> protected_owned_response scope sk session_id None protected"

definition protected_thread_graph ::
    "scope_state \<Rightarrow> string \<Rightarrow> string \<Rightarrow> protected_state_keys \<Rightarrow> bool" where
  "protected_thread_graph scope sk thread_id protected \<longleftrightarrow>
     (let thread_ids = descendant_thread_ids scope thread_id in
      protected_thread_ids scope sk thread_ids protected
      \<or> (\<exists>id \<in> set thread_ids. protected_owned_response scope sk [] (Some id) protected))"

definition protected_turn_graph ::
    "scope_state \<Rightarrow> string \<Rightarrow> string \<Rightarrow> protected_state_keys \<Rightarrow> bool" where
  "protected_turn_graph scope sk turn_id protected \<longleftrightarrow>
     (let turn_ids = descendant_turn_ids scope turn_id in
      (\<exists>(key, turn) \<in> set (bm_entries (turns scope)).
         te_id turn \<in> set turn_ids \<and> (sk, key) \<in> pk_turns protected)
      \<or> (\<exists>(key, item) \<in> set (bm_entries (generated_items scope)).
         is_some_and (gi_turn_id item) (\<lambda>id. id \<in> set turn_ids)
         \<and> (sk, key) \<in> pk_generated_items protected))"

fun directly_protected :: "entry_kind \<Rightarrow> string \<times> string \<Rightarrow> protected_state_keys \<Rightarrow> bool" where
  "directly_protected KInstallation pair protected = (pair \<in> pk_installations protected)"
| "directly_protected KConversation pair protected = (pair \<in> pk_conversations protected)"
| "directly_protected KChildThread pair protected = (pair \<in> pk_child_threads protected)"
| "directly_protected KTurn pair protected = (pair \<in> pk_turns protected)"
| "directly_protected KGeneratedItem pair protected = (pair \<in> pk_generated_items protected)"
| "directly_protected KCompactionMarker pair protected = (pair \<in> pk_compaction_markers protected)"
| "directly_protected KWireId pair protected = (pair \<in> pk_wire_ids protected)"

fun graph_protected :: "scope_state \<Rightarrow> entry_kind \<Rightarrow> string \<Rightarrow> string \<Rightarrow> protected_state_keys \<Rightarrow> bool" where
  "graph_protected scope KConversation sk key protected =
     is_some_and (bm_get (conversations scope) key)
       (\<lambda>entry. protected_conversation_graph scope sk (conv_id entry) protected)"
| "graph_protected scope KChildThread sk key protected =
     is_some_and (bm_get (child_threads scope) key)
       (\<lambda>entry. protected_thread_graph scope sk (ct_id entry) protected)"
| "graph_protected scope KTurn sk key protected =
     is_some_and (bm_get (turns scope) key)
       (\<lambda>entry. protected_turn_graph scope sk (te_id entry) protected)"
| "graph_protected scope _ sk key protected = False"

definition removable ::
    "scope_state \<Rightarrow> entry_kind \<Rightarrow> string \<Rightarrow> string \<Rightarrow> protected_state_keys \<Rightarrow> bool" where
  "removable scope kind sk key protected \<longleftrightarrow>
     \<not> directly_protected kind (sk, key) protected
     \<and> \<not> graph_protected scope kind sk key protected"

definition removal_candidates ::
    "persisted_request_state \<Rightarrow> entry_kind \<Rightarrow> string option \<Rightarrow> protected_state_keys
      \<Rightarrow> (int \<times> string \<times> string) list" where
  "removal_candidates state kind only_scope protected =
     concat (map (\<lambda>(sk, scope).
         map (\<lambda>key. (the (entry_day state kind sk key), sk, key))
           (filter (\<lambda>key. removable scope kind sk key protected) (entry_keys scope kind)))
       (filter (\<lambda>(sk, scope). is_none_or only_scope (\<lambda>only. sk = only)) (bm_entries (ps_scopes state))))"

definition oldest_entry ::
    "persisted_request_state \<Rightarrow> entry_kind \<Rightarrow> string option \<Rightarrow> protected_state_keys
      \<Rightarrow> (string \<times> string) option" where
  "oldest_entry state kind only_scope protected =
     map_option snd (list_min (removal_candidates state kind only_scope protected))"

section \<open>Removal\<close>

definition remove_wire_key :: "string \<Rightarrow> scope_state \<Rightarrow> scope_state" where
  "remove_wire_key key scope =
     (case bm_get (wire_ids scope) key of
        None \<Rightarrow> scope
      | Some entry \<Rightarrow> scope\<lparr>wire_ids := bm_remove key (wire_ids scope),
          wire_upstream_index := bm_remove (we_upstream_lookup entry) (wire_upstream_index scope)\<rparr>)"

definition remove_wire_where :: "(wire_id_entry \<Rightarrow> bool) \<Rightarrow> scope_state \<Rightarrow> scope_state" where
  "remove_wire_where P scope =
     foldl (\<lambda>s key. remove_wire_key key s) scope
       (map fst (filter (\<lambda>(_, entry). P entry) (bm_entries (wire_ids scope))))"

definition remove_wire_pairs :: "wire_id_domain \<Rightarrow> string list \<Rightarrow> scope_state \<Rightarrow> scope_state" where
  "remove_wire_pairs d upstream_ids scope =
     (if upstream_ids = [] then scope
      else remove_wire_where
        (\<lambda>entry. we_domain entry = d \<and> we_upstream_id entry \<in> set upstream_ids) scope)"

definition remove_owned_response_pairs :: "(wire_id_owner \<Rightarrow> bool) \<Rightarrow> scope_state \<Rightarrow> scope_state" where
  "remove_owned_response_pairs predicate =
     remove_wire_where (\<lambda>entry. is_some_and (we_owner entry) predicate)"

definition clear_current_turn :: "string \<Rightarrow> scope_state \<Rightarrow> scope_state" where
  "clear_current_turn turn_id scope = scope\<lparr>
     conversations := bm_map (\<lambda>_ e. if conv_current_turn_id e = Some turn_id
       then e\<lparr>conv_current_turn_id := None\<rparr> else e) (conversations scope),
     child_threads := bm_map (\<lambda>_ e. if ct_current_turn_id e = Some turn_id
       then e\<lparr>ct_current_turn_id := None\<rparr> else e) (child_threads scope)\<rparr>"

definition item_ids_of_turns :: "scope_state \<Rightarrow> string list \<Rightarrow> string list" where
  "item_ids_of_turns scope turn_ids =
     map gi_id (filter (\<lambda>item. is_some_and (gi_turn_id item) (\<lambda>id. id \<in> set turn_ids))
       (bm_values (generated_items scope)))"

definition retain_items_outside :: "string list \<Rightarrow> scope_state \<Rightarrow> scope_state" where
  "retain_items_outside turn_ids scope = scope\<lparr>generated_items :=
     bm_retain (\<lambda>_ item. is_none_or (gi_turn_id item) (\<lambda>id. id \<notin> set turn_ids)) (generated_items scope)\<rparr>"

definition remove_turn_graph :: "string \<Rightarrow> scope_state \<Rightarrow> scope_state" where
  "remove_turn_graph turn_id scope =
     (let turn_ids = descendant_turn_ids scope turn_id;
          item_ids = item_ids_of_turns scope turn_ids;
          s1 = foldl (\<lambda>s id. clear_current_turn id s) scope turn_ids;
          s2 = s1\<lparr>turns := bm_retain (\<lambda>_ turn. te_id turn \<notin> set turn_ids) (turns s1)\<rparr>;
          s3 = retain_items_outside turn_ids s2;
          s4 = remove_wire_pairs Turn turn_ids s3
      in remove_wire_pairs Item item_ids s4)"

definition remove_thread_graph :: "string \<Rightarrow> scope_state \<Rightarrow> scope_state" where
  "remove_thread_graph thread_id scope =
     (let turn_ids = map te_id (filter (\<lambda>turn. te_thread_id turn = thread_id) (bm_values (turns scope)));
          item_ids = item_ids_of_turns scope turn_ids;
          s1 = scope\<lparr>turns := bm_retain (\<lambda>_ turn. te_thread_id turn \<noteq> thread_id) (turns scope)\<rparr>;
          s2 = retain_items_outside turn_ids s1;
          s3 = s2\<lparr>compaction_markers :=
                 bm_retain (\<lambda>_ marker. cm_thread_id marker \<noteq> thread_id) (compaction_markers s2)\<rparr>;
          s4 = remove_wire_pairs Turn turn_ids s3
      in remove_wire_pairs Item item_ids s4)"

definition remove_conversation_graph :: "string \<Rightarrow> scope_state \<Rightarrow> scope_state" where
  "remove_conversation_graph session_id scope =
     (let thread_ids = session_thread_ids scope session_id;
          s1 = scope\<lparr>child_threads :=
                 bm_retain (\<lambda>_ thread. ct_session_id thread \<noteq> session_id) (child_threads scope)\<rparr>;
          s2 = remove_wire_pairs Session [session_id] s1;
          s3 = remove_wire_pairs Thread thread_ids s2;
          s4 = foldl (\<lambda>s id. remove_thread_graph id s) s3 thread_ids
      in remove_owned_response_pairs (\<lambda>owner. wo_session_id owner = session_id) s4)"

definition remove_child_thread_graph :: "string \<Rightarrow> scope_state \<Rightarrow> scope_state" where
  "remove_child_thread_graph thread_id scope =
     (let thread_ids = descendant_thread_ids scope thread_id;
          s1 = scope\<lparr>child_threads :=
                 bm_retain (\<lambda>_ thread. ct_id thread \<notin> set thread_ids) (child_threads scope)\<rparr>;
          s2 = remove_wire_pairs Thread thread_ids s1;
          s3 = foldl (\<lambda>s id. remove_thread_graph id s) s2 thread_ids
      in remove_owned_response_pairs (\<lambda>owner. wo_thread_id owner \<in> set thread_ids) s3)"

fun remove_scope_entry :: "entry_kind \<Rightarrow> string \<Rightarrow> scope_state \<Rightarrow> scope_state" where
  "remove_scope_entry KInstallation key scope =
     (case bm_get (scoped_installations scope) key of
        None \<Rightarrow> scope
      | Some entry \<Rightarrow> remove_wire_pairs Installation [ie_id entry]
          (scope\<lparr>scoped_installations := bm_remove key (scoped_installations scope)\<rparr>))"
| "remove_scope_entry KConversation key scope =
     (case bm_get (conversations scope) key of
        None \<Rightarrow> scope
      | Some entry \<Rightarrow> remove_conversation_graph (conv_id entry)
          (scope\<lparr>conversations := bm_remove key (conversations scope)\<rparr>))"
| "remove_scope_entry KChildThread key scope =
     (case bm_get (child_threads scope) key of
        None \<Rightarrow> scope
      | Some entry \<Rightarrow> remove_child_thread_graph (ct_id entry) scope)"
| "remove_scope_entry KTurn key scope =
     (case bm_get (turns scope) key of
        None \<Rightarrow> scope
      | Some entry \<Rightarrow> remove_turn_graph (te_id entry) scope)"
| "remove_scope_entry KGeneratedItem key scope =
     (case bm_get (generated_items scope) key of
        None \<Rightarrow> scope
      | Some entry \<Rightarrow> remove_wire_pairs Item [gi_id entry]
          (scope\<lparr>generated_items := bm_remove key (generated_items scope)\<rparr>))"
| "remove_scope_entry KCompactionMarker key scope =
     scope\<lparr>compaction_markers := bm_remove key (compaction_markers scope)\<rparr>"
| "remove_scope_entry KWireId key scope = remove_wire_key key scope"

definition remove_entry ::
    "entry_kind \<Rightarrow> string \<Rightarrow> string \<Rightarrow> persisted_request_state \<Rightarrow> persisted_request_state" where
  "remove_entry kind sk key state =
     state\<lparr>ps_scopes := bm_update sk (remove_scope_entry kind key) (ps_scopes state)\<rparr>"

section \<open>Dropping wire pairs\<close>

text \<open>
  The forward map and the reverse index of one scope describe the same pairs.  This is what the last
  two sections of \<open>validate_scope\<close> check.
\<close>

definition wire_index_ok :: "scope_state \<Rightarrow> bool" where
  "wire_index_ok s \<longleftrightarrow>
     (\<forall>k e. bm_get (wire_ids s) k = Some e \<longrightarrow> bm_get (wire_upstream_index s) (we_upstream_lookup e) = Some k)
     \<and> (\<forall>u k. bm_get (wire_upstream_index s) u = Some k \<longrightarrow>
          (\<exists>e. bm_get (wire_ids s) k = Some e \<and> we_upstream_lookup e = u))"

text \<open>The closed form of the removal loops: both maps lose exactly the selected pairs.\<close>

definition drop_wires :: "(wire_id_entry \<Rightarrow> bool) \<Rightarrow> scope_state \<Rightarrow> scope_state" where
  "drop_wires P s = s\<lparr>
     wire_ids := bm_retain (\<lambda>_ e. \<not> P e) (wire_ids s),
     wire_upstream_index :=
       bm_retain (\<lambda>_ k. \<not> is_some_and (bm_get (wire_ids s) k) P) (wire_upstream_index s)\<rparr>"

lemma wire_index_inject:
  assumes "wire_index_ok s" "bm_get (wire_ids s) k = Some e" "bm_get (wire_ids s) k' = Some e'"
    "we_upstream_lookup e = we_upstream_lookup e'"
  shows "k = k'"
  using assms by (metis option.inject wire_index_ok_def)

lemma drop_wires_ok: "wire_index_ok s \<Longrightarrow> wire_index_ok (drop_wires P s)"
  by (fastforce simp: wire_index_ok_def drop_wires_def split: option.splits if_splits)

lemma drop_wires_none: "(\<And>k e. bm_get (wire_ids s) k = Some e \<Longrightarrow> \<not> P e) \<Longrightarrow> drop_wires P s = s"
proof -
  assume none: "\<And>k e. bm_get (wire_ids s) k = Some e \<Longrightarrow> \<not> P e"
  have "bm_retain (\<lambda>_ e. \<not> P e) (wire_ids s) = wire_ids s"
    by (rule bm_ext) (auto split: option.splits dest: none)
  moreover have "bm_retain (\<lambda>_ k. \<not> is_some_and (bm_get (wire_ids s) k) P) (wire_upstream_index s)
      = wire_upstream_index s"
    by (rule bm_ext) (auto simp: is_some_and_iff split: option.splits dest: none)
  ultimately show ?thesis by (simp add: drop_wires_def)
qed

lemma drop_wires_drop_wires:
  "drop_wires Q (drop_wires P s) = drop_wires (\<lambda>e. P e \<or> Q e) s"
proof -
  have "bm_retain (\<lambda>_ e. \<not> Q e) (bm_retain (\<lambda>_ e. \<not> P e) (wire_ids s))
      = bm_retain (\<lambda>_ e. \<not> (P e \<or> Q e)) (wire_ids s)"
    by (rule bm_ext) (auto split: option.splits)
  moreover have "bm_retain (\<lambda>_ k. \<not> is_some_and (bm_get (bm_retain (\<lambda>_ e. \<not> P e) (wire_ids s)) k) Q)
        (bm_retain (\<lambda>_ k. \<not> is_some_and (bm_get (wire_ids s) k) P) (wire_upstream_index s))
      = bm_retain (\<lambda>_ k. \<not> is_some_and (bm_get (wire_ids s) k) (\<lambda>e. P e \<or> Q e)) (wire_upstream_index s)"
    by (rule bm_ext) (auto simp: is_some_and_def split: option.splits)
  ultimately show ?thesis by (simp add: drop_wires_def)
qed

lemma remove_wire_key_eq:
  assumes "wire_index_ok s" and "bm_get (wire_ids s) k = Some e"
  shows "bm_get (wire_ids (remove_wire_key k s)) = (bm_get (wire_ids s))(k := None)"
    and "bm_get (wire_upstream_index (remove_wire_key k s)) u =
      (if bm_get (wire_upstream_index s) u = Some k then None else bm_get (wire_upstream_index s) u)"
    and "wire_index_ok (remove_wire_key k s)"
proof -
  have def: "remove_wire_key k s = s\<lparr>wire_ids := bm_remove k (wire_ids s),
      wire_upstream_index := bm_remove (we_upstream_lookup e) (wire_upstream_index s)\<rparr>"
    using assms(2) by (simp add: remove_wire_key_def)
  show "bm_get (wire_ids (remove_wire_key k s)) = (bm_get (wire_ids s))(k := None)"
    by (simp add: def)
  have "bm_get (wire_upstream_index s) u = Some k \<longleftrightarrow> u = we_upstream_lookup e" for u
    using assms unfolding wire_index_ok_def by (metis option.inject)
  then show idx: "bm_get (wire_upstream_index (remove_wire_key k s)) u =
      (if bm_get (wire_upstream_index s) u = Some k then None else bm_get (wire_upstream_index s) u)" for u
    by (simp add: def)
  show "wire_index_ok (remove_wire_key k s)"
    using assms(1) unfolding wire_index_ok_def idx by (auto simp: def split: if_splits)
qed

lemma remove_wire_key_frame:
  "\<exists>w i. remove_wire_key k s = s\<lparr>wire_ids := w, wire_upstream_index := i\<rparr>"
proof (cases "bm_get (wire_ids s) k")
  case None
  then show ?thesis
    by (intro exI [of _ "wire_ids s"] exI [of _ "wire_upstream_index s"]) (simp add: remove_wire_key_def)
qed (auto simp: remove_wire_key_def)

lemma remove_wire_keys_eq:
  assumes "wire_index_ok s" and "\<forall>k \<in> set ks. bm_get (wire_ids s) k \<noteq> None" and "distinct ks"
  defines "t \<equiv> foldl (\<lambda>s key. remove_wire_key key s) s ks"
  shows "\<exists>w i. t = s\<lparr>wire_ids := w, wire_upstream_index := i\<rparr>
    \<and> (\<forall>k. bm_get w k = (if k \<in> set ks then None else bm_get (wire_ids s) k))
    \<and> (\<forall>u. bm_get i u = (case bm_get (wire_upstream_index s) u of None \<Rightarrow> None
         | Some k \<Rightarrow> if k \<in> set ks then None else Some k))"
  using assms(1-3) unfolding t_def
proof (induction ks arbitrary: s)
  case Nil
  then show ?case
    by (intro exI [of _ "wire_ids s"] exI [of _ "wire_upstream_index s"]) (auto split: option.splits)
next
  case (Cons a ks)
  from Cons.prems(2) obtain e where e: "bm_get (wire_ids s) a = Some e" by auto
  note step = remove_wire_key_eq [OF Cons.prems(1) e]
  have "\<forall>k \<in> set ks. bm_get (wire_ids (remove_wire_key a s)) k \<noteq> None"
    using Cons.prems(2,3) by (auto simp: step(1))
  then obtain w i where wi:
      "foldl (\<lambda>s key. remove_wire_key key s) (remove_wire_key a s) ks =
         (remove_wire_key a s)\<lparr>wire_ids := w, wire_upstream_index := i\<rparr>"
      "\<forall>k. bm_get w k = (if k \<in> set ks then None else bm_get (wire_ids (remove_wire_key a s)) k)"
      "\<forall>u. bm_get i u = (case bm_get (wire_upstream_index (remove_wire_key a s)) u of None \<Rightarrow> None
         | Some k \<Rightarrow> if k \<in> set ks then None else Some k)"
    using Cons.IH [OF step(3)] Cons.prems(3) by auto
  obtain w' i' where "remove_wire_key a s = s\<lparr>wire_ids := w', wire_upstream_index := i'\<rparr>"
    using remove_wire_key_frame by blast
  with wi step(1,2) show ?case
    by (intro exI [of _ w] exI [of _ i]) (auto split: option.splits if_splits)
qed

lemma remove_wire_where_eq:
  assumes "wire_index_ok s"
  shows "remove_wire_where P s = drop_wires P s"
proof -
  define ks where "ks = map fst (filter (\<lambda>(_, e). P e) (bm_entries (wire_ids s)))"
  have ks: "k \<in> set ks \<longleftrightarrow> is_some_and (bm_get (wire_ids s) k) P" for k
    by (force simp: ks_def is_some_and_iff bm_get_iff)
  have "distinct ks"
    unfolding ks_def by (rule sorted_wrt_less_distinct) (rule sorted_wrt_map_filter [OF bm_entries_sorted])
  moreover have "\<forall>k \<in> set ks. bm_get (wire_ids s) k \<noteq> None" by (auto simp: ks is_some_and_iff)
  moreover have "remove_wire_where P s = foldl (\<lambda>s key. remove_wire_key key s) s ks"
    by (simp only: remove_wire_where_def ks_def)
  ultimately obtain w i where wi: "remove_wire_where P s = s\<lparr>wire_ids := w, wire_upstream_index := i\<rparr>"
      "\<forall>k. bm_get w k = (if k \<in> set ks then None else bm_get (wire_ids s) k)"
      "\<forall>u. bm_get i u = (case bm_get (wire_upstream_index s) u of None \<Rightarrow> None
         | Some k \<Rightarrow> if k \<in> set ks then None else Some k)"
    using remove_wire_keys_eq [OF assms, of ks] by auto
  have "w = bm_retain (\<lambda>_ e. \<not> P e) (wire_ids s)"
    by (rule bm_ext) (simp add: wi(2) ks is_some_and_def split: option.splits)
  moreover have "i = bm_retain (\<lambda>_ k. \<not> is_some_and (bm_get (wire_ids s) k) P) (wire_upstream_index s)"
    by (rule bm_ext) (simp add: wi(3) ks split: option.splits)
  ultimately show ?thesis by (simp add: wi(1) drop_wires_def)
qed

lemma remove_wire_pairs_eq:
  assumes "wire_index_ok s"
  shows "remove_wire_pairs d ids s =
    drop_wires (\<lambda>e. we_domain e = d \<and> we_upstream_id e \<in> set ids) s"
  using assms
  by (auto simp: remove_wire_pairs_def remove_wire_where_eq intro!: drop_wires_none [symmetric])

section \<open>Closed forms of the graph removals\<close>

definition turn_ids_on :: "scope_state \<Rightarrow> string set \<Rightarrow> string set" where
  "turn_ids_on s T = te_id ` {t \<in> set (bm_values (turns s)). te_thread_id t \<in> T}"

definition item_ids_in :: "scope_state \<Rightarrow> string set \<Rightarrow> string set" where
  "item_ids_in s I =
     gi_id ` {i \<in> set (bm_values (generated_items s)). is_some_and (gi_turn_id i) (\<lambda>id. id \<in> I)}"

text \<open>
  \<open>cut_scope TP I M W\<close> removes the turns in \<open>TP\<close>, the items attributed to a turn in \<open>I\<close>, the
  markers in \<open>M\<close> and the wire pairs in \<open>W\<close>.
\<close>

definition cut_scope :: "(turn_entry \<Rightarrow> bool) \<Rightarrow> string set \<Rightarrow> (compaction_marker_entry \<Rightarrow> bool)
    \<Rightarrow> (wire_id_entry \<Rightarrow> bool) \<Rightarrow> scope_state \<Rightarrow> scope_state" where
  "cut_scope TP I M W s = drop_wires W (s\<lparr>
     turns := bm_retain (\<lambda>_ t. \<not> TP t) (turns s),
     generated_items :=
       bm_retain (\<lambda>_ i. is_none_or (gi_turn_id i) (\<lambda>id. id \<notin> I)) (generated_items s),
     compaction_markers := bm_retain (\<lambda>_ m. \<not> M m) (compaction_markers s)\<rparr>)"

definition turn_wires :: "string set \<Rightarrow> string set \<Rightarrow> wire_id_entry \<Rightarrow> bool" where
  "turn_wires I J = (\<lambda>e.
     we_domain e = Turn \<and> we_upstream_id e \<in> I \<or> we_domain e = Item \<and> we_upstream_id e \<in> J)"

lemma wire_index_ok_frame [simp]:
  "wire_index_ok (s\<lparr>turns := a\<rparr>) = wire_index_ok s"
  "wire_index_ok (s\<lparr>generated_items := b\<rparr>) = wire_index_ok s"
  "wire_index_ok (s\<lparr>compaction_markers := c\<rparr>) = wire_index_ok s"
  "wire_index_ok (s\<lparr>child_threads := d\<rparr>) = wire_index_ok s"
  "wire_index_ok (s\<lparr>conversations := e\<rparr>) = wire_index_ok s"
  "wire_index_ok (s\<lparr>scoped_installations := f\<rparr>) = wire_index_ok s"
  by (simp_all add: wire_index_ok_def)

lemma drop_wires_frame [simp]:
  "turns (drop_wires W s) = turns s"
  "generated_items (drop_wires W s) = generated_items s"
  "compaction_markers (drop_wires W s) = compaction_markers s"
  "child_threads (drop_wires W s) = child_threads s"
  "conversations (drop_wires W s) = conversations s"
  "scoped_installations (drop_wires W s) = scoped_installations s"
  "sc_last_seen_day (drop_wires W s) = sc_last_seen_day s"
  by (simp_all add: drop_wires_def)

lemma drop_wires_commute:
  "(drop_wires W s)\<lparr>turns := a, generated_items := b, compaction_markers := c\<rparr> =
     drop_wires W (s\<lparr>turns := a, generated_items := b, compaction_markers := c\<rparr>)"
  by (simp add: drop_wires_def)

lemma cut_scope_frame [simp]:
  "turns (cut_scope TP I M W s) = bm_retain (\<lambda>_ t. \<not> TP t) (turns s)"
  "generated_items (cut_scope TP I M W s) =
     bm_retain (\<lambda>_ i. is_none_or (gi_turn_id i) (\<lambda>id. id \<notin> I)) (generated_items s)"
  "compaction_markers (cut_scope TP I M W s) = bm_retain (\<lambda>_ m. \<not> M m) (compaction_markers s)"
  "child_threads (cut_scope TP I M W s) = child_threads s"
  "conversations (cut_scope TP I M W s) = conversations s"
  "scoped_installations (cut_scope TP I M W s) = scoped_installations s"
  "sc_last_seen_day (cut_scope TP I M W s) = sc_last_seen_day s"
  by (simp_all add: cut_scope_def)

lemma cut_scope_wire_ids [simp]:
  "wire_ids (cut_scope TP I M W s) = bm_retain (\<lambda>_ e. \<not> W e) (wire_ids s)"
  by (simp add: cut_scope_def drop_wires_def)

lemma cut_scope_ok: "wire_index_ok s \<Longrightarrow> wire_index_ok (cut_scope TP I M W s)"
  by (simp add: cut_scope_def drop_wires_ok)

lemma bm_retain_retain: "bm_retain Q (bm_retain P m) = bm_retain (\<lambda>k v. P k v \<and> Q k v) m"
  by (rule bm_ext) (auto split: option.splits)

lemma cut_scope_cut_scope:
  "cut_scope TP' I' M' W' (cut_scope TP I M W s) =
     cut_scope (\<lambda>t. TP t \<or> TP' t) (I \<union> I') (\<lambda>m. M m \<or> M' m) (\<lambda>e. W e \<or> W' e) s"
proof -
  have items: "(\<lambda>k i. is_none_or (gi_turn_id i) (\<lambda>id. id \<notin> I) \<and> is_none_or (gi_turn_id i) (\<lambda>id. id \<notin> I'))
      = (\<lambda>k i. is_none_or (gi_turn_id i) (\<lambda>id. id \<notin> I \<union> I'))"
    by (auto simp: fun_eq_iff is_none_or_iff)
  show ?thesis
    by (simp only: cut_scope_def drop_wires_frame drop_wires_commute drop_wires_drop_wires)
      (simp add: bm_retain_retain items)
qed

lemma set_item_ids_of_turns: "set (item_ids_of_turns s ids) = item_ids_in s (set ids)"
  by (auto simp: item_ids_of_turns_def item_ids_in_def)

lemma remove_thread_graph_eq:
  assumes "wire_index_ok s"
  shows "remove_thread_graph a s =
    (let I = turn_ids_on s {a} in
     cut_scope (\<lambda>t. te_thread_id t = a) I (\<lambda>m. cm_thread_id m = a) (turn_wires I (item_ids_in s I)) s)"
proof -
  define ids where "ids = map te_id (filter (\<lambda>turn. te_thread_id turn = a) (bm_values (turns s)))"
  have ids: "set ids = turn_ids_on s {a}" by (auto simp: ids_def turn_ids_on_def)
  define s3 where "s3 = s\<lparr>turns := bm_retain (\<lambda>_ turn. te_thread_id turn \<noteq> a) (turns s),
    generated_items := bm_retain (\<lambda>_ i. is_none_or (gi_turn_id i) (\<lambda>id. id \<notin> set ids)) (generated_items s),
    compaction_markers := bm_retain (\<lambda>_ m. cm_thread_id m \<noteq> a) (compaction_markers s)\<rparr>"
  have ok3: "wire_index_ok s3" using assms by (simp add: s3_def)
  have "remove_thread_graph a s =
      remove_wire_pairs Item (item_ids_of_turns s ids) (remove_wire_pairs Turn ids s3)"
    by (simp add: remove_thread_graph_def ids_def [symmetric] retain_items_outside_def s3_def Let_def)
  also have "\<dots> = drop_wires (turn_wires (set ids) (item_ids_in s (set ids))) s3"
    by (simp add: remove_wire_pairs_eq ok3 drop_wires_ok drop_wires_drop_wires turn_wires_def
        set_item_ids_of_turns)
  finally show ?thesis by (simp add: cut_scope_def s3_def ids Let_def)
qed

lemma remove_thread_graphs_eq:
  assumes "wire_index_ok s"
  shows "foldl (\<lambda>s id. remove_thread_graph id s) s L =
    (let I = turn_ids_on s (set L) in
     cut_scope (\<lambda>t. te_thread_id t \<in> set L) I (\<lambda>m. cm_thread_id m \<in> set L)
       (turn_wires I (item_ids_in s I)) s)"
  using assms
proof (induction L arbitrary: s)
  case Nil
  have "bm_retain (\<lambda>_ i. is_none_or (gi_turn_id i) (\<lambda>_. True)) (generated_items s) = generated_items s"
    and "bm_retain (\<lambda>_ _. True) (turns s) = turns s"
    and "bm_retain (\<lambda>_ _. True) (compaction_markers s) = compaction_markers s"
    by (rule bm_ext; simp add: is_none_or_def split: option.splits)+
  moreover have "item_ids_in s {} = {}" by (auto simp: item_ids_in_def is_some_and_iff)
  ultimately show ?case
    by (simp add: cut_scope_def turn_ids_on_def turn_wires_def drop_wires_none)
next
  case (Cons a L)
  define I where "I = turn_ids_on s {a}"
  define t where "t = remove_thread_graph a s"
  have t: "t = cut_scope (\<lambda>t. te_thread_id t = a) I (\<lambda>m. cm_thread_id m = a)
      (turn_wires I (item_ids_in s I)) s"
    using remove_thread_graph_eq [OF Cons.prems] by (simp add: t_def I_def Let_def)
  define K where "K = turn_ids_on t (set L)"
  have IK: "I \<union> K = turn_ids_on s (set (a # L))"
    by (fastforce simp: I_def K_def t turn_ids_on_def in_bm_values split: option.splits if_splits)
  have JK: "item_ids_in s I \<union> item_ids_in t K = item_ids_in s (I \<union> K)"
    by (fastforce simp: t item_ids_in_def in_bm_values is_some_and_iff is_none_or_iff
        split: option.splits if_splits)
  have "wire_index_ok t" using Cons.prems by (simp add: t cut_scope_ok)
  then have "foldl (\<lambda>s id. remove_thread_graph id s) s (a # L) =
      cut_scope (\<lambda>t. te_thread_id t \<in> set L) K (\<lambda>m. cm_thread_id m \<in> set L)
        (turn_wires K (item_ids_in t K)) t"
    using Cons.IH by (simp add: t_def [symmetric] K_def Let_def)
  also have "\<dots> = cut_scope (\<lambda>t. te_thread_id t = a \<or> te_thread_id t \<in> set L) (I \<union> K)
      (\<lambda>m. cm_thread_id m = a \<or> cm_thread_id m \<in> set L)
      (\<lambda>e. turn_wires I (item_ids_in s I) e \<or> turn_wires K (item_ids_in t K) e) s"
    by (subst (2) t) (rule cut_scope_cut_scope)
  also have "(\<lambda>e. turn_wires I (item_ids_in s I) e \<or> turn_wires K (item_ids_in t K) e) =
      turn_wires (I \<union> K) (item_ids_in s (I \<union> K))"
    by (auto simp: fun_eq_iff turn_wires_def JK [symmetric])
  finally show ?case by (simp add: IK Let_def)
qed

definition clear_conv :: "string set \<Rightarrow> conversation_entry \<Rightarrow> conversation_entry" where
  "clear_conv I e = (if is_some_and (conv_current_turn_id e) (\<lambda>id. id \<in> I)
     then e\<lparr>conv_current_turn_id := None\<rparr> else e)"

definition clear_child :: "string set \<Rightarrow> child_thread_entry \<Rightarrow> child_thread_entry" where
  "clear_child I e = (if is_some_and (ct_current_turn_id e) (\<lambda>id. id \<in> I)
     then e\<lparr>ct_current_turn_id := None\<rparr> else e)"

lemma clear_conv_simps [simp]:
  "conv_id (clear_conv I e) = conv_id e"
  "conv_window_number (clear_conv I e) = conv_window_number e"
  "conv_last_seen_day (clear_conv I e) = conv_last_seen_day e"
  by (simp_all add: clear_conv_def)

lemma clear_child_simps [simp]:
  "ct_id (clear_child I e) = ct_id e"
  "ct_session_id (clear_child I e) = ct_session_id e"
  "ct_parent_thread_id (clear_child I e) = ct_parent_thread_id e"
  "ct_window_number (clear_child I e) = ct_window_number e"
  "ct_last_seen_day (clear_child I e) = ct_last_seen_day e"
  by (simp_all add: clear_child_def)

lemma clear_conv_Some:
  "conv_current_turn_id (clear_conv I e) = Some x \<longleftrightarrow> conv_current_turn_id e = Some x \<and> x \<notin> I"
  by (auto simp: clear_conv_def is_some_and_iff)

lemma clear_child_Some:
  "ct_current_turn_id (clear_child I e) = Some x \<longleftrightarrow> ct_current_turn_id e = Some x \<and> x \<notin> I"
  by (auto simp: clear_child_def is_some_and_iff)

lemma clear_conv_clear_conv: "clear_conv I (clear_conv J e) = clear_conv (I \<union> J) e"
  by (auto simp: clear_conv_def is_some_and_def split: option.splits)

lemma clear_child_clear_child: "clear_child I (clear_child J e) = clear_child (I \<union> J) e"
  by (auto simp: clear_child_def is_some_and_def split: option.splits)

lemma bm_map_bm_map: "bm_map f (bm_map g m) = bm_map (\<lambda>k v. f k (g k v)) m"
  by (rule bm_ext) (auto simp: option.map_comp comp_def)

lemma bm_map_ident: "bm_map (\<lambda>k v. v) m = m"
  by (rule bm_ext) (simp add: option.map_ident)

lemma clear_current_turn_eq:
  "clear_current_turn x s = s\<lparr>
     conversations := bm_map (\<lambda>_. clear_conv {x}) (conversations s),
     child_threads := bm_map (\<lambda>_. clear_child {x}) (child_threads s)\<rparr>"
proof -
  have "(\<lambda>e. if conv_current_turn_id e = Some x then e\<lparr>conv_current_turn_id := None\<rparr> else e) = clear_conv {x}"
    and "(\<lambda>e. if ct_current_turn_id e = Some x then e\<lparr>ct_current_turn_id := None\<rparr> else e) = clear_child {x}"
    by (auto simp: fun_eq_iff clear_conv_def clear_child_def is_some_and_iff)
  then show ?thesis by (simp only: clear_current_turn_def)
qed

lemma clear_current_turns_eq:
  "foldl (\<lambda>s id. clear_current_turn id s) s ids = s\<lparr>
     conversations := bm_map (\<lambda>_. clear_conv (set ids)) (conversations s),
     child_threads := bm_map (\<lambda>_. clear_child (set ids)) (child_threads s)\<rparr>"
proof (induction ids arbitrary: s)
  case Nil
  have "clear_conv {} = (\<lambda>e. e)" "clear_child {} = (\<lambda>e. e)"
    by (auto simp: fun_eq_iff clear_conv_def clear_child_def is_some_and_iff)
  then show ?case by (simp add: bm_map_ident)
next
  case (Cons a ids)
  then show ?case
    by (simp add: clear_current_turn_eq bm_map_bm_map clear_conv_clear_conv clear_child_clear_child
        insert_is_Un [of a "set ids", symmetric] Un_commute [of "set ids"])
qed

lemma remove_turn_graph_eq:
  assumes "wire_index_ok s"
  shows "remove_turn_graph a s =
    (let D = set (descendant_turn_ids s a) in
     cut_scope (\<lambda>t. te_id t \<in> D) D (\<lambda>_. False) (turn_wires D (item_ids_in s D))
       (s\<lparr>conversations := bm_map (\<lambda>_. clear_conv D) (conversations s),
          child_threads := bm_map (\<lambda>_. clear_child D) (child_threads s)\<rparr>))"
proof -
  define ids where "ids = descendant_turn_ids s a"
  define s1 where "s1 = s\<lparr>conversations := bm_map (\<lambda>_. clear_conv (set ids)) (conversations s),
     child_threads := bm_map (\<lambda>_. clear_child (set ids)) (child_threads s)\<rparr>"
  define s3 where "s3 = s1\<lparr>turns := bm_retain (\<lambda>_ t. te_id t \<notin> set ids) (turns s),
    generated_items := bm_retain (\<lambda>_ i. is_none_or (gi_turn_id i) (\<lambda>id. id \<notin> set ids)) (generated_items s)\<rparr>"
  have ok3: "wire_index_ok s3" using assms by (simp add: s3_def s1_def)
  have "remove_turn_graph a s =
      remove_wire_pairs Item (item_ids_of_turns s ids) (remove_wire_pairs Turn ids s3)"
    by (simp add: remove_turn_graph_def ids_def [symmetric] retain_items_outside_def s3_def s1_def
        clear_current_turns_eq Let_def)
  also have "\<dots> = drop_wires (turn_wires (set ids) (item_ids_in s (set ids))) s3"
    by (simp add: remove_wire_pairs_eq ok3 drop_wires_ok drop_wires_drop_wires turn_wires_def
        set_item_ids_of_turns)
  moreover have "bm_retain (\<lambda>_ _. True) (compaction_markers s) = compaction_markers s"
    by (rule bm_ext) (simp split: option.splits)
  ultimately show ?thesis
    by (simp add: cut_scope_def s3_def s1_def ids_def Let_def)
qed

section \<open>Descendants are the closed sets\<close>

lemma descendant_thread_root: "root \<in> set (descendant_thread_ids s root)"
  using closure_loop_contains [of "[root]"] by (auto simp: descendant_thread_ids_def)

lemma descendant_turn_root: "root \<in> set (descendant_turn_ids s root)"
  using closure_loop_contains [of "[root]"] by (auto simp: descendant_turn_ids_def)

lemma descendant_thread_closed:
  assumes "child \<in> set (bm_values (child_threads s))" and "ct_parent_thread_id child = Some p"
    and "p \<in> set (descendant_thread_ids s root)"
  shows "ct_id child \<in> set (descendant_thread_ids s root)"
  unfolding descendant_thread_ids_def
  by (rule closure_loop_closed) (use assms in \<open>simp_all add: descendant_thread_ids_def\<close>)

lemma descendant_thread_least:
  assumes "root \<in> S"
    and "\<And>child p. child \<in> set (bm_values (child_threads s)) \<Longrightarrow> ct_parent_thread_id child = Some p
      \<Longrightarrow> p \<in> S \<Longrightarrow> ct_id child \<in> S"
  shows "set (descendant_thread_ids s root) \<subseteq> S"
  unfolding descendant_thread_ids_def
  by (rule closure_loop_least) (use assms in \<open>auto simp: is_some_and_iff\<close>)

lemma descendant_turn_closed:
  assumes "t \<in> set (bm_values (turns s))"
    and "te_root_turn_id t = root
      \<or> (\<exists>p. te_parent_turn_id t = Some p \<and> p \<in> set (descendant_turn_ids s root))"
  shows "te_id t \<in> set (descendant_turn_ids s root)"
  unfolding descendant_turn_ids_def
  by (rule closure_loop_closed) (use assms in \<open>auto simp: descendant_turn_ids_def\<close>)

lemma descendant_turn_least:
  assumes "root \<in> S"
    and "\<And>t. t \<in> set (bm_values (turns s)) \<Longrightarrow> te_root_turn_id t = root \<Longrightarrow> te_id t \<in> S"
    and "\<And>t p. t \<in> set (bm_values (turns s)) \<Longrightarrow> te_parent_turn_id t = Some p \<Longrightarrow> p \<in> S \<Longrightarrow> te_id t \<in> S"
  shows "set (descendant_turn_ids s root) \<subseteq> S"
  unfolding descendant_turn_ids_def
  by (rule closure_loop_least) (use assms in \<open>auto simp: is_some_and_iff\<close>)

end
