(* ===== verification/Prune_Policy.thy ===== *)
theory Prune_Policy
  imports Ledger_Prune
begin

text \<open>
  The pruning loops (\<open>request_state_prune_policy.rs\<close>).  Every loop of the source is a recursive
  function; its termination proof is the fact that a removal makes the map it works on strictly
  smaller.
\<close>

section \<open>What a removal leaves alone\<close>

lemma remove_wire_keys_frame:
  "\<exists>w i. foldl (\<lambda>s key. remove_wire_key key s) s ks = s\<lparr>wire_ids := w, wire_upstream_index := i\<rparr>
     \<and> dom (bm_get w) \<subseteq> dom (bm_get (wire_ids s))"
proof (induction ks arbitrary: s)
  case Nil
  show ?case by (intro exI [of _ "wire_ids s"] exI [of _ "wire_upstream_index s"]) simp
next
  case (Cons k ks)
  obtain w i where step: "remove_wire_key k s = s\<lparr>wire_ids := w, wire_upstream_index := i\<rparr>"
    using remove_wire_key_frame by blast
  moreover have "dom (bm_get w) \<subseteq> dom (bm_get (wire_ids s))"
    using arg_cong [OF step, of wire_ids]
    by (cases "bm_get (wire_ids s) k") (auto simp: remove_wire_key_def split: if_splits)
  moreover obtain w' i' where
      "foldl (\<lambda>s key. remove_wire_key key s) (remove_wire_key k s) ks =
         (remove_wire_key k s)\<lparr>wire_ids := w', wire_upstream_index := i'\<rparr>"
      "dom (bm_get w') \<subseteq> dom (bm_get (wire_ids (remove_wire_key k s)))"
    using Cons.IH by blast
  ultimately show ?case by (intro exI [of _ w'] exI [of _ i']) auto
qed

lemma remove_wire_where_frame:
  "\<exists>w i. remove_wire_where P s = s\<lparr>wire_ids := w, wire_upstream_index := i\<rparr>
     \<and> dom (bm_get w) \<subseteq> dom (bm_get (wire_ids s))"
  unfolding remove_wire_where_def by (rule remove_wire_keys_frame)

lemma remove_wire_pairs_frame:
  "\<exists>w i. remove_wire_pairs d ids s = s\<lparr>wire_ids := w, wire_upstream_index := i\<rparr>
     \<and> dom (bm_get w) \<subseteq> dom (bm_get (wire_ids s))"
proof (cases "ids = []")
  case True
  then show ?thesis
    by (intro exI [of _ "wire_ids s"] exI [of _ "wire_upstream_index s"]) (simp add: remove_wire_pairs_def)
next
  case False
  then show ?thesis by (simp only: remove_wire_pairs_def if_False remove_wire_where_frame)
qed

lemma remove_wire_where_simps [simp]:
  "conversations (remove_wire_where P s) = conversations s"
  "child_threads (remove_wire_where P s) = child_threads s"
  "turns (remove_wire_where P s) = turns s"
  "generated_items (remove_wire_where P s) = generated_items s"
  "compaction_markers (remove_wire_where P s) = compaction_markers s"
  "scoped_installations (remove_wire_where P s) = scoped_installations s"
  using remove_wire_where_frame [of P s] by auto

lemma remove_wire_pairs_simps [simp]:
  "conversations (remove_wire_pairs d ids s) = conversations s"
  "child_threads (remove_wire_pairs d ids s) = child_threads s"
  "turns (remove_wire_pairs d ids s) = turns s"
  "generated_items (remove_wire_pairs d ids s) = generated_items s"
  "compaction_markers (remove_wire_pairs d ids s) = compaction_markers s"
  "scoped_installations (remove_wire_pairs d ids s) = scoped_installations s"
  by (simp_all add: remove_wire_pairs_def)

lemma len_remove_wires [simp]:
  "bm_len (wire_ids (remove_wire_where P s)) \<le> bm_len (wire_ids s)"
  "bm_len (wire_ids (remove_wire_pairs d ids s)) \<le> bm_len (wire_ids s)"
  using remove_wire_where_frame [of P s] remove_wire_pairs_frame [of d ids s]
  by (auto intro: bm.len_mono)

text \<open>No removal makes any map larger.\<close>

definition shrinks :: "scope_state \<Rightarrow> scope_state \<Rightarrow> bool" where
  "shrinks s' s \<longleftrightarrow> (\<forall>kind. entry_count s' kind \<le> entry_count s kind)"

lemma shrinks_refl [simp]: "shrinks s s"
  by (simp add: shrinks_def)

lemma shrinks_trans: "shrinks s'' s' \<Longrightarrow> shrinks s' s \<Longrightarrow> shrinks s'' s"
  unfolding shrinks_def using order_trans by blast

lemma all_entry_kinds: "(\<forall>kind. P kind) \<longleftrightarrow>
  P KInstallation \<and> P KConversation \<and> P KChildThread \<and> P KTurn \<and> P KGeneratedItem
  \<and> P KCompactionMarker \<and> P KWireId"
  by (metis entry_kind.exhaust)

lemma shrinks_wires [simp]: "shrinks (remove_wire_pairs d ids s) s" "shrinks (remove_wire_where P s) s"
  by (simp_all add: shrinks_def all_entry_kinds)

lemma shrinks_thread_graph: "shrinks (remove_thread_graph x s) s"
  unfolding shrinks_def all_entry_kinds remove_thread_graph_def Let_def
  by (simp add: retain_items_outside_def bm.len_retain_le)
    (rule order_trans [OF len_remove_wires(2)], rule order_trans [OF len_remove_wires(2)], simp)

lemma remove_thread_graph_simps [simp]:
  "conversations (remove_thread_graph x s) = conversations s"
  "child_threads (remove_thread_graph x s) = child_threads s"
  by (simp_all add: remove_thread_graph_def Let_def retain_items_outside_def)

lemma remove_thread_graphs_simps [simp]:
  "conversations (foldl (\<lambda>s x. remove_thread_graph x s) s ids) = conversations s"
  "child_threads (foldl (\<lambda>s x. remove_thread_graph x s) s ids) = child_threads s"
  by (induction ids arbitrary: s) simp_all

lemma shrinks_thread_graphs: "shrinks (foldl (\<lambda>s x. remove_thread_graph x s) s ids) s"
  by (induction ids arbitrary: s) (auto intro: shrinks_trans shrinks_thread_graph)

lemma shrinks_child_retain: "shrinks (s\<lparr>child_threads := bm_retain P (child_threads s)\<rparr>) s"
  by (simp add: shrinks_def all_entry_kinds bm.len_retain_le)

lemma shrinks_conversation_graph: "shrinks (remove_conversation_graph x s) s"
  unfolding remove_conversation_graph_def remove_owned_response_pairs_def Let_def
  by (intro shrinks_trans [OF shrinks_wires(2)] shrinks_trans [OF shrinks_thread_graphs]
      shrinks_trans [OF shrinks_wires(1)] shrinks_child_retain)

lemma shrinks_child_thread_graph: "shrinks (remove_child_thread_graph x s) s"
  unfolding remove_child_thread_graph_def remove_owned_response_pairs_def Let_def
  by (intro shrinks_trans [OF shrinks_wires(2)] shrinks_trans [OF shrinks_thread_graphs]
      shrinks_trans [OF shrinks_wires(1)] shrinks_child_retain)

lemma shrinks_turn_graph: "shrinks (remove_turn_graph x s) s"
  unfolding shrinks_def all_entry_kinds remove_turn_graph_def Let_def clear_current_turns_eq
  by (simp add: retain_items_outside_def bm.len_retain_le)
    (rule order_trans [OF len_remove_wires(2)], rule order_trans [OF len_remove_wires(2)], simp)

lemma shrinks_remove_one:
  "shrinks (s\<lparr>scoped_installations := bm_remove k (scoped_installations s)\<rparr>) s"
  "shrinks (s\<lparr>conversations := bm_remove k (conversations s)\<rparr>) s"
  "shrinks (s\<lparr>generated_items := bm_remove k (generated_items s)\<rparr>) s"
  "shrinks (s\<lparr>compaction_markers := bm_remove k (compaction_markers s)\<rparr>) s"
  "shrinks (remove_wire_key k s) s"
  by (simp_all add: shrinks_def all_entry_kinds bm.len_remove_le remove_wire_key_def split: option.splits)

lemma shrinks_remove_scope_entry: "shrinks (remove_scope_entry kind key s) s"
  by (cases kind)
    (simp_all add: shrinks_remove_one shrinks_child_thread_graph shrinks_turn_graph
      shrinks_trans [OF shrinks_wires(1)] shrinks_trans [OF shrinks_conversation_graph] split: option.splits)

section \<open>A removal makes progress\<close>

lemma conversations_remove_conversation_graph [simp]:
  "conversations (remove_conversation_graph x s) = conversations s"
  by (simp add: remove_conversation_graph_def remove_owned_response_pairs_def Let_def)

lemma child_threads_remove_child_thread_graph:
  "child_threads (remove_child_thread_graph x s) =
     bm_retain (\<lambda>_ t. ct_id t \<notin> set (descendant_thread_ids s x)) (child_threads s)"
  by (simp add: remove_child_thread_graph_def remove_owned_response_pairs_def Let_def)

lemma turns_remove_turn_graph:
  "turns (remove_turn_graph x s) =
     bm_retain (\<lambda>_ t. te_id t \<notin> set (descendant_turn_ids s x)) (turns s)"
  by (simp add: remove_turn_graph_def Let_def retain_items_outside_def clear_current_turns_eq)

lemma remove_scope_entry_less:
  assumes "key \<in> set (entry_keys s kind)"
  shows "entry_count (remove_scope_entry kind key s) kind < entry_count s kind"
proof (cases kind)
  case KChildThread
  with assms obtain e where e: "bm_get (child_threads s) key = Some e" by (auto simp: in_bm_keys)
  with KChildThread show ?thesis
    by (simp add: child_threads_remove_child_thread_graph)
      (rule bm.len_retain_less [OF e], simp add: descendant_thread_root)
next
  case KTurn
  with assms obtain e where e: "bm_get (turns s) key = Some e" by (auto simp: in_bm_keys)
  with KTurn show ?thesis
    by (simp add: turns_remove_turn_graph)
      (rule bm.len_retain_less [OF e], simp add: descendant_turn_root)
qed (use assms in \<open>auto simp: in_bm_keys remove_wire_key_def dest: bm.len_remove_less\<close>)

lemma remove_entry_scope:
  "bm_get (ps_scopes (remove_entry kind sk key state)) =
     (bm_get (ps_scopes state))(sk := map_option (remove_scope_entry kind key) (bm_get (ps_scopes state) sk))"
  by (simp add: remove_entry_def)

lemma sum_entries_update:
  fixes f :: "'v \<Rightarrow> nat"
  assumes "distinct (map fst xs)" and "map_of xs k = Some v"
  shows "sum_list (map (\<lambda>(k', v). f (if k' = k then g v else v)) xs) + f v
    = sum_list (map (\<lambda>(k', v). f v) xs) + f (g v)"
  using assms
proof (induction xs)
  case (Cons x xs)
  have "k \<notin> fst ` set xs \<Longrightarrow>
      sum_list (map (\<lambda>(k', v). f (if k' = k then g v else v)) xs) = sum_list (map (\<lambda>(k', v). f v) xs)"
    by (rule arg_cong [where f = sum_list], rule map_cong) force+
  with Cons show ?case by (cases x) (auto split: if_splits)
qed simp

lemma sum_values_update:
  fixes f :: "'v \<Rightarrow> nat"
  assumes "bm_get m k = Some v"
  shows "sum_list (map f (bm_values (bm_update k g m))) + f v = sum_list (map f (bm_values m)) + f (g v)"
  using sum_entries_update [OF bm_entries_distinct, of m k v f g] assms
  by (simp add: bm_get_def bm_values_def bm_update_def comp_def case_prod_unfold)

lemma sum_values_remove:
  fixes f :: "'v \<Rightarrow> nat"
  assumes "bm_get m k = Some v"
  shows "sum_list (map f (bm_values (bm_remove k m))) + f v = sum_list (map f (bm_values m))"
proof -
  have "distinct (map fst xs) \<Longrightarrow> map_of xs k = Some v \<Longrightarrow>
      sum_list (map (f \<circ> snd) (filter (\<lambda>(k', _). k' \<noteq> k) xs)) + f v = sum_list (map (f \<circ> snd) xs)" for xs
  proof (induction xs)
    case (Cons x xs)
    have "k \<notin> fst ` set xs \<Longrightarrow> filter (\<lambda>(k', _). k' \<noteq> k) xs = xs"
      by (force simp: filter_id_conv)
    with Cons show ?case by (cases x) (auto split: if_splits)
  qed simp
  with assms show ?thesis by (simp add: bm_values_def bm_get_def bm_entries_distinct)
qed

lemma total_entries_remove:
  assumes "bm_get (ps_scopes state) sk = Some scope"
  shows "total_entries (remove_entry kind sk key state) kind' + entry_count scope kind'
    = total_entries state kind' + entry_count (remove_scope_entry kind key scope) kind'"
  using sum_values_update [OF assms, of "\<lambda>s. entry_count s kind'"]
  by (simp add: total_entries_def remove_entry_def)

lemma entry_day_total:
  "bm_get (ps_scopes state) sk = Some scope \<Longrightarrow> key \<in> set (entry_keys scope kind)
    \<Longrightarrow> \<exists>day. entry_day state kind sk key = Some day"
  by (cases kind) (auto simp: entry_day_def in_bm_keys)

lemma in_removal_candidates:
  "(day, sk, key) \<in> set (removal_candidates state kind only protected) \<longleftrightarrow>
     (\<exists>scope. bm_get (ps_scopes state) sk = Some scope \<and> is_none_or only (\<lambda>o'. sk = o')
        \<and> key \<in> set (entry_keys scope kind) \<and> removable scope kind sk key protected
        \<and> entry_day state kind sk key = Some day)"
proof
  assume "(day, sk, key) \<in> set (removal_candidates state kind only protected)"
  then obtain scope where "bm_get (ps_scopes state) sk = Some scope" "is_none_or only (\<lambda>o'. sk = o')"
      "key \<in> set (entry_keys scope kind)" "removable scope kind sk key protected"
      "day = the (entry_day state kind sk key)"
    by (auto simp: removal_candidates_def bm_get_iff)
  then show "\<exists>scope. bm_get (ps_scopes state) sk = Some scope \<and> is_none_or only (\<lambda>o'. sk = o')
        \<and> key \<in> set (entry_keys scope kind) \<and> removable scope kind sk key protected
        \<and> entry_day state kind sk key = Some day"
    using entry_day_total by fastforce
next
  assume "\<exists>scope. bm_get (ps_scopes state) sk = Some scope \<and> is_none_or only (\<lambda>o'. sk = o')
        \<and> key \<in> set (entry_keys scope kind) \<and> removable scope kind sk key protected
        \<and> entry_day state kind sk key = Some day"
  then show "(day, sk, key) \<in> set (removal_candidates state kind only protected)"
    by (force simp: removal_candidates_def bm_get_iff)
qed

lemma oldest_entry_Some:
  assumes "oldest_entry state kind only protected = Some (sk, key)"
  obtains scope day where "bm_get (ps_scopes state) sk = Some scope"
    and "is_none_or only (\<lambda>o'. sk = o')" and "key \<in> set (entry_keys scope kind)"
    and "removable scope kind sk key protected" and "entry_day state kind sk key = Some day"
    and "\<And>day' sk' key'. (day', sk', key') \<in> set (removal_candidates state kind only protected) \<Longrightarrow> day \<le> day'"
proof -
  from assms obtain day where m: "list_min (removal_candidates state kind only protected) = Some (day, sk, key)"
    by (auto simp: oldest_entry_def)
  from list_min_Some [OF m] have "(day, sk, key) \<in> set (removal_candidates state kind only protected)"
    and le: "\<And>y. y \<in> set (removal_candidates state kind only protected) \<Longrightarrow> (day, sk, key) \<le> y"
    by blast+
  moreover have "day \<le> day'"
    if "(day', sk', key') \<in> set (removal_candidates state kind only protected)" for day' sk' key'
    using le [OF that] by (auto simp: less_eq_prod_def)
  ultimately show thesis using that by (auto simp: in_removal_candidates)
qed

lemma oldest_entry_None:
  assumes "oldest_entry state kind only protected = None"
    and "bm_get (ps_scopes state) sk = Some scope" and "is_none_or only (\<lambda>o'. sk = o')"
    and "key \<in> set (entry_keys scope kind)"
  shows "\<not> removable scope kind sk key protected"
proof
  assume "removable scope kind sk key protected"
  moreover obtain day where "entry_day state kind sk key = Some day"
    using entry_day_total [OF assms(2,4)] by blast
  ultimately have "(day, sk, key) \<in> set (removal_candidates state kind only protected)"
    using assms by (auto simp: in_removal_candidates)
  with assms(1) show False by (auto simp: oldest_entry_def)
qed

lemma remove_oldest_less:
  assumes "oldest_entry state kind only protected = Some (sk, key)"
  shows "total_entries (remove_entry kind sk key state) kind < total_entries state kind"
proof -
  obtain scope where s: "bm_get (ps_scopes state) sk = Some scope" "key \<in> set (entry_keys scope kind)"
    using assms by (auto elim: oldest_entry_Some)
  from remove_scope_entry_less [OF s(2)] total_entries_remove [OF s(1), of kind key kind]
  show ?thesis by linarith
qed

section \<open>The loops\<close>

definition scope_count :: "persisted_request_state \<Rightarrow> string \<Rightarrow> entry_kind \<Rightarrow> nat" where
  "scope_count state sk kind =
     (case bm_get (ps_scopes state) sk of None \<Rightarrow> 0 | Some scope \<Rightarrow> entry_count scope kind)"

lemma remove_oldest_scope_less:
  assumes "oldest_entry state kind (Some sk) protected = Some (sk', key)"
  shows "scope_count (remove_entry kind sk key state) sk kind < scope_count state sk kind"
  using assms
  by (auto elim!: oldest_entry_Some simp: scope_count_def remove_entry_scope remove_scope_entry_less)

function shrink_scope ::
    "entry_kind \<Rightarrow> nat \<Rightarrow> string \<Rightarrow> protected_state_keys \<Rightarrow> bool \<Rightarrow> persisted_request_state
      \<Rightarrow> bool result \<times> persisted_request_state" where
  "shrink_scope kind maximum sk protected changed state =
     (if is_some_and (bm_get (ps_scopes state) sk) (\<lambda>scope. entry_count scope kind > maximum)
      then (case oldest_entry state kind (Some sk) protected of
          None \<Rightarrow> (Inl (Msg ''request state per-scope capacity is protected''), state)
        | Some (_, key) \<Rightarrow> shrink_scope kind maximum sk protected True (remove_entry kind sk key state))
      else (Inr changed, state))"
  by pat_completeness auto
termination
  by (relation "measure (\<lambda>(kind, _, sk, _, _, state). scope_count state sk kind)")
    (auto simp: remove_oldest_scope_less)

function shrink_total ::
    "entry_kind \<Rightarrow> nat \<Rightarrow> protected_state_keys \<Rightarrow> bool \<Rightarrow> persisted_request_state
      \<Rightarrow> bool result \<times> persisted_request_state" where
  "shrink_total kind maximum protected changed state =
     (if total_entries state kind > maximum
      then (case oldest_entry state kind None protected of
          None \<Rightarrow> (Inl (Msg ''request state global capacity is protected''), state)
        | Some (sk, key) \<Rightarrow> shrink_total kind maximum protected True (remove_entry kind sk key state))
      else (Inr changed, state))"
  by pat_completeness auto
termination
  by (relation "measure (\<lambda>(kind, _, _, _, state). total_entries state kind)")
    (auto simp: remove_oldest_less)

definition oldest_scope :: "persisted_request_state \<Rightarrow> protected_state_keys \<Rightarrow> string option" where
  "oldest_scope state protected =
     map_option snd (list_min (map (\<lambda>(key, scope). (sc_last_seen_day scope, key))
       (filter (\<lambda>(key, _). key \<notin> pk_scopes protected) (bm_entries (ps_scopes state)))))"

definition remove_scope :: "string \<Rightarrow> persisted_request_state \<Rightarrow> persisted_request_state" where
  "remove_scope key state = state\<lparr>ps_scopes := bm_remove key (ps_scopes state)\<rparr>"

lemma oldest_scope_Some:
  assumes "oldest_scope state protected = Some key"
  shows "key \<notin> pk_scopes protected \<and> (\<exists>scope. bm_get (ps_scopes state) key = Some scope
    \<and> (\<forall>key' scope'. bm_get (ps_scopes state) key' = Some scope' \<and> key' \<notin> pk_scopes protected
        \<longrightarrow> sc_last_seen_day scope \<le> sc_last_seen_day scope'))"
  using assms
  by (force simp: oldest_scope_def bm_get_iff less_eq_prod_def dest!: list_min_Some)

lemma remove_oldest_scope_table_less:
  "oldest_scope state protected = Some key
    \<Longrightarrow> bm_len (ps_scopes (remove_scope key state)) < bm_len (ps_scopes state)"
  by (auto simp: remove_scope_def dest!: oldest_scope_Some bm.len_remove_less)

function shrink_scope_table ::
    "protected_state_keys \<Rightarrow> bool \<Rightarrow> persisted_request_state
      \<Rightarrow> bool result \<times> persisted_request_state" where
  "shrink_scope_table protected changed state =
     (if bm_len (ps_scopes state) > MAX_SCOPES
      then (case oldest_scope state protected of
          None \<Rightarrow> (Inl (Msg ''request state scope capacity is protected''), state)
        | Some candidate \<Rightarrow> shrink_scope_table protected True (remove_scope candidate state))
      else (Inr changed, state))"
  by pat_completeness auto
termination
  by (relation "measure (\<lambda>(_, _, state). bm_len (ps_scopes state))")
    (auto simp: remove_oldest_scope_table_less)

function expire_kind ::
    "entry_kind \<Rightarrow> int \<Rightarrow> protected_state_keys \<Rightarrow> bool \<Rightarrow> persisted_request_state
      \<Rightarrow> bool \<times> persisted_request_state" where
  "expire_kind kind cutoff protected changed state =
     (case oldest_entry state kind None protected of
        None \<Rightarrow> (changed, state)
      | Some (sk, key) \<Rightarrow>
          if the (entry_day state kind sk key) < cutoff
          then expire_kind kind cutoff protected True (remove_entry kind sk key state)
          else (changed, state))"
  by pat_completeness auto
termination
  by (relation "measure (\<lambda>(kind, _, _, _, state). total_entries state kind)")
    (auto simp: remove_oldest_less)

declare shrink_scope.simps [simp del] shrink_total.simps [simp del]
  shrink_scope_table.simps [simp del] expire_kind.simps [simp del]

definition prune_expired ::
    "int \<Rightarrow> protected_state_keys \<Rightarrow> persisted_request_state \<Rightarrow> bool \<times> persisted_request_state" where
  "prune_expired day protected state =
     (let cutoff = i64_saturating_sub day DETAIL_RETENTION_DAYS in
      foldl (\<lambda>(changed, s) kind. expire_kind kind cutoff protected changed s) (False, state)
        [KWireId, KGeneratedItem, KCompactionMarker, KTurn])"

definition scope_limits :: "(entry_kind \<times> nat) list" where
  "scope_limits =
     [(KInstallation, MAX_SCOPE_INSTALLATIONS),
      (KConversation, MAX_SCOPE_CONVERSATIONS),
      (KChildThread, MAX_SCOPE_CHILD_THREADS),
      (KTurn, MAX_SCOPE_TURNS),
      (KGeneratedItem, MAX_SCOPE_GENERATED_ITEMS),
      (KCompactionMarker, MAX_SCOPE_COMPACTION_MARKERS),
      (KWireId, MAX_SCOPE_WIRE_ID_PAIRS)]"

definition total_limits :: "(entry_kind \<times> nat) list" where
  "total_limits =
     [(KInstallation, MAX_SCOPED_INSTALLATIONS),
      (KConversation, MAX_CONVERSATIONS),
      (KChildThread, MAX_CHILD_THREADS),
      (KTurn, MAX_TURNS),
      (KGeneratedItem, MAX_GENERATED_ITEMS),
      (KCompactionMarker, MAX_COMPACTION_MARKERS),
      (KWireId, MAX_WIRE_ID_PAIRS)]"

text \<open>One \<open>for\<close> loop of fallible rounds that thread the change flag.\<close>

fun run_rounds ::
    "('x \<Rightarrow> bool \<Rightarrow> 's \<Rightarrow> bool result \<times> 's) \<Rightarrow> 'x list \<Rightarrow> bool \<Rightarrow> 's \<Rightarrow> bool result \<times> 's" where
  "run_rounds f [] changed s = (Inr changed, s)"
| "run_rounds f (x # xs) changed s =
     (case f x changed s of
        (Inl e, s') \<Rightarrow> (Inl e, s')
      | (Inr changed', s') \<Rightarrow> run_rounds f xs changed' s')"

definition prune ::
    "int \<Rightarrow> protected_state_keys \<Rightarrow> persisted_request_state \<Rightarrow> bool result \<times> persisted_request_state" where
  "prune day protected state =
     (let (changed, state1) = prune_expired day protected state in
      case run_rounds
          (\<lambda>(kind, maximum) changed s.
             run_rounds (\<lambda>sk. shrink_scope kind maximum sk protected) (bm_keys (ps_scopes s)) changed s)
          scope_limits changed state1 of
        (Inl e, s) \<Rightarrow> (Inl e, s)
      | (Inr changed, state2) \<Rightarrow>
          (case run_rounds (\<lambda>(kind, maximum). shrink_total kind maximum protected)
              total_limits changed state2 of
             (Inl e, s) \<Rightarrow> (Inl e, s)
           | (Inr changed, state3) \<Rightarrow> shrink_scope_table protected changed state3))"

fun evict_first ::
    "entry_kind list \<Rightarrow> protected_state_keys \<Rightarrow> persisted_request_state
      \<Rightarrow> persisted_request_state option" where
  "evict_first [] protected state = None"
| "evict_first (kind # kinds) protected state =
     (case oldest_entry state kind None protected of
        Some (sk, key) \<Rightarrow> Some (remove_entry kind sk key state)
      | None \<Rightarrow> evict_first kinds protected state)"

definition evict_one ::
    "protected_state_keys \<Rightarrow> persisted_request_state \<Rightarrow> bool \<times> persisted_request_state" where
  "evict_one protected state =
     (case evict_first [KWireId, KGeneratedItem, KCompactionMarker, KTurn, KChildThread,
          KConversation, KInstallation] protected state of
        Some state' \<Rightarrow> (True, state')
      | None \<Rightarrow> (case oldest_scope state protected of
          None \<Rightarrow> (False, state)
        | Some key \<Rightarrow> (True, remove_scope key state)))"

end
