(* ===== verification/Prune_Steps.thy ===== *)
theory Prune_Steps
  imports Prune_Policy
begin

text \<open>
  Pruning as a state machine.  Every loop of the pruner, and \<open>evict_one\<close>, is a sequence of the two
  steps below; a property kept by one step is kept by the whole run.
\<close>

inductive prune_step ::
    "protected_state_keys \<Rightarrow> persisted_request_state \<Rightarrow> persisted_request_state \<Rightarrow> bool"
  for protected where
  drop_entry: "bm_get (ps_scopes st) sk = Some scope \<Longrightarrow> key \<in> set (entry_keys scope kind)
    \<Longrightarrow> removable scope kind sk key protected
    \<Longrightarrow> prune_step protected st (remove_entry kind sk key st)"
| drop_scope: "bm_get (ps_scopes st) sk = Some scope \<Longrightarrow> sk \<notin> pk_scopes protected
    \<Longrightarrow> prune_step protected st (remove_scope sk st)"

abbreviation prune_steps ::
    "protected_state_keys \<Rightarrow> persisted_request_state \<Rightarrow> persisted_request_state \<Rightarrow> bool" where
  "prune_steps protected \<equiv> (prune_step protected)\<^sup>*\<^sup>*"

lemma prune_steps_keep:
  assumes "prune_steps protected st st'" and "P st"
    and "\<And>s t. prune_step protected s t \<Longrightarrow> P s \<Longrightarrow> P t"
  shows "P st'"
  using assms by (induction rule: rtranclp_induct) blast+

section \<open>The loops are step sequences\<close>

lemma oldest_entry_step:
  assumes "oldest_entry st kind only protected = Some (sk, key)"
  shows "prune_step protected st (remove_entry kind sk key st)"
  using assms by (rule oldest_entry_Some) (rule drop_entry)

lemma oldest_entry_only_step:
  assumes "oldest_entry st kind (Some sk) protected = Some (sk', key)"
  shows "prune_step protected st (remove_entry kind sk key st)"
  using assms by (rule oldest_entry_Some) (auto intro: drop_entry)

lemma oldest_scope_step:
  "oldest_scope st protected = Some sk \<Longrightarrow> prune_step protected st (remove_scope sk st)"
  by (drule oldest_scope_Some) (auto intro: drop_scope)

lemma shrink_scope_steps:
  "prune_steps protected st (snd (shrink_scope kind maximum sk protected changed st))"
proof (induction kind maximum sk protected changed st rule: shrink_scope.induct)
  case (1 kind maximum sk protected changed st)
  show ?case
    by (subst shrink_scope.simps)
      (auto split: option.splits dest: oldest_entry_only_step 1 intro: converse_rtranclp_into_rtranclp)
qed

lemma shrink_total_steps:
  "prune_steps protected st (snd (shrink_total kind maximum protected changed st))"
proof (induction kind maximum protected changed st rule: shrink_total.induct)
  case (1 kind maximum protected changed st)
  show ?case
    by (subst shrink_total.simps)
      (auto split: option.splits dest: oldest_entry_step 1 intro: converse_rtranclp_into_rtranclp)
qed

lemma shrink_scope_table_steps:
  "prune_steps protected st (snd (shrink_scope_table protected changed st))"
proof (induction protected changed st rule: shrink_scope_table.induct)
  case (1 protected changed st)
  show ?case
    by (subst shrink_scope_table.simps)
      (auto split: option.splits dest: oldest_scope_step 1 intro: converse_rtranclp_into_rtranclp)
qed

lemma expire_kind_steps:
  "prune_steps protected st (snd (expire_kind kind cutoff protected changed st))"
proof (induction kind cutoff protected changed st rule: expire_kind.induct)
  case (1 kind cutoff protected changed st)
  show ?case
    by (subst expire_kind.simps)
      (auto split: option.splits dest: oldest_entry_step 1 intro: converse_rtranclp_into_rtranclp)
qed

lemma expire_kinds_steps:
  "prune_steps protected (snd p)
    (snd (foldl (\<lambda>(changed, s) kind. expire_kind kind cutoff protected changed s) p kinds))"
proof (induction kinds arbitrary: p)
  case (Cons kind kinds)
  obtain c s where p: "p = (c, s)" by (cases p)
  from Cons.IH [of "expire_kind kind cutoff protected c s"] expire_kind_steps [of protected s kind cutoff c]
  show ?case by (simp add: p)
qed simp

lemma prune_expired_steps: "prune_steps protected st (snd (prune_expired day protected st))"
  using expire_kinds_steps [of protected "(False, st)"] unfolding prune_expired_def Let_def
  by (simp only: snd_conv)

lemma run_rounds_steps:
  assumes "\<And>x c s. prune_steps protected s (snd (f x c s))"
  shows "prune_steps protected s (snd (run_rounds f xs c s))"
proof (induction xs arbitrary: c s)
  case (Cons x xs)
  obtain r s' where f: "f x c s = (r, s')" by (cases "f x c s")
  with assms [of s x c] have "prune_steps protected s s'" by simp
  with f Cons.IH show ?case by (cases r) (auto intro: rtranclp_trans)
qed simp

text \<open>A loop that ran to its end leaves the bound it was called for.\<close>

lemma shrink_scope_bound:
  "shrink_scope kind maximum sk protected changed st = (Inr c, st') \<Longrightarrow> scope_count st' sk kind \<le> maximum"
proof (induction kind maximum sk protected changed st rule: shrink_scope.induct)
  case (1 kind maximum sk protected changed st)
  show ?case
  proof (cases "is_some_and (bm_get (ps_scopes st) sk) (\<lambda>scope. entry_count scope kind > maximum)")
    case True
    with "1.prems" obtain sk' key where o: "oldest_entry st kind (Some sk) protected = Some (sk', key)"
      and rec: "shrink_scope kind maximum sk protected True (remove_entry kind sk key st) = (Inr c, st')"
      by (subst (asm) shrink_scope.simps) (auto split: option.splits)
    show ?thesis by (rule "1.IH" [OF True o refl rec])
  next
    case False
    with "1.prems" have "st' = st" by (subst (asm) shrink_scope.simps) simp
    with False show ?thesis by (auto simp: scope_count_def is_some_and_def split: option.splits)
  qed
qed

lemma shrink_total_bound:
  "shrink_total kind maximum protected changed st = (Inr c, st') \<Longrightarrow> total_entries st' kind \<le> maximum"
proof (induction kind maximum protected changed st rule: shrink_total.induct)
  case (1 kind maximum protected changed st)
  show ?case
  proof (cases "total_entries st kind > maximum")
    case True
    with "1.prems" obtain sk key where o: "oldest_entry st kind None protected = Some (sk, key)"
      and rec: "shrink_total kind maximum protected True (remove_entry kind sk key st) = (Inr c, st')"
      by (subst (asm) shrink_total.simps) (auto split: option.splits)
    show ?thesis by (rule "1.IH" [OF True o refl rec])
  next
    case False
    with "1.prems" show ?thesis by (subst (asm) shrink_total.simps) simp
  qed
qed

lemma shrink_scope_table_bound:
  "shrink_scope_table protected changed st = (Inr c, st') \<Longrightarrow> bm_len (ps_scopes st') \<le> MAX_SCOPES"
proof (induction protected changed st rule: shrink_scope_table.induct)
  case (1 protected changed st)
  show ?case
  proof (cases "bm_len (ps_scopes st) > MAX_SCOPES")
    case True
    with "1.prems" obtain sk where o: "oldest_scope st protected = Some sk"
      and rec: "shrink_scope_table protected True (remove_scope sk st) = (Inr c, st')"
      by (subst (asm) shrink_scope_table.simps) (auto split: option.splits)
    show ?thesis by (rule "1.IH" [OF True o rec])
  next
    case False
    with "1.prems" show ?thesis by (subst (asm) shrink_scope_table.simps) simp
  qed
qed

section \<open>Bounds only ever get tighter\<close>

lemma prune_step_scope_count: "prune_step protected s t \<Longrightarrow> scope_count t sk kind \<le> scope_count s sk kind"
  by (induction rule: prune_step.induct)
    (auto simp: scope_count_def remove_entry_scope remove_scope_def
      shrinks_remove_scope_entry [unfolded shrinks_def, rule_format] split: option.splits)

lemma prune_step_total: "prune_step protected s t \<Longrightarrow> total_entries t kind \<le> total_entries s kind"
proof (induction rule: prune_step.induct)
  case (drop_entry st sk scope key kind')
  then show ?case
    using total_entries_remove [OF drop_entry(1), of kind' key kind]
      shrinks_remove_scope_entry [unfolded shrinks_def, rule_format, of kind' key scope kind]
    by linarith
next
  case (drop_scope st sk scope)
  then show ?case
    using sum_values_remove [OF drop_scope(1), of "\<lambda>s. entry_count s kind"]
    by (simp add: total_entries_def remove_scope_def)
qed

lemma prune_step_keys:
  "prune_step protected s t \<Longrightarrow> set (bm_keys (ps_scopes t)) \<subseteq> set (bm_keys (ps_scopes s))"
  by (induction rule: prune_step.induct)
    (auto simp: in_bm_keys remove_entry_scope remove_scope_def split: if_splits)

lemma prune_steps_scope_count:
  assumes "prune_steps protected s t"
  shows "scope_count t sk kind \<le> scope_count s sk kind"
  using assms by (induction rule: rtranclp_induct) (auto dest: prune_step_scope_count order_trans)

lemma prune_steps_total:
  assumes "prune_steps protected s t"
  shows "total_entries t kind \<le> total_entries s kind"
  using assms by (induction rule: rtranclp_induct) (auto dest: prune_step_total order_trans)

lemma prune_steps_keys:
  assumes "prune_steps protected s t"
  shows "set (bm_keys (ps_scopes t)) \<subseteq> set (bm_keys (ps_scopes s))"
  using assms by (induction rule: rtranclp_induct) (auto dest: prune_step_keys)

lemma prune_step_header:
  "prune_step protected s t \<Longrightarrow> ps_version t = ps_version s \<and> ps_revision t = ps_revision s
    \<and> ps_installation_id t = ps_installation_id s \<and> ps_owners t = ps_owners s
    \<and> ps_tool_inventory_revocations t = ps_tool_inventory_revocations s
    \<and> ps_tool_inventory_uncertain t = ps_tool_inventory_uncertain s
    \<and> ps_tool_inventory_revision t = ps_tool_inventory_revision s"
  by (induction rule: prune_step.induct) (simp_all add: remove_entry_def remove_scope_def)

lemma prune_steps_header:
  assumes "prune_steps protected s t"
  shows "ps_version t = ps_version s \<and> ps_revision t = ps_revision s
    \<and> ps_installation_id t = ps_installation_id s \<and> ps_owners t = ps_owners s
    \<and> ps_tool_inventory_revocations t = ps_tool_inventory_revocations s
    \<and> ps_tool_inventory_uncertain t = ps_tool_inventory_uncertain s
    \<and> ps_tool_inventory_revision t = ps_tool_inventory_revision s"
  using assms by (induction rule: rtranclp_induct) (auto dest!: prune_step_header)

section \<open>The whole pass\<close>

lemma run_rounds_Inr:
  assumes run: "run_rounds f xs c s = (Inr c', t)"
    and steps: "\<And>x c s. prune_steps protected s (snd (f x c s))"
    and stable: "\<And>x u v. prune_steps protected u v \<Longrightarrow> R x u \<Longrightarrow> R x v"
    and post: "\<And>x c s c' t. f x c s = (Inr c', t) \<Longrightarrow> R x t"
    and x: "x \<in> set xs"
  shows "R x t"
  using run x
proof (induction xs arbitrary: c s)
  case (Cons y ys)
  from Cons.prems(1) obtain d u where f: "f y c s = (Inr d, u)" and rest: "run_rounds f ys d u = (Inr c', t)"
    by (auto split: prod.splits sum.splits)
  show ?case
  proof (cases "x \<in> set ys")
    case True
    with rest show ?thesis by (rule Cons.IH)
  next
    case False
    with Cons.prems(2) f post have "R x u" by auto
    moreover have "prune_steps protected u t" using run_rounds_steps [where f = f and s = u and xs = ys and c = d, OF steps] rest by simp
    ultimately show ?thesis by (rule stable [rotated])
  qed
qed simp

abbreviation scope_round ::
    "protected_state_keys \<Rightarrow> entry_kind \<times> nat \<Rightarrow> bool \<Rightarrow> persisted_request_state
      \<Rightarrow> bool result \<times> persisted_request_state" where
  "scope_round protected \<equiv> (\<lambda>(kind, maximum) changed s.
     run_rounds (\<lambda>sk. shrink_scope kind maximum sk protected) (bm_keys (ps_scopes s)) changed s)"

abbreviation total_round ::
    "protected_state_keys \<Rightarrow> entry_kind \<times> nat \<Rightarrow> bool \<Rightarrow> persisted_request_state
      \<Rightarrow> bool result \<times> persisted_request_state" where
  "total_round protected \<equiv> (\<lambda>(kind, maximum). shrink_total kind maximum protected)"

lemma scope_round_steps: "prune_steps protected s (snd (scope_round protected x c s))"
  by (cases x) (auto intro!: run_rounds_steps shrink_scope_steps)

lemma total_round_steps: "prune_steps protected s (snd (total_round protected x c s))"
  by (cases x) (auto intro!: shrink_total_steps)

lemma scope_round_bound:
  assumes run: "scope_round protected (kind, maximum) c s = (Inr c', t)"
  shows "scope_count t sk kind \<le> maximum"
proof (cases "sk \<in> set (bm_keys (ps_scopes s))")
  case True
  show ?thesis
    by (rule run_rounds_Inr [where R = "\<lambda>sk s. scope_count s sk kind \<le> maximum",
          OF run [unfolded prod.case] shrink_scope_steps _ shrink_scope_bound True])
      (auto dest: prune_steps_scope_count order_trans)
next
  case False
  have "prune_steps protected s t"
    using scope_round_steps [of protected s "(kind, maximum)" c] run by (metis snd_conv)
  with False have "bm_get (ps_scopes t) sk = None" using prune_steps_keys bm_get_None_iff by blast
  then show ?thesis by (simp add: scope_count_def)
qed

lemma scope_rounds_bound:
  assumes "run_rounds (scope_round protected) limits c s = (Inr c', t)" and "(kind, maximum) \<in> set limits"
  shows "scope_count t sk kind \<le> maximum"
proof -
  define R where "R = (\<lambda>(kind, maximum) s. \<forall>sk. scope_count s sk kind \<le> (maximum :: nat))"
  have "R (kind, maximum) t"
  proof (rule run_rounds_Inr [where R = R, OF assms(1) scope_round_steps _ _ assms(2)])
    show "R x v" if "prune_steps protected u v" "R x u" for x u v
      using that by (cases x) (auto simp: R_def dest: prune_steps_scope_count order_trans)
    show "R x t" if "scope_round protected x c s = (Inr c', t)" for x c s c' t
      using scope_round_bound that by (cases x) (auto simp: R_def)
  qed
  then show ?thesis by (simp add: R_def)
qed

lemma total_rounds_bound:
  assumes "run_rounds (total_round protected) limits c s = (Inr c', t)" and "(kind, maximum) \<in> set limits"
  shows "total_entries t kind \<le> maximum"
proof -
  define R where "R = (\<lambda>(kind, maximum) s. total_entries s kind \<le> (maximum :: nat))"
  have "R (kind, maximum) t"
  proof (rule run_rounds_Inr [where R = R, OF assms(1) total_round_steps _ _ assms(2)])
    show "R x v" if "prune_steps protected u v" "R x u" for x u v
      using that by (cases x) (auto simp: R_def dest: prune_steps_total order_trans)
    show "R x t" if "total_round protected x c s = (Inr c', t)" for x c s c' t
      using shrink_total_bound that by (cases x) (auto simp: R_def)
  qed
  then show ?thesis by (simp add: R_def)
qed

lemma prune_phases:
  assumes "prune day protected st = (Inr c, st')"
  obtains st1 st2 st3 where
    "prune_steps protected st st1" "prune_steps protected st1 st2" "prune_steps protected st2 st3"
    "prune_steps protected st3 st'" "st1 = snd (prune_expired day protected st)"
    "\<And>kind maximum sk. (kind, maximum) \<in> set scope_limits \<Longrightarrow> scope_count st2 sk kind \<le> maximum"
    "\<And>kind maximum. (kind, maximum) \<in> set total_limits \<Longrightarrow> total_entries st3 kind \<le> maximum"
    "bm_len (ps_scopes st') \<le> MAX_SCOPES"
proof -
  obtain c1 st1 where e1: "prune_expired day protected st = (c1, st1)" by (cases "prune_expired day protected st")
  from assms obtain c2 st2 c3 st3 where e2: "run_rounds (scope_round protected) scope_limits c1 st1 = (Inr c2, st2)"
    and e3: "run_rounds (total_round protected) total_limits c2 st2 = (Inr c3, st3)"
    and e4: "shrink_scope_table protected c3 st3 = (Inr c, st')"
    unfolding prune_def by (auto simp: e1 split: prod.splits sum.splits)
  have "prune_steps protected st st1" "prune_steps protected st3 st'"
    using prune_expired_steps [of protected st day] shrink_scope_table_steps [of protected st3 c3] e1 e4
    by simp_all
  moreover have "prune_steps protected st1 st2"
    using run_rounds_steps [where f = "scope_round protected" and s = st1 and xs = scope_limits and c = c1,
        OF scope_round_steps] e2
    by (metis snd_conv)
  moreover have "prune_steps protected st2 st3"
    using run_rounds_steps [where f = "total_round protected" and s = st2 and xs = total_limits and c = c2,
        OF total_round_steps] e3
    by (metis snd_conv)
  moreover have "st1 = snd (prune_expired day protected st)" using e1 by simp
  ultimately show thesis
    using shrink_scope_table_bound [OF e4]
    by (intro that [of st1 st2 st3] scope_rounds_bound [OF e2] total_rounds_bound [OF e3])
qed

lemma prune_steps_prune: "prune_steps protected st (snd (prune day protected st))"
proof -
  obtain c1 st1 where e1: "prune_expired day protected st = (c1, st1)" by (cases "prune_expired day protected st")
  obtain r2 st2 where e2: "run_rounds (scope_round protected) scope_limits c1 st1 = (r2, st2)"
    by (cases "run_rounds (scope_round protected) scope_limits c1 st1")
  obtain r3 st3 where e3: "run_rounds (total_round protected) total_limits (projr r2) st2 = (r3, st3)"
    by (cases "run_rounds (total_round protected) total_limits (projr r2) st2")
  have s1: "prune_steps protected st st1" using prune_expired_steps [of protected st day] e1 by simp
  have s2: "prune_steps protected st1 st2"
    using run_rounds_steps [where f = "scope_round protected" and s = st1 and xs = scope_limits and c = c1,
        OF scope_round_steps] e2
    by (metis snd_conv)
  have s3: "prune_steps protected st2 st3"
    using run_rounds_steps [where f = "total_round protected" and s = st2 and xs = total_limits and c = "projr r2",
        OF total_round_steps] e3
    by (metis snd_conv)
  have s4: "prune_steps protected st3 (snd (shrink_scope_table protected (projr r3) st3))"
    by (rule shrink_scope_table_steps)
  from s1 s2 s3 s4 show ?thesis
    unfolding prune_def by (cases r2; cases r3) (use e1 e2 e3 in \<open>auto intro: rtranclp_trans\<close>)
qed

lemma evict_first_step: "evict_first kinds protected st = Some st' \<Longrightarrow> prune_step protected st st'"
  by (induction kinds) (auto split: option.splits dest: oldest_entry_step)

lemma evict_one_step:
  assumes "evict_one protected st = (True, st')"
  shows "prune_step protected st st'"
  using assms evict_first_step [where protected = protected and st = st and st' = st']
  unfolding evict_one_def
  by (auto split: option.splits simp del: evict_first.simps dest: oldest_scope_step)

end
