(* ===== verification/Prune_Guarantees.thy ===== *)
theory Prune_Guarantees
  imports Prune_Steps
begin

text \<open>
  What a pruning pass promises its caller: every limit holds when it succeeds, what the current
  edit touched survives it, and detail past its retention is gone.
\<close>

section \<open>Closed forms of the two large graph removals\<close>

definition thread_wires :: "string set \<Rightarrow> wire_id_entry \<Rightarrow> bool" where
  "thread_wires T = (\<lambda>e. we_domain e = Thread \<and> we_upstream_id e \<in> T)"

definition owned_wires :: "(wire_id_owner \<Rightarrow> bool) \<Rightarrow> wire_id_entry \<Rightarrow> bool" where
  "owned_wires P = (\<lambda>e. is_some_and (we_owner e) P)"

definition graph_wires ::
    "scope_state \<Rightarrow> string set \<Rightarrow> (wire_id_owner \<Rightarrow> bool) \<Rightarrow> wire_id_entry \<Rightarrow> bool" where
  "graph_wires s T P = (\<lambda>e. thread_wires T e
     \<or> turn_wires (turn_ids_on s T) (item_ids_in s (turn_ids_on s T)) e \<or> owned_wires P e)"

text \<open>
  \<open>cut_threads T P\<close> removes everything that hangs off the threads in \<open>T\<close>: their turns, those
  turns' items, their markers, and the wire pairs of all of them and of the owners in \<open>P\<close>.
\<close>

definition cut_threads :: "string set \<Rightarrow> (wire_id_owner \<Rightarrow> bool) \<Rightarrow> scope_state \<Rightarrow> scope_state" where
  "cut_threads T P s = cut_scope (\<lambda>t. te_thread_id t \<in> T) (turn_ids_on s T) (\<lambda>m. cm_thread_id m \<in> T)
     (graph_wires s T P) s"

lemma drop_wires_cut_scope:
  "drop_wires W' (cut_scope TP I M W s) = cut_scope TP I M (\<lambda>e. W e \<or> W' e) s"
  by (simp add: cut_scope_def drop_wires_drop_wires)

lemma cut_scope_drop_wires:
  "cut_scope TP I M W (drop_wires W' s) = cut_scope TP I M (\<lambda>e. W' e \<or> W e) s"
  unfolding cut_scope_def drop_wires_frame drop_wires_commute drop_wires_drop_wires by simp

lemma turn_ids_on_drop_wires [simp]: "turn_ids_on (drop_wires W s) T = turn_ids_on s T"
  and item_ids_in_drop_wires [simp]: "item_ids_in (drop_wires W s) I = item_ids_in s I"
  by (simp_all add: turn_ids_on_def item_ids_in_def)

lemma turn_ids_on_frame [simp]:
  "turn_ids_on (s\<lparr>child_threads := c\<rparr>) T = turn_ids_on s T"
  "turn_ids_on (s\<lparr>conversations := d\<rparr>) T = turn_ids_on s T"
  "item_ids_in (s\<lparr>child_threads := c\<rparr>) I = item_ids_in s I"
  "item_ids_in (s\<lparr>conversations := d\<rparr>) I = item_ids_in s I"
  by (simp_all add: turn_ids_on_def item_ids_in_def)

lemma remove_threads_eq:
  assumes "wire_index_ok s" and "set ids = T"
  shows "remove_owned_response_pairs P
      (foldl (\<lambda>s id. remove_thread_graph id s) (remove_wire_pairs Thread ids s) ids) = cut_threads T P s"
proof -
  have "remove_wire_pairs Thread ids s = drop_wires (thread_wires T) s"
    by (simp add: remove_wire_pairs_eq assms thread_wires_def)
  then show ?thesis
    using assms
    by (simp add: remove_thread_graphs_eq drop_wires_ok Let_def cut_scope_drop_wires
        remove_owned_response_pairs_def remove_wire_where_eq cut_scope_ok drop_wires_cut_scope
        cut_threads_def graph_wires_def owned_wires_def disj_assoc)
qed

lemma remove_child_thread_graph_eq:
  assumes "wire_index_ok s"
  shows "remove_child_thread_graph a s =
    (let T = set (descendant_thread_ids s a) in
     cut_threads T (\<lambda>owner. wo_thread_id owner \<in> T)
       (s\<lparr>child_threads := bm_retain (\<lambda>_ t. ct_id t \<notin> T) (child_threads s)\<rparr>))"
  using assms by (simp add: remove_child_thread_graph_def Let_def remove_threads_eq)

lemma set_session_thread_ids:
  "set (session_thread_ids s a) =
     insert a (ct_id ` {t \<in> set (bm_values (child_threads s)). ct_session_id t = a})"
  by (auto simp: session_thread_ids_def)

lemma remove_conversation_graph_eq:
  assumes "wire_index_ok s"
  shows "remove_conversation_graph a s =
    (let T = set (session_thread_ids s a) in
     cut_threads T (\<lambda>owner. wo_session_id owner = a)
       (drop_wires (\<lambda>e. we_domain e = Session \<and> we_upstream_id e = a)
         (s\<lparr>child_threads := bm_retain (\<lambda>_ t. ct_session_id t \<noteq> a) (child_threads s)\<rparr>)))"
  using assms
  by (simp add: remove_conversation_graph_def Let_def remove_wire_pairs_eq [where d = Session]
      remove_threads_eq drop_wires_ok)

lemma cut_threads_simps [simp]:
  "turns (cut_threads T P s) = bm_retain (\<lambda>_ t. te_thread_id t \<notin> T) (turns s)"
  "generated_items (cut_threads T P s) = bm_retain
     (\<lambda>_ i. is_none_or (gi_turn_id i) (\<lambda>id. id \<notin> turn_ids_on s T)) (generated_items s)"
  "compaction_markers (cut_threads T P s) = bm_retain (\<lambda>_ m. cm_thread_id m \<notin> T) (compaction_markers s)"
  "child_threads (cut_threads T P s) = child_threads s"
  "conversations (cut_threads T P s) = conversations s"
  "scoped_installations (cut_threads T P s) = scoped_installations s"
  "sc_last_seen_day (cut_threads T P s) = sc_last_seen_day s"
  by (simp_all add: cut_threads_def)

lemma cut_threads_ok: "wire_index_ok s \<Longrightarrow> wire_index_ok (cut_threads T P s)"
  by (simp add: cut_threads_def cut_scope_ok)

lemma remove_scope_entry_wires:
  assumes "wire_index_ok s"
  shows "wire_index_ok (remove_scope_entry kind key s)"
proof (cases kind)
  case KWireId
  have "wire_index_ok (remove_wire_key key s)"
  proof (cases "bm_get (wire_ids s) key")
    case None
    then show ?thesis using assms by (simp add: remove_wire_key_def)
  qed (rule remove_wire_key_eq(3) [OF assms])
  with KWireId show ?thesis by simp
qed (use assms in \<open>auto simp: remove_wire_pairs_eq drop_wires_ok remove_conversation_graph_eq
    remove_child_thread_graph_eq remove_turn_graph_eq Let_def cut_threads_ok cut_scope_ok split: option.splits\<close>)

definition wires_ok :: "persisted_request_state \<Rightarrow> bool" where
  "wires_ok st \<longleftrightarrow> (\<forall>sk scope. bm_get (ps_scopes st) sk = Some scope \<longrightarrow> wire_index_ok scope)"

lemma prune_step_wires: "prune_step protected s t \<Longrightarrow> wires_ok s \<Longrightarrow> wires_ok t"
  by (induction rule: prune_step.induct)
    (auto simp: wires_ok_def remove_entry_scope remove_scope_def remove_scope_entry_wires split: if_splits)

lemma prune_steps_wires: "prune_steps protected s t \<Longrightarrow> wires_ok s \<Longrightarrow> wires_ok t"
  by (erule prune_steps_keep) (auto dest: prune_step_wires)

section \<open>What is protected survives\<close>

text \<open>The identity an entry stands for: \<open>None\<close> when the entry is gone.\<close>

fun entry_identity :: "scope_state \<Rightarrow> entry_kind \<Rightarrow> string \<Rightarrow> string option" where
  "entry_identity s KInstallation key = map_option ie_id (bm_get (scoped_installations s) key)"
| "entry_identity s KConversation key = map_option conv_id (bm_get (conversations s) key)"
| "entry_identity s KChildThread key = map_option ct_id (bm_get (child_threads s) key)"
| "entry_identity s KTurn key = map_option te_id (bm_get (turns s) key)"
| "entry_identity s KGeneratedItem key = map_option gi_id (bm_get (generated_items s) key)"
| "entry_identity s KCompactionMarker key = map_option cm_thread_id (bm_get (compaction_markers s) key)"
| "entry_identity s KWireId key = map_option we_upstream_id (bm_get (wire_ids s) key)"

definition graph_kinds :: "entry_kind set" where
  "graph_kinds = {KInstallation, KConversation, KChildThread, KTurn, KGeneratedItem}"

lemma protected_thread_idsI:
  "bm_get (child_threads s) k = Some c \<Longrightarrow> ct_id c \<in> set ids \<Longrightarrow> (sk, k) \<in> pk_child_threads protected
    \<Longrightarrow> protected_thread_ids s sk ids protected"
  "bm_get (turns s) k = Some t \<Longrightarrow> te_thread_id t \<in> set ids \<Longrightarrow> (sk, k) \<in> pk_turns protected
    \<Longrightarrow> protected_thread_ids s sk ids protected"
  "bm_get (generated_items s) k = Some i \<Longrightarrow> gi_turn_id i = Some x \<Longrightarrow> x \<in> turn_ids_on s (set ids)
    \<Longrightarrow> (sk, k) \<in> pk_generated_items protected \<Longrightarrow> protected_thread_ids s sk ids protected"
  unfolding protected_thread_ids_def bm_get_iff is_some_and_iff turn_ids_on_def by fastforce+

lemma cut_threads_survive:
  assumes "\<not> protected_thread_ids s sk ids protected" and "set ids = T"
    and "directly_protected kind (sk, key) protected" and "kind \<in> {KTurn, KGeneratedItem}"
    and "turns s' = turns s" and "generated_items s' = generated_items s"
  shows "entry_identity (cut_threads T P s') kind key = entry_identity s kind key"
proof -
  have "turn_ids_on s' T = turn_ids_on s T" using assms(5) by (simp add: turn_ids_on_def)
  moreover have "(sk, key) \<in> pk_turns protected \<Longrightarrow> bm_get (turns s) key = Some t \<Longrightarrow> te_thread_id t \<notin> T"
    and "(sk, key) \<in> pk_generated_items protected \<Longrightarrow> bm_get (generated_items s) key = Some i
      \<Longrightarrow> gi_turn_id i = Some x \<Longrightarrow> x \<notin> turn_ids_on s T" for t i x
    using assms(1,2) protected_thread_idsI(2,3) by metis+
  ultimately show ?thesis
    using assms(3-6) by (auto simp: is_none_or_iff split: option.splits)
qed

lemma remove_scope_entry_survive:
  assumes ok: "wire_index_ok s" and free: "removable s kind sk key protected"
    and prot: "directly_protected kind' (sk, key') protected" and graph: "kind' \<in> graph_kinds"
  shows "entry_identity (remove_scope_entry kind key s) kind' key' = entry_identity s kind' key'"
proof (cases kind)
  case KInstallation
  then show ?thesis
    using assms by (cases kind') (auto simp: removable_def graph_kinds_def split: option.splits)
next
  case KConversation
  show ?thesis
  proof (cases "bm_get (conversations s) key")
    case (Some e)
    define s1 where "s1 = s\<lparr>conversations := bm_remove key (conversations s)\<rparr>"
    define ids where "ids = session_thread_ids s (conv_id e)"
    have ids: "session_thread_ids s1 (conv_id e) = ids" by (simp add: s1_def ids_def session_thread_ids_def)
    have "wire_index_ok s1" using ok by (simp add: s1_def)
    note eq = remove_conversation_graph_eq [OF this, of "conv_id e", unfolded ids Let_def]
    from free KConversation Some have nprot: "\<not> protected_thread_ids s sk ids protected"
        "(sk, key) \<notin> pk_conversations protected"
      by (auto simp: removable_def protected_conversation_graph_def ids_def)
    have children: "ct_session_id c = conv_id e \<Longrightarrow> bm_get (child_threads s) key' = Some c
        \<Longrightarrow> ct_id c \<in> set ids" for c
      by (auto simp: ids_def set_session_thread_ids in_bm_values)
    from graph prot nprot Some KConversation show ?thesis
      using cut_threads_survive [OF nprot(1) refl prot]
        protected_thread_idsI(1) [where s = s and k = key' and ids = ids and sk = sk and protected = protected]
      by (auto simp: graph_kinds_def s1_def [symmetric] eq simp del: fun_upd_apply)
        (auto simp: s1_def split: option.splits dest: children)
  qed (use KConversation in simp)
next
  case KChildThread
  show ?thesis
  proof (cases "bm_get (child_threads s) key")
    case (Some e)
    define ids where "ids = descendant_thread_ids s (ct_id e)"
    note eq = remove_child_thread_graph_eq [OF ok, of "ct_id e", folded ids_def, unfolded Let_def]
    from free KChildThread Some have nprot: "\<not> protected_thread_ids s sk ids protected"
      by (auto simp: removable_def protected_thread_graph_def ids_def Let_def)
    from graph prot nprot Some KChildThread show ?thesis
      using cut_threads_survive [OF nprot refl prot]
        protected_thread_idsI(1) [where s = s and k = key' and ids = ids and sk = sk and protected = protected]
      by (auto simp: graph_kinds_def eq split: option.splits)
  qed (use KChildThread in simp)
next
  case KTurn
  show ?thesis
  proof (cases "bm_get (turns s) key")
    case (Some e)
    define D where "D = set (descendant_turn_ids s (te_id e))"
    note eq = remove_turn_graph_eq [OF ok, of "te_id e", folded D_def, unfolded Let_def]
    from free KTurn Some have "\<not> protected_turn_graph s sk (te_id e) protected"
      by (auto simp: removable_def)
    then have "(sk, k) \<in> pk_turns protected \<Longrightarrow> bm_get (turns s) k = Some t \<Longrightarrow> te_id t \<notin> D"
      and "(sk, k) \<in> pk_generated_items protected \<Longrightarrow> bm_get (generated_items s) k = Some i
        \<Longrightarrow> gi_turn_id i = Some x \<Longrightarrow> x \<notin> D" for k t i x
      unfolding protected_turn_graph_def Let_def bm_get_iff D_def is_some_and_iff by fastforce+
    with graph prot Some KTurn show ?thesis
      by (auto simp: graph_kinds_def eq is_none_or_iff option.map_comp comp_def split: option.splits)
  qed (use KTurn in simp)
next
  case KGeneratedItem
  then show ?thesis
    using assms by (cases kind') (auto simp: removable_def graph_kinds_def split: option.splits)
next
  case KCompactionMarker
  then show ?thesis using graph by (cases kind') (auto simp: graph_kinds_def)
next
  case KWireId
  obtain w i where "remove_wire_key key s = s\<lparr>wire_ids := w, wire_upstream_index := i\<rparr>"
    using remove_wire_key_frame by blast
  with KWireId show ?thesis using graph by (cases kind') (auto simp: graph_kinds_def)
qed

definition scope_identity :: "persisted_request_state \<Rightarrow> string \<Rightarrow> entry_kind \<Rightarrow> string \<Rightarrow> string option" where
  "scope_identity st sk kind key =
     Option.bind (bm_get (ps_scopes st) sk) (\<lambda>scope. entry_identity scope kind key)"

lemma prune_step_survive:
  assumes "prune_step protected st st'" and "wires_ok st" and "sk \<in> pk_scopes protected"
    and "directly_protected kind (sk, key) protected" and "kind \<in> graph_kinds"
  shows "scope_identity st' sk kind key = scope_identity st sk kind key"
  using assms
proof (induction rule: prune_step.induct)
  case (drop_entry st sk' scope key' kind')
  then show ?case
    using remove_scope_entry_survive [of scope kind' sk' key' protected kind key]
    by (auto simp: scope_identity_def remove_entry_scope wires_ok_def)
qed (auto simp: scope_identity_def remove_scope_def)

lemma prune_steps_survive:
  assumes "prune_steps protected st st'" and "wires_ok st" and "sk \<in> pk_scopes protected"
    and "directly_protected kind (sk, key) protected" and "kind \<in> graph_kinds"
  shows "scope_identity st' sk kind key = scope_identity st sk kind key"
  using assms(1)
proof (induction rule: rtranclp_induct)
  case (step y z)
  with prune_steps_wires [OF step(1) assms(2)] assms(3-5) show ?case
    using prune_step_survive by metis
qed simp

end
