(* ===== verification/Prune_Validity.thy ===== *)
theory Prune_Validity
  imports Prune_Guarantees
begin

text \<open>
  Removing an entry together with its graph keeps a ledger valid.  The argument is split in two:
  any cut of a valid scope whose survivors only refer to survivors is valid (\<open>cut_sound\<close>), and every
  removal of the pruner is such a cut (\<open>remove_scope_entry_sound\<close>).
\<close>

section \<open>Unique identifiers\<close>

definition ids_unique :: "scope_state \<Rightarrow> bool" where
  "ids_unique s \<longleftrightarrow>
     distinct (map conv_id (bm_values (conversations s)) @ map ct_id (bm_values (child_threads s)))
     \<and> distinct (map te_id (bm_values (turns s)))"

lemma distinct_values_key:
  "distinct (map f (bm_values m)) \<longleftrightarrow>
     (\<forall>k k' v v'. bm_get m k = Some v \<and> bm_get m k' = Some v' \<and> f v = f v' \<longrightarrow> k = k')"
proof -
  have "distinct (bm_entries m)" using bm_entries_distinct [of m] by (simp add: distinct_map)
  then have "distinct (map f (bm_values m)) \<longleftrightarrow> inj_on (f \<circ> snd) (set (bm_entries m))"
    by (simp add: bm_values_def distinct_map [of "f \<circ> snd"])
  also have "\<dots> \<longleftrightarrow> (\<forall>k k' v v'. bm_get m k = Some v \<and> bm_get m k' = Some v' \<and> f v = f v'
      \<longrightarrow> k = k' \<and> v = v')"
    unfolding bm_get_iff inj_on_def by fastforce
  also have "\<dots> \<longleftrightarrow> (\<forall>k k' v v'. bm_get m k = Some v \<and> bm_get m k' = Some v' \<and> f v = f v' \<longrightarrow> k = k')"
    by (metis option.inject)
  finally show ?thesis .
qed

lemma ids_unique_iff:
  "ids_unique s \<longleftrightarrow>
     (\<forall>k k' v v'. bm_get (conversations s) k = Some v \<and> bm_get (conversations s) k' = Some v'
        \<and> conv_id v = conv_id v' \<longrightarrow> k = k')
     \<and> (\<forall>k k' v v'. bm_get (child_threads s) k = Some v \<and> bm_get (child_threads s) k' = Some v'
        \<and> ct_id v = ct_id v' \<longrightarrow> k = k')
     \<and> (\<forall>k k' v v'. bm_get (turns s) k = Some v \<and> bm_get (turns s) k' = Some v'
        \<and> te_id v = te_id v' \<longrightarrow> k = k')
     \<and> (\<forall>k k' v v'. bm_get (conversations s) k = Some v \<and> bm_get (child_threads s) k' = Some v'
        \<longrightarrow> conv_id v \<noteq> ct_id v')"
proof -
  have "set (map conv_id (bm_values (conversations s))) \<inter> set (map ct_id (bm_values (child_threads s))) = {}
      \<longleftrightarrow> (\<forall>k k' v v'. bm_get (conversations s) k = Some v \<and> bm_get (child_threads s) k' = Some v'
        \<longrightarrow> conv_id v \<noteq> ct_id v')"
    by (simp add: disjoint_iff image_iff Bex_def Ball_def in_bm_values) metis
  then show ?thesis unfolding ids_unique_def distinct_append distinct_values_key by argo
qed

lemma unique_conv:
  "ids_unique s \<Longrightarrow> bm_get (conversations s) k = Some v \<Longrightarrow> bm_get (conversations s) k' = Some v'
    \<Longrightarrow> conv_id v = conv_id v' \<Longrightarrow> k = k'"
  unfolding ids_unique_iff by blast

lemma unique_child:
  "ids_unique s \<Longrightarrow> bm_get (child_threads s) k = Some v \<Longrightarrow> bm_get (child_threads s) k' = Some v'
    \<Longrightarrow> ct_id v = ct_id v' \<Longrightarrow> k = k'"
  unfolding ids_unique_iff by blast

lemma unique_turn:
  "ids_unique s \<Longrightarrow> bm_get (turns s) k = Some v \<Longrightarrow> bm_get (turns s) k' = Some v'
    \<Longrightarrow> te_id v = te_id v' \<Longrightarrow> k = k'"
  unfolding ids_unique_iff by blast

lemma conv_not_child:
  "ids_unique s \<Longrightarrow> bm_get (conversations s) k = Some v \<Longrightarrow> bm_get (child_threads s) k' = Some v'
    \<Longrightarrow> conv_id v \<noteq> ct_id v'"
  unfolding ids_unique_iff by blast

lemma find_value_Some:
  "List.find P (bm_values m) = Some v \<Longrightarrow> (\<exists>k. bm_get m k = Some v) \<and> P v"
  by (metis find_eq_Some_D in_bm_values)

lemma find_value_None: "List.find P (bm_values m) = None \<longleftrightarrow> (\<forall>k v. bm_get m k = Some v \<longrightarrow> \<not> P v)"
  by (auto simp: find_eq_None_iff in_bm_values)

lemma find_child_iff:
  assumes "ids_unique s"
  shows "find_child s x = Some c \<longleftrightarrow> (\<exists>k. bm_get (child_threads s) k = Some c) \<and> ct_id c = x"
  unfolding find_child_def
  by (smt (verit) assms find_value_None find_value_Some not_None_eq option.inject unique_child)

lemma find_turn_iff:
  assumes "ids_unique s"
  shows "find_turn s x = Some t \<longleftrightarrow> (\<exists>k. bm_get (turns s) k = Some t) \<and> te_id t = x"
  unfolding find_turn_def
  by (smt (verit) assms find_value_None find_value_Some not_None_eq option.inject unique_turn)

definition is_conv :: "scope_state \<Rightarrow> string \<Rightarrow> bool" where
  "is_conv s x \<longleftrightarrow> (\<exists>k e. bm_get (conversations s) k = Some e \<and> conv_id e = x)"

lemma belongs_eq:
  "thread_belongs_to_session s x =
     (if is_conv s x then Some x else map_option ct_session_id (find_child s x))"
proof (cases "List.find (\<lambda>c. conv_id c = x) (bm_values (conversations s))")
  case None
  then have "\<not> is_conv s x" using find_value_None [THEN iffD1, OF None] by (auto simp: is_conv_def)
  with None show ?thesis by (simp add: thread_belongs_to_session_def find_child_def)
next
  case (Some e)
  from find_value_Some [OF this] Some show ?thesis
    by (auto simp: thread_belongs_to_session_def is_conv_def)
qed

section \<open>Ancestry as walks\<close>

lemma walk_None: "walk step n None = Some None"
  by (cases n) simp_all

definition thread_step :: "scope_state \<Rightarrow> string \<Rightarrow> string \<Rightarrow> string option option" where
  "thread_step s session x = (if x = session then Some None else map_option ct_parent_thread_id (find_child s x))"

definition turn_step :: "scope_state \<Rightarrow> string \<Rightarrow> string option option" where
  "turn_step s x = map_option te_parent_turn_id (find_turn s x)"

lemma thread_ancestry_walk: "thread_ancestry s z n c = Inr r \<longleftrightarrow> walk (thread_step s z) n c = Some r"
  by (induction s z n c rule: thread_ancestry.induct)
    (auto simp: thread_step_def rbind_Inr_iff walk_None split: option.splits)

lemma turn_ancestry_walk: "turn_ancestry s n c = Inr r \<longleftrightarrow> walk (turn_step s) n c = Some r"
  by (induction s n c rule: turn_ancestry.induct)
    (auto simp: turn_step_def rbind_Inr_iff split: option.splits)

section \<open>Sound scopes\<close>

text \<open>Every section of \<open>validate_scope\<close> but the capacity limits.\<close>

definition scope_sound :: "externals \<Rightarrow> scope_state \<Rightarrow> bool" where
  "scope_sound ext scope \<longleftrightarrow> is_ok (checks
     [validate_day (sc_last_seen_day scope),
      validate_scope_keys scope,
      for_each (validate_installation_entry ext) (bm_values (scoped_installations scope)),
      for_each (validate_conversation_entry ext) (bm_values (conversations scope)),
      for_each (validate_child_entry ext) (bm_values (child_threads scope)),
      validate_thread_relationships scope,
      for_each (validate_turn_entry ext) (bm_values (turns scope)),
      validate_turn_relationships scope,
      for_each (validate_current_turn scope) (current_turn_pointers scope),
      for_each (validate_item_entry ext scope) (bm_values (generated_items scope)),
      for_each (validate_marker_entry ext scope) (bm_values (compaction_markers scope)),
      for_each (validate_wire_entry ext scope) (bm_entries (wire_ids scope)),
      for_each (validate_index_entry scope) (bm_entries (wire_upstream_index scope))])"

lemma validate_scope_sound:
  "validate_scope ext s = Inr () \<longleftrightarrow> scope_sound ext s \<and> is_ok (validate_scope_caps s)"
  by (auto simp: is_ok_unit [symmetric] validate_scope_def scope_sound_def simp del: checks.simps)

lemma scope_sound_iff:
  "scope_sound ext s \<longleftrightarrow>
     is_ok (validate_day (sc_last_seen_day s)) \<and> is_ok (validate_scope_keys s)
     \<and> (\<forall>k e. bm_get (scoped_installations s) k = Some e \<longrightarrow> is_ok (validate_installation_entry ext e))
     \<and> (\<forall>k e. bm_get (conversations s) k = Some e \<longrightarrow> is_ok (validate_conversation_entry ext e))
     \<and> (\<forall>k e. bm_get (child_threads s) k = Some e \<longrightarrow> is_ok (validate_child_entry ext e))
     \<and> (\<forall>k e. bm_get (child_threads s) k = Some e \<longrightarrow> is_ok (validate_child_relationship s e))
     \<and> (\<forall>k e. bm_get (turns s) k = Some e \<longrightarrow> is_ok (validate_turn_entry ext e))
     \<and> (\<forall>k e. bm_get (turns s) k = Some e \<longrightarrow> is_ok (validate_turn_relationship s e))
     \<and> (\<forall>p \<in> set (current_turn_pointers s). is_ok (validate_current_turn s p))
     \<and> (\<forall>k e. bm_get (generated_items s) k = Some e \<longrightarrow> is_ok (validate_item_entry ext s e))
     \<and> (\<forall>k e. bm_get (compaction_markers s) k = Some e \<longrightarrow> is_ok (validate_marker_entry ext s e))
     \<and> (\<forall>k e. bm_get (wire_ids s) k = Some e \<longrightarrow> is_ok (validate_wire_entry ext s (k, e)))
     \<and> (\<forall>k e. bm_get (wire_upstream_index s) k = Some e \<longrightarrow> is_ok (validate_index_entry s (k, e)))"
proof -
  have vals: "(\<forall>x \<in> set (bm_values m). P x) \<longleftrightarrow> (\<forall>k e. bm_get m k = Some e \<longrightarrow> P e)" for m :: "(string, 'v) btree_map" and P
    by (auto simp: in_bm_values)
  have ents: "(\<forall>x \<in> set (bm_entries m). P x) \<longleftrightarrow> (\<forall>k e. bm_get m k = Some e \<longrightarrow> P (k, e))" for m :: "(string, 'v) btree_map" and P
    by (auto simp: bm_get_iff)
  show ?thesis
    unfolding scope_sound_def is_ok_checks validate_thread_relationships_def validate_turn_relationships_def
    by (simp add: vals ents)
qed

lemma scope_sound_wires: "scope_sound ext s \<Longrightarrow> wire_index_ok s"
proof -
  assume sound: "scope_sound ext s"
  have "bm_get (wire_upstream_index s) (we_upstream_lookup e) = Some k" if "bm_get (wire_ids s) k = Some e" for k e
    using sound that unfolding scope_sound_iff
    by (simp add: validate_wire_entry_def del: checks.simps)
  moreover have "\<exists>e. bm_get (wire_ids s) k = Some e \<and> we_upstream_lookup e = u"
    if "bm_get (wire_upstream_index s) u = Some k" for u k
    using sound that unfolding scope_sound_iff
    by (simp add: validate_index_entry_def is_some_and_iff del: checks.simps)
  ultimately show ?thesis by (simp add: wire_index_ok_def)
qed

lemma wire_index_len:
  assumes "wire_index_ok s"
  shows "bm_len (wire_upstream_index s) = bm_len (wire_ids s)"
proof -
  let ?f = "\<lambda>k. we_upstream_lookup (the (bm_get (wire_ids s) k))"
  have "bij_betw ?f (dom (bm_get (wire_ids s))) (dom (bm_get (wire_upstream_index s)))"
  proof (rule bij_betwI')
    show "x \<in> dom (bm_get (wire_ids s)) \<Longrightarrow> y \<in> dom (bm_get (wire_ids s)) \<Longrightarrow> (?f x = ?f y) = (x = y)" for x y
      using wire_index_inject [OF assms] by auto
    show "x \<in> dom (bm_get (wire_ids s)) \<Longrightarrow> ?f x \<in> dom (bm_get (wire_upstream_index s))" for x
      using assms by (auto simp: wire_index_ok_def)
    fix y assume "y \<in> dom (bm_get (wire_upstream_index s))"
    then obtain k e where "bm_get (wire_ids s) k = Some e" "we_upstream_lookup e = y"
      using assms unfolding wire_index_ok_def by blast
    then show "\<exists>x \<in> dom (bm_get (wire_ids s)). y = ?f x" by (intro bexI [of _ k]) auto
  qed
  then show ?thesis by (metis bij_betw_same_card bm.len_card)
qed

section \<open>Cuts\<close>

text \<open>
  \<open>sub_scope s s'\<close>: \<open>s'\<close> has fewer entries than \<open>s\<close>, all of them unchanged except that a thread may
  have lost its current turn.
\<close>

definition sub_map :: "('v \<Rightarrow> 'v \<Rightarrow> bool) \<Rightarrow> (string, 'v) btree_map \<Rightarrow> (string, 'v) btree_map \<Rightarrow> bool" where
  "sub_map R m m' \<longleftrightarrow> (\<forall>k e'. bm_get m' k = Some e' \<longrightarrow> (\<exists>e. bm_get m k = Some e \<and> R e e'))"

definition conv_cleared :: "conversation_entry \<Rightarrow> conversation_entry \<Rightarrow> bool" where
  "conv_cleared e e' \<longleftrightarrow> e' = e \<or> e' = e\<lparr>conv_current_turn_id := None\<rparr>"

definition child_cleared :: "child_thread_entry \<Rightarrow> child_thread_entry \<Rightarrow> bool" where
  "child_cleared e e' \<longleftrightarrow> e' = e \<or> e' = e\<lparr>ct_current_turn_id := None\<rparr>"

definition sub_scope :: "scope_state \<Rightarrow> scope_state \<Rightarrow> bool" where
  "sub_scope s s' \<longleftrightarrow> sc_last_seen_day s' = sc_last_seen_day s
     \<and> sub_map (=) (scoped_installations s) (scoped_installations s')
     \<and> sub_map conv_cleared (conversations s) (conversations s')
     \<and> sub_map child_cleared (child_threads s) (child_threads s')
     \<and> sub_map (=) (turns s) (turns s')
     \<and> sub_map (=) (generated_items s) (generated_items s')
     \<and> sub_map (=) (compaction_markers s) (compaction_markers s')
     \<and> sub_map (=) (wire_ids s) (wire_ids s')
     \<and> sub_map (=) (wire_upstream_index s) (wire_upstream_index s')"

lemma conv_cleared_simps:
  "conv_cleared e e' \<Longrightarrow> conv_id e' = conv_id e"
  "conv_cleared e e' \<Longrightarrow> conv_current_turn_id e' = Some x \<Longrightarrow> conv_current_turn_id e = Some x"
  by (auto simp: conv_cleared_def)

lemma child_cleared_simps:
  "child_cleared e e' \<Longrightarrow> ct_id e' = ct_id e"
  "child_cleared e e' \<Longrightarrow> ct_session_id e' = ct_session_id e"
  "child_cleared e e' \<Longrightarrow> ct_parent_thread_id e' = ct_parent_thread_id e"
  "child_cleared e e' \<Longrightarrow> ct_current_turn_id e' = Some x \<Longrightarrow> ct_current_turn_id e = Some x"
  by (auto simp: child_cleared_def)

lemma sub_map_dest:
  "sub_map R m m' \<Longrightarrow> bm_get m' k = Some e' \<Longrightarrow> \<exists>e. bm_get m k = Some e \<and> R e e'"
  by (simp add: sub_map_def)

text \<open>What the survivors of a cut refer to has survived.\<close>

definition live_thread :: "scope_state \<Rightarrow> string \<Rightarrow> bool" where
  "live_thread s x \<longleftrightarrow> thread_belongs_to_session s x \<noteq> None"

definition live_turn :: "scope_state \<Rightarrow> string \<Rightarrow> bool" where
  "live_turn s x \<longleftrightarrow> find_turn s x \<noteq> None"

definition closed_scope :: "scope_state \<Rightarrow> bool" where
  "closed_scope s \<longleftrightarrow>
     (\<forall>k c. bm_get (child_threads s) k = Some c \<longrightarrow> is_conv s (ct_session_id c)
        \<and> (\<forall>p. ct_parent_thread_id c = Some p \<longrightarrow> live_thread s p))
     \<and> (\<forall>k t. bm_get (turns s) k = Some t \<longrightarrow> live_thread s (te_thread_id t)
        \<and> live_turn s (te_root_turn_id t) \<and> (\<forall>p. te_parent_turn_id t = Some p \<longrightarrow> live_turn s p))
     \<and> (\<forall>h x. (h, Some x) \<in> set (current_turn_pointers s) \<longrightarrow> live_turn s x)
     \<and> (\<forall>k i x. bm_get (generated_items s) k = Some i \<and> gi_turn_id i = Some x \<longrightarrow> live_turn s x)
     \<and> (\<forall>k m. bm_get (compaction_markers s) k = Some m \<longrightarrow> live_thread s (cm_thread_id m))
     \<and> (\<forall>k e ow. bm_get (wire_ids s) k = Some e \<and> we_owner e = Some ow \<longrightarrow> live_thread s (wo_thread_id ow))"

definition scope_cut :: "scope_state \<Rightarrow> scope_state \<Rightarrow> bool" where
  "scope_cut s s' \<longleftrightarrow> sub_scope s s' \<and> ids_unique s \<and> closed_scope s'"

lemma sub_scopeD:
  assumes "sub_scope s s'"
  shows "bm_get (conversations s') k = Some e' \<Longrightarrow> \<exists>e. bm_get (conversations s) k = Some e \<and> conv_cleared e e'"
    and "bm_get (child_threads s') k = Some c' \<Longrightarrow> \<exists>c. bm_get (child_threads s) k = Some c \<and> child_cleared c c'"
    and "bm_get (turns s') k = Some t \<Longrightarrow> bm_get (turns s) k = Some t"
    and "bm_get (generated_items s') k = Some i \<Longrightarrow> bm_get (generated_items s) k = Some i"
    and "bm_get (compaction_markers s') k = Some m \<Longrightarrow> bm_get (compaction_markers s) k = Some m"
    and "bm_get (wire_ids s') k = Some w \<Longrightarrow> bm_get (wire_ids s) k = Some w"
    and "bm_get (wire_upstream_index s') k = Some u \<Longrightarrow> bm_get (wire_upstream_index s) k = Some u"
    and "bm_get (scoped_installations s') k = Some n \<Longrightarrow> bm_get (scoped_installations s) k = Some n"
  using assms unfolding sub_scope_def sub_map_def by blast+

lemma ids_unique_sub:
  assumes sub: "sub_scope s s'" and unique: "ids_unique s"
  shows "ids_unique s'"
  unfolding ids_unique_iff
proof (intro conjI allI impI; elim conjE)
  fix k k' v v'
  { assume v: "bm_get (conversations s') k = Some v" "bm_get (conversations s') k' = Some v'" "conv_id v = conv_id v'"
    with sub_scopeD(1) [OF sub v(1)] sub_scopeD(1) [OF sub v(2)] show "k = k'"
      by (auto simp: conv_cleared_simps(1) intro: unique_conv [OF unique]) }
  { assume v: "bm_get (child_threads s') k = Some v" "bm_get (child_threads s') k' = Some v'" "ct_id v = ct_id v'"
    with sub_scopeD(2) [OF sub v(1)] sub_scopeD(2) [OF sub v(2)] show "k = k'"
      by (auto simp: child_cleared_simps(1) intro: unique_child [OF unique]) }
  { assume v: "bm_get (turns s') k = Some v" "bm_get (turns s') k' = Some v'" "te_id v = te_id v'"
    with sub_scopeD(3) [OF sub v(1)] sub_scopeD(3) [OF sub v(2)] show "k = k'"
      by (auto intro: unique_turn [OF unique]) }
  { assume v: "bm_get (conversations s') k = Some v" "bm_get (child_threads s') k' = Some v'"
    with sub_scopeD(1) [OF sub v(1)] sub_scopeD(2) [OF sub v(2)] show "conv_id v \<noteq> ct_id v'"
      by (auto simp: child_cleared_simps(1) conv_cleared_simps(1) dest: conv_not_child [OF unique]) }
qed

lemma conv_no_child: "ids_unique s \<Longrightarrow> is_conv s x \<Longrightarrow> find_child s x = None"
  unfolding is_conv_def by (cases "find_child s x") (auto simp: find_child_iff dest: conv_not_child)

lemma conv_live: "sub_scope s s' \<Longrightarrow> is_conv s' x \<Longrightarrow> is_conv s x"
proof -
  assume sub: "sub_scope s s'" and "is_conv s' x"
  then obtain k e' where e': "bm_get (conversations s') k = Some e'" "conv_id e' = x" by (auto simp: is_conv_def)
  with sub_scopeD(1) [OF sub e'(1)] show "is_conv s x"
    by (auto simp: is_conv_def conv_cleared_simps(1)) blast
qed

lemma find_turn_live:
  assumes "sub_scope s s'" "ids_unique s" "live_turn s' x"
  shows "find_turn s' x = find_turn s x"
proof -
  from assms(3) obtain t where "find_turn s' x = Some t" by (auto simp: live_turn_def)
  with assms(1,2) show ?thesis
    using find_turn_iff [OF ids_unique_sub [OF assms(1,2)], of x t] find_turn_iff [OF assms(2), of x t]
    by (auto dest: sub_scopeD(3))
qed

lemma find_child_sub:
  assumes "sub_scope s s'" "ids_unique s" "find_child s' x = Some c'"
  shows "\<exists>c. find_child s x = Some c \<and> child_cleared c c'"
proof -
  from assms(3) obtain k where "bm_get (child_threads s') k = Some c'" "ct_id c' = x"
    by (auto simp: find_child_iff [OF ids_unique_sub [OF assms(1,2)]])
  with sub_scopeD(2) [OF assms(1)] obtain c where "bm_get (child_threads s) k = Some c" "child_cleared c c'" "ct_id c = x"
    by (metis child_cleared_simps(1))
  then show ?thesis by (auto simp: find_child_iff [OF assms(2)])
qed

lemma belongs_live:
  assumes "sub_scope s s'" "ids_unique s" "live_thread s' x"
  shows "thread_belongs_to_session s' x = thread_belongs_to_session s x"
proof (cases "is_conv s' x")
  case True
  then show ?thesis using conv_live [OF assms(1)] by (simp add: belongs_eq)
next
  case False
  with assms(3) obtain c' where c': "find_child s' x = Some c'" by (auto simp: live_thread_def belongs_eq)
  with find_child_sub [OF assms(1,2)] obtain c where c: "find_child s x = Some c" "child_cleared c c'" by blast
  then have "\<not> is_conv s x" using conv_no_child [OF assms(2)] by auto
  with False c c' show ?thesis by (simp add: belongs_eq child_cleared_simps)
qed

lemma find_child_live:
  assumes "sub_scope s s'" "ids_unique s" "live_thread s' x" "find_child s x = Some c"
  shows "\<exists>c'. find_child s' x = Some c' \<and> child_cleared c c'"
proof -
  have "\<not> is_conv s' x" using conv_live [OF assms(1)] conv_no_child [OF assms(2)] assms(4) by fastforce
  with assms(3) obtain c' where "find_child s' x = Some c'" by (auto simp: live_thread_def belongs_eq)
  with find_child_sub [OF assms(1,2) this] assms(4) show ?thesis by auto
qed

text \<open>The two bounded loops still reach their root in the cut scope.\<close>

lemma card_ids_le: "card (f ` set (bm_values m)) \<le> bm_len m"
  by (metis bm_len_def bm_values_def card_image_le card_length finite_set image_set length_map le_trans)

lemma thread_walk_cut:
  assumes cut: "scope_cut s s'" and c': "bm_get (child_threads s') k = Some c'"
    and walk: "walk (thread_step s z) n (ct_parent_thread_id c') = Some None"
  shows "walk (thread_step s' z) (Suc (bm_len (child_threads s'))) (ct_parent_thread_id c') = Some None"
proof (rule walk_transport [OF walk])
  note sub = cut [unfolded scope_cut_def, THEN conjunct1]
  from cut have uniq: "ids_unique s" and closed: "closed_scope s'" by (auto simp: scope_cut_def)
  let ?A = "insert z (ct_id ` set (bm_values (child_threads s')))"
  fix xs assume chain: "chain (thread_step s z) (ct_parent_thread_id c') xs"
  have step: "live_thread s' y" if "live_thread s' x" "thread_step s z x = Some (Some y)" for x y
  proof -
    from that(2) obtain c where c: "find_child s x = Some c" "ct_parent_thread_id c = Some y"
      by (auto simp: thread_step_def split: if_splits)
    with find_child_live [OF sub uniq that(1)] obtain c1 where "find_child s' x = Some c1" "ct_parent_thread_id c1 = Some y"
      by (auto simp: child_cleared_simps)
    with closed show ?thesis
      by (auto simp: find_child_iff [OF ids_unique_sub [OF sub uniq]] closed_scope_def)
  qed
  have "\<forall>x \<in> set xs. live_thread s' x \<and> thread_step s z x \<noteq> None"
    by (rule chain_invariant [OF chain _ step]) (use closed c' in \<open>auto simp: closed_scope_def\<close>)
  moreover have "thread_step s' z x = thread_step s z x \<and> x \<in> ?A"
    if "live_thread s' x" "thread_step s z x \<noteq> None" for x
  proof (cases "x = z")
    case False
    with that(2) obtain c where c: "find_child s x = Some c" by (auto simp: thread_step_def)
    with find_child_live [OF sub uniq that(1)] obtain c1 where c1: "find_child s' x = Some c1" "child_cleared c c1" by blast
    then have "c1 \<in> set (bm_values (child_threads s'))" "ct_id c1 = x"
      by (auto simp: find_child_iff [OF ids_unique_sub [OF sub uniq]] in_bm_values)
    then have "x \<in> ?A" by blast
    with c c1 False show ?thesis by (simp add: thread_step_def child_cleared_simps)
  qed (simp add: thread_step_def)
  ultimately show "\<forall>x \<in> set xs. thread_step s' z x = thread_step s z x \<and> x \<in> ?A" by blast
next
  show "card (insert z (ct_id ` set (bm_values (child_threads s')))) \<le> Suc (bm_len (child_threads s'))"
    using card_insert_le_m1 card_ids_le [of ct_id "child_threads s'"] by (simp add: card_insert_if)
qed simp

lemma turn_walk_cut:
  assumes cut: "scope_cut s s'" and t: "bm_get (turns s') k = Some t"
    and walk: "walk (turn_step s) n (te_parent_turn_id t) = Some None"
  shows "walk (turn_step s') (Suc (bm_len (turns s'))) (te_parent_turn_id t) = Some None"
proof (rule walk_transport [OF walk])
  note sub = cut [unfolded scope_cut_def, THEN conjunct1]
  from cut have uniq: "ids_unique s" and closed: "closed_scope s'" by (auto simp: scope_cut_def)
  let ?A = "te_id ` set (bm_values (turns s'))"
  note iff' = find_turn_iff [OF ids_unique_sub [OF sub uniq]]
  fix xs assume chain: "chain (turn_step s) (te_parent_turn_id t) xs"
  have step: "live_turn s' y" if "live_turn s' x" "turn_step s x = Some (Some y)" for x y
    using that find_turn_live [OF sub uniq that(1)] closed by (auto simp: turn_step_def iff' closed_scope_def)
  have "\<forall>x \<in> set xs. live_turn s' x \<and> turn_step s x \<noteq> None"
    by (rule chain_invariant [OF chain _ step]) (use closed t in \<open>auto simp: closed_scope_def\<close>)
  moreover have "turn_step s' x = turn_step s x \<and> x \<in> ?A" if "live_turn s' x" for x
    using that find_turn_live [OF sub uniq that] by (auto simp: turn_step_def live_turn_def iff' in_bm_values)
  ultimately show "\<forall>x \<in> set xs. turn_step s' x = turn_step s x \<and> x \<in> ?A" by blast
next
  show "card (te_id ` set (bm_values (turns s'))) \<le> Suc (bm_len (turns s'))"
    using card_ids_le [of te_id "turns s'"] by simp
qed simp

section \<open>A closed cut of a sound scope is sound\<close>

lemma is_ok_child_relationship:
  "is_ok (validate_child_relationship s c) \<longleftrightarrow> is_conv s (ct_session_id c)
     \<and> (\<forall>p. ct_parent_thread_id c = Some p \<longrightarrow> p \<noteq> ct_id c \<and> thread_belongs_to_session s p = Some (ct_session_id c))
     \<and> walk (thread_step s (ct_session_id c)) (Suc (bm_len (child_threads s))) (ct_parent_thread_id c) = Some None"
proof -
  have "(\<exists>conversation \<in> set (bm_values (conversations s)). conv_id conversation = ct_session_id c)
      \<longleftrightarrow> is_conv s (ct_session_id c)"
    unfolding is_conv_def Bex_def in_bm_values by blast
  then show ?thesis
    by (simp add: validate_child_relationship_def is_some_and_iff is_ok_rbind thread_ancestry_walk
        del: checks.simps walk.simps thread_ancestry.simps)
qed

lemma is_ok_turn_relationship:
  "is_ok (validate_turn_relationship s t) \<longleftrightarrow>
     (\<exists>z. thread_belongs_to_session s (te_thread_id t) = Some z
       \<and> is_ok (validate_classifier_turn s t) \<and> is_ok (validate_turn_root s z t) \<and> is_ok (validate_turn_parent s z t)
       \<and> walk (turn_step s) (Suc (bm_len (turns s))) (te_parent_turn_id t) = Some None)"
  by (simp add: validate_turn_relationship_def is_ok_rbind turn_ancestry_walk
      del: checks.simps walk.simps turn_ancestry.simps)

lemma cut_child_relationship:
  assumes cut: "scope_cut s s'" and sound: "scope_sound ext s" and c': "bm_get (child_threads s') k = Some c'"
  shows "is_ok (validate_child_relationship s' c')"
proof -
  from cut have sub: "sub_scope s s'" and uniq: "ids_unique s" and closed: "closed_scope s'"
    by (auto simp: scope_cut_def)
  obtain c where c: "bm_get (child_threads s) k = Some c" and cl: "child_cleared c c'"
    using sub_scopeD(2) [OF sub c'] by blast
  from sound c have ok: "is_ok (validate_child_relationship s c)" by (auto simp: scope_sound_iff)
  then have "walk (thread_step s' (ct_session_id c')) (Suc (bm_len (child_threads s'))) (ct_parent_thread_id c') = Some None"
    unfolding is_ok_child_relationship
    by (intro thread_walk_cut [OF cut c', where n = "Suc (bm_len (child_threads s))"])
      (simp add: child_cleared_simps [OF cl])
  moreover have "is_conv s' (ct_session_id c')" "\<And>p. ct_parent_thread_id c' = Some p \<Longrightarrow> live_thread s' p"
    using closed c' by (auto simp: closed_scope_def)
  ultimately show ?thesis
    using ok by (simp add: is_ok_child_relationship child_cleared_simps [OF cl] belongs_live [OF sub uniq])
qed

lemma cut_turn_relationship:
  assumes cut: "scope_cut s s'" and sound: "scope_sound ext s" and t: "bm_get (turns s') k = Some t"
  shows "is_ok (validate_turn_relationship s' t)"
proof -
  from cut have sub: "sub_scope s s'" and uniq: "ids_unique s" and closed: "closed_scope s'"
    by (auto simp: scope_cut_def)
  note uniq' = ids_unique_sub [OF sub uniq]
  from sound sub_scopeD(3) [OF sub t] have "is_ok (validate_turn_relationship s t)" by (auto simp: scope_sound_iff)
  then obtain z where z: "thread_belongs_to_session s (te_thread_id t) = Some z"
    and ok: "is_ok (validate_classifier_turn s t)" "is_ok (validate_turn_root s z t)" "is_ok (validate_turn_parent s z t)"
    and walk: "walk (turn_step s) (Suc (bm_len (turns s))) (te_parent_turn_id t) = Some None"
    unfolding is_ok_turn_relationship by blast
  from closed t have live: "live_thread s' (te_thread_id t)" "live_turn s' (te_root_turn_id t)"
    "\<And>p. te_parent_turn_id t = Some p \<Longrightarrow> live_turn s' p"
    by (auto simp: closed_scope_def)
  have thread: "live_thread s' (te_thread_id u)" if "find_turn s' x = Some u" for x u
    using that closed by (auto simp: find_turn_iff [OF uniq'] closed_scope_def)
  have "is_ok (validate_turn_root s' z t)"
    using ok(2) find_turn_live [OF sub uniq live(2)] thread
    by (auto simp: validate_turn_root_def is_ok_rbind belongs_live [OF sub uniq] simp del: checks.simps)
  moreover have "is_ok (validate_turn_parent s' z t)"
    using ok(3) find_turn_live [OF sub uniq live(3)] thread
    by (auto simp: validate_turn_parent_def is_ok_rbind belongs_live [OF sub uniq] simp del: checks.simps)
  moreover have "is_ok (validate_classifier_turn s' t)"
  proof (cases "te_classifier t")
    case True
    with ok(1) obtain c source where c: "find_child s (te_thread_id t) = Some c" "ct_parent_thread_id c = Some source"
      and parent: "\<And>p. te_parent_turn_id t = Some p \<Longrightarrow>
        \<exists>u \<in> set (bm_values (turns s)). te_id u = p \<and> te_thread_id u = source"
      by (auto simp: validate_classifier_turn_def is_ok_rbind bind_eq_Some_conv)
    with find_child_live [OF sub uniq live(1)] obtain c1
      where c1: "find_child s' (te_thread_id t) = Some c1" "ct_parent_thread_id c1 = Some source"
      by (auto simp: child_cleared_simps)
    have "\<exists>u \<in> set (bm_values (turns s')). te_id u = p \<and> te_thread_id u = source"
      if p: "te_parent_turn_id t = Some p" for p
    proof -
      from parent [OF p] obtain u where "find_turn s p = Some u" "te_thread_id u = source"
        by (auto simp: find_turn_iff [OF uniq] in_bm_values)
      with find_turn_live [OF sub uniq live(3) [OF p]] show ?thesis
        by (intro bexI [of _ u]) (auto simp: find_turn_iff [OF uniq'] in_bm_values)
    qed
    with c1 True show ?thesis by (auto simp: validate_classifier_turn_def)
  qed (simp add: validate_classifier_turn_def)
  ultimately show ?thesis
    using z turn_walk_cut [OF cut t walk] belongs_live [OF sub uniq live(1)]
    by (auto simp: is_ok_turn_relationship)
qed

lemma sub_map_keys:
  assumes "sub_map R m m'" and "is_ok (validate_map_keys m)"
  shows "is_ok (validate_map_keys m')"
  using assms unfolding validate_map_keys_def is_ok_for_each Ball_def in_bm_keys sub_map_def by blast

lemma cut_current_turn:
  assumes sub: "sub_scope s s'" and uniq: "ids_unique s" and live: "live_turn s' x"
    and ok: "is_ok (validate_current_turn s (h, Some x))"
  shows "is_ok (validate_current_turn s' (h, Some x))"
proof -
  from ok obtain t where "find_turn s x = Some t" "te_thread_id t = h"
    by (auto simp: validate_current_turn_def find_turn_iff [OF uniq] in_bm_values)
  with find_turn_live [OF sub uniq live] show ?thesis
    by (simp add: validate_current_turn_def)
      (intro bexI [of _ t], auto simp: find_turn_iff [OF ids_unique_sub [OF sub uniq]] in_bm_values)
qed

lemma pointers_sub:
  assumes "sub_scope s s'" and "(h, Some x) \<in> set (current_turn_pointers s')"
  shows "(h, Some x) \<in> set (current_turn_pointers s)"
proof -
  consider k e' where "bm_get (conversations s') k = Some e'" "h = conv_id e'" "conv_current_turn_id e' = Some x"
    | k e' where "bm_get (child_threads s') k = Some e'" "h = ct_id e'" "ct_current_turn_id e' = Some x"
    using assms(2) by (auto simp: current_turn_pointers_def in_bm_values)
  then show ?thesis
  proof cases
    case (1 k e')
    with sub_scopeD(1) [OF assms(1) 1(1)] obtain e where "bm_get (conversations s) k = Some e"
        "h = conv_id e" "conv_current_turn_id e = Some x"
      by (auto simp: conv_cleared_simps)
    then show ?thesis by (force simp: current_turn_pointers_def in_bm_values)
  next
    case (2 k e')
    with sub_scopeD(2) [OF assms(1) 2(1)] obtain e where "bm_get (child_threads s) k = Some e"
        "h = ct_id e" "ct_current_turn_id e = Some x"
      by (auto simp: child_cleared_simps)
    then show ?thesis by (force simp: current_turn_pointers_def in_bm_values)
  qed
qed

lemma cut_entries:
  assumes sub: "sub_scope s s'" and sound: "scope_sound ext s"
  shows "is_ok (validate_day (sc_last_seen_day s'))" and "is_ok (validate_scope_keys s')"
    and "bm_get (scoped_installations s') k = Some n \<Longrightarrow> is_ok (validate_installation_entry ext n)"
    and "bm_get (conversations s') k = Some e' \<Longrightarrow> is_ok (validate_conversation_entry ext e')"
    and "bm_get (child_threads s') k = Some c' \<Longrightarrow> is_ok (validate_child_entry ext c')"
    and "bm_get (turns s') k = Some t \<Longrightarrow> is_ok (validate_turn_entry ext t)"
proof -
  show "is_ok (validate_day (sc_last_seen_day s'))" using sub sound by (simp add: scope_sound_iff sub_scope_def)
  have "is_ok (validate_scope_keys s)" using sound by (simp add: scope_sound_iff)
  then show "is_ok (validate_scope_keys s')"
    using sub unfolding sub_scope_def validate_scope_keys_def by (auto intro: sub_map_keys simp del: checks.simps)
  show "bm_get (scoped_installations s') k = Some n \<Longrightarrow> is_ok (validate_installation_entry ext n)"
    using sound sub_scopeD(8) [OF sub, of k n] by (auto simp: scope_sound_iff)
  show "bm_get (turns s') k = Some t \<Longrightarrow> is_ok (validate_turn_entry ext t)"
    using sound sub_scopeD(3) [OF sub, of k t] by (auto simp: scope_sound_iff)
  show "is_ok (validate_conversation_entry ext e')" if e': "bm_get (conversations s') k = Some e'"
  proof -
    from sub_scopeD(1) [OF sub e'] obtain e where "bm_get (conversations s) k = Some e" "conv_cleared e e'" by blast
    moreover from this(1) have "is_ok (validate_conversation_entry ext e)" using sound by (auto simp: scope_sound_iff)
    ultimately show ?thesis
      by (auto simp: validate_conversation_entry_def validate_optional_uuid_v7_def conv_cleared_def simp del: checks.simps)
  qed
  show "is_ok (validate_child_entry ext c')" if c': "bm_get (child_threads s') k = Some c'"
  proof -
    from sub_scopeD(2) [OF sub c'] obtain c where "bm_get (child_threads s) k = Some c" "child_cleared c c'" by blast
    moreover from this(1) have "is_ok (validate_child_entry ext c)" using sound by (auto simp: scope_sound_iff)
    ultimately show ?thesis
      by (auto simp: validate_child_entry_def validate_optional_uuid_v7_def child_cleared_def simp del: checks.simps)
  qed
qed

lemma cut_details:
  assumes cut: "scope_cut s s'" and sound: "scope_sound ext s"
  shows "bm_get (generated_items s') k = Some i \<Longrightarrow> is_ok (validate_item_entry ext s' i)"
    and "bm_get (compaction_markers s') k = Some m \<Longrightarrow> is_ok (validate_marker_entry ext s' m)"
    and "bm_get (wire_ids s') k = Some w \<Longrightarrow> is_ok (validate_wire_owner ext s' w)"
proof -
  from cut have sub: "sub_scope s s'" and uniq: "ids_unique s" and closed: "closed_scope s'"
    by (auto simp: scope_cut_def)
  show "is_ok (validate_item_entry ext s' i)" if i: "bm_get (generated_items s') k = Some i"
  proof -
    have "\<exists>t \<in> set (bm_values (turns s')). te_id t = x" if x: "gi_turn_id i = Some x" for x
    proof -
      from closed i x have "live_turn s' x" by (auto simp: closed_scope_def)
      then obtain t where "find_turn s' x = Some t" by (auto simp: live_turn_def)
      then show ?thesis
        by (intro bexI [of _ t]) (auto simp: find_turn_iff [OF ids_unique_sub [OF sub uniq]] in_bm_values)
    qed
    moreover have "is_ok (validate_item_entry ext s i)"
      using sound sub_scopeD(4) [OF sub i] by (auto simp: scope_sound_iff)
    ultimately show ?thesis by (auto simp: validate_item_entry_def simp del: checks.simps)
  qed
  show "is_ok (validate_marker_entry ext s' m)" if m: "bm_get (compaction_markers s') k = Some m"
  proof -
    from closed m have "live_thread s' (cm_thread_id m)" by (auto simp: closed_scope_def)
    moreover have "is_ok (validate_marker_entry ext s m)"
      using sound sub_scopeD(5) [OF sub m] by (auto simp: scope_sound_iff)
    ultimately show ?thesis by (auto simp: validate_marker_entry_def live_thread_def simp del: checks.simps)
  qed
  show "is_ok (validate_wire_owner ext s' w)" if w: "bm_get (wire_ids s') k = Some w"
  proof -
    have live: "live_thread s' (wo_thread_id ow)" if "we_owner w = Some ow" for ow
      using closed w that by (auto simp: closed_scope_def)
    have "is_ok (validate_wire_entry ext s (k, w))"
      using sound sub_scopeD(6) [OF sub w] by (auto simp: scope_sound_iff)
    then have "is_ok (validate_wire_owner ext s w)" by (simp add: validate_wire_entry_def del: checks.simps)
    with live show ?thesis
      by (auto simp: validate_wire_owner_def belongs_live [OF sub uniq] simp del: checks.simps)
  qed
qed

lemma cut_sound:
  assumes cut: "scope_cut s s'" and sound: "scope_sound ext s" and wires: "wire_index_ok s'"
  shows "scope_sound ext s'"
proof -
  from cut have sub: "sub_scope s s'" and uniq: "ids_unique s" and closed: "closed_scope s'"
    by (auto simp: scope_cut_def)
  have pointers: "is_ok (validate_current_turn s' p)" if "p \<in> set (current_turn_pointers s')" for p
  proof (cases p)
    case (Pair h c)
    show ?thesis
    proof (cases c)
      case None
      then show ?thesis by (simp add: Pair validate_current_turn_def)
    next
      case (Some x)
      with that Pair have px: "(h, Some x) \<in> set (current_turn_pointers s')" by simp
      from closed px have live: "live_turn s' x" by (auto simp: closed_scope_def)
      from pointers_sub [OF sub px] sound have "is_ok (validate_current_turn s (h, Some x))"
        by (auto simp: scope_sound_iff)
      with cut_current_turn [OF sub uniq live] show ?thesis by (simp add: Pair Some)
    qed
  qed
  have wire: "is_ok (validate_wire_entry ext s' (k, e))" if e: "bm_get (wire_ids s') k = Some e" for k e
  proof -
    have "is_ok (validate_wire_entry ext s (k, e))"
      using sound sub_scopeD(6) [OF sub e] by (auto simp: scope_sound_iff)
    with cut_details(3) [OF cut sound e] wires e show ?thesis
      by (simp add: validate_wire_entry_def wire_index_ok_def del: checks.simps)
  qed
  have index: "is_ok (validate_index_entry s' (u, k))" if u: "bm_get (wire_upstream_index s') u = Some k" for u k
  proof -
    have "is_ok (validate_index_entry s (u, k))"
      using sound sub_scopeD(7) [OF sub u] by (auto simp: scope_sound_iff)
    with wires u show ?thesis
      by (auto simp: validate_index_entry_def wire_index_ok_def is_some_and_iff simp del: checks.simps)
  qed
  show ?thesis
    unfolding scope_sound_iff
    using cut_entries [OF sub sound] cut_child_relationship [OF cut sound] cut_turn_relationship [OF cut sound]
      pointers cut_details(1,2) [OF cut sound] wire index
    by (intro conjI allI impI ballI) assumption+
qed

end
