(* ===== verification/Prune_Cuts.thy ===== *)
theory Prune_Cuts
  imports Prune_Validity
begin

text \<open>
  Every removal of the pruner is a closed cut.  Two facts about a scope, which
  \<open>ScopeState::validate\<close> does not check, carry the argument: identifiers are unique, and turns
  follow the thread tree (\<open>lineage_ok\<close>): a turn's root and its parent run on a thread whose
  subtree contains the turn's own thread, and a turn that is its own root has no parent.
\<close>

definition lineage_ok :: "scope_state \<Rightarrow> bool" where
  "lineage_ok s \<longleftrightarrow>
     list_all (\<lambda>t. list_all (\<lambda>u.
         te_root_turn_id t = te_id u \<or> te_parent_turn_id t = Some (te_id u)
         \<longrightarrow> te_thread_id t \<in> set (descendant_thread_ids s (te_thread_id u))) (bm_values (turns s)))
       (bm_values (turns s))
     \<and> list_all (\<lambda>t. te_root_turn_id t = te_id t \<longrightarrow> te_parent_turn_id t = None) (bm_values (turns s))"

lemma lineage_okD:
  assumes "lineage_ok s" and "bm_get (turns s) k = Some t"
  shows "bm_get (turns s) j = Some u \<Longrightarrow> te_root_turn_id t = te_id u \<or> te_parent_turn_id t = Some (te_id u)
      \<Longrightarrow> te_thread_id t \<in> set (descendant_thread_ids s (te_thread_id u))"
    and "te_root_turn_id t = te_id t \<Longrightarrow> te_parent_turn_id t = None"
  using assms unfolding lineage_ok_def list_all_iff Ball_def in_bm_values by blast+

definition scope_ok :: "externals \<Rightarrow> scope_state \<Rightarrow> bool" where
  "scope_ok ext s \<longleftrightarrow> scope_sound ext s \<and> ids_unique s \<and> lineage_ok s"

lemma scope_okD: "scope_ok ext s \<Longrightarrow> scope_sound ext s" "scope_ok ext s \<Longrightarrow> ids_unique s"
    "scope_ok ext s \<Longrightarrow> lineage_ok s" "scope_ok ext s \<Longrightarrow> wire_index_ok s"
  by (auto simp: scope_ok_def dest: scope_sound_wires)

section \<open>A sound scope is closed\<close>

lemma live_turnI: "bm_get (turns s) k = Some t \<Longrightarrow> live_turn s (te_id t)"
  by (auto simp: live_turn_def find_turn_def find_value_None)

lemma live_threadI:
  "is_conv s x \<Longrightarrow> live_thread s x"
  "bm_get (child_threads s) k = Some c \<Longrightarrow> live_thread s (ct_id c)"
  using find_value_None [of "\<lambda>t. ct_id t = ct_id c" "child_threads s"]
  by (auto simp: live_thread_def belongs_eq find_child_def simp del: not_None_eq)

lemma live_threadE:
  assumes "live_thread s x"
  obtains "is_conv s x" | k c where "bm_get (child_threads s) k = Some c" "ct_id c = x"
  using assms by (auto simp: live_thread_def belongs_eq find_child_def split: if_splits dest!: find_value_Some)

lemma live_turnE:
  assumes "live_turn s x"
  obtains k t where "bm_get (turns s) k = Some t" "te_id t = x"
  using assms by (auto simp: live_turn_def find_turn_def dest!: find_value_Some)

lemma sound_closed:
  assumes "scope_sound ext s"
  shows "closed_scope s"
  unfolding closed_scope_def
proof (intro conjI allI impI; (elim conjE)?)
  fix k c assume "bm_get (child_threads s) k = Some c"
  with assms have "is_ok (validate_child_relationship s c)" by (auto simp: scope_sound_iff)
  then show "is_conv s (ct_session_id c)" and "\<And>p. ct_parent_thread_id c = Some p \<Longrightarrow> live_thread s p"
    by (auto simp: is_ok_child_relationship live_thread_def simp del: walk.simps)
next
  fix k t assume "bm_get (turns s) k = Some t"
  with assms have "is_ok (validate_turn_relationship s t)" by (auto simp: scope_sound_iff)
  then show "live_thread s (te_thread_id t)" "live_turn s (te_root_turn_id t)"
    "\<And>p. te_parent_turn_id t = Some p \<Longrightarrow> live_turn s p"
    by (auto simp: is_ok_turn_relationship validate_turn_root_def validate_turn_parent_def is_ok_rbind
        live_thread_def live_turn_def simp del: walk.simps checks.simps)
next
  fix h x assume "(h, Some x) \<in> set (current_turn_pointers s)"
  with assms have "is_ok (validate_current_turn s (h, Some x))" unfolding scope_sound_iff by blast
  then show "live_turn s x" by (auto simp: validate_current_turn_def in_bm_values intro: live_turnI)
next
  fix k i x assume "bm_get (generated_items s) k = Some i" and x: "gi_turn_id i = Some x"
  with assms have "is_ok (validate_item_entry ext s i)" by (auto simp: scope_sound_iff)
  with x show "live_turn s x" by (auto simp: validate_item_entry_def in_bm_values intro: live_turnI simp del: checks.simps)
next
  fix k m assume "bm_get (compaction_markers s) k = Some m"
  with assms have "is_ok (validate_marker_entry ext s m)" by (auto simp: scope_sound_iff)
  then show "live_thread s (cm_thread_id m)" by (simp add: validate_marker_entry_def live_thread_def del: checks.simps)
next
  fix k e ow assume e: "bm_get (wire_ids s) k = Some e" and ow: "we_owner e = Some ow"
  with assms have "is_ok (validate_wire_entry ext s (k, e))" by (auto simp: scope_sound_iff)
  with ow show "live_thread s (wo_thread_id ow)"
    by (auto simp: validate_wire_entry_def validate_wire_owner_def live_thread_def is_some_and_iff simp del: checks.simps)
qed

lemma closed_scopeD:
  assumes "closed_scope s"
  shows "bm_get (generated_items s) k = Some i \<Longrightarrow> gi_turn_id i = Some x \<Longrightarrow> live_turn s x"
    and "bm_get (compaction_markers s) k = Some m \<Longrightarrow> live_thread s (cm_thread_id m)"
    and "bm_get (wire_ids s) k = Some e \<Longrightarrow> we_owner e = Some ow \<Longrightarrow> live_thread s (wo_thread_id ow)"
  using assms unfolding closed_scope_def by blast+

text \<open>Cuts that leave threads and turns alone.\<close>

lemma detail_cut:
  assumes ok: "scope_ok ext s" and sub: "sub_scope s s'" and wires: "wire_index_ok s'"
    and same: "conversations s' = conversations s" "child_threads s' = child_threads s" "turns s' = turns s"
  shows "scope_ok ext s'"
proof -
  have live: "live_thread s' x = live_thread s x" "live_turn s' x = live_turn s x" "is_conv s' x = is_conv s x" for x
    unfolding live_thread_def live_turn_def is_conv_def thread_belongs_to_session_def find_turn_def same by (rule refl)+
  have "closed_scope s" using sound_closed scope_okD(1) [OF ok] by blast
  then have "closed_scope s'"
    unfolding closed_scope_def live current_turn_pointers_def same
    by (elim conjE, intro conjI) (assumption | blast dest: sub_scopeD(4-6) [OF sub])+
  with ok sub have "scope_cut s s'" by (simp add: scope_cut_def scope_ok_def)
  then have "scope_sound ext s'" using cut_sound ok wires by (auto simp: scope_ok_def)
  moreover have "lineage_ok s' = lineage_ok s"
    by (simp add: lineage_ok_def descendant_thread_ids_def same)
  ultimately show ?thesis using ok ids_unique_sub [OF sub] by (simp add: scope_ok_def)
qed

section \<open>Removing threads\<close>

text \<open>
  \<open>drops_threads T s s'\<close>: \<open>s'\<close> lost exactly the threads in \<open>T\<close> with their turns, the items of those
  turns, and their markers; no surviving wire pair is owned by a thread in \<open>T\<close>.
\<close>

definition drops_threads :: "string set \<Rightarrow> scope_state \<Rightarrow> scope_state \<Rightarrow> bool" where
  "drops_threads T s s' \<longleftrightarrow> sub_scope s s' \<and> wire_index_ok s'
     \<and> (\<forall>k. bm_get (conversations s') k = Option.bind (bm_get (conversations s) k)
          (\<lambda>e. if conv_id e \<in> T then None else Some e))
     \<and> (\<forall>k. bm_get (child_threads s') k = Option.bind (bm_get (child_threads s) k)
          (\<lambda>c. if ct_id c \<in> T then None else Some c))
     \<and> (\<forall>k. bm_get (turns s') k = Option.bind (bm_get (turns s) k)
          (\<lambda>t. if te_thread_id t \<in> T then None else Some t))
     \<and> (\<forall>k i x. bm_get (generated_items s') k = Some i \<and> gi_turn_id i = Some x \<longrightarrow> x \<notin> turn_ids_on s T)
     \<and> (\<forall>k m. bm_get (compaction_markers s') k = Some m \<longrightarrow> cm_thread_id m \<notin> T)
     \<and> (\<forall>k e ow. bm_get (wire_ids s') k = Some e \<and> we_owner e = Some ow \<longrightarrow> wo_thread_id ow \<notin> T)"

lemma drops_threadsD:
  assumes "drops_threads T s s'"
  shows "sub_scope s s'" "wire_index_ok s'"
    and "bm_get (conversations s') k = Some e \<longleftrightarrow> bm_get (conversations s) k = Some e \<and> conv_id e \<notin> T"
    and "bm_get (child_threads s') k = Some c \<longleftrightarrow> bm_get (child_threads s) k = Some c \<and> ct_id c \<notin> T"
    and "bm_get (turns s') k = Some t \<longleftrightarrow> bm_get (turns s) k = Some t \<and> te_thread_id t \<notin> T"
    and "bm_get (generated_items s') k = Some i \<Longrightarrow> gi_turn_id i = Some x \<Longrightarrow> x \<notin> turn_ids_on s T"
    and "bm_get (compaction_markers s') k = Some m \<Longrightarrow> cm_thread_id m \<notin> T"
    and "bm_get (wire_ids s') k = Some w \<Longrightarrow> we_owner w = Some ow \<Longrightarrow> wo_thread_id ow \<notin> T"
  using assms unfolding drops_threads_def by (auto simp: bind_eq_Some_conv split: if_splits)

lemma drops_live:
  assumes "drops_threads T s s'"
  shows "is_conv s x \<Longrightarrow> x \<notin> T \<Longrightarrow> is_conv s' x"
    and "live_thread s x \<Longrightarrow> x \<notin> T \<Longrightarrow> live_thread s' x"
    and "bm_get (turns s) k = Some t \<Longrightarrow> te_thread_id t \<notin> T \<Longrightarrow> live_turn s' (te_id t)"
proof -
  show conv: "is_conv s x \<Longrightarrow> x \<notin> T \<Longrightarrow> is_conv s' x"
    by (auto simp: is_conv_def drops_threadsD(3) [OF assms])
  show "live_turn s' (te_id t)" if "bm_get (turns s) k = Some t" "te_thread_id t \<notin> T"
    using that live_turnI [of s' k t] by (simp add: drops_threadsD(5) [OF assms])
  show "live_thread s' x" if "live_thread s x" "x \<notin> T"
    using that(1)
  proof (cases rule: live_threadE)
    case 1
    with that(2) show ?thesis by (intro live_threadI(1) conv)
  next
    case (2 k c)
    with that(2) live_threadI(2) [of s' k c] show ?thesis by (simp add: drops_threadsD(4) [OF assms])
  qed
qed

text \<open>A set of threads that is closed under children contains every subtree it meets.\<close>

definition child_closed :: "scope_state \<Rightarrow> string set \<Rightarrow> bool" where
  "child_closed s T \<longleftrightarrow> (\<forall>k c p. bm_get (child_threads s) k = Some c \<and> ct_parent_thread_id c = Some p \<and> p \<in> T
     \<longrightarrow> ct_id c \<in> T)"

lemma child_closed_subtree: "child_closed s T \<Longrightarrow> x \<in> T \<Longrightarrow> set (descendant_thread_ids s x) \<subseteq> T"
  by (rule descendant_thread_least) (auto simp: child_closed_def in_bm_values)

lemma drops_subtree:
  assumes drop: "drops_threads T s s'" and closed: "child_closed s T"
    and y: "y \<in> set (descendant_thread_ids s x)" "y \<notin> T"
  shows "y \<in> set (descendant_thread_ids s' x)"
proof -
  have "set (descendant_thread_ids s x) \<subseteq> set (descendant_thread_ids s' x) \<union> T"
  proof (rule descendant_thread_least)
    show "x \<in> set (descendant_thread_ids s' x) \<union> T" by (simp add: descendant_thread_root)
    fix c p assume c: "c \<in> set (bm_values (child_threads s))" "ct_parent_thread_id c = Some p"
      "p \<in> set (descendant_thread_ids s' x) \<union> T"
    show "ct_id c \<in> set (descendant_thread_ids s' x) \<union> T"
    proof (cases "ct_id c \<in> T")
      case False
      with c(1) have "c \<in> set (bm_values (child_threads s'))"
        by (auto simp: in_bm_values drops_threadsD(4) [OF drop])
      moreover have "p \<notin> T" using False closed c(1,2) by (auto simp: child_closed_def in_bm_values)
      ultimately show ?thesis using c(2,3) by (auto intro: descendant_thread_closed)
    qed simp
  qed
  with y show ?thesis by blast
qed

lemma drops_lineage:
  assumes ok: "lineage_ok s" and drop: "drops_threads T s s'" and closed: "child_closed s T"
  shows "lineage_ok s'"
  unfolding lineage_ok_def list_all_iff
proof (intro conjI ballI impI)
  fix t u assume "t \<in> set (bm_values (turns s'))" "u \<in> set (bm_values (turns s'))"
    and r: "te_root_turn_id t = te_id u \<or> te_parent_turn_id t = Some (te_id u)"
  then obtain j k where t: "bm_get (turns s) j = Some t" "te_thread_id t \<notin> T" and u: "bm_get (turns s) k = Some u"
    by (auto simp: in_bm_values drops_threadsD(5) [OF drop])
  from drops_subtree [OF drop closed lineage_okD(1) [OF ok t(1) u r] t(2)]
  show "te_thread_id t \<in> set (descendant_thread_ids s' (te_thread_id u))" .
next
  fix t assume "t \<in> set (bm_values (turns s'))" "te_root_turn_id t = te_id t"
  then show "te_parent_turn_id t = None"
    using lineage_okD(2) [OF ok] by (auto simp: in_bm_values drops_threadsD(5) [OF drop])
qed

lemma drops_closed:
  assumes ok: "scope_ok ext s" and drop: "drops_threads T s s'" and closed: "child_closed s T"
    and sessions: "\<And>k c. bm_get (child_threads s) k = Some c \<Longrightarrow> ct_id c \<notin> T \<Longrightarrow> ct_session_id c \<notin> T"
  shows "closed_scope s'"
proof -
  note D = drops_threadsD [OF drop] and L = drops_live [OF drop]
  have cs: "closed_scope s" by (rule sound_closed [OF scope_okD(1) [OF ok]])
  have pred: "live_turn s' x" if t: "bm_get (turns s) k = Some t" "te_thread_id t \<notin> T"
    and x: "te_root_turn_id t = x \<or> te_parent_turn_id t = Some x" for k t x
  proof -
    from cs t(1) x have "live_turn s x" unfolding closed_scope_def by blast
    then obtain j u where u: "bm_get (turns s) j = Some u" "te_id u = x" by (rule live_turnE)
    have "te_thread_id t \<in> set (descendant_thread_ids s (te_thread_id u))"
      using lineage_okD(1) [OF scope_okD(3) [OF ok] t(1) u(1)] x u(2) by simp
    with child_closed_subtree [OF closed] t(2) have "te_thread_id u \<notin> T" by blast
    with L(3) [OF u(1)] u(2) show ?thesis by simp
  qed
  have turn_of: "live_turn s' x" if "live_turn s x" "x \<notin> turn_ids_on s T" for x
    using that(1)
  proof (rule live_turnE)
    fix k t assume t: "bm_get (turns s) k = Some t" "te_id t = x"
    then have "te_thread_id t \<notin> T" using that(2) by (force simp: turn_ids_on_def in_bm_values)
    with L(3) [OF t(1)] t(2) show ?thesis by simp
  qed
  have pointer: "live_turn s' x" if "(h, Some x) \<in> set (current_turn_pointers s')" for h x
  proof -
    have h: "h \<notin> T" using that by (auto simp: current_turn_pointers_def in_bm_values D(3,4))
    from pointers_sub [OF D(1) that] have "is_ok (validate_current_turn s (h, Some x))"
      using ok unfolding scope_ok_def scope_sound_iff by blast
    then obtain k t where "bm_get (turns s) k = Some t" "te_id t = x" "te_thread_id t = h"
      by (auto simp: validate_current_turn_def in_bm_values)
    with L(3) [of k t] h show ?thesis by simp
  qed
  have child: "is_conv s' (ct_session_id c)" "ct_parent_thread_id c = Some p \<Longrightarrow> live_thread s' p"
    if c: "bm_get (child_threads s') k = Some c" for k c p
  proof -
    from c have c: "bm_get (child_threads s) k = Some c" "ct_id c \<notin> T" by (auto simp: D(4))
    with cs sessions [OF c] show "is_conv s' (ct_session_id c)" by (auto simp: closed_scope_def intro: L(1))
    show "live_thread s' p" if p: "ct_parent_thread_id c = Some p"
      using cs closed c p by (auto simp: closed_scope_def child_closed_def intro!: L(2))
  qed
  show ?thesis
    unfolding closed_scope_def
  proof (intro conjI allI impI; (elim conjE)?)
    fix k i x assume "bm_get (generated_items s') k = Some i" "gi_turn_id i = Some x"
    then show "live_turn s' x" by (intro turn_of closed_scopeD(1) [OF cs sub_scopeD(4) [OF D(1)]] D(6))
  next
    fix k m assume "bm_get (compaction_markers s') k = Some m"
    then show "live_thread s' (cm_thread_id m)"
      by (intro L(2) closed_scopeD(2) [OF cs sub_scopeD(5) [OF D(1)]] D(7))
  next
    fix k e ow assume "bm_get (wire_ids s') k = Some e" "we_owner e = Some ow"
    then show "live_thread s' (wo_thread_id ow)"
      by (intro L(2) closed_scopeD(3) [OF cs sub_scopeD(6) [OF D(1)]] D(8))
  next
    fix k t assume "bm_get (turns s') k = Some t"
    then have t: "bm_get (turns s) k = Some t" "te_thread_id t \<notin> T" by (auto simp: D(5))
    with cs show "live_thread s' (te_thread_id t)" by (auto simp: closed_scope_def intro: L(2))
    from t pred show "live_turn s' (te_root_turn_id t)" "\<And>p. te_parent_turn_id t = Some p \<Longrightarrow> live_turn s' p"
      by blast+
  qed (use child pointer in blast)+
qed

lemma drops_ok:
  assumes ok: "scope_ok ext s" and drop: "drops_threads T s s'" and closed: "child_closed s T"
    and sessions: "\<And>k c. bm_get (child_threads s) k = Some c \<Longrightarrow> ct_id c \<notin> T \<Longrightarrow> ct_session_id c \<notin> T"
  shows "scope_ok ext s'"
proof -
  have sub: "sub_scope s s'" and wires: "wire_index_ok s'" using drops_threadsD(1,2) [OF drop] .
  have "scope_cut s s'" using sub ok drops_closed [OF assms] by (simp add: scope_cut_def scope_ok_def)
  then have "scope_sound ext s'" by (rule cut_sound) (use ok wires in \<open>simp_all add: scope_ok_def\<close>)
  then show ?thesis
    using ok ids_unique_sub [OF sub] drops_lineage [OF _ drop closed] by (simp add: scope_ok_def)
qed

section \<open>The removals are cuts\<close>

lemma sub_map_eqI [simp]: "sub_map (=) m m" "sub_map (=) m (bm_remove k m)" "sub_map (=) m (bm_retain Q m)"
  by (auto simp: sub_map_def split: if_splits option.splits)

lemma sub_map_convI [simp]:
  "sub_map conv_cleared m m" "sub_map conv_cleared m (bm_remove k m)" "sub_map conv_cleared m (bm_map (\<lambda>_. clear_conv I) m)"
  by (auto simp: sub_map_def conv_cleared_def clear_conv_def split: if_splits)

lemma sub_map_childI [simp]:
  "sub_map child_cleared n n" "sub_map child_cleared n (bm_retain Q n)" "sub_map child_cleared n (bm_map (\<lambda>_. clear_child I) n)"
  by (auto simp: sub_map_def child_cleared_def clear_child_def split: if_splits option.splits)

lemma sub_scope_refl [simp]: "sub_scope s s"
  by (simp add: sub_scope_def)

lemma sub_map_trans:
  assumes "sub_map R m m'" "sub_map R m' m''" "\<And>a b c. R a b \<Longrightarrow> R b c \<Longrightarrow> R a c"
  shows "sub_map R m m''"
  using assms unfolding sub_map_def by metis

lemma sub_scope_trans: "sub_scope s s' \<Longrightarrow> sub_scope s' s'' \<Longrightarrow> sub_scope s s''"
  unfolding sub_scope_def
  by (elim conjE, intro conjI)
    (assumption | erule (1) trans [rotated] | erule (1) sub_map_trans, force simp: conv_cleared_def child_cleared_def)+

lemma sub_scope_drop_wires [simp]: "sub_scope s (drop_wires W s)"
  by (simp add: sub_scope_def) (simp add: drop_wires_def)

lemma sub_scope_cut [simp]: "sub_scope s (cut_scope TP I M W s)"
  by (simp add: sub_scope_def) (simp add: cut_scope_def drop_wires_def)

lemma sub_scope_cut_threads [simp]: "sub_scope s (cut_threads T P s)"
  by (simp add: cut_threads_def)

lemma wire_ids_cut_threads [simp]:
  "wire_ids (cut_threads T P s) = bm_retain (\<lambda>_ e. \<not> graph_wires s T P e) (wire_ids s)"
  by (simp add: cut_threads_def)

lemma owner_session:
  assumes "scope_sound ext s" and "bm_get (wire_ids s) k = Some e" and "we_owner e = Some ow"
  shows "thread_belongs_to_session s (wo_thread_id ow) = Some (wo_session_id ow)"
proof -
  from assms(1,2) have "is_ok (validate_wire_entry ext s (k, e))" by (auto simp: scope_sound_iff)
  with assms(3) show ?thesis
    by (auto simp: validate_wire_entry_def validate_wire_owner_def is_some_and_iff simp del: checks.simps)
qed

lemma child_session:
  assumes "scope_sound ext s" and "bm_get (child_threads s) k = Some c"
  shows "is_conv s (ct_session_id c)"
    and "ct_parent_thread_id c = Some p \<Longrightarrow> thread_belongs_to_session s p = Some (ct_session_id c)"
proof -
  from assms have "is_ok (validate_child_relationship s c)" by (auto simp: scope_sound_iff)
  then show "is_conv s (ct_session_id c)"
    and "ct_parent_thread_id c = Some p \<Longrightarrow> thread_belongs_to_session s p = Some (ct_session_id c)"
    by (auto simp: is_ok_child_relationship simp del: walk.simps)
qed

lemma belongs_child:
  assumes "ids_unique s" and "bm_get (child_threads s) k = Some c"
  shows "thread_belongs_to_session s (ct_id c) = Some (ct_session_id c)"
  using assms conv_no_child [OF assms(1)] find_child_iff [OF assms(1), of "ct_id c" c]
  by (auto simp: belongs_eq)

lemma session_threads_iff:
  assumes ok: "scope_ok ext s" and e: "bm_get (conversations s) key = Some e" and a: "a = conv_id e"
  shows "x \<in> set (session_thread_ids s a) \<longleftrightarrow> thread_belongs_to_session s x = Some a"
proof -
  have uniq: "ids_unique s" using ok by (rule scope_okD(2))
  have conv: "is_conv s a" using e a by (auto simp: is_conv_def)
  show ?thesis
  proof
    assume "x \<in> set (session_thread_ids s a)"
    then show "thread_belongs_to_session s x = Some a"
      using conv belongs_child [OF uniq] by (auto simp: set_session_thread_ids in_bm_values belongs_eq [of s a])
  next
    assume "thread_belongs_to_session s x = Some a"
    then show "x \<in> set (session_thread_ids s a)"
      by (auto simp: belongs_eq set_session_thread_ids find_child_iff [OF uniq] in_bm_values split: if_splits)
  qed
qed

lemma remove_conversation_ok:
  assumes ok: "scope_ok ext s" and e: "bm_get (conversations s) key = Some e"
  shows "scope_ok ext (remove_conversation_graph (conv_id e) (s\<lparr>conversations := bm_remove key (conversations s)\<rparr>))"
proof -
  define a where "a = conv_id e"
  define T where "T = set (session_thread_ids s a)"
  define s1 where "s1 = s\<lparr>conversations := bm_remove key (conversations s)\<rparr>"
  define s2 where "s2 = drop_wires (\<lambda>e. we_domain e = Session \<and> we_upstream_id e = a)
    (s1\<lparr>child_threads := bm_retain (\<lambda>_ t. ct_session_id t \<noteq> a) (child_threads s1)\<rparr>)"
  define s' where "s' = cut_threads T (\<lambda>owner. wo_session_id owner = a) s2"
  have sound: "scope_sound ext s" and uniq: "ids_unique s" and wires: "wire_index_ok s"
    using scope_okD [OF ok] by auto
  have "set (session_thread_ids s1 a) = T" by (simp add: T_def s1_def session_thread_ids_def)
  with remove_conversation_graph_eq [of s1 a] wires have eq: "remove_conversation_graph a s1 = s'"
    by (simp add: s'_def s2_def Let_def s1_def)
  have T: "x \<in> T \<longleftrightarrow> thread_belongs_to_session s x = Some a" for x
    unfolding T_def by (rule session_threads_iff [OF ok e a_def])
  have "sub_scope s (s1\<lparr>child_threads := bm_retain (\<lambda>_ t. ct_session_id t \<noteq> a) (child_threads s1)\<rparr>)"
    by (simp add: s1_def sub_scope_def)
  then have "sub_scope s s2" unfolding s2_def by (rule sub_scope_trans) simp
  then have sub: "sub_scope s s'" unfolding s'_def by (rule sub_scope_trans) simp
  have conv: "conv_id v \<in> T \<longleftrightarrow> k = key" if "bm_get (conversations s) k = Some v" for k v
    using that e unique_conv [OF uniq that e] by (auto simp: T belongs_eq is_conv_def a_def)
  have child: "ct_id c \<in> T \<longleftrightarrow> ct_session_id c = a" if "bm_get (child_threads s) k = Some c" for k c
    using belongs_child [OF uniq that] by (simp add: T)
  have "wire_index_ok s'" by (simp add: s'_def s2_def s1_def wires cut_threads_ok drop_wires_ok)
  with sub have "drops_threads T s s'"
    unfolding drops_threads_def
  proof (intro conjI allI impI; (elim conjE)?)
    fix k
    show "bm_get (conversations s') k =
        Option.bind (bm_get (conversations s) k) (\<lambda>e. if conv_id e \<in> T then None else Some e)"
      using conv [of k] by (cases "bm_get (conversations s) k") (auto simp: s'_def s2_def s1_def)
    show "bm_get (child_threads s') k =
        Option.bind (bm_get (child_threads s) k) (\<lambda>c. if ct_id c \<in> T then None else Some c)"
      using child [of k] by (cases "bm_get (child_threads s) k") (auto simp: s'_def s2_def s1_def)
    show "bm_get (turns s') k =
        Option.bind (bm_get (turns s) k) (\<lambda>t. if te_thread_id t \<in> T then None else Some t)"
      by (cases "bm_get (turns s) k") (auto simp: s'_def s2_def s1_def)
  next
    fix k w ow assume "bm_get (wire_ids s') k = Some w" "we_owner w = Some ow"
    then show "wo_thread_id ow \<notin> T"
      using owner_session [OF sound sub_scopeD(6) [OF sub], of k w ow]
      by (auto simp: T s'_def graph_wires_def owned_wires_def split: option.splits if_splits)
  qed (auto simp: s'_def s2_def s1_def is_none_or_iff split: option.splits if_splits)
  moreover have "child_closed s T"
    unfolding child_closed_def using child child_session(2) [OF sound] by (auto simp: T)
  moreover have "ct_session_id c \<notin> T" if "bm_get (child_threads s) k = Some c" "ct_id c \<notin> T" for k c
    using that child [OF that(1)] child_session(1) [OF sound that(1)] by (simp add: T belongs_eq [of s "ct_session_id c"])
  ultimately have "scope_ok ext s'" by (rule drops_ok [OF ok])
  then show ?thesis by (simp add: eq [symmetric] a_def s1_def)
qed

lemma remove_child_thread_ok:
  assumes ok: "scope_ok ext s" and e: "bm_get (child_threads s) key = Some e"
  shows "scope_ok ext (remove_child_thread_graph (ct_id e) s)"
proof -
  define T where "T = set (descendant_thread_ids s (ct_id e))"
  define s1 where "s1 = s\<lparr>child_threads := bm_retain (\<lambda>_ t. ct_id t \<notin> T) (child_threads s)\<rparr>"
  define s' where "s' = cut_threads T (\<lambda>owner. wo_thread_id owner \<in> T) s1"
  have sound: "scope_sound ext s" and uniq: "ids_unique s" and wires: "wire_index_ok s"
    using scope_okD [OF ok] by auto
  have eq: "remove_child_thread_graph (ct_id e) s = s'"
    by (simp add: remove_child_thread_graph_eq [OF wires] s'_def s1_def T_def Let_def)
  have "T \<subseteq> ct_id ` set (bm_values (child_threads s))"
    unfolding T_def by (rule descendant_thread_least) (use e in \<open>auto simp: in_bm_values intro!: imageI\<close>)
  then have "\<exists>c. find_child s x = Some c" if "x \<in> T" for x
  proof -
    from that \<open>T \<subseteq> _\<close> obtain c where "c \<in> set (bm_values (child_threads s))" "ct_id c = x" by blast
    then show ?thesis using find_child_iff [OF uniq, of x c] by (auto simp: in_bm_values)
  qed
  then have no_conv: "x \<notin> T" if "is_conv s x" for x
    using conv_no_child [OF uniq that] by force
  have "sub_scope s s1" by (simp add: s1_def sub_scope_def)
  then have sub: "sub_scope s s'" unfolding s'_def by (rule sub_scope_trans) simp
  have "wire_index_ok s'" by (simp add: s'_def s1_def wires cut_threads_ok)
  with sub have "drops_threads T s s'"
    unfolding drops_threads_def
  proof (intro conjI allI impI; (elim conjE)?)
    fix k
    have "bm_get (conversations s) k = Some v \<Longrightarrow> conv_id v \<notin> T" for v
      using no_conv by (auto simp: is_conv_def)
    then show "bm_get (conversations s') k =
        Option.bind (bm_get (conversations s) k) (\<lambda>e. if conv_id e \<in> T then None else Some e)"
      by (cases "bm_get (conversations s) k") (auto simp: s'_def s1_def)
    show "bm_get (child_threads s') k =
        Option.bind (bm_get (child_threads s) k) (\<lambda>c. if ct_id c \<in> T then None else Some c)"
      by (cases "bm_get (child_threads s) k") (auto simp: s'_def s1_def)
    show "bm_get (turns s') k =
        Option.bind (bm_get (turns s) k) (\<lambda>t. if te_thread_id t \<in> T then None else Some t)"
      by (cases "bm_get (turns s) k") (auto simp: s'_def s1_def)
  qed (auto simp: s'_def s1_def is_none_or_iff graph_wires_def owned_wires_def split: option.splits if_splits)
  moreover have "child_closed s T"
    unfolding child_closed_def T_def using descendant_thread_closed [of _ s _ "ct_id e"]
    by (auto simp: in_bm_values)
  moreover have "ct_session_id c \<notin> T" if "bm_get (child_threads s) k = Some c" "ct_id c \<notin> T" for k c
    using no_conv child_session(1) [OF sound that(1)] by blast
  ultimately have "scope_ok ext s'" by (rule drops_ok [OF ok])
  then show ?thesis by (simp add: eq)
qed

lemma turn_descendants_roots:
  assumes lineage: "lineage_ok s" and t: "bm_get (turns s) k = Some t" "te_root_turn_id t = te_id t"
    and D: "te_id t \<in> set (descendant_turn_ids s a)" and uniq: "ids_unique s"
  shows "te_id t = a"
proof -
  let ?S = "{x. x = a \<or> (\<forall>k u. bm_get (turns s) k = Some u \<and> te_id u = x \<longrightarrow> te_root_turn_id u \<noteq> x)}"
  have same: "u = v" if "bm_get (turns s) i = Some u" "bm_get (turns s) j = Some v" "te_id u = te_id v" for i j u v
    using unique_turn [OF uniq that] that by simp
  have "set (descendant_turn_ids s a) \<subseteq> ?S"
  proof (rule descendant_turn_least)
    fix u assume "u \<in> set (bm_values (turns s))" "te_root_turn_id u = a"
    then show "te_id u \<in> ?S" by (auto simp: in_bm_values dest: same)
  next
    fix u p assume "u \<in> set (bm_values (turns s))" "te_parent_turn_id u = Some p"
    then show "te_id u \<in> ?S" using lineage_okD(2) [OF lineage] by (auto simp: in_bm_values dest: same)
  qed simp
  with D t show ?thesis by auto
qed

lemma turn_cut_closed:
  assumes ok: "scope_ok ext s" and D: "D = set (descendant_turn_ids s a)"
    and s': "s' = cut_scope (\<lambda>t. te_id t \<in> D) D (\<lambda>_. False) W
      (s\<lparr>conversations := bm_map (\<lambda>_. clear_conv D) (conversations s),
         child_threads := bm_map (\<lambda>_. clear_child D) (child_threads s)\<rparr>)"
    and sub: "sub_scope s s'"
  shows "closed_scope s'"
proof -
  have sound: "scope_sound ext s" and uniq: "ids_unique s" and lineage: "lineage_ok s"
    using scope_okD [OF ok] by auto
  have cs: "closed_scope s" by (rule sound_closed [OF sound])
  have turn: "live_turn s' x" if "live_turn s x" "x \<notin> D" for x
    using that(1)
  proof (rule live_turnE)
    fix k t assume t: "bm_get (turns s) k = Some t" "te_id t = x"
    then have "bm_get (turns s') k = Some t" using that(2) by (simp add: s')
    from live_turnI [OF this] t(2) show ?thesis by simp
  qed
  have conv: "is_conv s' x = is_conv s x" for x
    by (simp add: is_conv_def s') (metis clear_conv_simps(1))
  have thread: "live_thread s' x" if "live_thread s x" for x
    using that
  proof (cases rule: live_threadE)
    case 1
    then show ?thesis by (simp add: conv live_threadI(1))
  next
    case (2 k c)
    then have "bm_get (child_threads s') k = Some (clear_child D c)" by (simp add: s')
    from live_threadI(2) [OF this] 2(2) show ?thesis by simp
  qed
  have root: "te_root_turn_id t \<notin> D" if t: "bm_get (turns s) k = Some t" "te_id t \<notin> D" for k t
  proof
    assume r: "te_root_turn_id t \<in> D"
    from sound t(1) have "is_ok (validate_turn_relationship s t)" by (auto simp: scope_sound_iff)
    then obtain u j where u: "bm_get (turns s) j = Some u" "te_id u = te_root_turn_id t" "te_root_turn_id u = te_id u"
      by (auto simp: is_ok_turn_relationship validate_turn_root_def is_ok_rbind find_turn_iff [OF uniq]
          simp del: walk.simps checks.simps)
    have "te_root_turn_id t = a"
      using turn_descendants_roots [OF lineage u(1,3) _ uniq] r u(2) by (simp add: D)
    then have "te_id t \<in> D" unfolding D by (intro descendant_turn_closed) (use t(1) in \<open>auto simp: in_bm_values\<close>)
    with t(2) show False by contradiction
  qed
  have parent: "p \<notin> D" if "bm_get (turns s) k = Some t" "te_id t \<notin> D" "te_parent_turn_id t = Some p" for k t p
    using that descendant_turn_closed [of t s a] by (auto simp: D in_bm_values)
  have pointer: "x \<notin> D" if "(h, Some x) \<in> set (current_turn_pointers s')" for h x
    using that
    by (auto simp: current_turn_pointers_def in_bm_values s' clear_conv_Some clear_child_Some dest!: sym [of "Some x"])
  show ?thesis
    unfolding closed_scope_def
  proof (intro conjI allI impI; (elim conjE)?)
    fix k c assume "bm_get (child_threads s') k = Some c"
    then obtain c0 where c0: "bm_get (child_threads s) k = Some c0" "c = clear_child D c0" by (auto simp: s')
    with cs have *: "is_conv s (ct_session_id c0)" "ct_parent_thread_id c0 = Some p \<Longrightarrow> live_thread s p" for p
      unfolding closed_scope_def by blast+
    show "is_conv s' (ct_session_id c)" using * c0(2) by (simp add: conv)
    show "live_thread s' p" if "ct_parent_thread_id c = Some p" for p using * c0(2) that by (simp add: thread)
  next
    fix k t assume "bm_get (turns s') k = Some t"
    then have t: "bm_get (turns s) k = Some t" "te_id t \<notin> D" by (auto simp: s' split: option.splits if_splits)
    with cs have *: "live_thread s (te_thread_id t)" "live_turn s (te_root_turn_id t)"
        "te_parent_turn_id t = Some p \<Longrightarrow> live_turn s p" for p
      unfolding closed_scope_def by blast+
    show "live_thread s' (te_thread_id t)" by (rule thread [OF *(1)])
    show "live_turn s' (te_root_turn_id t)" by (rule turn [OF *(2) root [OF t]])
    show "live_turn s' p" if "te_parent_turn_id t = Some p" for p
      by (rule turn [OF *(3) [OF that] parent [OF t that]])
  next
    fix h x assume hx: "(h, Some x) \<in> set (current_turn_pointers s')"
    from cs pointers_sub [OF sub hx] have "live_turn s x" unfolding closed_scope_def by blast
    then show "live_turn s' x" by (rule turn [OF _ pointer [OF hx]])
  next
    fix k i x assume i: "bm_get (generated_items s') k = Some i" "gi_turn_id i = Some x"
    then have "x \<notin> D" by (auto simp: s' is_none_or_iff split: option.splits if_splits)
    with turn closed_scopeD(1) [OF cs sub_scopeD(4) [OF sub i(1)] i(2)] show "live_turn s' x" by blast
  next
    fix k m assume "bm_get (compaction_markers s') k = Some m"
    from thread [OF closed_scopeD(2) [OF cs sub_scopeD(5) [OF sub this]]] show "live_thread s' (cm_thread_id m)" .
  next
    fix k e ow assume "bm_get (wire_ids s') k = Some e" "we_owner e = Some ow"
    from thread [OF closed_scopeD(3) [OF cs sub_scopeD(6) [OF sub this(1)] this(2)]]
    show "live_thread s' (wo_thread_id ow)" .
  qed
qed

lemma remove_turn_ok:
  assumes ok: "scope_ok ext s"
  shows "scope_ok ext (remove_turn_graph a s)"
proof -
  define D where "D = set (descendant_turn_ids s a)"
  define s1 where "s1 = s\<lparr>conversations := bm_map (\<lambda>_. clear_conv D) (conversations s),
    child_threads := bm_map (\<lambda>_. clear_child D) (child_threads s)\<rparr>"
  define s' where "s' = cut_scope (\<lambda>t. te_id t \<in> D) D (\<lambda>_. False) (turn_wires D (item_ids_in s D)) s1"
  have sound: "scope_sound ext s" and uniq: "ids_unique s" and lineage: "lineage_ok s" and wires: "wire_index_ok s"
    using scope_okD [OF ok] by auto
  have eq: "remove_turn_graph a s = s'"
    by (simp add: remove_turn_graph_eq [OF wires] s'_def s1_def D_def Let_def)
  have "sub_scope s s1" by (simp add: s1_def sub_scope_def)
  then have sub: "sub_scope s s'" unfolding s'_def by (rule sub_scope_trans) simp
  have wires': "wire_index_ok s'" by (simp add: s'_def s1_def wires cut_scope_ok)
  have "closed_scope s'"
    by (rule turn_cut_closed [OF ok D_def _ sub]) (simp add: s'_def s1_def)
  with sub uniq have "scope_cut s s'" by (simp add: scope_cut_def)
  from cut_sound [OF this sound wires'] have "scope_sound ext s'" .
  moreover have "lineage_ok s'"
  proof -
    have desc: "y \<in> set (descendant_thread_ids s x) \<Longrightarrow> y \<in> set (descendant_thread_ids s' x)" for x y
    proof -
      have "set (descendant_thread_ids s x) \<subseteq> set (descendant_thread_ids s' x)"
      proof (rule descendant_thread_least)
        fix c p assume c: "c \<in> set (bm_values (child_threads s))" "ct_parent_thread_id c = Some p"
          "p \<in> set (descendant_thread_ids s' x)"
        then have "clear_child D c \<in> set (bm_values (child_threads s'))" by (auto simp: s'_def s1_def in_bm_values)
        from descendant_thread_closed [OF this] c show "ct_id c \<in> set (descendant_thread_ids s' x)" by simp
      qed (rule descendant_thread_root)
      then show "y \<in> set (descendant_thread_ids s x) \<Longrightarrow> y \<in> set (descendant_thread_ids s' x)" by blast
    qed
    show ?thesis
      unfolding lineage_ok_def list_all_iff
    proof (intro conjI ballI impI)
      fix t u assume "t \<in> set (bm_values (turns s'))" "u \<in> set (bm_values (turns s'))"
        and r: "te_root_turn_id t = te_id u \<or> te_parent_turn_id t = Some (te_id u)"
      then obtain i j where "bm_get (turns s) i = Some t" "bm_get (turns s) j = Some u"
        by (auto simp: in_bm_values dest: sub_scopeD(3) [OF sub])
      from desc [OF lineage_okD(1) [OF lineage this r]]
      show "te_thread_id t \<in> set (descendant_thread_ids s' (te_thread_id u))" .
    next
      fix t assume "t \<in> set (bm_values (turns s'))" "te_root_turn_id t = te_id t"
      then show "te_parent_turn_id t = None"
        using lineage_okD(2) [OF lineage sub_scopeD(3) [OF sub]] by (auto simp: in_bm_values)
    qed
  qed
  ultimately show ?thesis using ids_unique_sub [OF sub uniq] by (simp add: eq scope_ok_def)
qed

lemma sub_scope_remove_wire_key: "sub_scope s (remove_wire_key k s)"
  by (cases "bm_get (wire_ids s) k") (auto simp: remove_wire_key_def sub_scope_def)

lemma remove_scope_entry_ok:
  assumes ok: "scope_ok ext s"
  shows "scope_ok ext (remove_scope_entry kind key s)"
proof -
  note wires = scope_okD(4) [OF ok]
  have detail: "scope_ok ext (remove_scope_entry kind key s)"
    if "kind \<in> {KInstallation, KGeneratedItem, KCompactionMarker}"
  proof (rule detail_cut [OF ok])
    show "wire_index_ok (remove_scope_entry kind key s)" by (rule remove_scope_entry_wires [OF wires])
    show "sub_scope s (remove_scope_entry kind key s)"
      using that
      by (auto simp: sub_scope_def split: option.splits)
        (auto simp: remove_wire_pairs_eq wires drop_wires_def)
  qed (use that in \<open>auto split: option.splits\<close>)
  show ?thesis
  proof (cases kind)
    case KWireId
    have "scope_ok ext (remove_wire_key key s)"
      using remove_scope_entry_wires [OF wires, of KWireId key] remove_wire_key_frame [of key s]
      by (intro detail_cut [OF ok sub_scope_remove_wire_key]) auto
    with KWireId show ?thesis by simp
  qed (use ok detail remove_conversation_ok [OF ok] remove_child_thread_ok [OF ok] remove_turn_ok [OF ok]
      in \<open>auto split: option.splits\<close>)
qed

end
