(* ===== verification/Prune_Correct.thy ===== *)
theory Prune_Correct
  imports Prune_Cuts
begin

text \<open>
  The contract of \<open>PersistedRequestState::prune\<close> and \<open>evict_one\<close>: a successful pass turns a sound
  ledger of any size into one that \<open>validate\<close> accepts.
\<close>

definition header_sound :: "externals \<Rightarrow> persisted_request_state \<Rightarrow> bool" where
  "header_sound ext st \<longleftrightarrow> is_ok (checks
     [ensure (ps_version st = REQUEST_STATE_VERSION) (Msg ''unsupported request state version''),
      ensure (ps_revision st \<ge> INITIAL_REQUEST_STATE_REVISION) (Msg ''invalid request state revision''),
      validate_uuid_version ext (ps_installation_id st) 4 ''installation'',
      ensure (ps_tool_inventory_revision st \<le> 1) (Msg ''unsupported inventory revision''),
      ensure (bm_len (ps_tool_inventory_revocations st) \<le> MAX_TOOL_INVENTORY_REVOCATIONS)
        (Msg ''too many tool inventory revocations''),
      for_each validate_lookup_key (bm_keys (ps_tool_inventory_revocations st)),
      ensure (bm_len (ps_owners st) \<noteq> 0) (Msg ''request state has no owners''),
      ensure (bm_len (ps_owners st) \<le> MAX_OWNERS) (Msg ''too many request state owners''),
      for_each validate_account_ref (bm_keys (ps_owners st))])"

definition state_sound :: "externals \<Rightarrow> persisted_request_state \<Rightarrow> bool" where
  "state_sound ext st \<longleftrightarrow> header_sound ext st
     \<and> list_all (\<lambda>(key, scope). is_ok (validate_lookup_key key) \<and> scope_ok ext scope)
         (bm_entries (ps_scopes st))"

lemma state_sound_iff:
  "state_sound ext st \<longleftrightarrow> header_sound ext st
     \<and> (\<forall>key scope. bm_get (ps_scopes st) key = Some scope
          \<longrightarrow> is_ok (validate_lookup_key key) \<and> scope_ok ext scope)"
  by (auto simp: state_sound_def list_all_iff bm_get_iff)

lemma prune_step_sound: "prune_step protected st st' \<Longrightarrow> state_sound ext st \<Longrightarrow> state_sound ext st'"
  by (induction rule: prune_step.induct)
    (auto simp: state_sound_iff header_sound_def remove_entry_scope remove_scope_def remove_entry_def
      remove_scope_entry_ok simp del: checks.simps split: if_splits)

lemma prune_steps_sound: "prune_steps protected st st' \<Longrightarrow> state_sound ext st \<Longrightarrow> state_sound ext st'"
  by (erule prune_steps_keep) (auto dest: prune_step_sound)

lemma state_sound_wires: "state_sound ext st \<Longrightarrow> wires_ok st"
  by (auto simp: state_sound_iff wires_ok_def dest: scope_okD(4))

definition limits_hold :: "persisted_request_state \<Rightarrow> bool" where
  "limits_hold st \<longleftrightarrow>
     list_all (\<lambda>scope. list_all (\<lambda>(kind, maximum). entry_count scope kind \<le> maximum) scope_limits)
       (bm_values (ps_scopes st))
     \<and> list_all (\<lambda>(kind, maximum). total_entries st kind \<le> maximum) total_limits
     \<and> bm_len (ps_scopes st) \<le> MAX_SCOPES"

lemma sum_scopes_total: "sum_scopes (\<lambda>s. entry_count s kind) st = total_entries st kind"
  by (simp add: sum_scopes_def total_entries_def)

lemma limits_global_caps: "limits_hold st \<Longrightarrow> is_ok (validate_global_caps st)"
  using sum_scopes_total [of KInstallation st] sum_scopes_total [of KConversation st]
    sum_scopes_total [of KChildThread st] sum_scopes_total [of KTurn st]
    sum_scopes_total [of KGeneratedItem st] sum_scopes_total [of KCompactionMarker st]
    sum_scopes_total [of KWireId st]
  by (simp add: limits_hold_def total_limits_def validate_global_caps_def)

lemma limits_scope_caps:
  assumes "limits_hold st" and "bm_get (ps_scopes st) sk = Some scope" and "wire_index_ok scope"
  shows "is_ok (validate_scope_caps scope)"
proof -
  from assms(1,2) have "list_all (\<lambda>(kind, maximum). entry_count scope kind \<le> maximum) scope_limits"
    by (auto simp: limits_hold_def list_all_iff in_bm_values)
  with wire_index_len [OF assms(3)] show ?thesis
    by (simp add: scope_limits_def validate_scope_caps_def del: checks.simps)
qed

lemma sound_limits_valid:
  assumes "state_sound ext st" and "limits_hold st"
  shows "validate_state ext st = Inr ()"
proof -
  have "is_ok (validate_scope ext scope)" if "bm_get (ps_scopes st) sk = Some scope" for sk scope
    using that assms limits_scope_caps [OF assms(2) that]
    by (auto simp: state_sound_iff validate_scope_sound is_ok_unit scope_ok_def dest: scope_sound_wires)
  then have "is_ok (for_each (\<lambda>(key, scope). checks [validate_lookup_key key, validate_scope ext scope])
      (bm_entries (ps_scopes st)))"
    using assms(1) by (auto simp: state_sound_iff bm_get_iff [symmetric] simp del: checks.simps)
  with assms limits_global_caps [OF assms(2)] show ?thesis
    unfolding is_ok_unit [symmetric] validate_state_def
    by (simp add: state_sound_def header_sound_def limits_hold_def del: checks.simps is_ok_for_each)
qed

lemma prune_limits:
  assumes "prune day protected st = (Inr c, st')"
  shows "limits_hold st'"
proof -
  obtain st1 st2 st3 where steps: "prune_steps protected st2 st3" "prune_steps protected st3 st'"
    and scope: "\<And>kind maximum sk. (kind, maximum) \<in> set scope_limits \<Longrightarrow> scope_count st2 sk kind \<le> maximum"
    and total: "\<And>kind maximum. (kind, maximum) \<in> set total_limits \<Longrightarrow> total_entries st3 kind \<le> maximum"
    and table: "bm_len (ps_scopes st') \<le> MAX_SCOPES"
    using assms by (rule prune_phases) blast
  from steps have "prune_steps protected st2 st'" by (rule rtranclp_trans)
  then have "scope_count st' sk kind \<le> scope_count st2 sk kind" for sk kind by (rule prune_steps_scope_count)
  then have scope': "scope_count st' sk kind \<le> maximum" if "(kind, maximum) \<in> set scope_limits" for kind maximum sk
    using scope [OF that] by (rule le_trans)
  have total': "total_entries st' kind \<le> maximum" if "(kind, maximum) \<in> set total_limits" for kind maximum
    using prune_steps_total [OF steps(2)] total [OF that] by (rule le_trans)
  have "entry_count scope kind \<le> maximum"
    if "bm_get (ps_scopes st') sk = Some scope" "(kind, maximum) \<in> set scope_limits" for sk scope kind maximum
    using scope' [OF that(2), of sk] that(1) by (simp add: scope_count_def)
  with total' table show ?thesis
    unfolding limits_hold_def list_all_iff by (auto simp: in_bm_values)
qed

section \<open>Expiry\<close>

text \<open>Every entry of this kind that may go is at least as recent as the cutoff.\<close>

definition fresh :: "entry_kind \<Rightarrow> int \<Rightarrow> protected_state_keys \<Rightarrow> persisted_request_state \<Rightarrow> bool" where
  "fresh kind cutoff protected st \<longleftrightarrow>
     list_all (\<lambda>(day, _). cutoff \<le> day) (removal_candidates st kind None protected)"

lemma fresh_iff:
  "fresh kind cutoff protected st \<longleftrightarrow>
     (\<forall>sk scope key day. bm_get (ps_scopes st) sk = Some scope \<and> scope_entry_day scope kind key = Some day
        \<and> removable scope kind sk key protected \<longrightarrow> cutoff \<le> day)"
proof -
  have keys: "scope_entry_day scope kind key = Some day \<Longrightarrow> key \<in> set (entry_keys scope kind)" for scope key day
    by (cases kind) (auto simp: in_bm_keys)
  have cands: "(day, sk, key) \<in> set (removal_candidates st kind None protected) \<longleftrightarrow>
      (\<exists>scope. bm_get (ps_scopes st) sk = Some scope \<and> scope_entry_day scope kind key = Some day
        \<and> removable scope kind sk key protected)" for day sk key
    unfolding in_removal_candidates entry_day_def using keys by (cases "bm_get (ps_scopes st) sk") (auto simp: is_none_or_def)
  have "fresh kind cutoff protected st \<longleftrightarrow>
      (\<forall>day sk key. (day, sk, key) \<in> set (removal_candidates st kind None protected) \<longrightarrow> cutoff \<le> day)"
    by (auto simp: fresh_def list_all_iff)
  then show ?thesis unfolding cands by blast
qed

lemma expire_kind_fresh: "fresh kind cutoff protected (snd (expire_kind kind cutoff protected changed st))"
proof (induction kind cutoff protected changed st rule: expire_kind.induct)
  case (1 kind cutoff protected changed st)
  show ?case
  proof (cases "oldest_entry st kind None protected")
    case None
    then have "removal_candidates st kind None protected = []" by (simp add: oldest_entry_def)
    with None show ?thesis by (subst expire_kind.simps) (simp add: fresh_def)
  next
    case (Some p)
    obtain sk key where p: "p = (sk, key)" by (cases p)
    obtain day where day: "entry_day st kind sk key = Some day"
      and le: "\<And>day' sk' key'. (day', sk', key') \<in> set (removal_candidates st kind None protected) \<Longrightarrow> day \<le> day'"
      using Some p by (auto elim: oldest_entry_Some)
    show ?thesis
    proof (cases "day < cutoff")
      case True
      then show ?thesis
        using "1.IH" [OF Some p [symmetric]] by (subst expire_kind.simps) (simp add: Some p day)
    next
      case False
      with le have "fresh kind cutoff protected st" by (fastforce simp: fresh_def list_all_iff)
      with False show ?thesis by (subst expire_kind.simps) (simp add: Some p day)
    qed
  qed
qed

text \<open>Wire pairs, items and markers are protected one by one, so later removals cannot undo this.\<close>

definition detail_kinds :: "entry_kind set" where
  "detail_kinds = {KWireId, KGeneratedItem, KCompactionMarker}"

lemma remove_scope_entry_day:
  assumes "wire_index_ok s" and "kind' \<in> detail_kinds"
    and "scope_entry_day (remove_scope_entry kind key s) kind' k = Some day"
  shows "scope_entry_day s kind' k = Some day"
proof (cases kind)
  case KWireId
  with assms show ?thesis
    by (cases "bm_get (wire_ids s) key") (auto simp: detail_kinds_def remove_wire_key_def split: if_splits)
qed (use assms in \<open>auto simp: detail_kinds_def remove_conversation_graph_eq remove_child_thread_graph_eq
    remove_turn_graph_eq remove_wire_pairs_eq Let_def drop_wires_def split: option.splits if_splits\<close>)

lemma prune_step_fresh:
  assumes "prune_step protected s t" and "wires_ok s" and "kind \<in> detail_kinds" and "fresh kind cutoff protected s"
  shows "fresh kind cutoff protected t"
proof -
  have removable: "removable scope kind sk key protected \<longleftrightarrow> \<not> directly_protected kind (sk, key) protected"
    for scope sk key using assms(3) by (auto simp: removable_def detail_kinds_def)
  from assms(1,2,4) show ?thesis
  proof (induction rule: prune_step.induct)
    case (drop_entry st sk scope key kind')
    have old: "cutoff \<le> day" if "scope_entry_day (remove_scope_entry kind' key scope) kind k = Some day"
        "\<not> directly_protected kind (sk, k) protected" for k day
      using remove_scope_entry_day [OF _ assms(3) that(1)] drop_entry that(2)
      unfolding fresh_iff removable wires_ok_def by blast
    from drop_entry show ?case
      unfolding fresh_iff removable by (auto simp: remove_entry_scope dest: old split: if_splits)
  qed (auto simp: fresh_iff remove_scope_def split: if_splits)
qed

lemma prune_steps_fresh:
  assumes "prune_steps protected s t" and "wires_ok s" and "kind \<in> detail_kinds" and "fresh kind cutoff protected s"
  shows "fresh kind cutoff protected t"
proof -
  have "wires_ok t \<and> fresh kind cutoff protected t"
    by (rule prune_steps_keep [OF assms(1), where P = "\<lambda>t. wires_ok t \<and> fresh kind cutoff protected t"])
      (use assms(2-) prune_step_fresh prune_step_wires in auto)
  then show ?thesis ..
qed

lemma expire_kinds_fresh:
  assumes "wires_ok st" and "kind \<in> set kinds" and "kind \<in> detail_kinds"
  shows "fresh kind cutoff protected
    (snd (foldl (\<lambda>(changed, s) kind. expire_kind kind cutoff protected changed s) (changed, st) kinds))"
  using assms(1,2)
proof (induction kinds arbitrary: changed st rule: rev_induct)
  case (snoc k kinds)
  define p where "p = foldl (\<lambda>(changed, s) kind. expire_kind kind cutoff protected changed s) (changed, st) kinds"
  have ok: "wires_ok (snd p)"
    unfolding p_def by (rule prune_steps_wires [OF expire_kinds_steps]) (simp add: snoc.prems(1))
  have last: "fresh k cutoff protected (snd (expire_kind k cutoff protected (fst p) (snd p)))"
    by (rule expire_kind_fresh)
  have "fresh kind cutoff protected (snd (expire_kind k cutoff protected (fst p) (snd p)))"
  proof (cases "kind = k")
    case False
    with snoc have "fresh kind cutoff protected (snd p)" by (simp add: p_def)
    then show ?thesis by (rule prune_steps_fresh [OF expire_kind_steps ok assms(3)])
  qed (use last in simp)
  then show ?case by (simp add: p_def case_prod_unfold)
qed simp

lemma prune_expired_turns:
  "fresh KTurn (i64_saturating_sub day DETAIL_RETENTION_DAYS) protected (snd (prune_expired day protected st))"
  by (simp add: prune_expired_def Let_def case_prod_unfold expire_kind_fresh)

lemma prune_fresh:
  assumes "prune day protected st = (Inr c, st')" and "wires_ok st" and "kind \<in> detail_kinds"
  shows "fresh kind (i64_saturating_sub day DETAIL_RETENTION_DAYS) protected st'"
proof -
  obtain st1 st2 st3 where steps: "prune_steps protected st st1" "prune_steps protected st1 st2"
      "prune_steps protected st2 st3" "prune_steps protected st3 st'"
    and st1: "st1 = snd (prune_expired day protected st)"
    using assms(1) by (rule prune_phases) blast
  from steps(2-4) have "prune_steps protected st1 st'" by (meson rtranclp_trans)
  moreover have "fresh kind (i64_saturating_sub day DETAIL_RETENTION_DAYS) protected st1"
    unfolding st1 prune_expired_def Let_def
    by (rule expire_kinds_fresh [OF assms(2) _ assms(3)]) (use assms(3) in \<open>auto simp: detail_kinds_def\<close>)
  ultimately show ?thesis using prune_steps_fresh prune_steps_wires [OF steps(1) assms(2)] assms(3) by blast
qed

section \<open>Eviction\<close>

definition ledger_size :: "persisted_request_state \<Rightarrow> nat" where
  "ledger_size st = bm_len (ps_scopes st)
     + sum_list (map (total_entries st) [KInstallation, KConversation, KChildThread, KTurn,
         KGeneratedItem, KCompactionMarker, KWireId])"

lemma prune_step_size: "prune_step protected st st' \<Longrightarrow> ledger_size st' < ledger_size st"
proof -
  assume step: "prune_step protected st st'"
  have le: "total_entries st' kind \<le> total_entries st kind" for kind by (rule prune_step_total [OF step])
  from step show ?thesis
  proof cases
    case (drop_entry sk scope key kind)
    have "total_entries st' kind < total_entries st kind"
      using remove_scope_entry_less [OF drop_entry(3)] total_entries_remove [OF drop_entry(2), of kind key kind]
        drop_entry(1) by simp
    moreover have "bm_len (ps_scopes st') = bm_len (ps_scopes st)"
      using drop_entry(1) by (simp add: remove_entry_def)
    ultimately show ?thesis
      using le [of KInstallation] le [of KConversation] le [of KChildThread] le [of KTurn]
        le [of KGeneratedItem] le [of KCompactionMarker] le [of KWireId]
      by (cases kind) (simp_all add: ledger_size_def)
  next
    case (drop_scope sk scope)
    have "bm_len (ps_scopes st') < bm_len (ps_scopes st)"
      using bm.len_remove_less [OF drop_scope(2)] drop_scope(1) by (simp add: remove_scope_def)
    then show ?thesis
      using le [of KInstallation] le [of KConversation] le [of KChildThread] le [of KTurn]
        le [of KGeneratedItem] le [of KCompactionMarker] le [of KWireId]
      by (simp add: ledger_size_def)
  qed
qed

lemma evict_first_None:
  "evict_first kinds protected st = None \<Longrightarrow> kind \<in> set kinds \<Longrightarrow> oldest_entry st kind None protected = None"
  by (induction kinds) (auto split: option.splits)

lemma evict_one_stuck:
  assumes "evict_one protected st = (False, st')"
  shows "st' = st" and "bm_get (ps_scopes st) sk = Some scope \<Longrightarrow> sk \<in> pk_scopes protected"
    and "bm_get (ps_scopes st) sk = Some scope \<Longrightarrow> key \<in> set (entry_keys scope kind)
      \<Longrightarrow> \<not> removable scope kind sk key protected"
proof -
  let ?kinds = "[KWireId, KGeneratedItem, KCompactionMarker, KTurn, KChildThread, KConversation, KInstallation]"
  from assms have none: "evict_first ?kinds protected st = None" "oldest_scope st protected = None" and "st' = st"
    by (auto simp: evict_one_def simp del: evict_first.simps split: option.splits)
  then show "st' = st" by simp
  show "sk \<in> pk_scopes protected" if "bm_get (ps_scopes st) sk = Some scope"
    using none(2) that by (auto simp: oldest_scope_def filter_empty_conv bm_get_iff)
  have "kind \<in> set ?kinds" by (cases kind) simp_all
  from evict_first_None [OF none(1) this]
  show "\<not> removable scope kind sk key protected"
    if "bm_get (ps_scopes st) sk = Some scope" "key \<in> set (entry_keys scope kind)"
    using that oldest_entry_None [of st kind None protected sk scope key] by (simp add: is_none_or_def)
qed

end
