(* ===== verification/Ledger_Demo.thy ===== *)
theory Ledger_Demo
  imports Prune_Correct
begin

text \<open>
  A small ledger on which the properties are instantiated: one scope with a conversation, two
  sibling child threads, a turn on each of the three threads, an item, a compaction marker and a
  response pair owned by a child.  \<open>demo_ext\<close> is a stand-in for the third-party functions in which
  the first character of an identifier is its UUID version.
\<close>

definition demo_ext :: externals where
  "demo_ext = \<lparr>
     uuid_version = (\<lambda>s. case s of [] \<Rightarrow> None
       | c # _ \<Rightarrow> if c = CHR ''4'' then Some 4 else if c = CHR ''7'' then Some 7 else None),
     new_v4 = (\<lambda>n. CHR ''4'' # replicate n CHR ''n''),
     now_v7 = (\<lambda>n. CHR ''7'' # replicate n CHR ''n''),
     sha256 = (\<lambda>s. s),
     hmac_sha256 = (\<lambda>key s. key @ s),
     base64_url_safe_no_pad = (\<lambda>s. s)\<rparr>"

definition demo_key :: "char \<Rightarrow> string" where
  "demo_key c = ''lk_aaaaaaaaaaaaaaaaaaaaaaaaaaaaaaaaaaaaaaaaaa'' @ [c]"

definition demo_conversation :: conversation_entry where
  "demo_conversation = \<lparr>conv_id = ''7c'', conv_window_number = 0,
     conv_current_turn_id = Some ''7t'', conv_last_seen_day = 90\<rparr>"

definition demo_child :: "string \<Rightarrow> string \<Rightarrow> int \<Rightarrow> child_thread_entry" where
  "demo_child x turn day = \<lparr>ct_id = x, ct_session_id = ''7c'', ct_parent_thread_id = Some ''7c'',
     ct_window_number = 0, ct_current_turn_id = Some turn, ct_last_seen_day = day\<rparr>"

definition demo_turn :: "string \<Rightarrow> string \<Rightarrow> string option \<Rightarrow> int \<Rightarrow> turn_entry" where
  "demo_turn x thread parent day = \<lparr>te_id = x, te_thread_id = thread,
     te_inventory_source_thread_id = None, te_classifier = False, te_root_turn_id = ''7t'',
     te_parent_turn_id = parent, te_started_at_unix_ms = 0, te_last_seen_day = day\<rparr>"

definition demo_wire :: wire_id_entry where
  "demo_wire = \<lparr>we_domain = Response, we_origin = Upstream, we_downstream_id = ''resp_down'',
     we_upstream_id = ''resp_up'', we_upstream_lookup = demo_key CHR ''e'',
     we_owner = Some \<lparr>wo_session_id = ''7c'', wo_thread_id = ''7h''\<rparr>, we_last_seen_day = 90\<rparr>"

text \<open>\<open>parent\<close> is the parent of the third turn.\<close>

definition demo_scope :: "string \<Rightarrow> scope_state" where
  "demo_scope parent = (scope_new 90)\<lparr>
     conversations := bm_insert (demo_key CHR ''c'') demo_conversation bm_empty,
     child_threads := bm_insert (demo_key CHR ''h'') (demo_child ''7h'' ''7u'' 5)
       (bm_insert (demo_key CHR ''k'') (demo_child ''7k'' ''7v'' 90) bm_empty),
     turns := bm_insert (demo_key CHR ''t'') (demo_turn ''7t'' ''7c'' None 90)
       (bm_insert (demo_key CHR ''u'') (demo_turn ''7u'' ''7h'' (Some ''7t'') 5)
       (bm_insert (demo_key CHR ''v'') (demo_turn ''7v'' ''7k'' (Some parent) 90) bm_empty)),
     generated_items := bm_insert (demo_key CHR ''i'') \<lparr>gi_id = ''msg_7i'', gi_turn_id = Some ''7u'',
       gi_create_time_micros = None, gi_last_seen_day = 90\<rparr> bm_empty,
     compaction_markers := bm_insert (demo_key CHR ''m'') \<lparr>cm_thread_id = ''7h'', cm_window_number = 1,
       cm_last_seen_day = 5\<rparr> bm_empty,
     wire_ids := bm_insert (demo_key CHR ''d'') demo_wire bm_empty,
     wire_upstream_index := bm_insert (demo_key CHR ''e'') (demo_key CHR ''d'') bm_empty\<rparr>"

definition demo_state :: "string \<Rightarrow> persisted_request_state" where
  "demo_state parent = (state_new ''4i'' (bm_insert ''acct_demo'' () bm_empty))\<lparr>
     ps_scopes := bm_insert (demo_key CHR ''s'') (demo_scope parent) bm_empty\<rparr>"

text \<open>The edit touched the scope, the turn on the root thread and the compaction marker.\<close>

definition demo_protected :: protected_state_keys where
  "demo_protected = protected_default\<lparr>pk_scopes := {demo_key CHR ''s''},
     pk_turns := {(demo_key CHR ''s'', demo_key CHR ''t'')},
     pk_compaction_markers := {(demo_key CHR ''s'', demo_key CHR ''m'')}\<rparr>"

lemma demo_state_sound: "state_sound demo_ext (demo_state ''7t'')"
  by code_simp

lemma demo_prune_ok:
  "prune 95 demo_protected (demo_state ''7t'') = (Inr True, snd (prune 95 demo_protected (demo_state ''7t'')))"
proof -
  have "fst (prune 95 demo_protected (demo_state ''7t'')) = Inr True" by code_simp
  then show ?thesis by (metis prod.collapse)
qed

end
