(* ===== verification/Ledger_Retention.thy ===== *)
theory Ledger_Retention
  imports Ledger_Demo
begin

text \<open>The properties of bounded retention, instantiated on the demonstration ledger.\<close>

text \<open>
  C1.  A pruning pass that succeeds turns a sound ledger, whatever its size, into a ledger that
  \<open>PersistedRequestState::validate\<close> accepts, and keeps the soundness the next edit relies on.
  Soundness is every check of \<open>validate\<close> but the capacity limits, with identifiers unique and turns
  on the thread tree.
\<close>

theorem prune_valid:
  assumes "state_sound ext st" and "prune day protected st = (Inr changed, st')"
  shows "validate_state ext st' = Inr () \<and> state_sound ext st'"
proof -
  have "prune_steps protected st st'" using prune_steps_prune [of protected st day] assms(2) by simp
  then have "state_sound ext st'" using assms(1) by (rule prune_steps_sound)
  with sound_limits_valid prune_limits [OF assms(2)] show ?thesis by blast
qed

theorem prune_valid_witness:
  "validate_state demo_ext (snd (prune 95 demo_protected (demo_state ''7t''))) = Inr ()"
  using prune_valid [OF demo_state_sound demo_prune_ok] by simp

text \<open>
  C2.  What the current edit touched survives pruning: an installation, conversation, child thread,
  turn or generated item whose key is protected, in a protected scope, stands for the same identity
  after the pass, also when the pass fails, and also when it hangs off a graph whose root is pruned.
\<close>

theorem prune_keeps_protected:
  assumes "state_sound ext st" and "sk \<in> pk_scopes protected"
    and "directly_protected kind (sk, key) protected"
    and "kind \<in> {KInstallation, KConversation, KChildThread, KTurn, KGeneratedItem}"
  shows "scope_identity (snd (prune day protected st)) sk kind key = scope_identity st sk kind key"
  using assms prune_steps_survive [OF prune_steps_prune state_sound_wires]
  by (auto simp: graph_kinds_def)

theorem prune_keeps_protected_witness:
  "scope_identity (snd (prune 95 demo_protected (demo_state ''7t''))) (demo_key CHR ''s'') KTurn (demo_key CHR ''t'')
     = Some ''7t''"
proof -
  have "scope_identity (demo_state ''7t'') (demo_key CHR ''s'') KTurn (demo_key CHR ''t'') = Some ''7t''" by code_simp
  then show ?thesis
    using prune_keeps_protected [OF demo_state_sound, of "demo_key CHR ''s''" demo_protected KTurn "demo_key CHR ''t''"]
    by (simp add: demo_protected_def)
qed



text \<open>
  C4.  \<open>evict_one\<close> either removes something, keeping the ledger sound and strictly smaller, or
  reports failure on an unchanged ledger in which every scope is protected and no entry may go.
  Repeating it therefore ends.
\<close>

theorem evict_one_progress:
  assumes "state_sound ext st"
  shows "case evict_one protected st of
      (True, st') \<Rightarrow> state_sound ext st' \<and> ledger_size st' < ledger_size st
    | (False, st') \<Rightarrow> st' = st
        \<and> (\<forall>(sk, scope) \<in> set (bm_entries (ps_scopes st)). sk \<in> pk_scopes protected
             \<and> (\<forall>kind. \<forall>key \<in> set (entry_keys scope kind). \<not> removable scope kind sk key protected))"
proof (cases "evict_one protected st")
  case (Pair progress st')
  show ?thesis
  proof (cases progress)
    case True
    with Pair have "prune_step protected st st'" by (simp add: evict_one_step)
    with assms show ?thesis by (simp add: Pair True prune_step_sound prune_step_size)
  next
    case False
    with Pair have "evict_one protected st = (False, st')" by simp
    from evict_one_stuck [OF this] show ?thesis by (auto simp: Pair False bm_get_iff)
  qed
qed

theorem evict_one_progress_witness:
  "ledger_size (snd (evict_one demo_protected (demo_state ''7t''))) < ledger_size (demo_state ''7t'')"
proof -
  have "fst (evict_one demo_protected (demo_state ''7t'')) = True" by code_simp
  then show ?thesis
    using evict_one_progress [OF demo_state_sound, of demo_protected]
    by (cases "evict_one demo_protected (demo_state ''7t'')") simp
qed


end
