(* ===== verification/Ledger_Editor.thy ===== *)
theory Ledger_Editor
  imports Ledger_Validation
begin

text \<open>
  The request state editor (\<open>request_state_editor.rs\<close> and the modules under it except the wire
  aliases).  A method is an action on the editor record: it may mutate and then fail, as the source
  does when a check follows an \<open>or_insert_with\<close>.  \<open>ed_draws\<close> counts the calls of the UUID
  generators; \<open>scope()\<close> and \<open>scope_mut()\<close> expect the editor's scope to exist, which
  \<open>editor_ok\<close> states and every operation keeps.
\<close>

datatype fingerprint_mode = Off | Device

record conversation_assignment =
  ca_id :: string
  ca_window_number :: u64

record thread_assignment =
  ta_id :: string
  ta_session_id :: string
  ta_parent_thread_id :: "string option"
  ta_window_number :: u64

record turn_assignment =
  ua_id :: string
  ua_thread_id :: string
  ua_inventory_source_thread_id :: "string option"
  ua_root_turn_id :: string
  ua_parent_turn_id :: "string option"
  ua_started_at_unix_ms :: int

record item_assignment =
  ia_id :: string
  ia_create_time_micros :: "int option"

record editor =
  ed_state :: persisted_request_state
  ed_keys :: lookup_key_factory
  ed_scope_key :: string
  ed_day :: int
  ed_now_unix_ms :: int
  ed_changed :: bool
  ed_protected :: protected_state_keys
  ed_content_wire_origins :: "(wire_id_domain \<times> string, string btree_set) btree_map"
  ed_draws :: nat

type_synonym 'a edit = "(editor, ledger_error, 'a) action"

section \<open>The scope under edit\<close>

definition ed_scope :: "editor \<Rightarrow> scope_state" where
  "ed_scope ed = (case bm_get (ps_scopes (ed_state ed)) (ed_scope_key ed) of
     Some scope \<Rightarrow> scope | None \<Rightarrow> scope_new 0)"

definition ed_update_scope :: "(scope_state \<Rightarrow> scope_state) \<Rightarrow> editor \<Rightarrow> editor" where
  "ed_update_scope f ed = ed\<lparr>ed_state := (ed_state ed)\<lparr>
     ps_scopes := bm_update (ed_scope_key ed) f (ps_scopes (ed_state ed))\<rparr>\<rparr>"

definition mark_changed :: "bool \<Rightarrow> editor \<Rightarrow> editor" where
  "mark_changed b ed = ed\<lparr>ed_changed := ed_changed ed \<or> b\<rparr>"

definition protect_key ::
    "(((string \<times> string) set \<Rightarrow> (string \<times> string) set) \<Rightarrow> protected_state_keys \<Rightarrow> protected_state_keys)
      \<Rightarrow> string \<Rightarrow> editor \<Rightarrow> editor" where
  "protect_key field key ed = ed\<lparr>ed_protected := field (insert (ed_scope_key ed, key)) (ed_protected ed)\<rparr>"

text \<open>The new value and whether it differs from the old one.\<close>

definition replace_if_different :: "'a \<Rightarrow> 'a \<Rightarrow> 'a \<times> bool" where
  "replace_if_different current next = (if current = next then (current, False) else (next, True))"

definition touch_day :: "int \<Rightarrow> int \<Rightarrow> int \<times> bool" where
  "touch_day current day = replace_if_different current day"

definition validate_prefix :: "string \<Rightarrow> unit result" where
  "validate_prefix prefix = ensure (prefix \<noteq> [] \<and> length prefix \<le> 32
     \<and> list_all (\<lambda>b. is_ascii_lowercase b \<or> is_ascii_digit b) prefix) (Msg ''invalid generated item prefix'')"

definition draw_v4 :: "externals \<Rightarrow> string edit" where
  "draw_v4 ext ed = (Inr (new_v4 ext (ed_draws ed)), ed\<lparr>ed_draws := ed_draws ed + 1\<rparr>)"

definition draw_v7 :: "externals \<Rightarrow> string edit" where
  "draw_v7 ext ed = (Inr (now_v7 ext (ed_draws ed)), ed\<lparr>ed_draws := ed_draws ed + 1\<rparr>)"

text \<open>\<open>reserved_id.map_or_else(|| Uuid::now_v7(), ..)\<close>.\<close>

definition reserved_or_draw :: "externals \<Rightarrow> string option \<Rightarrow> string edit" where
  "reserved_or_draw ext reserved = (case reserved of Some x \<Rightarrow> aret x | None \<Rightarrow> draw_v7 ext)"

text \<open>\<open>map.entry(key).or_insert_with(build)\<close> on one map of the scope.\<close>

definition entry_or_insert ::
    "(scope_state \<Rightarrow> (string, 'v) btree_map)
      \<Rightarrow> (((string, 'v) btree_map \<Rightarrow> (string, 'v) btree_map) \<Rightarrow> scope_state \<Rightarrow> scope_state)
      \<Rightarrow> string \<Rightarrow> 'v edit \<Rightarrow> 'v edit" where
  "entry_or_insert field field_update key build =
     abind (aget (\<lambda>ed. bm_get (field (ed_scope ed)) key)) (\<lambda>found. case found of
       Some entry \<Rightarrow> aret entry
     | None \<Rightarrow> abind build (\<lambda>entry.
         athen (amodify (ed_update_scope (field_update (bm_insert key entry)))) (aret entry)))"

section \<open>Construction\<close>

definition editor_new ::
    "externals \<Rightarrow> persisted_request_state \<Rightarrow> lookup_key_factory \<Rightarrow> string \<Rightarrow> int \<Rightarrow> int \<Rightarrow> nat
      \<Rightarrow> editor result" where
  "editor_new ext state keys owner_account_ref day now_unix_ms draws =
     (let sk = factory_scope_key ext keys in
      rbind (validate_lookup_key sk) (\<lambda>_.
      let changed1 = \<not> bm_contains (ps_owners state) owner_account_ref;
          state1 = state\<lparr>ps_owners := bm_insert owner_account_ref () (ps_owners state)\<rparr>;
          migrate = ps_tool_inventory_revision state1 = 0 \<and> bm_len (ps_tool_inventory_revocations state1) \<noteq> 0;
          state2 = (if migrate
            then state1\<lparr>ps_tool_inventory_uncertain := True, ps_tool_inventory_revision := 1\<rparr> else state1)
      in rbind (ensure (bm_len (ps_owners state2) \<le> MAX_OWNERS) (Msg ''too many request state owners'')) (\<lambda>_.
      let vacant = bm_get (ps_scopes state2) sk = None;
          scope = (case bm_get (ps_scopes state2) sk of Some s \<Rightarrow> s | None \<Rightarrow> scope_new day);
          (seen, touched) = touch_day (sc_last_seen_day scope) day
      in Inr \<lparr>
        ed_state = state2\<lparr>ps_scopes := bm_insert sk (scope\<lparr>sc_last_seen_day := seen\<rparr>) (ps_scopes state2)\<rparr>,
        ed_keys = keys,
        ed_scope_key = sk,
        ed_day = day,
        ed_now_unix_ms = now_unix_ms,
        ed_changed = (changed1 \<or> migrate \<or> vacant \<or> touched),
        ed_protected = protected_default\<lparr>pk_scopes := {sk}\<rparr>,
        ed_content_wire_origins = bm_empty,
        ed_draws = draws\<rparr>)))"

definition editor_finish :: "editor \<Rightarrow> bool \<times> protected_state_keys" where
  "editor_finish ed = (ed_changed ed, ed_protected ed)"

section \<open>Identities\<close>

definition installation_id :: "externals \<Rightarrow> fingerprint_mode \<Rightarrow> string option \<Rightarrow> string edit" where
  "installation_id ext mode scoped_lookup =
     (if mode = Device then aget (\<lambda>ed. ps_installation_id (ed_state ed))
      else abind (alift (ok_or scoped_lookup (Msg ''missing scoped installation key''))) (\<lambda>key.
        athen (alift (validate_lookup_key key))
        (abind (aget (\<lambda>ed. (bm_contains (scoped_installations (ed_scope ed)) key, ed_day ed))) (\<lambda>(existed, day).
         abind (entry_or_insert scoped_installations scoped_installations_update key
           (abind (draw_v4 ext) (\<lambda>x. aret \<lparr>ie_id = x, ie_last_seen_day = day\<rparr>))) (\<lambda>entry.
         let (seen, touched) = touch_day (ie_last_seen_day entry) day in
         athen (amodify (ed_update_scope (scoped_installations_update
           (bm_update key (\<lambda>e. e\<lparr>ie_last_seen_day := seen\<rparr>)))))
        (athen (amodify (mark_changed (\<not> existed \<or> touched)))
        (athen (amodify (protect_key pk_installations_update key))
        (aret (ie_id entry)))))))))"

definition conversation_with_id :: "externals \<Rightarrow> string \<Rightarrow> string option \<Rightarrow> conversation_assignment edit" where
  "conversation_with_id ext key reserved =
     athen (alift (validate_lookup_key key))
    (abind (aget (\<lambda>ed. (bm_contains (conversations (ed_scope ed)) key, ed_day ed))) (\<lambda>(existed, day).
     abind (entry_or_insert conversations conversations_update key
       (abind (reserved_or_draw ext reserved) (\<lambda>x. aret \<lparr>conv_id = x, conv_window_number = 0,
          conv_current_turn_id = None, conv_last_seen_day = day\<rparr>))) (\<lambda>entry.
     athen (aensure (is_none_or reserved (\<lambda>x. conv_id entry = x)) (Msg ''root thread alias changed''))
     (let (seen, touched) = touch_day (conv_last_seen_day entry) day in
      athen (amodify (ed_update_scope (conversations_update
        (bm_update key (\<lambda>e. e\<lparr>conv_last_seen_day := seen\<rparr>)))))
     (athen (amodify (mark_changed (\<not> existed \<or> touched)))
     (athen (amodify (protect_key pk_conversations_update key))
     (aret \<lparr>ca_id = conv_id entry, ca_window_number = conv_window_number entry\<rparr>)))))))"

definition conversation :: "externals \<Rightarrow> string \<Rightarrow> conversation_assignment edit" where
  "conversation ext key = conversation_with_id ext key None"

definition thread_of :: "child_thread_entry \<Rightarrow> thread_assignment" where
  "thread_of entry = \<lparr>ta_id = ct_id entry, ta_session_id = ct_session_id entry,
     ta_parent_thread_id = ct_parent_thread_id entry, ta_window_number = ct_window_number entry\<rparr>"

definition child_thread_with_id ::
    "externals \<Rightarrow> string \<Rightarrow> string \<Rightarrow> string option \<Rightarrow> string option \<Rightarrow> thread_assignment edit" where
  "child_thread_with_id ext key session_id parent_thread_id reserved =
     athen (alift (validate_lookup_key key))
    (abind (aget (\<lambda>ed. (bm_contains (child_threads (ed_scope ed)) key, ed_day ed))) (\<lambda>(existed, day).
     abind (entry_or_insert child_threads child_threads_update key
       (abind (reserved_or_draw ext reserved) (\<lambda>x. aret \<lparr>ct_id = x, ct_session_id = session_id,
          ct_parent_thread_id = parent_thread_id, ct_window_number = 0, ct_current_turn_id = None,
          ct_last_seen_day = day\<rparr>))) (\<lambda>entry.
     athen (aensure (ct_session_id entry = session_id \<and> ct_parent_thread_id entry = parent_thread_id
         \<and> is_none_or reserved (\<lambda>x. ct_id entry = x)) (Msg ''child thread relationship changed''))
     (let (seen, touched) = touch_day (ct_last_seen_day entry) day in
      athen (amodify (ed_update_scope (child_threads_update
        (bm_update key (\<lambda>e. e\<lparr>ct_last_seen_day := seen\<rparr>)))))
     (athen (amodify (mark_changed (\<not> existed \<or> touched)))
     (athen (amodify (protect_key pk_child_threads_update key))
     (aret (thread_of entry))))))))"

definition child_thread :: "externals \<Rightarrow> string \<Rightarrow> string \<Rightarrow> string option \<Rightarrow> thread_assignment edit" where
  "child_thread ext key session_id parent_thread_id =
     child_thread_with_id ext key session_id parent_thread_id None"

definition existing_child_thread :: "string \<Rightarrow> thread_assignment option edit" where
  "existing_child_thread key =
     abind (aget (\<lambda>ed. (bm_get (child_threads (ed_scope ed)) key, ed_day ed))) (\<lambda>(found, day).
       case found of
         None \<Rightarrow> aret None
       | Some entry \<Rightarrow>
           let (seen, touched) = touch_day (ct_last_seen_day entry) day in
           athen (amodify (ed_update_scope (child_threads_update
             (bm_update key (\<lambda>e. e\<lparr>ct_last_seen_day := seen\<rparr>)))))
          (athen (amodify (mark_changed touched))
          (athen (amodify (protect_key pk_child_threads_update key))
          (aret (Some (thread_of entry))))))"

text \<open>A history-only item takes the turn of the first request that owns it.\<close>

definition claim_item :: "string option \<Rightarrow> generated_item_entry \<Rightarrow> generated_item_entry" where
  "claim_item turn_id entry = (if gi_turn_id entry = None then entry\<lparr>gi_turn_id := turn_id\<rparr> else entry)"

definition generated_item ::
    "externals \<Rightarrow> string \<Rightarrow> string \<Rightarrow> string option \<Rightarrow> bool \<Rightarrow> item_assignment edit" where
  "generated_item ext key prefix turn_id add_create_time =
     athen (alift (validate_lookup_key key))
    (athen (alift (validate_prefix prefix))
    (abind (aget (\<lambda>ed. (bm_contains (generated_items (ed_scope ed)) key, ed_day ed,
         i64_saturating_mul (ed_now_unix_ms ed) 1000))) (\<lambda>(existed, day, now_micros).
     abind (entry_or_insert generated_items generated_items_update key
       (abind (draw_v7 ext) (\<lambda>x. aret \<lparr>gi_id = prefix @ ''_'' @ x, gi_turn_id = turn_id,
          gi_create_time_micros = (if add_create_time then Some now_micros else None),
          gi_last_seen_day = day\<rparr>))) (\<lambda>entry.
     let previous_turn = gi_turn_id entry;
         owned = claim_item turn_id entry in
     athen (amodify (ed_update_scope (generated_items_update (bm_update key (claim_item turn_id)))))
    (athen (aensure (strip_prefix (prefix @ ''_'') (gi_id owned) \<noteq> None \<and> gi_turn_id owned = turn_id)
       (Msg ''generated item relationship changed''))
     (let (seen, touched) = touch_day (gi_last_seen_day entry) day in
      athen (amodify (ed_update_scope (generated_items_update
        (bm_update key (\<lambda>e. e\<lparr>gi_last_seen_day := seen\<rparr>)))))
     (athen (amodify (mark_changed (\<not> existed \<or> touched \<or> previous_turn \<noteq> gi_turn_id owned)))
     (athen (amodify (protect_key pk_generated_items_update key))
     (aret \<lparr>ia_id = gi_id owned, ia_create_time_micros = gi_create_time_micros owned\<rparr>)))))))))"

section \<open>Turns\<close>

definition turn_of :: "turn_entry \<Rightarrow> turn_assignment" where
  "turn_of entry = \<lparr>ua_id = te_id entry, ua_thread_id = te_thread_id entry,
     ua_inventory_source_thread_id = te_inventory_source_thread_id entry,
     ua_root_turn_id = te_root_turn_id entry, ua_parent_turn_id = te_parent_turn_id entry,
     ua_started_at_unix_ms = te_started_at_unix_ms entry\<rparr>"

definition turn_with_id ::
    "externals \<Rightarrow> string \<Rightarrow> string \<Rightarrow> string option \<Rightarrow> string option \<Rightarrow> string option
      \<Rightarrow> turn_assignment edit" where
  "turn_with_id ext key thread_id root_turn_id parent_turn_id reserved =
     athen (alift (validate_lookup_key key))
    (abind (aget (\<lambda>ed. (bm_contains (turns (ed_scope ed)) key, ed_day ed, ed_now_unix_ms ed))) (\<lambda>(existed, day, now).
     abind (entry_or_insert turns turns_update key
       (abind (reserved_or_draw ext reserved) (\<lambda>x. aret \<lparr>te_id = x, te_thread_id = thread_id,
          te_inventory_source_thread_id = None, te_classifier = False,
          te_root_turn_id = (case root_turn_id of Some r \<Rightarrow> r | None \<Rightarrow> x),
          te_parent_turn_id = parent_turn_id, te_started_at_unix_ms = now, te_last_seen_day = day\<rparr>))) (\<lambda>entry.
     athen (aensure (\<not> te_classifier entry \<and> te_thread_id entry = thread_id
         \<and> is_none_or root_turn_id (\<lambda>root. te_root_turn_id entry = root)
         \<and> te_parent_turn_id entry = parent_turn_id
         \<and> is_none_or reserved (\<lambda>x. te_id entry = x)) (Msg ''turn relationship changed''))
     (let (seen, touched) = touch_day (te_last_seen_day entry) day in
      athen (amodify (ed_update_scope (turns_update (bm_update key (\<lambda>e. e\<lparr>te_last_seen_day := seen\<rparr>)))))
     (athen (amodify (mark_changed (\<not> existed \<or> touched)))
     (athen (amodify (protect_key pk_turns_update key))
     (aret (turn_of entry))))))))"

definition observe_turn_started_at :: "string \<Rightarrow> int \<Rightarrow> unit edit" where
  "observe_turn_started_at key value =
     athen (aensure (value \<ge> 0) (Msg ''invalid caller turn start time''))
    (abind (aget (\<lambda>ed. bm_get (turns (ed_scope ed)) key)) (\<lambda>found.
     abind (alift (ok_or found (Msg ''turn start owner is missing''))) (\<lambda>entry.
     athen (amodify (ed_update_scope (turns_update (bm_update key (\<lambda>e. e\<lparr>te_started_at_unix_ms := value\<rparr>)))))
     (amodify (mark_changed (te_started_at_unix_ms entry \<noteq> value))))))"

definition existing_turn :: "string \<Rightarrow> turn_assignment option edit" where
  "existing_turn key =
     abind (aget (\<lambda>ed. (bm_get (turns (ed_scope ed)) key, ed_day ed))) (\<lambda>(found, day).
       case found of
         None \<Rightarrow> aret None
       | Some entry \<Rightarrow>
           let (seen, touched) = touch_day (te_last_seen_day entry) day in
           athen (amodify (ed_update_scope (turns_update (bm_update key (\<lambda>e. e\<lparr>te_last_seen_day := seen\<rparr>)))))
          (athen (amodify (mark_changed touched))
          (athen (amodify (protect_key pk_turns_update key))
          (aret (Some (turn_of entry))))))"

text \<open>An imported copy of a turn keeps the thread its tool inventory comes from.\<close>

definition preserve_inventory_origin :: "string \<Rightarrow> turn_assignment \<Rightarrow> unit edit" where
  "preserve_inventory_origin imported_key source =
     (let owner = (case ua_inventory_source_thread_id source of Some t \<Rightarrow> t | None \<Rightarrow> ua_thread_id source) in
      abind (aget (\<lambda>ed. bm_get (turns (ed_scope ed)) imported_key)) (\<lambda>found.
      abind (alift (ok_or found (Msg ''imported inventory turn is missing''))) (\<lambda>entry.
        case te_inventory_source_thread_id entry of
          Some existing \<Rightarrow> aensure (existing = owner) (Msg ''inventory source ownership changed'')
        | None \<Rightarrow>
            athen (amodify (ed_update_scope (turns_update
              (bm_update imported_key (\<lambda>e. e\<lparr>te_inventory_source_thread_id := Some owner\<rparr>)))))
            (amodify (mark_changed True)))))"

section \<open>Lookups by identifier\<close>

text \<open>
  The loop of \<open>thread_is_ancestor\<close>: each round adds an identifier to \<open>visited\<close>, and only
  identifiers of child threads are followed, so it ends.
\<close>

function ancestor_loop :: "scope_state \<Rightarrow> string \<Rightarrow> string set \<Rightarrow> string \<Rightarrow> bool" where
  "ancestor_loop scope ancestor visited current =
     (if current = ancestor then True
      else if current \<in> visited then False
      else case Option.bind (find_child scope current) ct_parent_thread_id of
          None \<Rightarrow> False
        | Some parent \<Rightarrow> ancestor_loop scope ancestor (insert current visited) parent)"
  by pat_completeness auto
termination
proof (relation "measure (\<lambda>(scope, _, visited, _). card (ct_id ` set (bm_values (child_threads scope)) - visited))")
  fix scope ancestor visited current parent
  assume new: "current \<notin> visited" and parent: "Option.bind (find_child scope current) ct_parent_thread_id = Some parent"
  let ?ids = "ct_id ` set (bm_values (child_threads scope))"
  from parent have "current \<in> ?ids"
    by (auto simp: bind_eq_Some_conv find_child_def dest!: find_eq_Some_D)
  with new have "?ids - insert current visited \<subset> ?ids - visited" by blast
  then show "((scope, ancestor, insert current visited, parent), scope, ancestor, visited, current)
      \<in> measure (\<lambda>(scope, _, visited, _). card (ct_id ` set (bm_values (child_threads scope)) - visited))"
    by (simp add: psubset_card_mono)
qed simp

declare ancestor_loop.simps [simp del]

definition thread_is_ancestor :: "editor \<Rightarrow> string \<Rightarrow> string \<Rightarrow> bool" where
  "thread_is_ancestor ed ancestor thread = ancestor_loop (ed_scope ed) ancestor {} thread"

text \<open>The two fields of \<open>ResolvedRequestIdentity\<close> that are read here are arguments.\<close>

definition history_thread_allowed :: "editor \<Rightarrow> string \<Rightarrow> string \<Rightarrow> string option \<Rightarrow> bool" where
  "history_thread_allowed ed owner thread_id forked_from_thread_id \<longleftrightarrow>
     thread_is_ancestor ed owner thread_id
     \<or> is_some_and forked_from_thread_id (\<lambda>source. thread_is_ancestor ed owner source)"

definition find_conversation :: "scope_state \<Rightarrow> string \<Rightarrow> conversation_entry option" where
  "find_conversation scope thread_id =
     List.find (\<lambda>e. conv_id e = thread_id) (bm_values (conversations scope))"

definition option_or :: "'a option \<Rightarrow> 'a option \<Rightarrow> 'a option" where
  "option_or x y = (case x of None \<Rightarrow> y | Some a \<Rightarrow> Some a)"

definition current_turn_id :: "editor \<Rightarrow> string \<Rightarrow> string option" where
  "current_turn_id ed thread_id =
     option_or (Option.bind (find_conversation (ed_scope ed) thread_id) conv_current_turn_id)
       (Option.bind (find_child (ed_scope ed) thread_id) ct_current_turn_id)"

text \<open>\<open>values_mut().find(..)\<close>: the entry at the first key, in iteration order, that matches.\<close>

definition update_first ::
    "('v \<Rightarrow> bool) \<Rightarrow> ('v \<Rightarrow> 'v) \<Rightarrow> (string, 'v) btree_map \<Rightarrow> (string, 'v) btree_map" where
  "update_first P f m = (case bm_find_key P m of None \<Rightarrow> m | Some key \<Rightarrow> bm_update key f m)"

definition set_current_turn :: "string \<Rightarrow> string \<Rightarrow> unit edit" where
  "set_current_turn thread_id turn_id =
     abind (aget ed_scope) (\<lambda>scope.
     athen (aensure (\<exists>turn \<in> set (bm_values (turns scope)). te_id turn = turn_id \<and> te_thread_id turn = thread_id)
       (Msg ''current turn does not belong to thread''))
    (case find_conversation scope thread_id of
       Some entry \<Rightarrow>
         let (current, changed) = replace_if_different (conv_current_turn_id entry) (Some turn_id) in
         athen (amodify (ed_update_scope (conversations_update (update_first (\<lambda>e. conv_id e = thread_id)
           (\<lambda>e. e\<lparr>conv_current_turn_id := current\<rparr>)))))
         (amodify (mark_changed changed))
     | None \<Rightarrow> (case find_child scope thread_id of
         Some entry \<Rightarrow>
           let (current, changed) = replace_if_different (ct_current_turn_id entry) (Some turn_id) in
           athen (amodify (ed_update_scope (child_threads_update (update_first (\<lambda>e. ct_id e = thread_id)
             (\<lambda>e. e\<lparr>ct_current_turn_id := current\<rparr>)))))
           (amodify (mark_changed changed))
       | None \<Rightarrow> afail (Msg ''current turn thread is missing''))))"

definition conversation_by_id :: "string \<Rightarrow> (string \<times> conversation_assignment) option edit" where
  "conversation_by_id x =
     abind (aget (\<lambda>ed. (bm_find_key (\<lambda>e. conv_id e = x) (conversations (ed_scope ed)), ed_day ed))) (\<lambda>(found, day).
       case found of
         None \<Rightarrow> aret None
       | Some key \<Rightarrow>
           abind (aget (\<lambda>ed. bm_get (conversations (ed_scope ed)) key)) (\<lambda>entry. case entry of
             None \<Rightarrow> aret None
           | Some entry \<Rightarrow>
               let (seen, touched) = touch_day (conv_last_seen_day entry) day in
               athen (amodify (ed_update_scope (conversations_update
                 (bm_update key (\<lambda>e. e\<lparr>conv_last_seen_day := seen\<rparr>)))))
              (athen (amodify (mark_changed touched))
              (athen (amodify (protect_key pk_conversations_update key))
              (aret (Some (key, \<lparr>ca_id = conv_id entry, ca_window_number = conv_window_number entry\<rparr>)))))))"

definition child_thread_by_id :: "string \<Rightarrow> (string \<times> thread_assignment) option edit" where
  "child_thread_by_id x =
     abind (aget (\<lambda>ed. bm_find_key (\<lambda>e. ct_id e = x) (child_threads (ed_scope ed)))) (\<lambda>found. case found of
         None \<Rightarrow> aret None
       | Some key \<Rightarrow> abind (existing_child_thread key) (\<lambda>assignment.
           aret (map_option (\<lambda>a. (key, a)) assignment)))"

definition turn_by_id :: "string \<Rightarrow> (string \<times> turn_assignment) option edit" where
  "turn_by_id x =
     abind (aget (\<lambda>ed. bm_find_key (\<lambda>e. te_id e = x) (turns (ed_scope ed)))) (\<lambda>found. case found of
         None \<Rightarrow> aret None
       | Some key \<Rightarrow> abind (existing_turn key) (\<lambda>assignment.
           aret (map_option (\<lambda>a. (key, a)) assignment)))"

section \<open>Context windows and compaction\<close>

definition scope_window_number :: "scope_state \<Rightarrow> string \<Rightarrow> u64 option" where
  "scope_window_number scope thread_id =
     option_or (map_option conv_window_number (find_conversation scope thread_id))
       (map_option ct_window_number (find_child scope thread_id))"

definition window_number :: "editor \<Rightarrow> string \<Rightarrow> u64 option" where
  "window_number ed thread_id = scope_window_number (ed_scope ed) thread_id"

definition set_window_number :: "string \<Rightarrow> u64 \<Rightarrow> unit edit" where
  "set_window_number thread_id window =
     abind (aget ed_scope) (\<lambda>scope. case find_conversation scope thread_id of
       Some entry \<Rightarrow>
         let (next, changed) = replace_if_different (conv_window_number entry) window in
         athen (amodify (ed_update_scope (conversations_update (update_first (\<lambda>e. conv_id e = thread_id)
           (\<lambda>e. e\<lparr>conv_window_number := next\<rparr>)))))
         (amodify (mark_changed changed))
     | None \<Rightarrow> (case find_child scope thread_id of
         Some entry \<Rightarrow>
           let (next, changed) = replace_if_different (ct_window_number entry) window in
           athen (amodify (ed_update_scope (child_threads_update (update_first (\<lambda>e. ct_id e = thread_id)
             (\<lambda>e. e\<lparr>ct_window_number := next\<rparr>)))))
           (amodify (mark_changed changed))
       | None \<Rightarrow> afail (Msg ''window thread is not in request state'')))"

definition observe_window_number :: "string \<Rightarrow> u64 \<Rightarrow> u64 edit" where
  "observe_window_number thread_id window =
     abind (aget (\<lambda>ed. window_number ed thread_id)) (\<lambda>found.
     abind (alift (ok_or found (Msg ''window thread is not in request state''))) (\<lambda>current.
       if window > current then athen (set_window_number thread_id window) (aret window)
       else aret current))"

definition touch_marker :: "string \<Rightarrow> compaction_marker_entry \<Rightarrow> unit edit" where
  "touch_marker key marker =
     abind (aget ed_day) (\<lambda>day.
       let (seen, touched) = touch_day (cm_last_seen_day marker) day in
       athen (amodify (ed_update_scope (compaction_markers_update
         (bm_update key (\<lambda>e. e\<lparr>cm_last_seen_day := seen\<rparr>)))))
      (athen (amodify (mark_changed touched))
       (amodify (protect_key pk_compaction_markers_update key))))"

definition begin_compaction :: "string \<Rightarrow> string \<Rightarrow> u64 edit" where
  "begin_compaction key thread_id =
     athen (alift (validate_lookup_key key))
    (abind (aget (\<lambda>ed. bm_get (compaction_markers (ed_scope ed)) key)) (\<lambda>found. case found of
       Some existing \<Rightarrow>
         athen (aensure (cm_thread_id existing = thread_id) (Msg ''compaction relationship changed''))
        (athen (touch_marker key existing)
         (aret (cm_window_number existing)))
     | None \<Rightarrow>
         abind (aget (\<lambda>ed. (window_number ed thread_id, ed_day ed))) (\<lambda>(current, day).
         abind (alift (rbind (ok_or current (Msg ''compaction thread is not in request state''))
           (\<lambda>w. ok_or (u64_checked_succ w) (Msg ''window number exhausted'')))) (\<lambda>window.
         athen (amodify (ed_update_scope (compaction_markers_update (bm_insert key
           \<lparr>cm_thread_id = thread_id, cm_window_number = window, cm_last_seen_day = day\<rparr>))))
        (athen (amodify (mark_changed True))
        (athen (amodify (protect_key pk_compaction_markers_update key))
         (aret window)))))))"

definition commit_compaction :: "string \<Rightarrow> string \<Rightarrow> u64 \<Rightarrow> u64 edit" where
  "commit_compaction key thread_id target_window =
     athen (alift (validate_lookup_key key))
    (abind (aget (\<lambda>ed. bm_get (compaction_markers (ed_scope ed)) key)) (\<lambda>found.
     abind (alift (ok_or found (Msg ''compaction marker is missing''))) (\<lambda>existing.
     athen (aensure (cm_thread_id existing = thread_id \<and> cm_window_number existing = target_window)
       (Msg ''compaction relationship changed''))
    (abind (aget (\<lambda>ed. window_number ed thread_id)) (\<lambda>window.
     abind (alift (ok_or window (Msg ''compaction thread is not in request state''))) (\<lambda>current.
     athen (aensure (target_window \<le> u64_saturating_succ current)
       (Msg ''compaction target skipped a committed window''))
    (athen (if target_window > current then set_window_number thread_id target_window else aret ())
    (athen (touch_marker key existing)
    (aget (\<lambda>ed. case window_number ed thread_id of Some w \<Rightarrow> w | None \<Rightarrow> 0))))))))))"

section \<open>Classifier turns\<close>

definition classifier_history_origin :: "editor \<Rightarrow> string \<Rightarrow> string \<Rightarrow> string \<Rightarrow> bool" where
  "classifier_history_origin ed turn session source =
     is_some_and (List.find (\<lambda>e. te_id e = turn \<and> te_classifier e) (bm_values (turns (ed_scope ed))))
       (\<lambda>turn. \<exists>lease \<in> set (bm_values (child_threads (ed_scope ed))).
          ct_id lease = te_thread_id turn \<and> ct_session_id lease = session
          \<and> ct_parent_thread_id lease = Some source)"

text \<open>The retry branch of \<open>classifier_turn_with_id\<close>: the turn is already tagged.\<close>

definition known_classifier_turn ::
    "string \<Rightarrow> thread_assignment \<Rightarrow> string \<Rightarrow> string option \<Rightarrow> string option \<Rightarrow> string option
      \<Rightarrow> turn_assignment edit" where
  "known_classifier_turn key lease source root_turn_id parent_turn_id reserved =
     abind (existing_turn key) (\<lambda>turn.
     abind (alift (ok_or turn (Msg ''known classifier turn''))) (\<lambda>known.
     abind (child_thread_by_id (ua_thread_id known)) (\<lambda>found.
     abind (alift (ok_or found (Msg ''classifier canonical owner is missing''))) (\<lambda>(_, owner).
     athen (aensure (ta_session_id owner = ta_session_id lease
         \<and> ta_parent_thread_id owner = Some source
         \<and> ua_root_turn_id known = (case root_turn_id of Some r \<Rightarrow> r | None \<Rightarrow> ua_id known)
         \<and> ua_parent_turn_id known = parent_turn_id
         \<and> is_none_or reserved (\<lambda>x. ua_id known = x)) (Msg ''classifier retry ancestry changed''))
     (aret known)))))"

definition classifier_turn_with_id ::
    "externals \<Rightarrow> string \<Rightarrow> string \<Rightarrow> string option \<Rightarrow> string option \<Rightarrow> string option
      \<Rightarrow> turn_assignment edit" where
  "classifier_turn_with_id ext key thread_id root_turn_id parent_turn_id reserved =
     abind (child_thread_by_id thread_id) (\<lambda>found.
     abind (alift (ok_or found (Msg ''classifier lease is not a child thread''))) (\<lambda>(_, lease).
     abind (alift (ok_or (ta_parent_thread_id lease) (Msg ''classifier source is missing''))) (\<lambda>source.
     athen (case parent_turn_id of
         None \<Rightarrow> aret ()
       | Some parent \<Rightarrow>
           abind (turn_by_id parent) (\<lambda>found.
           abind (alift (ok_or found (Msg ''classifier parent is missing''))) (\<lambda>(_, parent).
           aensure (ua_thread_id parent = source) (Msg ''classifier parent source changed''))))
    (abind (aget (\<lambda>ed. is_some_and (bm_get (turns (ed_scope ed)) key) te_classifier)) (\<lambda>known.
       if known then known_classifier_turn key lease source root_turn_id parent_turn_id reserved
       else abind (turn_with_id ext key thread_id root_turn_id parent_turn_id reserved) (\<lambda>turn.
         athen (amodify (ed_update_scope (turns_update (bm_update key (\<lambda>e. e\<lparr>te_classifier := True\<rparr>)))))
        (athen (amodify (mark_changed True))
         (aret turn))))))))"

end
