(* ===== verification/Wire_Ids.thy ===== *)
theory Wire_Ids
  imports Ledger_Editor
begin

text \<open>
  Wire identifier aliases (\<open>request_state_editor_wire.rs\<close>): the reversible table that gives every
  identifier one pseudonym per direction.  \<open>wire_ids\<close> is keyed by the MAC of the downstream
  identifier, \<open>wire_upstream_index\<close> by the MAC of the upstream one.
\<close>

section \<open>Fresh aliases\<close>

fun default_wire_prefix :: "wire_id_domain \<Rightarrow> string" where
  "default_wire_prefix ContextWindow = ''context_window''"
| "default_wire_prefix Installation = ''installation''"
| "default_wire_prefix Session = ''session''"
| "default_wire_prefix Thread = ''thread''"
| "default_wire_prefix Turn = ''turn''"
| "default_wire_prefix Response = ''resp''"
| "default_wire_prefix Conversation = ''conv''"
| "default_wire_prefix Stream = ''stream''"
| "default_wire_prefix Item = ''item''"
| "default_wire_prefix Call = ''call''"
| "default_wire_prefix Approval = ''approval''"

text \<open>The derived \<open>Debug\<close> form, used in an error message.\<close>

fun domain_debug :: "wire_id_domain \<Rightarrow> string" where
  "domain_debug ContextWindow = ''ContextWindow''"
| "domain_debug Installation = ''Installation''"
| "domain_debug Session = ''Session''"
| "domain_debug Thread = ''Thread''"
| "domain_debug Turn = ''Turn''"
| "domain_debug Response = ''Response''"
| "domain_debug Conversation = ''Conversation''"
| "domain_debug Stream = ''Stream''"
| "domain_debug Item = ''Item''"
| "domain_debug Call = ''Call''"
| "domain_debug Approval = ''Approval''"

definition valid_wire_prefix :: "string \<Rightarrow> bool" where
  "valid_wire_prefix prefix \<longleftrightarrow> prefix \<noteq> [] \<and> length prefix \<le> 32
     \<and> list_all (\<lambda>b. is_ascii_lowercase b \<or> is_ascii_digit b) prefix"

definition wire_alias :: "externals \<Rightarrow> wire_id_domain \<Rightarrow> string \<Rightarrow> string edit" where
  "wire_alias ext d source =
     (if uuid_version ext source \<noteq> None
      then (if d = Installation then draw_v4 ext else draw_v7 ext)
      else
        let prefix = (case split_once CHR ''_'' source of
              Some (prefix, _) \<Rightarrow> if valid_wire_prefix prefix then prefix else default_wire_prefix d
            | None \<Rightarrow> default_wire_prefix d)
        in abind (draw_v7 ext) (\<lambda>x. aret (prefix @ ''_'' @ x)))"

text \<open>\<open>for _ in 0..8\<close> with an early return.\<close>

fun unique_wire_alias_rounds :: "nat \<Rightarrow> externals \<Rightarrow> wire_id_domain \<Rightarrow> string \<Rightarrow> bool \<Rightarrow> string edit" where
  "unique_wire_alias_rounds 0 ext d source downstream =
     afail (Msg ''unable to allocate unique wire ID pseudonym'')"
| "unique_wire_alias_rounds (Suc n) ext d source downstream =
     abind (wire_alias ext d source) (\<lambda>candidate.
     abind (aget (\<lambda>ed. if downstream
         then \<not> bm_contains (wire_ids (ed_scope ed)) (wire_downstream ext (ed_keys ed) d candidate)
         else \<not> bm_contains (wire_upstream_index (ed_scope ed)) (wire_upstream ext (ed_keys ed) d candidate)))
       (\<lambda>vacant. if vacant \<and> candidate \<noteq> source then aret candidate
          else unique_wire_alias_rounds n ext d source downstream))"

definition unique_wire_alias :: "externals \<Rightarrow> wire_id_domain \<Rightarrow> string \<Rightarrow> bool \<Rightarrow> string edit" where
  "unique_wire_alias = unique_wire_alias_rounds 8"

section \<open>The table\<close>

definition touch_wire :: "string \<Rightarrow> unit edit" where
  "touch_wire downstream_lookup =
     abind (aget (\<lambda>ed. (bm_get (wire_ids (ed_scope ed)) downstream_lookup, ed_day ed))) (\<lambda>(found, day).
     abind (alift (ok_or found (Msg ''wire ID mapping is missing''))) (\<lambda>entry.
       let (seen, touched) = touch_day (we_last_seen_day entry) day in
       athen (amodify (ed_update_scope (wire_ids_update
         (bm_update downstream_lookup (\<lambda>e. e\<lparr>we_last_seen_day := seen\<rparr>)))))
      (athen (amodify (mark_changed touched))
       (amodify (protect_key pk_wire_ids_update downstream_lookup)))))"

definition insert_wire_pair ::
    "externals \<Rightarrow> wire_id_domain \<Rightarrow> wire_id_origin \<Rightarrow> string \<Rightarrow> string \<Rightarrow> string edit" where
  "insert_wire_pair ext d origin downstream_id upstream_id =
     abind (aget (\<lambda>ed. (wire_downstream ext (ed_keys ed) d downstream_id,
         wire_upstream ext (ed_keys ed) d upstream_id, ed_scope ed, ed_day ed)))
       (\<lambda>(downstream_lookup, upstream_lookup, scope, day).
     athen (aensure (\<not> bm_contains (wire_ids scope) downstream_lookup
         \<and> \<not> bm_contains (wire_upstream_index scope) upstream_lookup) (Msg ''wire ID bijection collision''))
    (athen (amodify (ed_update_scope (\<lambda>s. s\<lparr>
         wire_upstream_index := bm_insert upstream_lookup downstream_lookup (wire_upstream_index s),
         wire_ids := bm_insert downstream_lookup
           \<lparr>we_domain = d, we_origin = origin, we_downstream_id = downstream_id, we_upstream_id = upstream_id,
            we_upstream_lookup = upstream_lookup, we_owner = None, we_last_seen_day = day\<rparr> (wire_ids s)\<rparr>)))
    (athen (amodify (mark_changed True))
    (athen (amodify (protect_key pk_wire_ids_update downstream_lookup))
     (aret upstream_id)))))"

text \<open>The entry under a downstream identifier, if any; the check is the collision guard.\<close>

definition downstream_entry :: "externals \<Rightarrow> wire_id_domain \<Rightarrow> string \<Rightarrow> editor \<Rightarrow> wire_id_entry option" where
  "downstream_entry ext d downstream_id ed =
     bm_get (wire_ids (ed_scope ed)) (wire_downstream ext (ed_keys ed) d downstream_id)"

definition downstream_matches :: "wire_id_domain \<Rightarrow> string \<Rightarrow> wire_id_entry \<Rightarrow> bool" where
  "downstream_matches d downstream_id entry \<longleftrightarrow> we_domain entry = d \<and> we_downstream_id entry = downstream_id"

definition touch_downstream :: "externals \<Rightarrow> wire_id_domain \<Rightarrow> string \<Rightarrow> unit edit" where
  "touch_downstream ext d downstream_id =
     abind (aget (\<lambda>ed. wire_downstream ext (ed_keys ed) d downstream_id)) touch_wire"

definition is_public_wire_alias :: "externals \<Rightarrow> wire_id_domain \<Rightarrow> string \<Rightarrow> bool edit" where
  "is_public_wire_alias ext d downstream_id =
     athen (alift (validate_wire_id downstream_id))
    (abind (aget (downstream_entry ext d downstream_id)) (\<lambda>found.
       let public = is_some_and found (\<lambda>e. downstream_matches d downstream_id e \<and> we_origin e = Upstream) in
       athen (if public then touch_downstream ext d downstream_id else aret ()) (aret public)))"

definition existing_wire_from_downstream :: "externals \<Rightarrow> wire_id_domain \<Rightarrow> string \<Rightarrow> string option edit" where
  "existing_wire_from_downstream ext d downstream_id =
     athen (alift (validate_wire_id downstream_id))
    (abind (aget (downstream_entry ext d downstream_id)) (\<lambda>found. case found of
       None \<Rightarrow> aret None
     | Some entry \<Rightarrow>
         athen (aensure (downstream_matches d downstream_id entry) (Msg ''wire ID downstream collision''))
        (athen (touch_downstream ext d downstream_id)
         (aret (Some (we_upstream_id entry))))))"

definition required_wire_from_downstream :: "externals \<Rightarrow> wire_id_domain \<Rightarrow> string \<Rightarrow> bool \<Rightarrow> string edit" where
  "required_wire_from_downstream ext d downstream_id provider_owned =
     athen (alift (validate_wire_id downstream_id))
    (abind (aget (downstream_entry ext d downstream_id)) (\<lambda>found. case found of
       None \<Rightarrow> afail (RequiredWireReferenceUnavailable d)
     | Some entry \<Rightarrow>
         athen (aensure (downstream_matches d downstream_id entry) (Msg ''wire ID downstream collision''))
        (athen (aensure (\<not> (provider_owned \<and> we_origin entry \<noteq> Upstream)) (RequiredWireReferenceUnavailable d))
        (athen (touch_downstream ext d downstream_id)
         (aret (we_upstream_id entry))))))"

definition bind_wire_pair :: "externals \<Rightarrow> wire_id_domain \<Rightarrow> string \<Rightarrow> string \<Rightarrow> unit edit" where
  "bind_wire_pair ext d downstream_id upstream_id =
     athen (alift (validate_wire_id downstream_id))
    (athen (alift (validate_wire_id upstream_id))
    (if downstream_id = upstream_id then aret ()
     else abind (aget (downstream_entry ext d downstream_id)) (\<lambda>found. case found of
       Some entry \<Rightarrow>
         athen (aensure (downstream_matches d downstream_id entry \<and> we_upstream_id entry = upstream_id)
           (Msg (''wire ID downstream relationship changed for '' @ domain_debug d)))
         (touch_downstream ext d downstream_id)
     | None \<Rightarrow>
         abind (aget (\<lambda>ed. bm_get (wire_upstream_index (ed_scope ed)) (wire_upstream ext (ed_keys ed) d upstream_id)))
           (\<lambda>existing. case existing of
             Some existing_downstream_lookup \<Rightarrow> touch_wire existing_downstream_lookup
           | None \<Rightarrow> athen (insert_wire_pair ext d Downstream downstream_id upstream_id) (aret ())))))"

definition wire_from_downstream :: "externals \<Rightarrow> wire_id_domain \<Rightarrow> string \<Rightarrow> string edit" where
  "wire_from_downstream ext d downstream_id =
     athen (alift (validate_wire_id downstream_id))
    (abind (aget (downstream_entry ext d downstream_id)) (\<lambda>found. case found of
       Some entry \<Rightarrow>
         athen (aensure (downstream_matches d downstream_id entry) (Msg ''wire ID downstream collision''))
        (athen (touch_downstream ext d downstream_id)
         (aret (we_upstream_id entry)))
     | None \<Rightarrow>
         abind (unique_wire_alias ext d downstream_id False) (\<lambda>upstream_id.
           insert_wire_pair ext d Downstream downstream_id upstream_id)))"

definition existing_wire_from_upstream :: "externals \<Rightarrow> wire_id_domain \<Rightarrow> string \<Rightarrow> string option edit" where
  "existing_wire_from_upstream ext d upstream_id =
     athen (alift (validate_wire_id upstream_id))
    (abind (aget (\<lambda>ed. bm_get (wire_upstream_index (ed_scope ed)) (wire_upstream ext (ed_keys ed) d upstream_id)))
      (\<lambda>found. case found of
         None \<Rightarrow> aret None
       | Some downstream_lookup \<Rightarrow>
           abind (aget (\<lambda>ed. bm_get (wire_ids (ed_scope ed)) downstream_lookup)) (\<lambda>entry.
           abind (alift (ok_or entry (Msg ''wire ID inverse is missing''))) (\<lambda>entry.
           athen (aensure (we_domain entry = d \<and> we_upstream_id entry = upstream_id)
             (Msg ''wire ID inverse collision''))
          (athen (touch_wire downstream_lookup)
           (aret (Some (we_downstream_id entry))))))))"

definition wire_from_upstream :: "externals \<Rightarrow> wire_id_domain \<Rightarrow> string \<Rightarrow> string edit" where
  "wire_from_upstream ext d upstream_id =
     athen (alift (validate_wire_id upstream_id))
    (abind (aget (\<lambda>ed. bm_get (wire_upstream_index (ed_scope ed)) (wire_upstream ext (ed_keys ed) d upstream_id)))
      (\<lambda>found. case found of
         Some downstream_lookup \<Rightarrow>
           abind (aget (\<lambda>ed. bm_get (wire_ids (ed_scope ed)) downstream_lookup)) (\<lambda>entry.
           abind (alift (ok_or entry (Msg ''wire ID reverse index is dangling''))) (\<lambda>entry.
           athen (aensure (we_domain entry = d \<and> we_upstream_id entry = upstream_id)
             (Msg ''wire ID upstream collision''))
          (athen (touch_wire downstream_lookup)
           (aret (we_downstream_id entry)))))
       | None \<Rightarrow>
           abind (unique_wire_alias ext d upstream_id True) (\<lambda>downstream_id.
           athen (insert_wire_pair ext d Upstream downstream_id upstream_id) (aret downstream_id))))"

section \<open>Response owners\<close>

definition protect_owner :: "wire_id_owner \<Rightarrow> unit edit" where
  "protect_owner owner =
     abind (conversation_by_id (wo_session_id owner)) (\<lambda>found.
     abind (alift (ok_or found (Msg ''response owner session is missing''))) (\<lambda>(_, conversation).
     athen (aensure (ca_id conversation = wo_session_id owner) (Msg ''response owner session changed''))
    (if wo_thread_id owner \<noteq> wo_session_id owner then
       abind (child_thread_by_id (wo_thread_id owner)) (\<lambda>found.
       abind (alift (ok_or found (Msg ''response owner thread is missing''))) (\<lambda>(_, thread).
       aensure (ta_session_id thread = wo_session_id owner) (Msg ''response owner thread crosses sessions'')))
     else aret ())))"

definition set_response_owner :: "externals \<Rightarrow> string \<Rightarrow> wire_id_owner \<Rightarrow> unit edit" where
  "set_response_owner ext upstream_id owner =
     athen (protect_owner owner)
    (abind (aget (\<lambda>ed. bm_get (wire_upstream_index (ed_scope ed)) (wire_upstream ext (ed_keys ed) Response upstream_id)))
      (\<lambda>found.
     abind (alift (ok_or found (Msg ''response wire ID mapping is missing''))) (\<lambda>downstream_lookup.
     abind (aget (\<lambda>ed. bm_get (wire_ids (ed_scope ed)) downstream_lookup)) (\<lambda>entry.
     abind (alift (ok_or entry (Msg ''response wire ID reverse index is dangling''))) (\<lambda>entry.
     athen (aensure (we_domain entry = Response \<and> we_upstream_id entry = upstream_id)
       (Msg ''response wire ID upstream collision''))
    (athen (case we_owner entry of
         Some existing \<Rightarrow> aensure (existing = owner) (Msg ''response request identity relationship changed'')
       | None \<Rightarrow> athen (amodify (ed_update_scope (wire_ids_update
             (bm_update downstream_lookup (\<lambda>e. e\<lparr>we_owner := Some owner\<rparr>)))))
           (amodify (mark_changed True)))
     (amodify (protect_key pk_wire_ids_update downstream_lookup))))))))"

definition wire_from_upstream_response :: "externals \<Rightarrow> string \<Rightarrow> wire_id_owner option \<Rightarrow> string edit" where
  "wire_from_upstream_response ext upstream_id owner =
     abind (wire_from_upstream ext Response upstream_id) (\<lambda>downstream_id.
     athen (case owner of None \<Rightarrow> aret () | Some owner \<Rightarrow> set_response_owner ext upstream_id owner)
     (aret downstream_id))"

definition required_response_owner_from_downstream :: "externals \<Rightarrow> string \<Rightarrow> wire_id_owner edit" where
  "required_response_owner_from_downstream ext downstream_id =
     athen (alift (validate_wire_id downstream_id))
    (abind (aget (downstream_entry ext Response downstream_id)) (\<lambda>found. case found of
       None \<Rightarrow> afail (RequiredWireReferenceUnavailable Response)
     | Some entry \<Rightarrow>
         athen (aensure (downstream_matches Response downstream_id entry)
           (Msg ''response wire ID downstream collision''))
        (athen (aensure (we_origin entry = Upstream) (RequiredWireReferenceUnavailable Response))
        (abind (alift (ok_or (we_owner entry) (RequiredWireReferenceUnavailable Response))) (\<lambda>owner.
         athen (touch_downstream ext Response downstream_id)
        (athen (protect_owner owner) (aret owner)))))))"

definition record_content_origin :: "externals \<Rightarrow> wire_id_domain \<Rightarrow> string \<Rightarrow> string \<Rightarrow> unit edit" where
  "record_content_origin ext d raw alias =
     abind (existing_wire_from_downstream ext d alias) (\<lambda>found. case found of
       None \<Rightarrow> aret ()
     | Some upstream \<Rightarrow> amodify (\<lambda>ed. ed\<lparr>ed_content_wire_origins := foldl (\<lambda>origins x.
         bm_insert (d, x) (bm_insert raw () (case bm_get origins (d, x) of Some s \<Rightarrow> s | None \<Rightarrow> bm_empty)) origins)
         (ed_content_wire_origins ed) [alias, upstream]\<rparr>))"

end
