(* ===== verification/Editor_Steps.thy ===== *)
theory Editor_Steps
  imports Wire_Ids Prune_Correct
begin

text \<open>
  What every operation of the editor has in common when it succeeds (\<open>extends\<close>): it stays in its
  scope, hands out no identity twice, keeps the alias table a bijection, and only adds protection.
  The rules in \<open>okrel_intros\<close> derive this for a whole method from its primitive updates.
\<close>

section \<open>Relations between the states of a successful run\<close>

definition okrel :: "('s \<Rightarrow> 's \<Rightarrow> bool) \<Rightarrow> ('s, 'e, 'a) action \<Rightarrow> bool" where
  "okrel R m \<longleftrightarrow> (\<forall>s a t. m s = (Inr a, t) \<longrightarrow> R s t)"

named_theorems okrel_intros \<open>relations established by successful runs\<close>

lemma okrelD: "okrel R m \<Longrightarrow> m s = (Inr a, t) \<Longrightarrow> R s t"
  by (simp add: okrel_def)

lemma okrel_basic [okrel_intros]:
  assumes "\<And>s. R s s"
  shows "okrel R (aret a)" "okrel R (afail e)" "okrel R (alift r)" "okrel R (aget f)" "okrel R (aensure b e)"
  using assms by (auto simp: okrel_def)

lemma okrel_abind [okrel_intros]:
  assumes "\<And>s t u. R s t \<Longrightarrow> R t u \<Longrightarrow> R s u" and "okrel R m" and "\<And>a. okrel R (f a)"
  shows "okrel R (abind m f)"
  using assms unfolding okrel_def abind_Inr_iff by blast

lemma okrel_athen [okrel_intros]:
  assumes "\<And>s t u. R s t \<Longrightarrow> R t u \<Longrightarrow> R s u" and "okrel R m" and "okrel R n"
  shows "okrel R (athen m n)"
  using assms by (auto simp: athen_def intro: okrel_abind)

lemma okrel_amodify [okrel_intros]: "(\<And>s. R s (g s)) \<Longrightarrow> okrel R (amodify g)"
  by (simp add: okrel_def)

section \<open>Growing scopes\<close>

definition wire_coherent :: "externals \<Rightarrow> lookup_key_factory \<Rightarrow> scope_state \<Rightarrow> bool" where
  "wire_coherent ext keys s \<longleftrightarrow> (\<forall>k e. bm_get (wire_ids s) k = Some e \<longrightarrow>
     k = wire_downstream ext keys (we_domain e) (we_downstream_id e)
     \<and> we_upstream_lookup e = wire_upstream ext keys (we_domain e) (we_upstream_id e))"

definition table_ok :: "externals \<Rightarrow> editor \<Rightarrow> bool" where
  "table_ok ext ed \<longleftrightarrow> wire_index_ok (ed_scope ed) \<and> wire_coherent ext (ed_keys ed) (ed_scope ed)"

text \<open>The part of a wire pair that never changes.\<close>

definition wire_core :: "wire_id_entry \<Rightarrow> wire_id_domain \<times> wire_id_origin \<times> string \<times> string \<times> string" where
  "wire_core e = (we_domain e, we_origin e, we_downstream_id e, we_upstream_id e, we_upstream_lookup e)"

definition scope_grows :: "scope_state \<Rightarrow> scope_state \<Rightarrow> bool" where
  "scope_grows s s' \<longleftrightarrow>
     (\<forall>kind key x. entry_identity s kind key = Some x \<longrightarrow> entry_identity s' kind key = Some x)
     \<and> (\<forall>key c. map_option wire_core (bm_get (wire_ids s) key) = Some c
          \<longrightarrow> map_option wire_core (bm_get (wire_ids s') key) = Some c)"

definition editor_ok :: "editor \<Rightarrow> bool" where
  "editor_ok ed \<longleftrightarrow> bm_contains (ps_scopes (ed_state ed)) (ed_scope_key ed)
     \<and> ed_scope_key ed \<in> pk_scopes (ed_protected ed)"

definition protects_more :: "protected_state_keys \<Rightarrow> protected_state_keys \<Rightarrow> bool" where
  "protects_more p q \<longleftrightarrow> pk_scopes p \<subseteq> pk_scopes q
     \<and> (\<forall>kind pair. directly_protected kind pair p \<longrightarrow> directly_protected kind pair q)"

definition outside :: "editor \<Rightarrow> persisted_request_state" where
  "outside ed = (ed_state ed)\<lparr>ps_scopes := bm_remove (ed_scope_key ed) (ps_scopes (ed_state ed))\<rparr>"

definition extends :: "externals \<Rightarrow> editor \<Rightarrow> editor \<Rightarrow> bool" where
  "extends ext ed ed' \<longleftrightarrow> (editor_ok ed \<longrightarrow> editor_ok ed'
     \<and> ed_keys ed' = ed_keys ed \<and> ed_scope_key ed' = ed_scope_key ed
     \<and> ed_day ed' = ed_day ed \<and> ed_now_unix_ms ed' = ed_now_unix_ms ed
     \<and> protects_more (ed_protected ed) (ed_protected ed')
     \<and> outside ed' = outside ed
     \<and> scope_grows (ed_scope ed) (ed_scope ed')
     \<and> (table_ok ext ed \<longrightarrow> table_ok ext ed')
     \<and> (ed_changed ed \<longrightarrow> ed_changed ed'))"

lemma scope_grows_refl [simp]: "scope_grows s s"
  by (simp add: scope_grows_def)

lemma protects_more_refl [simp]: "protects_more p p"
  by (simp add: protects_more_def)

lemma extends_refl: "extends ext ed ed"
  by (simp add: extends_def)

lemma extends_trans: "extends ext a b \<Longrightarrow> extends ext b c \<Longrightarrow> extends ext a c"
  unfolding extends_def scope_grows_def protects_more_def by fastforce

lemma ed_scope_update:
  assumes "editor_ok ed"
  shows "ed_scope (ed_update_scope f ed) = f (ed_scope ed)"
  using assms by (auto simp: ed_scope_def ed_update_scope_def editor_ok_def)

lemma outside_update [simp]: "outside (ed_update_scope f ed) = outside ed"
proof -
  have "bm_remove k (bm_update k f m) = bm_remove k m" for k and m :: "(string, scope_state) btree_map"
    by (rule bm_ext) simp
  then show ?thesis by (simp add: outside_def ed_update_scope_def)
qed

text \<open>A primitive update of the scope extends the editor when the scope only grows.\<close>

lemma extends_update:
  assumes "editor_ok ed \<Longrightarrow> scope_grows (ed_scope ed) (f (ed_scope ed))"
    and "editor_ok ed \<Longrightarrow> table_ok ext ed
      \<Longrightarrow> wire_index_ok (f (ed_scope ed)) \<and> wire_coherent ext (ed_keys ed) (f (ed_scope ed))"
  shows "extends ext ed (ed_update_scope f ed)"
proof -
  have "ed_keys (ed_update_scope f ed) = ed_keys ed" by (simp add: ed_update_scope_def)
  moreover have "editor_ok ed \<Longrightarrow> editor_ok (ed_update_scope f ed)"
    by (auto simp: editor_ok_def ed_update_scope_def)
  ultimately show ?thesis
    using assms by (auto simp: extends_def ed_scope_update table_ok_def) (auto simp: ed_update_scope_def)
qed

lemma scope_frame [simp]:
  "ed_scope (mark_changed b ed) = ed_scope ed" "ed_scope (protect_key field key ed) = ed_scope ed"
  "ed_scope (ed\<lparr>ed_draws := n\<rparr>) = ed_scope ed"
  by (simp_all add: ed_scope_def mark_changed_def protect_key_def)

lemma extends_mark [simp]: "extends ext ed (mark_changed b ed)"
  by (simp add: extends_def table_ok_def) (simp add: editor_ok_def mark_changed_def outside_def)

lemma extends_draw [simp]: "extends ext ed (ed\<lparr>ed_draws := n\<rparr>)"
  by (simp add: extends_def table_ok_def) (simp add: editor_ok_def outside_def)

lemma extends_protect:
  assumes "\<And>S p. pk_scopes (field S p) = pk_scopes p"
    and "protects_more (ed_protected ed) (field (insert (ed_scope_key ed, key)) (ed_protected ed))"
  shows "extends ext ed (protect_key field key ed)"
  using assms by (simp add: extends_def table_ok_def) (simp add: editor_ok_def protect_key_def outside_def)

lemma protects_more_insert [simp]:
  "protects_more p (pk_installations_update (insert x) p)"
  "protects_more p (pk_conversations_update (insert x) p)"
  "protects_more p (pk_child_threads_update (insert x) p)"
  "protects_more p (pk_turns_update (insert x) p)"
  "protects_more p (pk_generated_items_update (insert x) p)"
  "protects_more p (pk_compaction_markers_update (insert x) p)"
  "protects_more p (pk_wire_ids_update (insert x) p)"
  unfolding protects_more_def by (auto split: entry_kind.splits; rename_tac kind a b; case_tac kind; simp)+

section \<open>Primitive updates\<close>

lemma all_kinds: "(\<forall>kind. P kind) \<longleftrightarrow> P KInstallation \<and> P KConversation \<and> P KChildThread \<and> P KTurn
    \<and> P KGeneratedItem \<and> P KCompactionMarker \<and> P KWireId"
  by (metis entry_kind.exhaust)

lemma scope_grows_maps:
  "(\<And>key x. map_option ie_id (bm_get m key) = Some x \<Longrightarrow> map_option ie_id (bm_get (g m) key) = Some x)
    \<Longrightarrow> m = scoped_installations s \<Longrightarrow> scope_grows s (scoped_installations_update g s)"
  "(\<And>key x. map_option conv_id (bm_get n key) = Some x \<Longrightarrow> map_option conv_id (bm_get (h n) key) = Some x)
    \<Longrightarrow> n = conversations s \<Longrightarrow> scope_grows s (conversations_update h s)"
  "(\<And>key x. map_option ct_id (bm_get p key) = Some x \<Longrightarrow> map_option ct_id (bm_get (i p) key) = Some x)
    \<Longrightarrow> p = child_threads s \<Longrightarrow> scope_grows s (child_threads_update i s)"
  "(\<And>key x. map_option te_id (bm_get q key) = Some x \<Longrightarrow> map_option te_id (bm_get (j q) key) = Some x)
    \<Longrightarrow> q = turns s \<Longrightarrow> scope_grows s (turns_update j s)"
  "(\<And>key x. map_option gi_id (bm_get r key) = Some x \<Longrightarrow> map_option gi_id (bm_get (k r) key) = Some x)
    \<Longrightarrow> r = generated_items s \<Longrightarrow> scope_grows s (generated_items_update k s)"
  "(\<And>key x. map_option cm_thread_id (bm_get u key) = Some x \<Longrightarrow> map_option cm_thread_id (bm_get (l u) key) = Some x)
    \<Longrightarrow> u = compaction_markers s \<Longrightarrow> scope_grows s (compaction_markers_update l s)"
  unfolding scope_grows_def all_kinds by simp_all

lemma scope_grows_wires:
  assumes "\<And>key. map_option wire_core (bm_get (f (wire_ids s)) key) = map_option wire_core (bm_get (wire_ids s) key)"
  shows "scope_grows s (wire_ids_update f s)"
proof -
  have "map_option we_upstream_id x = map_option (\<lambda>(_, _, _, u, _). u) (map_option wire_core x)" for x
    by (cases x) (simp_all add: wire_core_def)
  with assms show ?thesis unfolding scope_grows_def all_kinds by simp
qed

lemma wires_frame [simp]:
  "wire_index_ok (scoped_installations_update a s) = wire_index_ok s"
  "wire_index_ok (conversations_update b s) = wire_index_ok s"
  "wire_index_ok (child_threads_update c s) = wire_index_ok s"
  "wire_index_ok (turns_update d s) = wire_index_ok s"
  "wire_index_ok (generated_items_update e s) = wire_index_ok s"
  "wire_index_ok (compaction_markers_update f s) = wire_index_ok s"
  "wire_coherent ext keys (scoped_installations_update a s) = wire_coherent ext keys s"
  "wire_coherent ext keys (conversations_update b s) = wire_coherent ext keys s"
  "wire_coherent ext keys (child_threads_update c s) = wire_coherent ext keys s"
  "wire_coherent ext keys (turns_update d s) = wire_coherent ext keys s"
  "wire_coherent ext keys (generated_items_update e s) = wire_coherent ext keys s"
  "wire_coherent ext keys (compaction_markers_update f s) = wire_coherent ext keys s"
  by (simp_all add: wire_index_ok_def wire_coherent_def)

lemma bm_update_id:
  "(\<And>v. bm_get m k = Some v \<Longrightarrow> f v = v) \<Longrightarrow> bm_update k f m = m"
proof (rule bm_ext)
  fix k' assume "\<And>v. bm_get m k = Some v \<Longrightarrow> f v = v"
  then show "bm_get (bm_update k f m) k' = bm_get m k'" by (cases "bm_get m k") auto
qed

lemma update_first_get:
  assumes "\<And>v. idf (f v) = idf v"
  shows "map_option idf (bm_get (update_first P f m) k) = map_option idf (bm_get m k)"
  using assms by (auto simp: update_first_def option.map_comp comp_def split: option.splits)

lemma map_update_get:
  assumes "\<And>v. idf (f v) = idf v"
  shows "map_option idf (bm_get (bm_update key f m) k) = map_option idf (bm_get m k)"
  using assms by (auto simp: option.map_comp comp_def)

text \<open>Updates in place, at a key or at the first match, that keep the identity.\<close>

lemma extends_in_place [simp]:
  "(\<And>e. ie_id (f1 e) = ie_id e) \<Longrightarrow> extends ext ed (ed_update_scope (scoped_installations_update (bm_update key f1)) ed)"
  "(\<And>e. conv_id (f2 e) = conv_id e) \<Longrightarrow> extends ext ed (ed_update_scope (conversations_update (bm_update key f2)) ed)"
  "(\<And>e. conv_id (f2 e) = conv_id e) \<Longrightarrow> extends ext ed (ed_update_scope (conversations_update (update_first P f2)) ed)"
  "(\<And>e. ct_id (f3 e) = ct_id e) \<Longrightarrow> extends ext ed (ed_update_scope (child_threads_update (bm_update key f3)) ed)"
  "(\<And>e. ct_id (f3 e) = ct_id e) \<Longrightarrow> extends ext ed (ed_update_scope (child_threads_update (update_first Q f3)) ed)"
  "(\<And>e. te_id (f4 e) = te_id e) \<Longrightarrow> extends ext ed (ed_update_scope (turns_update (bm_update key f4)) ed)"
  "(\<And>e. gi_id (f5 e) = gi_id e) \<Longrightarrow> extends ext ed (ed_update_scope (generated_items_update (bm_update key f5)) ed)"
  "(\<And>e. cm_thread_id (f6 e) = cm_thread_id e)
    \<Longrightarrow> extends ext ed (ed_update_scope (compaction_markers_update (bm_update key f6)) ed)"
  by (rule extends_update; (rule scope_grows_maps [OF _ refl])?;
      simp add: table_ok_def map_update_get update_first_get del: bm_get_update)+

lemma extends_wire_in_place:
  assumes core: "\<And>e. wire_core (f e) = wire_core e"
  shows "extends ext ed (ed_update_scope (wire_ids_update (bm_update key f)) ed)"
proof (rule extends_update)
  show "scope_grows (ed_scope ed) (wire_ids_update (bm_update key f) (ed_scope ed))"
    by (rule scope_grows_wires) (simp add: map_update_get core del: bm_get_update)
  have "we_domain (f e) = we_domain e" "we_downstream_id (f e) = we_downstream_id e"
    "we_upstream_id (f e) = we_upstream_id e" "we_upstream_lookup (f e) = we_upstream_lookup e" for e
    using core [of e] by (simp_all add: wire_core_def)
  moreover assume "table_ok ext ed"
  ultimately show "wire_index_ok (wire_ids_update (bm_update key f) (ed_scope ed))
      \<and> wire_coherent ext (ed_keys ed) (wire_ids_update (bm_update key f) (ed_scope ed))"
    by (auto simp: table_ok_def wire_index_ok_def wire_coherent_def split: if_splits) metis+
qed

section \<open>Every method extends its editor\<close>

lemma okrel_prod [okrel_intros]: "(\<And>a b. okrel R (f a b)) \<Longrightarrow> okrel R (case p of (a, b) \<Rightarrow> f a b)"
  by (cases p) simp

lemma okrel_option [okrel_intros]:
  "okrel R m \<Longrightarrow> (\<And>a. okrel R (f a)) \<Longrightarrow> okrel R (case x of None \<Rightarrow> m | Some a \<Rightarrow> f a)"
  by (cases x) simp_all

lemma okrel_if [okrel_intros]: "okrel R m \<Longrightarrow> okrel R n \<Longrightarrow> okrel R (if b then m else n)"
  by simp

definition draws_only :: "'a edit \<Rightarrow> bool" where
  "draws_only m \<longleftrightarrow> (\<forall>ed. \<exists>n. snd (m ed) = ed\<lparr>ed_draws := n\<rparr>)"

lemma draws_only_run:
  assumes "draws_only m" and "m ed = (r, ed')"
  obtains n where "ed' = ed\<lparr>ed_draws := n\<rparr>"
  using assms unfolding draws_only_def by (metis snd_conv)

lemma draws_same: "\<exists>n. ed = ed\<lparr>ed_draws := n\<rparr>" for ed :: editor
  by (rule exI [of _ "ed_draws ed"]) simp

lemma draws_only_intros [intro]:
  "draws_only (aret a)" "draws_only (draw_v4 ext)" "draws_only (draw_v7 ext)" "draws_only (reserved_or_draw ext r)"
proof -
  note draws_same
  then show "draws_only (aret a)" "draws_only (draw_v4 ext)" "draws_only (draw_v7 ext)" "draws_only (reserved_or_draw ext r)"
    by (auto simp: draws_only_def draw_v4_def draw_v7_def reserved_or_draw_def split: option.splits)
qed

lemma draws_only_abind [intro]:
  assumes "draws_only m" and "\<And>a. draws_only (f a)"
  shows "draws_only (abind m f)"
  unfolding draws_only_def
proof
  fix ed
  obtain r ed1 where m: "m ed = (r, ed1)" by (cases "m ed")
  obtain n where n: "ed1 = ed\<lparr>ed_draws := n\<rparr>" using draws_only_run [OF assms(1) m] .
  show "\<exists>n. snd (abind m f ed) = ed\<lparr>ed_draws := n\<rparr>"
  proof (cases r)
    case (Inr a)
    obtain n' where "snd (f a ed1) = ed1\<lparr>ed_draws := n'\<rparr>" using assms(2) [of a] unfolding draws_only_def by blast
    then show ?thesis using m n Inr by (intro exI [of _ n']) (simp add: abind_def)
  qed (use m n in \<open>auto simp: abind_def\<close>)
qed

lemma okrel_draws: "draws_only m \<Longrightarrow> okrel (extends ext) m"
  unfolding okrel_def by (auto elim: draws_only_run)

lemma entry_or_insert_Inr:
  assumes "entry_or_insert field field_update key build ed = (Inr e, ed')" and "draws_only build"
  shows "bm_get (field (ed_scope ed)) key = Some e \<and> ed' = ed
    \<or> (bm_get (field (ed_scope ed)) key = None \<and> (\<exists>n. build ed = (Inr e, ed\<lparr>ed_draws := n\<rparr>)
        \<and> ed' = ed_update_scope (field_update (bm_insert key e)) (ed\<lparr>ed_draws := n\<rparr>)))"
proof (cases "bm_get (field (ed_scope ed)) key")
  case None
  with assms(1) obtain ed0 where b: "build ed = (Inr e, ed0)"
    and ed': "ed' = ed_update_scope (field_update (bm_insert key e)) ed0"
    by (auto simp: entry_or_insert_def abind_Inr_iff athen_Inr_iff)
  obtain n where "ed0 = ed\<lparr>ed_draws := n\<rparr>" using draws_only_run [OF assms(2) b] .
  with None b ed' show ?thesis by auto
qed (use assms(1) in \<open>auto simp: entry_or_insert_def abind_Inr_iff\<close>)

lemma okrel_entry_or_insert:
  assumes "draws_only build"
    and "\<And>ed e. editor_ok ed \<Longrightarrow> bm_get (field (ed_scope ed)) key = None
      \<Longrightarrow> extends ext ed (ed_update_scope (field_update (bm_insert key e)) ed)"
  shows "okrel (extends ext) (entry_or_insert field field_update key build)"
  unfolding okrel_def
proof (intro allI impI)
  fix ed e ed' assume run: "entry_or_insert field field_update key build ed = (Inr e, ed')"
  show "extends ext ed ed'"
  proof (cases "editor_ok ed")
    case True
    then have ok: "editor_ok (ed\<lparr>ed_draws := n\<rparr>)" for n by (simp add: editor_ok_def)
    show ?thesis
      using entry_or_insert_Inr [OF run assms(1)] assms(2) [OF ok]
        extends_trans [OF extends_draw [of ext ed]] by (auto simp: extends_refl)
  qed (simp add: extends_def)
qed

lemma extends_insert_entry:
  "bm_get (scoped_installations (ed_scope ed)) key = None
    \<Longrightarrow> extends ext ed (ed_update_scope (scoped_installations_update (bm_insert key e1)) ed)"
  "bm_get (conversations (ed_scope ed)) key = None
    \<Longrightarrow> extends ext ed (ed_update_scope (conversations_update (bm_insert key e2)) ed)"
  "bm_get (child_threads (ed_scope ed)) key = None
    \<Longrightarrow> extends ext ed (ed_update_scope (child_threads_update (bm_insert key e3)) ed)"
  "bm_get (turns (ed_scope ed)) key = None
    \<Longrightarrow> extends ext ed (ed_update_scope (turns_update (bm_insert key e4)) ed)"
  "bm_get (generated_items (ed_scope ed)) key = None
    \<Longrightarrow> extends ext ed (ed_update_scope (generated_items_update (bm_insert key e5)) ed)"
  "bm_get (compaction_markers (ed_scope ed)) key = None
    \<Longrightarrow> extends ext ed (ed_update_scope (compaction_markers_update (bm_insert key e6)) ed)"
  by (rule extends_update; (rule scope_grows_maps [OF _ refl])?; auto simp: table_ok_def split: if_splits)+

lemmas extends_rules =
  okrel_basic [where R = "extends ext" for ext, OF extends_refl]
  okrel_abind [where R = "extends ext" for ext, OF extends_trans]
  okrel_athen [where R = "extends ext" for ext, OF extends_trans]
  okrel_prod okrel_option okrel_if okrel_amodify extends_mark extends_protect okrel_entry_or_insert
  draws_only_intros draws_only_abind extends_insert_entry

lemma extends_installation_id: "okrel (extends ext) (installation_id ext' mode key)"
  unfolding installation_id_def Let_def by (intro extends_rules) auto

lemma extends_conversation_with_id: "okrel (extends ext) (conversation_with_id ext' key reserved)"
  unfolding conversation_with_id_def Let_def by (intro extends_rules) auto

lemma extends_child_thread_with_id: "okrel (extends ext) (child_thread_with_id ext' key session parent reserved)"
  unfolding child_thread_with_id_def Let_def by (intro extends_rules) auto

lemma extends_existing_child_thread: "okrel (extends ext) (existing_child_thread key)"
  unfolding existing_child_thread_def Let_def by (intro extends_rules) auto

lemma extends_generated_item: "okrel (extends ext) (generated_item ext' key prefix turn add)"
  unfolding generated_item_def Let_def by (intro extends_rules) (auto simp: claim_item_def)

lemma extends_turn_with_id: "okrel (extends ext) (turn_with_id ext' key thread root parent reserved)"
  unfolding turn_with_id_def Let_def by (intro extends_rules) auto

lemma extends_observe_turn_started_at: "okrel (extends ext) (observe_turn_started_at key value)"
  unfolding observe_turn_started_at_def by (intro extends_rules) auto

lemma extends_existing_turn: "okrel (extends ext) (existing_turn key)"
  unfolding existing_turn_def Let_def by (intro extends_rules) auto

lemma extends_preserve_inventory_origin: "okrel (extends ext) (preserve_inventory_origin key source)"
  unfolding preserve_inventory_origin_def Let_def by (intro extends_rules) auto

lemma extends_set_current_turn: "okrel (extends ext) (set_current_turn thread turn)"
  unfolding set_current_turn_def Let_def by (intro extends_rules) auto

lemma extends_conversation_by_id: "okrel (extends ext) (conversation_by_id x)"
  unfolding conversation_by_id_def Let_def by (intro extends_rules) auto

lemma extends_child_thread_by_id: "okrel (extends ext) (child_thread_by_id x)"
  unfolding child_thread_by_id_def by (intro extends_rules extends_existing_child_thread)

lemma extends_turn_by_id: "okrel (extends ext) (turn_by_id x)"
  unfolding turn_by_id_def by (intro extends_rules extends_existing_turn)

lemma extends_set_window_number: "okrel (extends ext) (set_window_number thread window)"
  unfolding set_window_number_def Let_def by (intro extends_rules) auto

lemma extends_observe_window_number: "okrel (extends ext) (observe_window_number thread window)"
  unfolding observe_window_number_def by (intro extends_rules extends_set_window_number)

lemma extends_touch_marker: "okrel (extends ext) (touch_marker key marker)"
  unfolding touch_marker_def Let_def by (intro extends_rules) auto

lemma extends_begin_compaction: "okrel (extends ext) (begin_compaction key thread)"
  unfolding okrel_def
proof (intro allI impI)
  fix ed w ed' assume run: "begin_compaction key thread ed = (Inr w, ed')"
  show "extends ext ed ed'"
  proof (cases "bm_get (compaction_markers (ed_scope ed)) key")
    case None
    from extends_insert_entry(6) [OF None] run None show ?thesis
      by (auto simp: begin_compaction_def athen_Inr_iff abind_Inr_iff
          intro!: extends_trans [OF extends_trans [OF _ extends_mark] extends_protect])
  next
    case (Some m)
    with run obtain ed1 u where "touch_marker key m ed = (Inr u, ed1)" "ed' = ed1"
      by (auto simp: begin_compaction_def athen_Inr_iff abind_Inr_iff)
    then show ?thesis using okrelD [OF extends_touch_marker] by blast
  qed
qed

lemma extends_commit_compaction: "okrel (extends ext) (commit_compaction key thread target)"
  unfolding commit_compaction_def by (intro extends_rules extends_set_window_number extends_touch_marker)

lemma extends_classifier_turn_with_id:
  "okrel (extends ext) (classifier_turn_with_id ext' key thread root parent reserved)"
proof -
  have "okrel (extends ext) (amodify (ed_update_scope (turns_update (bm_update key (\<lambda>e. e\<lparr>te_classifier := True\<rparr>)))))"
    by (rule okrel_amodify) simp
  moreover have "okrel (extends ext) (known_classifier_turn key lease source root parent reserved)" for lease source
    unfolding known_classifier_turn_def
    by (intro extends_rules extends_existing_turn extends_child_thread_by_id)
  ultimately show ?thesis
    unfolding classifier_turn_with_id_def
    by (intro extends_rules extends_child_thread_by_id extends_turn_by_id extends_turn_with_id) simp_all
qed

section \<open>The alias table\<close>

lemma extends_touch_wire: "okrel (extends ext) (touch_wire key)"
  unfolding touch_wire_def Let_def
  by (intro extends_rules) (auto intro!: extends_wire_in_place simp: wire_core_def)

lemma extends_insert_wire:
  assumes free: "bm_get (wire_ids (ed_scope ed)) dl = None" "bm_get (wire_upstream_index (ed_scope ed)) ul = None"
    and keys: "dl = wire_downstream ext (ed_keys ed) (we_domain e) (we_downstream_id e)"
      "ul = wire_upstream ext (ed_keys ed) (we_domain e) (we_upstream_id e)" "we_upstream_lookup e = ul"
  shows "extends ext ed (ed_update_scope (\<lambda>s. s\<lparr>wire_upstream_index := bm_insert ul dl (wire_upstream_index s),
    wire_ids := bm_insert dl e (wire_ids s)\<rparr>) ed)"
proof (rule extends_update)
  let ?f = "\<lambda>s. s\<lparr>wire_upstream_index := bm_insert ul dl (wire_upstream_index s), wire_ids := bm_insert dl e (wire_ids s)\<rparr>"
  show "scope_grows (ed_scope ed) (?f (ed_scope ed))"
    unfolding scope_grows_def all_kinds using free(1) by auto
  assume t: "table_ok ext ed"
  then have "wire_coherent ext (ed_keys ed) (?f (ed_scope ed))"
    using keys by (simp add: table_ok_def wire_coherent_def)
  moreover have "wire_index_ok (?f (ed_scope ed))"
    using t free keys(3) unfolding table_ok_def wire_index_ok_def
    by (auto split: if_splits) (metis option.distinct(1))+
  ultimately show "wire_index_ok (?f (ed_scope ed)) \<and> wire_coherent ext (ed_keys ed) (?f (ed_scope ed))" by blast
qed

definition new_pair :: "externals \<Rightarrow> wire_id_domain \<Rightarrow> wire_id_origin \<Rightarrow> string \<Rightarrow> string \<Rightarrow> editor \<Rightarrow> wire_id_entry" where
  "new_pair ext d origin down up ed = \<lparr>we_domain = d, we_origin = origin, we_downstream_id = down,
     we_upstream_id = up, we_upstream_lookup = wire_upstream ext (ed_keys ed) d up, we_owner = None,
     we_last_seen_day = ed_day ed\<rparr>"

lemma insert_wire_pair_Inr:
  assumes "insert_wire_pair ext d origin down up ed = (Inr x, ed')"
  defines "dl \<equiv> wire_downstream ext (ed_keys ed) d down" and "ul \<equiv> wire_upstream ext (ed_keys ed) d up"
  shows "x = up" and "bm_get (wire_ids (ed_scope ed)) dl = None"
    and "bm_get (wire_upstream_index (ed_scope ed)) ul = None"
    and "ed' = protect_key pk_wire_ids_update dl (mark_changed True (ed_update_scope (\<lambda>s. s\<lparr>
      wire_upstream_index := bm_insert ul dl (wire_upstream_index s),
      wire_ids := bm_insert dl (new_pair ext d origin down up ed) (wire_ids s)\<rparr>) ed))"
  using assms(1) unfolding dl_def ul_def
  by (auto simp: insert_wire_pair_def new_pair_def abind_Inr_iff athen_Inr_iff)

lemma extends_insert_wire_pair: "okrel (extends ext) (insert_wire_pair ext d origin down up)"
  unfolding okrel_def
proof (intro allI impI)
  fix ed x ed' assume run: "insert_wire_pair ext d origin down up ed = (Inr x, ed')"
  note pair = insert_wire_pair_Inr [OF run]
  have "extends ext ed (ed_update_scope (\<lambda>s. s\<lparr>
      wire_upstream_index := bm_insert (wire_upstream ext (ed_keys ed) d up) (wire_downstream ext (ed_keys ed) d down)
        (wire_upstream_index s),
      wire_ids := bm_insert (wire_downstream ext (ed_keys ed) d down) (new_pair ext d origin down up ed) (wire_ids s)\<rparr>) ed)"
    by (rule extends_insert_wire [OF pair(2,3)]) (simp_all add: new_pair_def)
  then show "extends ext ed ed'"
    unfolding pair(4) by (rule extends_trans [OF extends_trans [OF _ extends_mark] extends_protect]) simp_all
qed

lemma draws_only_wire_alias: "draws_only (wire_alias ext d source)"
  unfolding wire_alias_def Let_def by (auto split: option.splits)

lemma draws_only_unique_rounds: "draws_only (unique_wire_alias_rounds n ext d source downstream)"
proof (induction n)
  case 0
  show ?case unfolding draws_only_def by (simp add: draws_same)
next
  case (Suc n)
  have "draws_only (aget f)" for f :: "editor \<Rightarrow> bool" unfolding draws_only_def by (simp add: draws_same)
  with Suc show ?case by (auto intro!: draws_only_abind draws_only_wire_alias)
qed

lemma extends_unique_wire_alias: "okrel (extends ext) (unique_wire_alias ext' d source downstream)"
  unfolding unique_wire_alias_def by (rule okrel_draws [OF draws_only_unique_rounds])

lemma extends_touch_downstream: "okrel (extends ext) (touch_downstream ext' d x)"
  unfolding touch_downstream_def by (intro extends_rules extends_touch_wire)

lemmas wire_rules = extends_rules extends_touch_downstream extends_touch_wire extends_insert_wire_pair
  extends_unique_wire_alias

lemma extends_is_public_wire_alias: "okrel (extends ext) (is_public_wire_alias ext d x)"
  unfolding is_public_wire_alias_def Let_def by (intro wire_rules)

lemma extends_existing_wire_from_downstream: "okrel (extends ext) (existing_wire_from_downstream ext d x)"
  unfolding existing_wire_from_downstream_def by (intro wire_rules)

lemma extends_required_wire_from_downstream: "okrel (extends ext) (required_wire_from_downstream ext d x b)"
  unfolding required_wire_from_downstream_def by (intro wire_rules)

lemma extends_bind_wire_pair: "okrel (extends ext) (bind_wire_pair ext d x y)"
  unfolding bind_wire_pair_def by (intro wire_rules)

lemma extends_wire_from_downstream: "okrel (extends ext) (wire_from_downstream ext d x)"
  unfolding wire_from_downstream_def by (intro wire_rules)

lemma extends_existing_wire_from_upstream: "okrel (extends ext) (existing_wire_from_upstream ext d x)"
  unfolding existing_wire_from_upstream_def by (intro wire_rules)

lemma extends_wire_from_upstream: "okrel (extends ext) (wire_from_upstream ext d x)"
  unfolding wire_from_upstream_def by (intro wire_rules)

lemma extends_protect_owner: "okrel (extends ext) (protect_owner owner)"
  unfolding protect_owner_def by (intro extends_rules extends_conversation_by_id extends_child_thread_by_id)

lemma extends_set_response_owner: "okrel (extends ext) (set_response_owner ext' x owner)"
  unfolding set_response_owner_def
  by (intro extends_rules extends_protect_owner) (auto intro!: extends_wire_in_place simp: wire_core_def)

lemma extends_wire_from_upstream_response: "okrel (extends ext) (wire_from_upstream_response ext x owner)"
  unfolding wire_from_upstream_response_def
  by (intro extends_rules extends_wire_from_upstream extends_set_response_owner)

lemma extends_required_response_owner: "okrel (extends ext) (required_response_owner_from_downstream ext x)"
  unfolding required_response_owner_from_downstream_def
  by (intro extends_rules extends_touch_downstream extends_protect_owner)

lemma extends_record_content_origin: "okrel (extends ext) (record_content_origin ext d raw alias)"
proof -
  have "extends ext ed (ed\<lparr>ed_content_wire_origins := m\<rparr>)" for ed m
    by (simp add: extends_def table_ok_def editor_ok_def outside_def ed_scope_def)
  then show ?thesis
    unfolding record_content_origin_def by (intro extends_rules extends_existing_wire_from_downstream)
qed

end
