(* ===== verification/Editor_Honest.thy ===== *)
theory Editor_Honest
  imports Editor_Steps
begin

text \<open>
  The \<open>changed\<close> flag of the editor is honest: after a run of successful operations that left it
  unset, the ledger is the one the editor was opened on, so skipping the write loses nothing.
\<close>

definition honest :: "editor \<Rightarrow> editor \<Rightarrow> bool" where
  "honest ed ed' \<longleftrightarrow> (ed_changed ed \<longrightarrow> ed_changed ed') \<and> (ed_changed ed' \<or> ed_state ed' = ed_state ed)"

lemma honest_refl: "honest ed ed"
  by (simp add: honest_def)

lemma honest_trans: "honest a b \<Longrightarrow> honest b c \<Longrightarrow> honest a c"
  by (auto simp: honest_def)

lemmas honest_rules =
  okrel_basic [where R = honest, OF honest_refl]
  okrel_abind [where R = honest, OF honest_trans]
  okrel_athen [where R = honest, OF honest_trans]
  okrel_prod okrel_option okrel_if

lemma honest_draws: "draws_only m \<Longrightarrow> okrel honest m"
  unfolding okrel_def honest_def by (auto elim!: draws_only_run)

lemma honest_protect: "okrel honest (amodify (protect_key field key))"
  by (rule okrel_amodify) (simp add: honest_def protect_key_def)

lemma honest_mark: "okrel honest (amodify (mark_changed b))"
  by (rule okrel_amodify) (simp add: honest_def mark_changed_def)

text \<open>The tail shared by the operations: update in place, raise the flag, protect.\<close>

lemma honest_update:
  assumes "\<not> b \<Longrightarrow> f (ed_scope ed) = ed_scope ed"
  shows "honest ed (mark_changed b (ed_update_scope f ed))"
proof (cases b)
  case False
  have "bm_update (ed_scope_key ed) f (ps_scopes (ed_state ed)) = ps_scopes (ed_state ed)"
    by (rule bm_update_id) (use assms [OF False] in \<open>simp add: ed_scope_def\<close>)
  then have "ed_state (ed_update_scope f ed) = ed_state ed" by (simp add: ed_update_scope_def)
  with False show ?thesis by (simp add: honest_def mark_changed_def) (simp add: ed_update_scope_def)
qed (simp add: honest_def mark_changed_def)

lemma honest_protect_last: "honest ed ed' \<Longrightarrow> honest ed (protect_key field key ed')"
  by (simp add: honest_def protect_key_def)

lemma changed_honest: "ed_changed ed' \<Longrightarrow> honest ed ed'"
  by (simp add: honest_def)

lemma changed_frame [simp]:
  "ed_changed (protect_key field key ed) = ed_changed ed"
  "ed_changed (mark_changed b ed) = (ed_changed ed \<or> b)"
  "ed_changed (ed_update_scope f ed) = ed_changed ed"
  by (simp_all add: protect_key_def mark_changed_def ed_update_scope_def)

lemma touch_day_simps [simp]: "fst (touch_day a b) = b" "snd (touch_day a b) = (a \<noteq> b)"
  "touch_day a b = (b, a \<noteq> b)"
  by (auto simp: touch_day_def replace_if_different_def)

lemma replace_if_different_eq [simp]: "replace_if_different a b = (b, a \<noteq> b)"
  by (auto simp: replace_if_different_def)

lemma field_update_id:
  "g1 (scoped_installations s) = scoped_installations s \<Longrightarrow> scoped_installations_update g1 s = s"
  "g2 (conversations s) = conversations s \<Longrightarrow> conversations_update g2 s = s"
  "g3 (child_threads s) = child_threads s \<Longrightarrow> child_threads_update g3 s = s"
  "g4 (turns s) = turns s \<Longrightarrow> turns_update g4 s = s"
  "g5 (generated_items s) = generated_items s \<Longrightarrow> generated_items_update g5 s = s"
  "g6 (compaction_markers s) = compaction_markers s \<Longrightarrow> compaction_markers_update g6 s = s"
  "g7 (wire_ids s) = wire_ids s \<Longrightarrow> wire_ids_update g7 s = s"
  by (cases s; simp)+

text \<open>An entry that is found and whose day is current is left as it is.\<close>

lemma touch_ids:
  "bm_get (scoped_installations s) key = Some n \<Longrightarrow> ie_last_seen_day n = day
    \<Longrightarrow> scoped_installations_update (bm_update key (\<lambda>e. e\<lparr>ie_last_seen_day := day\<rparr>)) s = s"
  "bm_get (conversations s) key = Some c \<Longrightarrow> conv_last_seen_day c = day
    \<Longrightarrow> conversations_update (bm_update key (\<lambda>e. e\<lparr>conv_last_seen_day := day\<rparr>)) s = s"
  "bm_get (child_threads s) key = Some h \<Longrightarrow> ct_last_seen_day h = day
    \<Longrightarrow> child_threads_update (bm_update key (\<lambda>e. e\<lparr>ct_last_seen_day := day\<rparr>)) s = s"
  "bm_get (turns s) key = Some t \<Longrightarrow> te_last_seen_day t = day
    \<Longrightarrow> turns_update (bm_update key (\<lambda>e. e\<lparr>te_last_seen_day := day\<rparr>)) s = s"
  "bm_get (generated_items s) key = Some i \<Longrightarrow> gi_last_seen_day i = day
    \<Longrightarrow> generated_items_update (bm_update key (\<lambda>e. e\<lparr>gi_last_seen_day := day\<rparr>)) s = s"
  "bm_get (compaction_markers s) key = Some m \<Longrightarrow> cm_last_seen_day m = day
    \<Longrightarrow> compaction_markers_update (bm_update key (\<lambda>e. e\<lparr>cm_last_seen_day := day\<rparr>)) s = s"
  "bm_get (wire_ids s) key = Some w \<Longrightarrow> we_last_seen_day w = day
    \<Longrightarrow> wire_ids_update (bm_update key (\<lambda>e. e\<lparr>we_last_seen_day := day\<rparr>)) s = s"
  by (rule field_update_id, rule bm_update_id, simp)+

lemma draws_build:
  "draws_only (abind (draw_v4 ext) (\<lambda>x. aret (f x)))" "draws_only (abind (draw_v7 ext) (\<lambda>x. aret (f x)))"
  "draws_only (abind (reserved_or_draw ext r) (\<lambda>x. aret (f x)))"
  by auto

lemmas run_simps = abind_Inr_iff athen_Inr_iff Let_def
lemmas entry_run = entry_or_insert_Inr [OF _ draws_build(1)] entry_or_insert_Inr [OF _ draws_build(2)]
  entry_or_insert_Inr [OF _ draws_build(3)]

lemma honest_commit:
  assumes "\<not> b \<Longrightarrow> ed1 = ed \<and> f (ed_scope ed) = ed_scope ed"
  shows "honest ed (protect_key field key (mark_changed b (ed_update_scope f ed1)))"
  using assms honest_update [of False f ed]
  by (cases b) (auto intro: honest_protect_last changed_honest)

lemmas honest_intros = honest_commit honest_protect_last [OF honest_update] honest_update

lemma honest_installation_id: "okrel honest (installation_id ext mode key)"
  unfolding okrel_def
  by (auto simp: installation_id_def run_simps honest_refl dest!: entry_run intro!: honest_intros touch_ids split: if_splits)

lemma honest_conversation_with_id: "okrel honest (conversation_with_id ext key reserved)"
  unfolding okrel_def
  by (auto simp: conversation_with_id_def run_simps dest!: entry_run intro!: honest_intros touch_ids)

lemma honest_child_thread_with_id: "okrel honest (child_thread_with_id ext key session parent reserved)"
  unfolding okrel_def
  by (auto simp: child_thread_with_id_def run_simps dest!: entry_run intro!: honest_intros touch_ids)

lemma honest_turn_with_id: "okrel honest (turn_with_id ext key thread root parent reserved)"
  unfolding okrel_def
  by (auto simp: turn_with_id_def run_simps dest!: entry_run intro!: honest_intros touch_ids)

lemma honest_existing_child_thread: "okrel honest (existing_child_thread key)"
  unfolding okrel_def
  by (auto simp: existing_child_thread_def run_simps honest_refl split: option.splits intro!: honest_intros touch_ids)

lemma honest_existing_turn: "okrel honest (existing_turn key)"
  unfolding okrel_def
  by (auto simp: existing_turn_def run_simps honest_refl split: option.splits intro!: honest_intros touch_ids)

lemma honest_conversation_by_id: "okrel honest (conversation_by_id x)"
  unfolding okrel_def
  by (auto simp: conversation_by_id_def run_simps honest_refl split: option.splits intro!: honest_intros touch_ids)

lemma honest_child_thread_by_id: "okrel honest (child_thread_by_id x)"
  unfolding child_thread_by_id_def by (intro honest_rules honest_existing_child_thread)

lemma honest_turn_by_id: "okrel honest (turn_by_id x)"
  unfolding turn_by_id_def by (intro honest_rules honest_existing_turn)

lemma honest_touch_marker:
  "bm_get (compaction_markers (ed_scope ed)) key = Some m \<Longrightarrow> touch_marker key m ed = (Inr u, ed') \<Longrightarrow> honest ed ed'"
  by (auto simp: touch_marker_def run_simps intro!: honest_intros touch_ids)

lemma honest_touch_wire: "okrel honest (touch_wire key)"
  unfolding okrel_def by (auto simp: touch_wire_def run_simps intro!: honest_intros touch_ids)

lemma find_values: "List.find P (bm_values m) = map_option snd (List.find (\<lambda>(_, v). P v) (bm_entries m))"
proof -
  have "List.find P (map snd xs) = map_option snd (List.find (\<lambda>(_, v). P v) xs)" for xs :: "('b \<times> 'a) list"
    by (induction xs) auto
  then show ?thesis by (simp add: bm_values_def)
qed

lemma update_first_id:
  assumes "List.find P (bm_values m) = Some e" and "f e = e"
  shows "update_first P f m = m"
proof -
  from assms(1) obtain k where k: "List.find (\<lambda>(_, v). P v) (bm_entries m) = Some (k, e)"
    by (auto simp: find_values)
  then have "bm_get m k = Some e" by (auto simp: bm_get_iff dest: find_eq_Some_D)
  with k assms(2) show ?thesis by (auto simp: update_first_def bm_find_key_def intro: bm_update_id)
qed

lemma honest_set_current_turn: "okrel honest (set_current_turn thread turn)"
  unfolding okrel_def
  by (auto simp: set_current_turn_def run_simps find_conversation_def find_child_def split: option.splits
      intro!: honest_update field_update_id update_first_id)

lemma honest_set_window_number: "okrel honest (set_window_number thread window)"
  unfolding okrel_def
  by (auto simp: set_window_number_def run_simps find_conversation_def find_child_def split: option.splits
      intro!: honest_update field_update_id update_first_id)

lemma honest_observe_window_number: "okrel honest (observe_window_number thread window)"
  unfolding observe_window_number_def by (intro honest_rules honest_set_window_number)

lemma honest_observe_turn_started_at: "okrel honest (observe_turn_started_at key value)"
  unfolding okrel_def
  by (auto simp: observe_turn_started_at_def run_simps intro!: honest_update field_update_id bm_update_id)

lemma honest_preserve_inventory_origin: "okrel honest (preserve_inventory_origin key source)"
  unfolding okrel_def
  by (auto simp: preserve_inventory_origin_def run_simps honest_refl split: option.splits intro: changed_honest)

lemma honest_begin_compaction: "okrel honest (begin_compaction key thread)"
  unfolding okrel_def
  by (auto simp: begin_compaction_def run_simps split: option.splits dest: honest_touch_marker intro!: honest_commit)

lemma update_scope_id:
  assumes "f (ed_scope ed) = ed_scope ed"
  shows "ed_update_scope f ed = ed"
proof -
  have "bm_update (ed_scope_key ed) f (ps_scopes (ed_state ed)) = ps_scopes (ed_state ed)"
    by (rule bm_update_id) (use assms in \<open>simp add: ed_scope_def\<close>)
  then show ?thesis by (simp add: ed_update_scope_def)
qed

lemma honest_commit2:
  assumes "\<not> b \<Longrightarrow> ed1 = ed \<and> g (ed_scope ed) = ed_scope ed \<and> f (ed_scope ed) = ed_scope ed"
  shows "honest ed (protect_key field key (mark_changed b (ed_update_scope f (ed_update_scope g ed1))))"
  using assms honest_commit [of b "ed_update_scope g ed1" ed f] by (auto simp: update_scope_id)

lemma claim_item_id: "gi_turn_id e = gi_turn_id (claim_item turn e) \<Longrightarrow> claim_item turn e = e"
  by (auto simp: claim_item_def)

lemma claim_ids:
  "bm_get (generated_items s) key = Some i \<Longrightarrow> gi_turn_id i = gi_turn_id (claim_item turn i)
    \<Longrightarrow> generated_items_update (bm_update key (claim_item turn)) s = s"
proof (rule field_update_id, rule bm_update_id)
  fix v assume "bm_get (generated_items s) key = Some i" "gi_turn_id i = gi_turn_id (claim_item turn i)"
    "bm_get (generated_items s) key = Some v"
  then show "claim_item turn v = v" using claim_item_id [of i turn] by simp
qed

lemma honest_generated_item: "okrel honest (generated_item ext key prefix turn add)"
  unfolding okrel_def
  by (auto simp: generated_item_def run_simps dest!: entry_run intro!: honest_commit2 touch_ids claim_ids)

lemma set_window_number_markers:
  "set_window_number thread window ed = (Inr u, ed') \<Longrightarrow> editor_ok ed
    \<Longrightarrow> compaction_markers (ed_scope ed') = compaction_markers (ed_scope ed)"
  by (auto simp: set_window_number_def run_simps ed_scope_update split: option.splits)

lemma set_window_number_missing:
  assumes "bm_get (ps_scopes (ed_state ed)) (ed_scope_key ed) = None"
  shows "set_window_number thread window ed = (Inl (Msg ''window thread is not in request state''), ed)"
  using assms
  by (simp add: set_window_number_def abind_def ed_scope_def scope_new_def find_conversation_def find_child_def
      bm_values_def)

lemma honest_commit_compaction: "editor_ok ed \<Longrightarrow> commit_compaction key thread target ed = (Inr w, ed') \<Longrightarrow> honest ed ed'"
proof -
  assume ok: "editor_ok ed" and "commit_compaction key thread target ed = (Inr w, ed')"
  then obtain existing current ed1 u v where m: "bm_get (compaction_markers (ed_scope ed)) key = Some existing"
    and set: "(if target > current then set_window_number thread target else aret ()) ed = (Inr u, ed1)"
    and touch: "touch_marker key existing ed1 = (Inr v, ed')"
    by (auto simp: commit_compaction_def run_simps)
  have "honest ed ed1" using set okrelD [OF honest_set_window_number] by (auto split: if_splits intro: honest_refl)
  moreover have "compaction_markers (ed_scope ed1) = compaction_markers (ed_scope ed)"
    using set set_window_number_markers [OF _ ok] by (auto split: if_splits)
  ultimately show ?thesis using honest_trans honest_touch_marker [OF _ touch] m by simp
qed

lemma honest_classifier_turn_with_id: "okrel honest (classifier_turn_with_id ext key thread root parent reserved)"
proof -
  have known: "okrel honest (known_classifier_turn key lease source root parent reserved)" for lease source
    unfolding known_classifier_turn_def by (intro honest_rules honest_existing_turn honest_child_thread_by_id)
  have tag: "okrel honest (athen (amodify (ed_update_scope (turns_update (bm_update key (\<lambda>e. e\<lparr>te_classifier := True\<rparr>)))))
      (athen (amodify (mark_changed True)) (aret turn)))" for turn :: turn_assignment
    by (auto simp: okrel_def run_simps intro: changed_honest)
  show ?thesis
    unfolding classifier_turn_with_id_def
    by (intro honest_rules honest_child_thread_by_id honest_turn_by_id honest_turn_with_id known tag)
qed

section \<open>The alias table\<close>

lemma honest_insert_wire_pair: "okrel honest (insert_wire_pair ext d origin down up)"
  unfolding okrel_def by (auto simp: insert_wire_pair_def run_simps intro: changed_honest)

lemma honest_touch_downstream: "okrel honest (touch_downstream ext d x)"
  unfolding touch_downstream_def by (intro honest_rules honest_touch_wire)

lemma honest_unique_wire_alias: "okrel honest (unique_wire_alias ext d source downstream)"
  unfolding unique_wire_alias_def by (rule honest_draws [OF draws_only_unique_rounds])

lemmas honest_wire_rules = honest_rules honest_touch_downstream honest_touch_wire honest_insert_wire_pair
  honest_unique_wire_alias

lemma honest_is_public_wire_alias: "okrel honest (is_public_wire_alias ext d x)"
  unfolding is_public_wire_alias_def Let_def by (intro honest_wire_rules)

lemma honest_existing_wire_from_downstream: "okrel honest (existing_wire_from_downstream ext d x)"
  unfolding existing_wire_from_downstream_def Let_def by (intro honest_wire_rules)

lemma honest_required_wire_from_downstream: "okrel honest (required_wire_from_downstream ext d x b)"
  unfolding required_wire_from_downstream_def Let_def by (intro honest_wire_rules)

lemma honest_bind_wire_pair: "okrel honest (bind_wire_pair ext d x y)"
  unfolding bind_wire_pair_def Let_def by (intro honest_wire_rules)

lemma honest_wire_from_downstream: "okrel honest (wire_from_downstream ext d x)"
  unfolding wire_from_downstream_def Let_def by (intro honest_wire_rules)

lemma honest_existing_wire_from_upstream: "okrel honest (existing_wire_from_upstream ext d x)"
  unfolding existing_wire_from_upstream_def Let_def by (intro honest_wire_rules)

lemma honest_wire_from_upstream: "okrel honest (wire_from_upstream ext d x)"
  unfolding wire_from_upstream_def Let_def by (intro honest_wire_rules)

lemmas honest_wires = honest_is_public_wire_alias honest_existing_wire_from_downstream honest_required_wire_from_downstream
  honest_bind_wire_pair honest_wire_from_downstream
  honest_existing_wire_from_upstream honest_wire_from_upstream

lemma honest_protect_owner: "okrel honest (protect_owner owner)"
  unfolding protect_owner_def by (intro honest_rules honest_conversation_by_id honest_child_thread_by_id)

lemma honest_set_response_owner: "okrel honest (set_response_owner ext x owner)"
proof -
  have tag: "okrel honest (athen (amodify (ed_update_scope f)) (amodify (mark_changed True)))" for f
    by (auto simp: okrel_def run_simps intro: changed_honest)
  show ?thesis
    unfolding set_response_owner_def by (intro honest_rules honest_protect_owner honest_protect tag)
qed

lemma honest_wire_from_upstream_response: "okrel honest (wire_from_upstream_response ext x own)"
  unfolding wire_from_upstream_response_def by (intro honest_rules honest_wires honest_set_response_owner)

lemma honest_required_response_owner: "okrel honest (required_response_owner_from_downstream ext x)"
  unfolding required_response_owner_from_downstream_def
  by (intro honest_rules honest_touch_downstream honest_protect_owner)

lemma honest_record_content_origin: "okrel honest (record_content_origin ext d raw alias)"
proof -
  have origins: "honest ed (ed\<lparr>ed_content_wire_origins := m\<rparr>)" for ed m by (simp add: honest_def)
  show ?thesis
    unfolding record_content_origin_def by (intro honest_rules honest_wires okrel_amodify origins)
qed

section \<open>Runs of operations\<close>

text \<open>One successful call of an operation that a resolver makes on the editor.\<close>

inductive edit_step :: "externals \<Rightarrow> editor \<Rightarrow> editor \<Rightarrow> bool" for ext where
  "installation_id ext mode key ed = (Inr a1, ed') \<Longrightarrow> edit_step ext ed ed'"
| "conversation_with_id ext key reserved ed = (Inr a2, ed') \<Longrightarrow> edit_step ext ed ed'"
| "child_thread_with_id ext key session parent reserved ed = (Inr a3, ed') \<Longrightarrow> edit_step ext ed ed'"
| "existing_child_thread key ed = (Inr a4, ed') \<Longrightarrow> edit_step ext ed ed'"
| "generated_item ext key prefix turn add ed = (Inr a5, ed') \<Longrightarrow> edit_step ext ed ed'"
| "turn_with_id ext key thread root parent reserved ed = (Inr a6, ed') \<Longrightarrow> edit_step ext ed ed'"
| "observe_turn_started_at key value ed = (Inr a7, ed') \<Longrightarrow> edit_step ext ed ed'"
| "existing_turn key ed = (Inr a8, ed') \<Longrightarrow> edit_step ext ed ed'"
| "set_current_turn thread turn' ed = (Inr a9, ed') \<Longrightarrow> edit_step ext ed ed'"
| "conversation_by_id x ed = (Inr a10, ed') \<Longrightarrow> edit_step ext ed ed'"
| "child_thread_by_id x ed = (Inr a11, ed') \<Longrightarrow> edit_step ext ed ed'"
| "turn_by_id x ed = (Inr a12, ed') \<Longrightarrow> edit_step ext ed ed'"
| "set_window_number thread window ed = (Inr a13, ed') \<Longrightarrow> edit_step ext ed ed'"
| "observe_window_number thread window ed = (Inr a14, ed') \<Longrightarrow> edit_step ext ed ed'"
| "begin_compaction key thread ed = (Inr a15, ed') \<Longrightarrow> edit_step ext ed ed'"
| "commit_compaction key thread target ed = (Inr a16, ed') \<Longrightarrow> edit_step ext ed ed'"
| "classifier_turn_with_id ext key thread root parent reserved ed = (Inr a17, ed') \<Longrightarrow> edit_step ext ed ed'"
| "is_public_wire_alias ext d x ed = (Inr a18, ed') \<Longrightarrow> edit_step ext ed ed'"
| "existing_wire_from_downstream ext d x ed = (Inr a19, ed') \<Longrightarrow> edit_step ext ed ed'"
| "required_wire_from_downstream ext d x provider ed = (Inr a20, ed') \<Longrightarrow> edit_step ext ed ed'"
| "bind_wire_pair ext d x y ed = (Inr a21, ed') \<Longrightarrow> edit_step ext ed ed'"
| "wire_from_downstream ext d x ed = (Inr a22, ed') \<Longrightarrow> edit_step ext ed ed'"
| "existing_wire_from_upstream ext d x ed = (Inr a23, ed') \<Longrightarrow> edit_step ext ed ed'"
| "wire_from_upstream ext d x ed = (Inr a24, ed') \<Longrightarrow> edit_step ext ed ed'"
| "wire_from_upstream_response ext x own ed = (Inr a25, ed') \<Longrightarrow> edit_step ext ed ed'"
| "required_response_owner_from_downstream ext x ed = (Inr a26, ed') \<Longrightarrow> edit_step ext ed ed'"
| "record_content_origin ext d raw alias ed = (Inr a27, ed') \<Longrightarrow> edit_step ext ed ed'"
| "draw_v7 ext ed = (Inr a28, ed') \<Longrightarrow> edit_step ext ed ed'"
| "preserve_inventory_origin key source ed = (Inr a29, ed') \<Longrightarrow> edit_step ext ed ed'"

lemma edit_step_extends: "edit_step ext ed ed' \<Longrightarrow> extends ext ed ed'"
  by (induction rule: edit_step.induct)
    (fact okrelD [OF extends_installation_id] okrelD [OF extends_conversation_with_id]
      okrelD [OF extends_child_thread_with_id] okrelD [OF extends_existing_child_thread]
      okrelD [OF extends_generated_item] okrelD [OF extends_turn_with_id]
      okrelD [OF extends_observe_turn_started_at] okrelD [OF extends_existing_turn]
      okrelD [OF extends_set_current_turn] okrelD [OF extends_conversation_by_id]
      okrelD [OF extends_child_thread_by_id] okrelD [OF extends_turn_by_id]
      okrelD [OF extends_set_window_number] okrelD [OF extends_observe_window_number]
      okrelD [OF extends_begin_compaction] okrelD [OF extends_commit_compaction]
      okrelD [OF extends_classifier_turn_with_id] okrelD [OF extends_is_public_wire_alias]
      okrelD [OF extends_existing_wire_from_downstream] okrelD [OF extends_required_wire_from_downstream]
      okrelD [OF extends_bind_wire_pair] okrelD [OF extends_wire_from_downstream]
      okrelD [OF extends_existing_wire_from_upstream] okrelD [OF extends_wire_from_upstream]
      okrelD [OF extends_wire_from_upstream_response] okrelD [OF extends_required_response_owner]
      okrelD [OF extends_record_content_origin] okrelD [OF okrel_draws [OF draws_only_intros(3)]]
      okrelD [OF extends_preserve_inventory_origin])+

lemma edit_step_honest: "edit_step ext ed ed' \<Longrightarrow> editor_ok ed \<Longrightarrow> honest ed ed'"
  by (induction rule: edit_step.induct)
    ((erule okrelD [OF honest_installation_id] okrelD [OF honest_conversation_with_id]
      okrelD [OF honest_child_thread_with_id] okrelD [OF honest_existing_child_thread]
      okrelD [OF honest_generated_item] okrelD [OF honest_turn_with_id]
      okrelD [OF honest_observe_turn_started_at] okrelD [OF honest_existing_turn]
      okrelD [OF honest_set_current_turn] okrelD [OF honest_conversation_by_id]
      okrelD [OF honest_child_thread_by_id] okrelD [OF honest_turn_by_id]
      okrelD [OF honest_set_window_number] okrelD [OF honest_observe_window_number]
      okrelD [OF honest_begin_compaction]
      okrelD [OF honest_classifier_turn_with_id] okrelD [OF honest_is_public_wire_alias]
      okrelD [OF honest_existing_wire_from_downstream] okrelD [OF honest_required_wire_from_downstream]
      okrelD [OF honest_bind_wire_pair] okrelD [OF honest_wire_from_downstream]
      okrelD [OF honest_existing_wire_from_upstream] okrelD [OF honest_wire_from_upstream]
      okrelD [OF honest_wire_from_upstream_response] okrelD [OF honest_required_response_owner]
      okrelD [OF honest_record_content_origin] okrelD [OF honest_draws [OF draws_only_intros(3)]]
      okrelD [OF honest_preserve_inventory_origin]) | (rule honest_commit_compaction, assumption, assumption))+

abbreviation edit_steps :: "externals \<Rightarrow> editor \<Rightarrow> editor \<Rightarrow> bool" where
  "edit_steps ext \<equiv> (edit_step ext)\<^sup>*\<^sup>*"

lemma edit_steps_extends: "edit_steps ext ed ed' \<Longrightarrow> extends ext ed ed'"
  by (induction rule: rtranclp_induct) (auto intro: extends_refl extends_trans dest: edit_step_extends)

lemma edit_steps_honest:
  assumes "edit_steps ext ed ed'" and "editor_ok ed"
  shows "honest ed ed'"
  using assms(1)
proof (induction rule: rtranclp_induct)
  case (step y z)
  from edit_steps_extends [OF step(1)] assms(2) have "editor_ok y" by (simp add: extends_def)
  with step show ?case by (blast intro: honest_trans edit_step_honest)
qed (rule honest_refl)

end
