(* ===== verification/Alias_Table.thy ===== *)
theory Alias_Table
  imports Editor_Honest
begin

text \<open>
  The contract of a reversible alias table and its two instances in the editor: aliases given to
  downstream identifiers, and aliases given to upstream identifiers.
\<close>

section \<open>The contract\<close>

text \<open>
  \<open>forward\<close> hands out the alias of a source and may allocate it; \<open>backward\<close> reads the inverse; \<open>step\<close>
  is any operation of the component that owns the table.  The law says that the inverse of an alias
  stays readable whatever happens later.
\<close>

locale alias_table =
  fixes inv :: "'s \<Rightarrow> bool"
    and step :: "'s \<Rightarrow> 's \<Rightarrow> bool"
    and forward :: "'a \<Rightarrow> 's \<Rightarrow> ('e + 'b) \<times> 's"
    and backward :: "'b \<Rightarrow> 's \<Rightarrow> ('e + 'a option) \<times> 's"
    and valid :: "'b \<Rightarrow> bool"
  assumes inv_step: "inv s \<Longrightarrow> step s t \<Longrightarrow> inv t"
    and forward_step: "forward a s = (Inr b, t) \<Longrightarrow> step s t"
    and backward_forward: "inv s \<Longrightarrow> forward a s = (Inr b, t) \<Longrightarrow> step\<^sup>*\<^sup>* t u \<Longrightarrow> valid b
      \<Longrightarrow> fst (backward b u) = Inr (Some a)"
begin

lemma inv_steps:
  assumes "step\<^sup>*\<^sup>* s t" and "inv s"
  shows "inv t"
  using assms by (induction rule: rtranclp_induct) (auto intro: inv_step)

lemma forward_inject:
  assumes "inv s" and first: "forward a s = (Inr b, t)" and run: "step\<^sup>*\<^sup>* t u"
    and second: "forward a' u = (Inr b, v)" and "valid b"
  shows "a = a'"
proof -
  have "inv u" using assms(1) forward_step [OF first] inv_step inv_steps [OF run] by blast
  from backward_forward [OF this second _ assms(5)] have "fst (backward b v) = Inr (Some a')" by blast
  moreover have "step\<^sup>*\<^sup>* t v" using run forward_step [OF second] by (rule rtranclp.rtrancl_into_rtrancl)
  from backward_forward [OF assms(1) first this assms(5)] have "fst (backward b v) = Inr (Some a)" .
  ultimately show ?thesis by simp
qed

end

section \<open>Entries persist\<close>

definition wire_inv :: "externals \<Rightarrow> editor \<Rightarrow> bool" where
  "wire_inv ext ed \<longleftrightarrow> editor_ok ed \<and> table_ok ext ed"

lemma wire_inv_steps: "edit_steps ext ed ed' \<Longrightarrow> wire_inv ext ed \<Longrightarrow> wire_inv ext ed'"
  using edit_steps_extends [of ext ed ed'] by (auto simp: wire_inv_def extends_def)

definition holds_pair :: "externals \<Rightarrow> wire_id_domain \<Rightarrow> string \<Rightarrow> string \<Rightarrow> editor \<Rightarrow> bool" where
  "holds_pair ext d down up ed \<longleftrightarrow>
     (\<exists>e. bm_get (wire_ids (ed_scope ed)) (wire_downstream ext (ed_keys ed) d down) = Some e
        \<and> we_domain e = d \<and> we_downstream_id e = down \<and> we_upstream_id e = up)"

lemma holds_pair_extends:
  assumes "extends ext ed ed'" and "editor_ok ed" and "holds_pair ext d down up ed"
  shows "holds_pair ext d down up ed'"
proof -
  from assms(3) obtain e where e: "bm_get (wire_ids (ed_scope ed)) (wire_downstream ext (ed_keys ed) d down) = Some e"
      "we_domain e = d" "we_downstream_id e = down" "we_upstream_id e = up"
    by (auto simp: holds_pair_def)
  from assms(1,2) have "scope_grows (ed_scope ed) (ed_scope ed')" and keys: "ed_keys ed' = ed_keys ed"
    by (auto simp: extends_def)
  then have "map_option wire_core (bm_get (wire_ids (ed_scope ed')) (wire_downstream ext (ed_keys ed) d down))
      = Some (wire_core e)"
    using e(1) unfolding scope_grows_def by (metis option.simps(9))
  then show ?thesis using e keys by (auto simp: holds_pair_def wire_core_def)
qed

lemma touch_wire_total:
  "bm_get (wire_ids (ed_scope ed)) k = Some e \<Longrightarrow> fst (touch_wire k ed) = Inr ()"
  by (auto simp: touch_wire_def abind_def athen_def Let_def split: prod.splits)

lemma run_abind_fst: "fst (m ed) = Inr a \<Longrightarrow> fst (abind m f ed) = fst (f a (snd (m ed)))"
  by (cases "m ed") (simp add: abind_def)

lemma existing_downstream_of_pair:
  assumes "holds_pair ext d down up ed" and "is_ok (validate_wire_id down)"
  shows "fst (existing_wire_from_downstream ext d down ed) = Inr (Some up)"
proof -
  from assms(1) obtain e where e: "bm_get (wire_ids (ed_scope ed)) (wire_downstream ext (ed_keys ed) d down) = Some e"
      "we_domain e = d" "we_downstream_id e = down" "we_upstream_id e = up"
    by (auto simp: holds_pair_def)
  from touch_wire_total [OF e(1)] obtain ed1 where
    t: "touch_wire (wire_downstream ext (ed_keys ed) d down) ed = (Inr (), ed1)"
    by (metis prod.collapse)
  from assms(2) have v: "validate_wire_id down = Inr ()" by (simp add: is_ok_unit)
  show ?thesis
    using e v t by (simp add: existing_wire_from_downstream_def athen_def abind_def downstream_entry_def
        downstream_matches_def touch_downstream_def)
qed

lemma existing_upstream_of_pair:
  assumes "wire_inv ext ed" and "holds_pair ext d down up ed" and "is_ok (validate_wire_id up)"
  shows "fst (existing_wire_from_upstream ext d up ed) = Inr (Some down)"
proof -
  let ?dl = "wire_downstream ext (ed_keys ed) d down"
  from assms(2) obtain e where e: "bm_get (wire_ids (ed_scope ed)) ?dl = Some e"
      "we_domain e = d" "we_downstream_id e = down" "we_upstream_id e = up"
    by (auto simp: holds_pair_def)
  from assms(1) e(1) have "we_upstream_lookup e = wire_upstream ext (ed_keys ed) (we_domain e) (we_upstream_id e)"
    unfolding wire_inv_def table_ok_def wire_coherent_def by blast
  moreover from assms(1) e(1) have "bm_get (wire_upstream_index (ed_scope ed)) (we_upstream_lookup e) = Some ?dl"
    unfolding wire_inv_def table_ok_def wire_index_ok_def by blast
  ultimately have idx: "bm_get (wire_upstream_index (ed_scope ed)) (wire_upstream ext (ed_keys ed) d up) = Some ?dl"
    using e by simp
  from touch_wire_total [OF e(1)] obtain ed1 where t: "touch_wire ?dl ed = (Inr (), ed1)" by (metis prod.collapse)
  from assms(3) have v: "validate_wire_id up = Inr ()" by (simp add: is_ok_unit)
  show ?thesis
    using e v t idx by (simp add: existing_wire_from_upstream_def athen_def abind_def)
qed

section \<open>Both directions allocate pairs\<close>

lemma holds_new_pair:
  assumes "insert_wire_pair ext d origin down up ed = (Inr x, ed')" and "editor_ok ed"
  shows "holds_pair ext d down up ed'"
proof -
  note pair = insert_wire_pair_Inr [OF assms(1)]
  have "ed_keys ed' = ed_keys ed" unfolding pair(4) by (simp add: protect_key_def mark_changed_def ed_update_scope_def)
  then show ?thesis
    unfolding holds_pair_def by (simp add: pair(4) ed_scope_update [OF assms(2)] new_pair_def)
qed

lemma unique_alias_frame:
  assumes "unique_wire_alias ext d source downstream ed = (Inr x, ed')"
  obtains n where "ed' = ed\<lparr>ed_draws := n\<rparr>"
  using assms draws_only_run [OF draws_only_unique_rounds] unfolding unique_wire_alias_def by blast

lemma editor_ok_draws [simp]: "editor_ok (ed\<lparr>ed_draws := n\<rparr>) = editor_ok ed"
  by (simp add: editor_ok_def)

lemma wire_from_downstream_pair:
  assumes "wire_inv ext ed" and "wire_from_downstream ext d down ed = (Inr up, ed')"
  shows "holds_pair ext d down up ed'"
proof (cases "downstream_entry ext d down ed")
  case None
  with assms(2) obtain up' ed1 where u: "unique_wire_alias ext d down False ed = (Inr up', ed1)"
    and i: "insert_wire_pair ext d Downstream down up' ed1 = (Inr up, ed')"
    by (auto simp: wire_from_downstream_def athen_Inr_iff abind_Inr_iff)
  obtain n where "ed1 = ed\<lparr>ed_draws := n\<rparr>" by (rule unique_alias_frame [OF u])
  with assms(1) holds_new_pair [OF i] insert_wire_pair_Inr(1) [OF i] show ?thesis by (simp add: wire_inv_def)
next
  case (Some e)
  with assms(2) have m: "we_domain e = d" "we_downstream_id e = down" "we_upstream_id e = up"
    by (auto simp: wire_from_downstream_def athen_Inr_iff abind_Inr_iff downstream_matches_def)
  with Some have "holds_pair ext d down up ed" by (auto simp: holds_pair_def downstream_entry_def)
  then show ?thesis
    using holds_pair_extends [OF okrelD [OF extends_wire_from_downstream assms(2)]] assms(1) by (simp add: wire_inv_def)
qed

lemma wire_from_upstream_pair:
  assumes inv: "wire_inv ext ed" and run: "wire_from_upstream ext d up ed = (Inr down, ed')"
  shows "holds_pair ext d down up ed'"
proof (cases "bm_get (wire_upstream_index (ed_scope ed)) (wire_upstream ext (ed_keys ed) d up)")
  case None
  with run obtain down' ed1 x where u: "unique_wire_alias ext d up True ed = (Inr down', ed1)"
    and i: "insert_wire_pair ext d Upstream down' up ed1 = (Inr x, ed')" and "down = down'"
    by (auto simp: wire_from_upstream_def athen_Inr_iff abind_Inr_iff)
  obtain n where "ed1 = ed\<lparr>ed_draws := n\<rparr>" by (rule unique_alias_frame [OF u])
  with inv holds_new_pair [OF i] \<open>down = down'\<close> show ?thesis by (simp add: wire_inv_def)
next
  case (Some k)
  with run obtain e where e: "bm_get (wire_ids (ed_scope ed)) k = Some e"
    and m: "we_domain e = d" "we_upstream_id e = up" "we_downstream_id e = down"
    by (auto simp: wire_from_upstream_def athen_Inr_iff abind_Inr_iff)
  from inv e have "k = wire_downstream ext (ed_keys ed) (we_domain e) (we_downstream_id e)"
    unfolding wire_inv_def table_ok_def wire_coherent_def by blast
  with e m have "holds_pair ext d down up ed" by (auto simp: holds_pair_def)
  then show ?thesis
    using holds_pair_extends [OF okrelD [OF extends_wire_from_upstream run]] inv by (simp add: wire_inv_def)
qed

lemma holds_pair_steps:
  assumes "edit_steps ext ed ed'" and "wire_inv ext ed" and "holds_pair ext d down up ed"
  shows "holds_pair ext d down up ed'"
  using assms holds_pair_extends [OF edit_steps_extends] by (auto simp: wire_inv_def)

interpretation down_alias: alias_table "wire_inv ext" "edit_step ext" "wire_from_downstream ext d"
    "existing_wire_from_upstream ext d" "\<lambda>up. is_ok (validate_wire_id up)" for ext d
proof
  show "wire_inv ext s \<Longrightarrow> edit_step ext s t \<Longrightarrow> wire_inv ext t" for s t
    by (rule wire_inv_steps) auto
  show step: "wire_from_downstream ext d down s = (Inr up, t) \<Longrightarrow> edit_step ext s t" for down s up t
    by (rule edit_step.intros)
  fix s down up t u
  assume inv: "wire_inv ext s" and run: "wire_from_downstream ext d down s = (Inr up, t)"
    and steps: "edit_steps ext t u" and valid: "is_ok (validate_wire_id up)"
  have "wire_inv ext t" using step [OF run] inv by (intro wire_inv_steps [of ext s t]) auto
  from holds_pair_steps [OF steps this wire_from_downstream_pair [OF inv run]] wire_inv_steps [OF steps this]
  show "fst (existing_wire_from_upstream ext d up u) = Inr (Some down)"
    using existing_upstream_of_pair valid by blast
qed

interpretation up_alias: alias_table "wire_inv ext" "edit_step ext" "wire_from_upstream ext d"
    "existing_wire_from_downstream ext d" "\<lambda>down. is_ok (validate_wire_id down)" for ext d
proof
  show "wire_inv ext s \<Longrightarrow> edit_step ext s t \<Longrightarrow> wire_inv ext t" for s t
    by (rule wire_inv_steps) auto
  show step: "wire_from_upstream ext d up s = (Inr down, t) \<Longrightarrow> edit_step ext s t" for up s down t
    by (rule edit_step.intros)
  fix s up down t u
  assume inv: "wire_inv ext s" and run: "wire_from_upstream ext d up s = (Inr down, t)"
    and steps: "edit_steps ext t u" and valid: "is_ok (validate_wire_id down)"
  have "wire_inv ext t" using step [OF run] inv by (intro wire_inv_steps [of ext s t]) auto
  from holds_pair_steps [OF steps this wire_from_upstream_pair [OF inv run]]
  show "fst (existing_wire_from_downstream ext d down u) = Inr (Some up)"
    using existing_downstream_of_pair valid by blast
qed

end
