(* ===== verification/Ledger_Edits.thy ===== *)
theory Ledger_Edits
  imports Alias_Table Ledger_Demo
begin

text \<open>
  The properties of an edit as a whole, from \<open>RequestStateEditor::new\<close> through any sequence of
  successful operations: identities are stable, an unset \<open>changed\<close> flag means an unchanged ledger,
  and what an operation handed out survives the pruning pass that follows.
\<close>

section \<open>Opening an editor\<close>

lemma bm_insert_id: "bm_get m k = Some v \<Longrightarrow> bm_insert k v m = m"
  by (rule bm_ext) simp

lemma editor_new_Inr:
  assumes "editor_new ext st keys owner day now draws = Inr ed"
  shows "ed_scope_key ed = factory_scope_key ext keys" and "ed_keys ed = keys" and "ed_day ed = day"
    and "ed_protected ed = protected_default\<lparr>pk_scopes := {factory_scope_key ext keys}\<rparr>"
    and "\<And>sk. sk \<noteq> factory_scope_key ext keys
      \<Longrightarrow> bm_get (ps_scopes (ed_state ed)) sk = bm_get (ps_scopes st) sk"
    and "bm_get (ps_scopes (ed_state ed)) (factory_scope_key ext keys)
      = Some ((case bm_get (ps_scopes st) (factory_scope_key ext keys) of Some s \<Rightarrow> s | None \<Rightarrow> scope_new day)
          \<lparr>sc_last_seen_day := day\<rparr>)"
    and "ps_installation_id (ed_state ed) = ps_installation_id st"
    and "is_ok (validate_lookup_key (factory_scope_key ext keys))"
  using assms
  by (auto simp: editor_new_def rbind_Inr_iff Let_def is_ok_unit split: if_splits option.splits prod.splits)

lemma editor_new_ok: "editor_new ext st keys owner day now draws = Inr ed \<Longrightarrow> editor_ok ed"
  by (simp add: editor_ok_def editor_new_Inr [of ext st keys owner day now draws])

lemma editor_new_unchanged:
  assumes "editor_new ext st keys owner day now draws = Inr ed" and "\<not> ed_changed ed"
  shows "ed_state ed = st"
proof -
  from assms have "bm_contains (ps_owners st) owner"
    by (auto simp: editor_new_def rbind_Inr_iff Let_def split: if_splits option.splits prod.splits)
  then have "bm_insert owner () (ps_owners st) = ps_owners st"
    by (intro bm_insert_id) (cases "bm_get (ps_owners st) owner", auto simp: bm_contains_iff)
  then show ?thesis
    using assms by (auto simp: editor_new_def rbind_Inr_iff Let_def bm_insert_id split: if_splits option.splits prod.splits)
qed

section \<open>Edits keep what is there\<close>

lemma edit_outside:
  assumes "editor_new ext st keys owner day now draws = Inr ed0" and "edit_steps ext ed0 ed"
    and "sk \<noteq> factory_scope_key ext keys"
  shows "bm_get (ps_scopes (ed_state ed)) sk = bm_get (ps_scopes st) sk"
proof -
  have "outside ed = outside ed0" and "ed_scope_key ed = ed_scope_key ed0"
    using edit_steps_extends [OF assms(2)] editor_new_ok [OF assms(1)] by (simp_all add: extends_def)
  then have "ps_scopes (outside ed) = ps_scopes (outside ed0)" and "ed_scope_key ed = ed_scope_key ed0" by simp_all
  then have "bm_get (bm_remove (ed_scope_key ed0) (ps_scopes (ed_state ed))) sk
      = bm_get (bm_remove (ed_scope_key ed0) (ps_scopes (ed_state ed0))) sk"
    by (simp add: outside_def)
  then have "bm_get (ps_scopes (ed_state ed)) sk = bm_get (ps_scopes (ed_state ed0)) sk"
    using assms(3) editor_new_Inr(1) [OF assms(1)] by simp
  then show ?thesis using editor_new_Inr(5) [OF assms(1,3)] by simp
qed

lemma entry_identity_seen [simp]: "entry_identity (s\<lparr>sc_last_seen_day := d\<rparr>) kind key = entry_identity s kind key"
  by (cases kind) simp_all

lemma scope_identity_ed:
  "editor_ok ed \<Longrightarrow> scope_identity (ed_state ed) (ed_scope_key ed) kind key = entry_identity (ed_scope ed) kind key"
  by (auto simp: scope_identity_def ed_scope_def editor_ok_def)

lemma editor_new_identity:
  assumes "editor_new ext st keys owner day now draws = Inr ed" and "scope_identity st sk kind key = Some x"
  shows "scope_identity (ed_state ed) sk kind key = Some x"
  using assms(2) editor_new_Inr(5,6) [OF assms(1)]
  by (cases "sk = factory_scope_key ext keys") (auto simp: scope_identity_def bind_eq_Some_conv)

lemma edit_identity:
  assumes "edit_steps ext ed ed'" and "editor_ok ed" and "scope_identity (ed_state ed) (ed_scope_key ed) kind key = Some x"
  shows "scope_identity (ed_state ed') (ed_scope_key ed') kind key = Some x"
proof -
  have "editor_ok ed'" and "scope_grows (ed_scope ed) (ed_scope ed')"
    using edit_steps_extends [OF assms(1)] assms(2) by (simp_all add: extends_def)
  with assms(2,3) show ?thesis by (simp add: scope_identity_ed) (simp add: scope_grows_def)
qed

lemma valid_wires: "validate_state ext st = Inr () \<Longrightarrow> wires_ok st"
proof -
  assume "validate_state ext st = Inr ()"
  then have "is_ok (validate_scope ext s)" if "bm_get (ps_scopes st) k = Some s" for k s
    using that by (auto simp: is_ok_unit [symmetric] validate_state_def bm_get_iff simp del: checks.simps)
  then show ?thesis
    by (auto simp: wires_ok_def is_ok_unit validate_scope_sound dest: scope_sound_wires)
qed

lemma edited_wires:
  assumes "editor_new ext st keys owner day now draws = Inr ed0" and "edit_steps ext ed0 ed"
    and "validate_state ext st = Inr ()" and "table_ok ext ed0"
  shows "wires_ok (ed_state ed)"
  unfolding wires_ok_def
proof (intro allI impI)
  fix sk s
  assume get: "bm_get (ps_scopes (ed_state ed)) sk = Some s"
  show "wire_index_ok s"
  proof (cases "sk = factory_scope_key ext keys")
    case True
    have "table_ok ext ed" and "ed_scope_key ed = sk"
      using edit_steps_extends [OF assms(2)] editor_new_ok [OF assms(1)] assms(4) True editor_new_Inr(1) [OF assms(1)]
      by (simp_all add: extends_def)
    with get show ?thesis by (simp add: table_ok_def ed_scope_def)
  next
    case False
    with edit_outside [OF assms(1,2)] get valid_wires [OF assms(3)] show ?thesis by (simp add: wires_ok_def)
  qed
qed

section \<open>Handed-out identities\<close>

text \<open>\<open>hands_out ext ed kind key x ed'\<close>: an operation answered with identity \<open>x\<close> for the lookup key.\<close>

inductive hands_out :: "externals \<Rightarrow> editor \<Rightarrow> entry_kind \<Rightarrow> string \<Rightarrow> string \<Rightarrow> editor \<Rightarrow> bool" for ext where
  "installation_id ext Off (Some key) ed = (Inr x, ed') \<Longrightarrow> hands_out ext ed KInstallation key x ed'"
| "conversation_with_id ext key reserved ed = (Inr a, ed') \<Longrightarrow> hands_out ext ed KConversation key (ca_id a) ed'"
| "child_thread_with_id ext key session parent reserved ed = (Inr b, ed')
    \<Longrightarrow> hands_out ext ed KChildThread key (ta_id b) ed'"
| "existing_child_thread key ed = (Inr (Some c), ed') \<Longrightarrow> hands_out ext ed KChildThread key (ta_id c) ed'"
| "turn_with_id ext key thread root parent reserved ed = (Inr d, ed') \<Longrightarrow> hands_out ext ed KTurn key (ua_id d) ed'"
| "existing_turn key ed = (Inr (Some e), ed') \<Longrightarrow> hands_out ext ed KTurn key (ua_id e) ed'"
| "generated_item ext key prefix turn add ed = (Inr f, ed') \<Longrightarrow> hands_out ext ed KGeneratedItem key (ia_id f) ed'"

definition holds_identity :: "entry_kind \<Rightarrow> string \<Rightarrow> string \<Rightarrow> editor \<Rightarrow> bool" where
  "holds_identity kind key x ed \<longleftrightarrow> entry_identity (ed_scope ed) kind key = Some x
     \<and> directly_protected kind (ed_scope_key ed, key) (ed_protected ed)"

lemma scope_key_frame [simp]:
  "ed_scope_key (mark_changed b ed) = ed_scope_key ed" "ed_scope_key (protect_key field key ed) = ed_scope_key ed"
  "ed_scope_key (ed_update_scope f ed) = ed_scope_key ed"
  by (simp_all add: mark_changed_def protect_key_def ed_update_scope_def)

lemma editor_ok_frame [simp]:
  "editor_ok (mark_changed b ed) = editor_ok ed" "editor_ok (ed_update_scope f ed) = editor_ok ed"
  by (auto simp: mark_changed_def editor_ok_def ed_update_scope_def)

lemma holds_identityI:
  assumes "editor_ok ed" and "entry_identity (f (ed_scope ed)) kind key = Some x"
    and "\<And>p. directly_protected kind (sk, key) (field (insert (sk, key)) p)" and "ed_scope_key ed = sk"
  shows "holds_identity kind key x (protect_key field key (mark_changed b (ed_update_scope f ed)))"
  using assms by (simp add: holds_identity_def ed_scope_update)
    (simp add: protect_key_def mark_changed_def ed_update_scope_def)

lemma hands_out_holds:
  assumes "hands_out ext ed kind key x ed'" and "editor_ok ed"
  shows "holds_identity kind key x ed'"
  using assms
proof (induction rule: hands_out.induct)
  case (1 key ed x ed')
  then show ?case
    by (auto simp: installation_id_def run_simps ed_scope_update dest!: entry_run intro!: holds_identityI)
next
  case (2 key reserved ed a ed')
  then show ?case
    by (auto simp: conversation_with_id_def run_simps ed_scope_update dest!: entry_run intro!: holds_identityI)
next
  case (3 key session parent reserved ed b ed')
  then show ?case
    by (auto simp: child_thread_with_id_def run_simps thread_of_def ed_scope_update dest!: entry_run intro!: holds_identityI)
next
  case (4 key ed c ed')
  then show ?case
    by (auto simp: existing_child_thread_def run_simps thread_of_def split: option.splits intro!: holds_identityI)
next
  case (5 key thread root parent reserved ed d ed')
  then show ?case
    by (auto simp: turn_with_id_def run_simps turn_of_def ed_scope_update dest!: entry_run intro!: holds_identityI)
next
  case (6 key ed e ed')
  then show ?case
    by (auto simp: existing_turn_def run_simps turn_of_def split: option.splits intro!: holds_identityI)
next
  case (7 key prefix turn add ed f ed')
  then show ?case
    by (auto simp: generated_item_def run_simps ed_scope_update claim_item_def dest!: entry_run intro!: holds_identityI)
qed

lemma hands_out_step: "hands_out ext ed kind key x ed' \<Longrightarrow> edit_steps ext ed ed'"
  by (induction rule: hands_out.induct) (blast intro: edit_step.intros r_into_rtranclp)+

section \<open>A demonstration edit\<close>

text \<open>
  A stand-in for base64 that pads or cuts to 43 safe characters, so that lookup keys are well formed,
  and two editing sessions on one day: the first allocates a conversation, a turn and an alias, the
  second asks for the same conversation.
\<close>

definition demo_pad :: "string \<Rightarrow> string" where
  "demo_pad s = map (\<lambda>c. if valid_key_byte c then c else CHR ''A'') (rev (take 43 (rev s @ replicate 43 CHR ''a'')))"

definition demo_edit_ext :: externals where
  "demo_edit_ext = demo_ext\<lparr>base64_url_safe_no_pad := demo_pad\<rparr>"

definition demo_keys :: lookup_key_factory where
  "demo_keys = \<lparr>lkf_key = ''k'', lkf_scope = ''s''\<rparr>"

definition demo_open :: "persisted_request_state \<Rightarrow> editor result" where
  "demo_open st = editor_new demo_edit_ext st demo_keys ''acct_demo'' 95 1000 0"

definition demo_start :: persisted_request_state where
  "demo_start = state_new ''4i'' (bm_insert ''acct_demo'' () bm_empty)"

definition demo_opened :: editor where "demo_opened = projr (demo_open demo_start)"
definition demo_conversed :: editor where
  "demo_conversed = snd (conversation_with_id demo_edit_ext (demo_key CHR ''c'') None demo_opened)"
definition demo_reopened :: editor where "demo_reopened = projr (demo_open (ed_state demo_conversed))"
definition demo_asked :: editor where
  "demo_asked = snd (conversation_with_id demo_edit_ext (demo_key CHR ''c'') None demo_reopened)"

lemma is_ok_projr: "is_ok r \<Longrightarrow> r = Inr (projr r)"
  by (cases r) (auto simp: is_ok_def)

lemma demo_opened: "editor_new demo_edit_ext demo_start demo_keys ''acct_demo'' 95 1000 0 = Inr demo_opened"
proof -
  have "is_ok (demo_open demo_start)" by code_simp
  from is_ok_projr [OF this] show ?thesis by (simp add: demo_opened_def) (simp add: demo_open_def)
qed

lemma demo_reopened:
  "editor_new demo_edit_ext (ed_state demo_conversed) demo_keys ''acct_demo'' 95 1000 0 = Inr demo_reopened"
proof -
  have "is_ok (demo_open (ed_state demo_conversed))" by code_simp
  from is_ok_projr [OF this] show ?thesis by (simp add: demo_reopened_def) (simp add: demo_open_def)
qed

lemma demo_runs:
  "conversation_with_id demo_edit_ext (demo_key CHR ''c'') None demo_opened
     = (Inr \<lparr>ca_id = ''7'', ca_window_number = 0\<rparr>, demo_conversed)"
  "conversation_with_id demo_edit_ext (demo_key CHR ''c'') None demo_reopened
     = (Inr \<lparr>ca_id = ''7'', ca_window_number = 0\<rparr>, demo_asked)"
proof -
  have "fst (conversation_with_id demo_edit_ext (demo_key CHR ''c'') None demo_opened)
      = Inr \<lparr>ca_id = ''7'', ca_window_number = 0\<rparr>" by code_simp
  then show "conversation_with_id demo_edit_ext (demo_key CHR ''c'') None demo_opened
     = (Inr \<lparr>ca_id = ''7'', ca_window_number = 0\<rparr>, demo_conversed)"
    unfolding demo_conversed_def by (metis prod.collapse)
  have "fst (conversation_with_id demo_edit_ext (demo_key CHR ''c'') None demo_reopened)
      = Inr \<lparr>ca_id = ''7'', ca_window_number = 0\<rparr>" by code_simp
  then show "conversation_with_id demo_edit_ext (demo_key CHR ''c'') None demo_reopened
     = (Inr \<lparr>ca_id = ''7'', ca_window_number = 0\<rparr>, demo_asked)"
    unfolding demo_asked_def by (metis prod.collapse)
qed

lemma demo_steps: "edit_steps demo_edit_ext demo_opened demo_conversed"
    "edit_steps demo_edit_ext demo_reopened demo_asked"
  using demo_runs by (blast intro: edit_step.intros r_into_rtranclp)+

section \<open>Properties\<close>

text \<open>
  C6.  No lost write.  When an edit ends with the \<open>changed\<close> flag unset, after any sequence of
  successful operations, the ledger is exactly the one that was loaded, so the transaction may skip
  the write.
\<close>

theorem unchanged_edit_keeps_ledger:
  assumes "editor_new ext st keys owner day now draws = Inr ed0" and "edit_steps ext ed0 ed"
    and "\<not> fst (editor_finish ed)"
  shows "ed_state ed = st"
  using edit_steps_honest [OF assms(2) editor_new_ok [OF assms(1)]] editor_new_unchanged [OF assms(1)] assms(3)
  by (auto simp: honest_def editor_finish_def)

theorem unchanged_edit_keeps_ledger_witness: "ed_state demo_asked = ed_state demo_conversed"
proof -
  have "\<not> fst (editor_finish demo_asked)" by code_simp
  from unchanged_edit_keeps_ledger [OF demo_reopened demo_steps(2) this] show ?thesis .
qed

text \<open>
  C7.  Identities are stable.  Whatever an edit does, every lookup key keeps the installation,
  conversation, thread, turn, item, marker thread or upstream alias it had, in every scope, and the
  scopes of other downstream keys are untouched.
\<close>

theorem edits_keep_identities:
  assumes "editor_new ext st keys owner day now draws = Inr ed0" and "edit_steps ext ed0 ed"
  shows "(scope_identity st sk kind key = Some x \<longrightarrow> scope_identity (ed_state ed) sk kind key = Some x)
    \<and> (sk \<noteq> factory_scope_key ext keys \<longrightarrow> bm_get (ps_scopes (ed_state ed)) sk = bm_get (ps_scopes st) sk)"
proof -
  have "ed_scope_key ed = ed_scope_key ed0"
    using edit_steps_extends [OF assms(2)] editor_new_ok [OF assms(1)] by (simp add: extends_def)
  then have "sk = factory_scope_key ext keys \<Longrightarrow> scope_identity st sk kind key = Some x
      \<Longrightarrow> scope_identity (ed_state ed) sk kind key = Some x"
    using edit_identity [OF assms(2) editor_new_ok [OF assms(1)], of kind key x] editor_new_identity [OF assms(1)]
      editor_new_Inr(1) [OF assms(1)] by metis
  moreover have "sk \<noteq> factory_scope_key ext keys
      \<Longrightarrow> bm_get (ps_scopes (ed_state ed)) sk = bm_get (ps_scopes st) sk"
    by (rule edit_outside [OF assms])
  ultimately show ?thesis by (cases "sk = factory_scope_key ext keys") (simp_all add: scope_identity_def)
qed

theorem edits_keep_identities_witness:
  "scope_identity (ed_state demo_asked) (factory_scope_key demo_edit_ext demo_keys) KConversation (demo_key CHR ''c'')
     = Some ''7''"
proof -
  have "scope_identity (ed_state demo_conversed) (factory_scope_key demo_edit_ext demo_keys) KConversation
      (demo_key CHR ''c'') = Some ''7''" by code_simp
  with edits_keep_identities [OF demo_reopened demo_steps(2)] show ?thesis by blast
qed

text \<open>
  C8.  What an edit answered stays answerable.  An identity handed out by any allocating or touching
  operation of an edit on a validated ledger is still stored under its lookup key after the rest of
  the edit and after the pruning pass that follows, even one that stops at a protected capacity.
\<close>

theorem handed_out_identity_survives:
  assumes "validate_state ext st = Inr ()" and "editor_new ext st keys owner day now draws = Inr ed0"
    and "wire_coherent ext keys (ed_scope ed0)" and "edit_steps ext ed0 ed1"
    and "hands_out ext ed1 kind key x ed2" and "edit_steps ext ed2 ed3"
  shows "scope_identity (snd (prune today (snd (editor_finish ed3)) (ed_state ed3))) (ed_scope_key ed3) kind key = Some x"
proof -
  have ok0: "editor_ok ed0" using editor_new_ok [OF assms(2)] .
  have "wire_index_ok (ed_scope ed0)"
    using editor_new_Inr(1,6) [OF assms(2)] valid_wires [OF assms(1)]
    by (auto simp: ed_scope_def wires_ok_def wire_index_ok_def scope_new_def split: option.splits)
  then have table: "table_ok ext ed0" using assms(3) editor_new_Inr(2) [OF assms(2)] by (simp add: table_ok_def)
  have step: "edit_steps ext ed1 ed2" by (rule hands_out_step [OF assms(5)])
  have run: "edit_steps ext ed0 ed3" using assms(4,6) step by simp
  have ok: "editor_ok ed1" "editor_ok ed2" "editor_ok ed3"
    using edit_steps_extends [OF assms(4)] edit_steps_extends [OF step] edit_steps_extends [OF assms(6)] ok0
    by (simp_all add: extends_def)
  have kind: "kind \<in> graph_kinds" using assms(5) by (cases rule: hands_out.cases) (simp_all add: graph_kinds_def)
  have held: "holds_identity kind key x ed2" by (rule hands_out_holds [OF assms(5) ok(1)])
  have prot: "directly_protected kind (ed_scope_key ed3, key) (ed_protected ed3)"
    using edit_steps_extends [OF assms(6)] ok(2) held by (simp add: extends_def holds_identity_def protects_more_def)
  have "scope_identity (ed_state ed3) (ed_scope_key ed3) kind key = Some x"
    using edit_identity [OF assms(6) ok(2)] held ok(2) by (simp add: holds_identity_def scope_identity_ed)
  moreover have "ed_scope_key ed3 \<in> pk_scopes (ed_protected ed3)" using ok(3) by (simp add: editor_ok_def)
  ultimately show ?thesis
    using prune_steps_survive [OF prune_steps_prune edited_wires [OF assms(2) run assms(1) table] _ prot kind]
    by (simp add: editor_finish_def)
qed

theorem handed_out_identity_survives_witness:
  "scope_identity (snd (prune 95 (snd (editor_finish demo_conversed)) (ed_state demo_conversed)))
     (ed_scope_key demo_conversed) KConversation (demo_key CHR ''c'') = Some ''7''"
proof -
  have "validate_state demo_edit_ext demo_start = Inr ()" by code_simp
  moreover have "wire_coherent demo_edit_ext demo_keys (ed_scope demo_opened)"
  proof -
    have "bm_keys (wire_ids (ed_scope demo_opened)) = []" by code_simp
    then show ?thesis by (auto simp: wire_coherent_def bm_get_iff bm_keys_def)
  qed
  moreover have "hands_out demo_edit_ext demo_opened KConversation (demo_key CHR ''c'') ''7'' demo_conversed"
    using hands_out.intros(2) [OF demo_runs(1)] by simp
  ultimately show ?thesis
    using handed_out_identity_survives [OF _ demo_opened _ rtranclp.rtrancl_refl _ rtranclp.rtrancl_refl]
    by blast
qed

end
