(* ===== verification/Ledger_Protocols.thy ===== *)
theory Ledger_Protocols
  imports Ledger_Edits
begin

text \<open>
  What callers of the editor rely on beyond stability: aliases can be translated back, compaction
  windows advance by one per marker, thread ancestry is decided exactly, lookup keys are unambiguous.
\<close>

section \<open>Aliases in an edit\<close>

lemma opened_wire_inv:
  assumes "validate_state ext st = Inr ()" and "editor_new ext st keys owner day now draws = Inr ed0"
    and "wire_coherent ext keys (ed_scope ed0)" and "edit_steps ext ed0 ed"
  shows "wire_inv ext ed"
proof -
  have "wire_index_ok (ed_scope ed0)"
    using editor_new_Inr(1,6) [OF assms(2)] valid_wires [OF assms(1)]
    by (auto simp: ed_scope_def wires_ok_def wire_index_ok_def scope_new_def split: option.splits)
  then have "wire_inv ext ed0"
    using assms(3) editor_new_Inr(2) [OF assms(2)] editor_new_ok [OF assms(2)] by (simp add: wire_inv_def table_ok_def)
  with assms(4) show ?thesis by (rule wire_inv_steps)
qed

lemma demo_opened_facts:
  "validate_state demo_edit_ext demo_start = Inr ()" "wire_coherent demo_edit_ext demo_keys (ed_scope demo_opened)"
proof -
  show "validate_state demo_edit_ext demo_start = Inr ()" by code_simp
  have "bm_keys (wire_ids (ed_scope demo_opened)) = []" by code_simp
  then show "wire_coherent demo_edit_ext demo_keys (ed_scope demo_opened)"
    by (auto simp: wire_coherent_def bm_get_iff bm_keys_def)
qed

text \<open>What a run that allocates an alias leaves behind.\<close>

definition with_pair :: "externals \<Rightarrow> wire_id_domain \<Rightarrow> wire_id_origin \<Rightarrow> string \<Rightarrow> string \<Rightarrow> editor \<Rightarrow> editor" where
  "with_pair ext d origin down up ed =
     (let dl = wire_downstream ext (ed_keys ed) d down; ul = wire_upstream ext (ed_keys ed) d up in
      protect_key pk_wire_ids_update dl (mark_changed True (ed_update_scope (\<lambda>s. s\<lparr>
        wire_upstream_index := bm_insert ul dl (wire_upstream_index s),
        wire_ids := bm_insert dl (new_pair ext d origin down up ed) (wire_ids s)\<rparr>) ed)))"

lemma with_pair_frame:
  assumes "editor_ok ed"
  shows "ed_keys (with_pair ext d origin down up ed) = ed_keys ed"
    and "wire_ids (ed_scope (with_pair ext d origin down up ed))
      = bm_insert (wire_downstream ext (ed_keys ed) d down) (new_pair ext d origin down up ed) (wire_ids (ed_scope ed))"
    and "wire_upstream_index (ed_scope (with_pair ext d origin down up ed))
      = bm_insert (wire_upstream ext (ed_keys ed) d up) (wire_downstream ext (ed_keys ed) d down)
          (wire_upstream_index (ed_scope ed))"
  using assms by (simp_all add: with_pair_def Let_def ed_scope_update)
    (simp add: protect_key_def mark_changed_def ed_update_scope_def)

lemma fresh_downstream_run:
  assumes "validate_wire_id down = Inr ()" and "wire_alias ext d down ed = (Inr up, ed\<lparr>ed_draws := n\<rparr>)" and "up \<noteq> down"
    and "bm_get (wire_ids (ed_scope ed)) (wire_downstream ext (ed_keys ed) d down) = None"
    and "bm_get (wire_upstream_index (ed_scope ed)) (wire_upstream ext (ed_keys ed) d up) = None"
  shows "wire_from_downstream ext d down ed = (Inr up, with_pair ext d Downstream down up (ed\<lparr>ed_draws := n\<rparr>))"
proof -
  have "unique_wire_alias ext d down False ed = (Inr up, ed\<lparr>ed_draws := n\<rparr>)"
    using assms by (simp add: unique_wire_alias_def eval_nat_numeral abind_def)
  then show ?thesis
    using assms by (simp add: wire_from_downstream_def downstream_entry_def athen_def abind_def insert_wire_pair_def
        with_pair_def new_pair_def Let_def)
qed

lemma fresh_upstream_run:
  assumes "validate_wire_id up = Inr ()" and "wire_alias ext d up ed = (Inr down, ed\<lparr>ed_draws := n\<rparr>)" and "down \<noteq> up"
    and "bm_get (wire_ids (ed_scope ed)) (wire_downstream ext (ed_keys ed) d down) = None"
    and "bm_get (wire_upstream_index (ed_scope ed)) (wire_upstream ext (ed_keys ed) d up) = None"
  shows "wire_from_upstream ext d up ed = (Inr down, with_pair ext d Upstream down up (ed\<lparr>ed_draws := n\<rparr>))"
proof -
  have "unique_wire_alias ext d up True ed = (Inr down, ed\<lparr>ed_draws := n\<rparr>)"
    using assms by (simp add: unique_wire_alias_def eval_nat_numeral abind_def)
  then show ?thesis
    using assms by (simp add: wire_from_upstream_def athen_def abind_def insert_wire_pair_def
        with_pair_def new_pair_def Let_def)
qed

section \<open>The demonstration edit allocates aliases\<close>

definition demo_sent :: editor where
  "demo_sent = with_pair demo_edit_ext Item Downstream ''msg_1'' ''msg_7'' (demo_opened\<lparr>ed_draws := 1\<rparr>)"
definition demo_answered :: editor where
  "demo_answered = with_pair demo_edit_ext Item Upstream ''msg_7n'' ''msg_9'' (demo_sent\<lparr>ed_draws := 2\<rparr>)"
definition demo_resent :: editor where
  "demo_resent = with_pair demo_edit_ext Item Downstream ''msg_2'' ''msg_7n'' (demo_sent\<lparr>ed_draws := 2\<rparr>)"

lemma demo_opened_wires:
  "wire_ids (ed_scope demo_opened) = bm_empty" "wire_upstream_index (ed_scope demo_opened) = bm_empty"
  "ed_keys demo_opened = demo_keys" "ed_draws demo_opened = 0"
  by code_simp+

lemma demo_aliases:
  "ed_draws ed = 0 \<Longrightarrow> wire_alias demo_edit_ext Item ''msg_1'' ed = (Inr ''msg_7'', ed\<lparr>ed_draws := 1\<rparr>)"
  "ed_draws ed = 1 \<Longrightarrow> wire_alias demo_edit_ext Item ''msg_9'' ed = (Inr ''msg_7n'', ed\<lparr>ed_draws := 2\<rparr>)"
  "ed_draws ed = 1 \<Longrightarrow> wire_alias demo_edit_ext Item ''msg_2'' ed = (Inr ''msg_7n'', ed\<lparr>ed_draws := 2\<rparr>)"
proof -
  have p: "split_once CHR ''_'' ''msg_1'' = Some (''msg'', ''1'')" "split_once CHR ''_'' ''msg_9'' = Some (''msg'', ''9'')"
    "split_once CHR ''_'' ''msg_2'' = Some (''msg'', ''2'')" "valid_wire_prefix ''msg''" by code_simp+
  show "ed_draws ed = 0 \<Longrightarrow> wire_alias demo_edit_ext Item ''msg_1'' ed = (Inr ''msg_7'', ed\<lparr>ed_draws := 1\<rparr>)"
    "ed_draws ed = 1 \<Longrightarrow> wire_alias demo_edit_ext Item ''msg_9'' ed = (Inr ''msg_7n'', ed\<lparr>ed_draws := 2\<rparr>)"
    "ed_draws ed = 1 \<Longrightarrow> wire_alias demo_edit_ext Item ''msg_2'' ed = (Inr ''msg_7n'', ed\<lparr>ed_draws := 2\<rparr>)"
    using p by (simp_all add: wire_alias_def demo_edit_ext_def demo_ext_def draw_v7_def abind_def)
qed

lemma demo_lookups_differ:
  "wire_downstream demo_edit_ext demo_keys Item ''msg_7n'' \<noteq> wire_downstream demo_edit_ext demo_keys Item ''msg_1''"
  "wire_upstream demo_edit_ext demo_keys Item ''msg_9'' \<noteq> wire_upstream demo_edit_ext demo_keys Item ''msg_7''"
  "wire_downstream demo_edit_ext demo_keys Item ''msg_2'' \<noteq> wire_downstream demo_edit_ext demo_keys Item ''msg_1''"
  "wire_upstream demo_edit_ext demo_keys Item ''msg_7n'' \<noteq> wire_upstream demo_edit_ext demo_keys Item ''msg_7''"
  by code_simp+

lemma demo_valid_ids: "validate_wire_id ''msg_1'' = Inr ()" "validate_wire_id ''msg_9'' = Inr ()"
    "validate_wire_id ''msg_2'' = Inr ()" "is_ok (validate_wire_id ''msg_7'')" "is_ok (validate_wire_id ''msg_7n'')"
  by code_simp+

lemma demo_sent_wires:
  "ed_keys demo_sent = demo_keys" "ed_draws demo_sent = 1"
  "bm_get (wire_ids (ed_scope demo_sent)) k = None \<longleftrightarrow> k \<noteq> wire_downstream demo_edit_ext demo_keys Item ''msg_1''"
  "bm_get (wire_upstream_index (ed_scope demo_sent)) k = None \<longleftrightarrow> k \<noteq> wire_upstream demo_edit_ext demo_keys Item ''msg_7''"
  using with_pair_frame [of "demo_opened\<lparr>ed_draws := 1\<rparr>"] editor_new_ok [OF demo_opened]
  by (simp_all add: demo_sent_def demo_opened_wires editor_ok_draws)
    (simp add: with_pair_def Let_def protect_key_def mark_changed_def ed_update_scope_def)

lemma demo_alias_runs:
  "wire_from_downstream demo_edit_ext Item ''msg_1'' demo_opened = (Inr ''msg_7'', demo_sent)"
  "wire_from_upstream demo_edit_ext Item ''msg_9'' demo_sent = (Inr ''msg_7n'', demo_answered)"
  "wire_from_downstream demo_edit_ext Item ''msg_2'' demo_sent = (Inr ''msg_7n'', demo_resent)"
  unfolding demo_answered_def demo_resent_def
  using fresh_downstream_run [OF demo_valid_ids(1) demo_aliases(1)]
    fresh_upstream_run [OF demo_valid_ids(2) demo_aliases(2)] fresh_downstream_run [OF demo_valid_ids(3) demo_aliases(3)]
  by (simp_all add: demo_opened_wires demo_sent_wires demo_lookups_differ) (simp add: demo_sent_def)

lemma demo_alias_steps: "edit_steps demo_edit_ext demo_opened demo_sent" "edit_steps demo_edit_ext demo_sent demo_answered"
  using demo_alias_runs by (blast intro: edit_step.intros r_into_rtranclp)+

text \<open>
  C9.  Request direction.  The alias that replaced a downstream identifier in a request to the
  provider translates back to exactly that identifier at any later point of the edit.
\<close>

theorem downstream_alias_roundtrip:
  assumes "validate_state ext st = Inr ()" and "editor_new ext st keys owner day now draws = Inr ed0"
    and "wire_coherent ext keys (ed_scope ed0)" and "edit_steps ext ed0 ed1"
    and "wire_from_downstream ext d down ed1 = (Inr up, ed2)" and "edit_steps ext ed2 ed3"
    and "is_ok (validate_wire_id up)"
  shows "fst (existing_wire_from_upstream ext d up ed3) = Inr (Some down)"
  using down_alias.backward_forward [OF opened_wire_inv [OF assms(1-4)] assms(5-7)] .

theorem downstream_alias_roundtrip_witness:
  "fst (existing_wire_from_upstream demo_edit_ext Item ''msg_7'' demo_answered) = Inr (Some ''msg_1'')"
  using downstream_alias_roundtrip [OF demo_opened_facts(1) demo_opened demo_opened_facts(2) rtranclp.rtrancl_refl
      demo_alias_runs(1) demo_alias_steps(2) demo_valid_ids(4)] .

text \<open>
  Response direction.  The alias shown to the client for a provider identifier translates back
  to exactly that provider identifier at any later point of the edit.
\<close>

theorem upstream_alias_roundtrip:
  assumes "validate_state ext st = Inr ()" and "editor_new ext st keys owner day now draws = Inr ed0"
    and "wire_coherent ext keys (ed_scope ed0)" and "edit_steps ext ed0 ed1"
    and "wire_from_upstream ext d up ed1 = (Inr down, ed2)" and "edit_steps ext ed2 ed3"
    and "is_ok (validate_wire_id down)"
  shows "fst (existing_wire_from_downstream ext d down ed3) = Inr (Some up)"
  using up_alias.backward_forward [OF opened_wire_inv [OF assms(1-4)] assms(5-7)] .

theorem upstream_alias_roundtrip_witness:
  "fst (existing_wire_from_downstream demo_edit_ext Item ''msg_7n'' demo_answered) = Inr (Some ''msg_9'')"
  using upstream_alias_roundtrip [OF demo_opened_facts(1) demo_opened demo_opened_facts(2) demo_alias_steps(1)
      demo_alias_runs(2) rtranclp.rtrancl_refl demo_valid_ids(5)] .

text \<open>
  C11.  Distinct identifiers get distinct aliases, in either direction and with any operations
  between the two requests.
\<close>

theorem aliases_are_distinct:
  assumes "validate_state ext st = Inr ()" and "editor_new ext st keys owner day now draws = Inr ed0"
    and "wire_coherent ext keys (ed_scope ed0)" and "edit_steps ext ed0 ed1" and "edit_steps ext ed2 ed3"
    and "is_ok (validate_wire_id a)" and "x \<noteq> y"
    and "(wire_from_downstream ext d x ed1 = (Inr a, ed2) \<and> wire_from_downstream ext d y ed3 = (Inr b, ed4))
      \<or> (wire_from_upstream ext d x ed1 = (Inr a, ed2) \<and> wire_from_upstream ext d y ed3 = (Inr b, ed4))"
  shows "a \<noteq> b"
  using assms(7,8) down_alias.forward_inject [OF opened_wire_inv [OF assms(1-4)] _ assms(5) _ assms(6)]
    up_alias.forward_inject [OF opened_wire_inv [OF assms(1-4)] _ assms(5) _ assms(6)]
  by blast

theorem aliases_are_distinct_witness: "''msg_7'' \<noteq> ''msg_7n'' \<and>
    fst (wire_from_downstream demo_edit_ext Item ''msg_1'' demo_opened) = Inr ''msg_7''
    \<and> fst (wire_from_downstream demo_edit_ext Item ''msg_2'' demo_sent) = Inr ''msg_7n''"
proof -
  have "''msg_1'' \<noteq> ''msg_2''" by simp
  from aliases_are_distinct [OF demo_opened_facts(1) demo_opened demo_opened_facts(2) rtranclp.rtrancl_refl
      rtranclp.rtrancl_refl demo_valid_ids(4) this disjI1 [OF conjI [OF demo_alias_runs(1,3)]]]
  show ?thesis by (simp add: demo_alias_runs)
qed

section \<open>Compaction windows\<close>

lemma find_update_first:
  assumes "List.find P (bm_values m) = Some e" and "\<And>v. P (f v) = P v"
  shows "List.find P (bm_values (update_first P f m)) = Some (f e)"
proof -
  from assms(1) obtain k where k: "List.find (\<lambda>(_, v). P v) (bm_entries m) = Some (k, e)"
    by (auto simp: find_values)
  have upd: "bm_entries (bm_update k f m) = map (\<lambda>(k', v). (k', if k' = k then f v else v)) (bm_entries m)"
    by (simp add: bm_update_def bm_map.rep_eq)
  have keys: "distinct (map fst (bm_entries m))" by transfer (simp add: strict_sorted_iff)
  have "List.find (\<lambda>(_, v). P v) (map (\<lambda>(k', v). (k', if k' = k then f v else v)) xs) = Some (k, f e)"
    if "List.find (\<lambda>(_, v). P v) xs = Some (k, e)" "distinct (map fst xs)" for xs
    using that by (induction xs) (auto simp: assms(2) split: if_splits)
  from this [OF k keys] k show ?thesis
    by (simp add: update_first_def bm_find_key_def find_values upd)
qed

lemma find_conv_update:
  "find_conversation s t = Some c \<Longrightarrow> (\<And>e. conv_id (f e) = conv_id e)
    \<Longrightarrow> find_conversation (conversations_update (update_first (\<lambda>e. conv_id e = t) f) s) t = Some (f c)"
  by (simp add: find_conversation_def find_update_first)

lemma find_child_update:
  "find_child s t = Some c \<Longrightarrow> (\<And>e. ct_id (f e) = ct_id e)
    \<Longrightarrow> find_child (child_threads_update (update_first (\<lambda>e. ct_id e = t) f) s) t = Some (f c)"
  by (simp add: find_child_def find_update_first)

lemma window_frame [simp]:
  "window_number (mark_changed b ed) t = window_number ed t" "window_number (protect_key field key ed) t = window_number ed t"
  "scope_window_number (compaction_markers_update g s) t = scope_window_number s t"
  by (simp_all add: window_number_def scope_window_number_def find_conversation_def find_child_def)

lemma set_window_number_run:
  assumes "window_number ed thread = Some c" and "editor_ok ed"
  obtains ed' where "set_window_number thread w ed = (Inr (), ed')" and "editor_ok ed'"
    and "window_number ed' thread = Some w" and "compaction_markers (ed_scope ed') = compaction_markers (ed_scope ed)"
    and "ed_day ed' = ed_day ed"
proof (cases "find_conversation (ed_scope ed) thread")
  case None
  then obtain e where e: "find_child (ed_scope ed) thread = Some e"
    using assms(1) by (auto simp: window_number_def scope_window_number_def option_or_def)
  let ?ed = "mark_changed (ct_window_number e \<noteq> w) (ed_update_scope (child_threads_update
      (update_first (\<lambda>e. ct_id e = thread) (\<lambda>e. e\<lparr>ct_window_number := w\<rparr>))) ed)"
  have none: "find_conversation (child_threads_update g s) t = find_conversation s t" for g s t
    by (simp add: find_conversation_def)
  show ?thesis
  proof (rule that [of ?ed])
    show "set_window_number thread w ed = (Inr (), ?ed)"
      using None e by (simp add: set_window_number_def abind_def athen_def)
    show "window_number ?ed thread = Some w"
      using None e assms(2) by (simp add: window_number_def scope_window_number_def option_or_def none ed_scope_update find_child_update)
  qed (use assms(2) in \<open>simp_all add: ed_scope_update\<close>, simp add: mark_changed_def ed_update_scope_def)
next
  case (Some e)
  let ?ed = "mark_changed (conv_window_number e \<noteq> w) (ed_update_scope (conversations_update
      (update_first (\<lambda>e. conv_id e = thread) (\<lambda>e. e\<lparr>conv_window_number := w\<rparr>))) ed)"
  show ?thesis
  proof (rule that [of ?ed])
    show "set_window_number thread w ed = (Inr (), ?ed)"
      using Some by (simp add: set_window_number_def abind_def athen_def)
    show "window_number ?ed thread = Some w"
      using Some assms(2) by (simp add: window_number_def scope_window_number_def option_or_def ed_scope_update find_conv_update)
  qed (use assms(2) in \<open>simp_all add: ed_scope_update\<close>, simp add: mark_changed_def ed_update_scope_def)
qed

lemma u64_saturating_succ_ge: "w \<le> u64_saturating_succ w"
  using u64_checked_succ_greater(1) [of w "w + 1"] by (auto simp: u64_saturating_succ_def u64_checked_succ_def)

lemma u64_checked_saturating: "u64_checked_succ w = Some v \<Longrightarrow> u64_saturating_succ w = v"
  by (auto simp: u64_saturating_succ_def u64_checked_succ_def split: if_splits)

text \<open>A marker that is current and protected is left alone by a touch.\<close>

definition settled_marker :: "string \<Rightarrow> compaction_marker_entry \<Rightarrow> editor \<Rightarrow> bool" where
  "settled_marker key m ed \<longleftrightarrow> bm_get (compaction_markers (ed_scope ed)) key = Some m
     \<and> cm_last_seen_day m = ed_day ed"

lemma touch_marker_run:
  assumes "settled_marker key m ed"
  shows "touch_marker key m ed = (Inr (), protect_key pk_compaction_markers_update key ed)"
proof -
  have "ed_update_scope (compaction_markers_update (bm_update key (\<lambda>e. e\<lparr>cm_last_seen_day := ed_day ed\<rparr>))) ed = ed"
    using assms unfolding settled_marker_def by (intro update_scope_id touch_ids) (blast+)
  then show ?thesis
    using assms by (simp add: touch_marker_def abind_def athen_def settled_marker_def) (simp add: mark_changed_def)
qed

lemma protect_key_twice [simp]:
  "protect_key pk_compaction_markers_update key (protect_key pk_compaction_markers_update key ed)
    = protect_key pk_compaction_markers_update key ed"
  by (simp add: protect_key_def)

lemma protect_key_frame [simp]:
  "ed_day (protect_key field key ed) = ed_day ed"
  "editor_ok (protect_key pk_compaction_markers_update key ed) = editor_ok ed"
  by (simp_all add: protect_key_def editor_ok_def)

lemma settled_protect [simp]:
  "settled_marker key m (protect_key field key' ed) = settled_marker key m ed"
  by (simp add: settled_marker_def)

lemma begin_fresh:
  assumes "begin_compaction key thread ed = (Inr w, ed1)" and "editor_ok ed"
    and "bm_get (compaction_markers (ed_scope ed)) key = None"
  obtains c ed0 where "window_number ed thread = Some c" and "u64_checked_succ c = Some w"
    and "ed1 = protect_key pk_compaction_markers_update key ed0" and "editor_ok ed0"
    and "window_number ed0 thread = Some c" and "validate_lookup_key key = Inr ()"
    and "settled_marker key \<lparr>cm_thread_id = thread, cm_window_number = w, cm_last_seen_day = ed_day ed\<rparr> ed0"
proof -
  let ?m = "\<lparr>cm_thread_id = thread, cm_window_number = w, cm_last_seen_day = ed_day ed\<rparr>"
  let ?ed = "mark_changed True (ed_update_scope (compaction_markers_update (bm_insert key ?m)) ed)"
  from assms(1,3) obtain c where "window_number ed thread = Some c" "u64_checked_succ c = Some w"
      "ed1 = protect_key pk_compaction_markers_update key ?ed" "validate_lookup_key key = Inr ()"
    by (auto simp: begin_compaction_def run_simps rbind_Inr_iff)
  then show ?thesis
  proof (intro that)
    show "settled_marker key ?m ?ed"
      using assms(2) by (simp add: settled_marker_def ed_scope_update) (simp add: mark_changed_def ed_update_scope_def)
    show "window_number ?ed thread = Some c"
      using \<open>window_number ed thread = Some c\<close> assms(2) by (simp add: ed_scope_update) (simp add: window_number_def ed_scope_update assms(2))
  qed (use assms(2) in simp_all)
qed

lemma commit_settled:
  assumes "settled_marker key m ed" and "editor_ok ed" and "validate_lookup_key key = Inr ()"
    and "cm_thread_id m = thread" and "window_number ed thread = Some c" and "cm_window_number m \<le> u64_saturating_succ c"
  obtains ed' where "commit_compaction key thread (cm_window_number m) ed = (Inr (max c (cm_window_number m)), ed')"
    and "window_number ed' thread = Some (max c (cm_window_number m))" and "settled_marker key m ed'" and "editor_ok ed'"
proof (cases "cm_window_number m > c")
  case True
  obtain ed1 where run: "set_window_number thread (cm_window_number m) ed = (Inr (), ed1)" and ok: "editor_ok ed1"
    and w: "window_number ed1 thread = Some (cm_window_number m)"
    and same: "compaction_markers (ed_scope ed1) = compaction_markers (ed_scope ed)" "ed_day ed1 = ed_day ed"
    by (rule set_window_number_run [OF assms(5,2)])
  have m1: "settled_marker key m ed1" using assms(1) same by (simp add: settled_marker_def)
  have "max c (cm_window_number m) = cm_window_number m" using True by (simp add: max_absorb2 less_imp_le)
  with that [of "protect_key pk_compaction_markers_update key ed1"] True run ok w assms touch_marker_run [OF m1] m1
  show ?thesis by (simp add: commit_compaction_def abind_def athen_def settled_marker_def)
next
  case False
  then show ?thesis
    using that [of "protect_key pk_compaction_markers_update key ed"] assms touch_marker_run [OF assms(1)]
    by (simp add: commit_compaction_def abind_def athen_def settled_marker_def max_def)
qed

text \<open>
  C12.  The compaction protocol.  Beginning a compaction under a new marker reserves exactly the
  window after the thread's current one, without wrapping and without moving the thread; beginning
  again changes nothing; committing moves the thread to the reserved window; and committing again
  answers the same window and leaves the thread there.
\<close>

theorem compaction_protocol:
  assumes "editor_ok ed" and "bm_get (compaction_markers (ed_scope ed)) key = None"
    and "begin_compaction key thread ed = (Inr w, ed1)"
  shows "(\<exists>c. window_number ed thread = Some c \<and> unat w = unat c + 1 \<and> window_number ed1 thread = Some c)
    \<and> begin_compaction key thread ed1 = (Inr w, ed1)
    \<and> (\<exists>ed2. commit_compaction key thread w ed1 = (Inr w, ed2) \<and> window_number ed2 thread = Some w
        \<and> (\<exists>ed3. commit_compaction key thread w ed2 = (Inr w, ed3) \<and> window_number ed3 thread = Some w))"
proof -
  obtain c ed0 where c: "window_number ed thread = Some c" "u64_checked_succ c = Some w"
    and ed1: "ed1 = protect_key pk_compaction_markers_update key ed0" and ok: "editor_ok ed0"
    and w0: "window_number ed0 thread = Some c" and valid: "validate_lookup_key key = Inr ()"
    and m: "settled_marker key \<lparr>cm_thread_id = thread, cm_window_number = w, cm_last_seen_day = ed_day ed\<rparr> ed0"
    by (rule begin_fresh [OF assms(3,1,2)])
  have succ: "unat w = unat c + 1" "c < w" "w \<le> u64_saturating_succ c" 
    using u64_checked_succ_greater [OF c(2)] u64_checked_saturating [OF c(2)] by auto
  let ?m = "\<lparr>cm_thread_id = thread, cm_window_number = w, cm_last_seen_day = ed_day ed\<rparr>"
  have m1: "settled_marker key ?m ed1" and ok1: "editor_ok ed1" and w1: "window_number ed1 thread = Some c"
    using m ok w0 ed1 by simp_all
  have "begin_compaction key thread ed1 = (Inr w, ed1)"
    using m1 valid touch_marker_run [OF m1] ed1 by (simp add: begin_compaction_def abind_def athen_def settled_marker_def)
  moreover have t: "cm_thread_id ?m = thread" "cm_window_number ?m \<le> u64_saturating_succ c"
    "cm_window_number ?m \<le> u64_saturating_succ w" "max c w = w"
    using succ u64_saturating_succ_ge by (simp_all add: max_absorb2 less_imp_le)
  obtain ed2 where c2: "commit_compaction key thread w ed1 = (Inr w, ed2)" "window_number ed2 thread = Some w"
    and m2: "settled_marker key ?m ed2" "editor_ok ed2"
    by (rule commit_settled [OF m1 ok1 valid t(1) w1 t(2)]) (simp add: t(4))
  obtain ed3 where "commit_compaction key thread w ed2 = (Inr w, ed3)" "window_number ed3 thread = Some w"
    by (rule commit_settled [OF m2 valid t(1) c2(2) t(3)]) simp
  with c2 have "\<exists>ed2. commit_compaction key thread w ed1 = (Inr w, ed2) \<and> window_number ed2 thread = Some w
      \<and> (\<exists>ed3. commit_compaction key thread w ed2 = (Inr w, ed3) \<and> window_number ed3 thread = Some w)"
    by blast
  ultimately show ?thesis using c w1 succ by blast
qed

definition demo_begun :: editor where
  "demo_begun = snd (begin_compaction (demo_key CHR ''m'') ''7'' demo_conversed)"

lemma demo_begun: "begin_compaction (demo_key CHR ''m'') ''7'' demo_conversed = (Inr 1, demo_begun)"
proof -
  have "fst (begin_compaction (demo_key CHR ''m'') ''7'' demo_conversed) = Inr 1" by code_simp
  then show ?thesis unfolding demo_begun_def by (metis prod.collapse)
qed

lemma demo_conversed_ok: "editor_ok demo_conversed"
  using edit_steps_extends [OF demo_steps(1)] editor_new_ok [OF demo_opened] by (simp add: extends_def)

theorem compaction_protocol_witness: "begin_compaction (demo_key CHR ''m'') ''7'' demo_begun = (Inr 1, demo_begun)"
proof -
  have "bm_get (compaction_markers (ed_scope demo_conversed)) (demo_key CHR ''m'') = None" by code_simp
  from compaction_protocol [OF demo_conversed_ok this demo_begun] show ?thesis by blast
qed

lemma touch_marker_window:
  "touch_marker key m ed = (Inr u, ed') \<Longrightarrow> editor_ok ed \<Longrightarrow> window_number ed' t = window_number ed t"
  by (auto simp: touch_marker_def run_simps) (simp add: window_number_def ed_scope_update)

text \<open>
  Windows never move backwards and never skip.  A commit that succeeds leaves the thread at
  the later of its window and the target, which is at most one past the old window in unbounded
  arithmetic; a compaction cannot begin at the last 64-bit window, and the attempt changes nothing.
\<close>

theorem compaction_windows_bounded:
  assumes "editor_ok ed"
  shows "(commit_compaction key thread target ed = (Inr v, ed') \<longrightarrow>
      (\<exists>c. window_number ed thread = Some c \<and> window_number ed' thread = Some v \<and> v = max c target
         \<and> unat c \<le> unat v \<and> unat v \<le> unat c + 1))
    \<and> (window_number ed thread = Some (- 1) \<and> is_ok (validate_lookup_key key)
        \<and> bm_get (compaction_markers (ed_scope ed)) key = None
      \<longrightarrow> begin_compaction key thread ed = (Inl (Msg ''window number exhausted''), ed))"
proof (intro conjI impI)
  assume "commit_compaction key thread target ed = (Inr v, ed')"
  then obtain m c ed1 where c: "window_number ed thread = Some c" and le: "target \<le> u64_saturating_succ c"
    and set: "(if target > c then set_window_number thread target else aret ()) ed = (Inr (), ed1)"
    and touch: "touch_marker key m ed1 = (Inr (), ed')"
    and v: "v = (case window_number ed' thread of Some w \<Rightarrow> w | None \<Rightarrow> 0)"
    by (auto simp: commit_compaction_def run_simps)
  have "editor_ok ed1 \<and> window_number ed1 thread = Some (max c target)"
  proof (cases "target > c")
    case True
    with set have "set_window_number thread target ed = (Inr (), ed1)" by simp
    moreover obtain ed2 where "set_window_number thread target ed = (Inr (), ed2)" "editor_ok ed2"
        "window_number ed2 thread = Some target"
      by (rule set_window_number_run [OF c assms])
    ultimately show ?thesis using True by (simp add: max_absorb2 less_imp_le)
  next
    case False
    with set c assms show ?thesis by (simp add: max_absorb1)
  qed
  then have w: "window_number ed' thread = Some (max c target)" using touch_marker_window [OF touch] by simp
  moreover have "unat (max c target) \<le> unat c + 1"
    using le u64_checked_succ_greater [of c "c + 1"]
    by (auto simp: max_def word_le_nat_alt u64_saturating_succ_def u64_checked_succ_def split: if_splits)
  moreover have "unat c \<le> unat (max c target)" by (simp add: max_def word_le_nat_alt)
  ultimately show "\<exists>c. window_number ed thread = Some c \<and> window_number ed' thread = Some v \<and> v = max c target
      \<and> unat c \<le> unat v \<and> unat v \<le> unat c + 1"
    using c v by auto
next
  assume "window_number ed thread = Some (- 1) \<and> is_ok (validate_lookup_key key)
    \<and> bm_get (compaction_markers (ed_scope ed)) key = None"
  then show "begin_compaction key thread ed = (Inl (Msg ''window number exhausted''), ed)"
    by (simp add: begin_compaction_def abind_def athen_def is_ok_unit u64_checked_succ_def)
qed

theorem compaction_windows_bounded_witness:
  "\<exists>v ed'. commit_compaction (demo_key CHR ''m'') ''7'' 1 demo_begun = (Inr v, ed')
     \<and> window_number ed' ''7'' = Some v \<and> unat v \<le> 1"
proof -
  have ok: "editor_ok demo_begun"
    using okrelD [OF extends_begin_compaction demo_begun] demo_conversed_ok by (simp add: extends_def)
  have "is_ok (fst (commit_compaction (demo_key CHR ''m'') ''7'' 1 demo_begun))"
      and w: "window_number demo_begun ''7'' = Some 0" by code_simp+
  then obtain v where "fst (commit_compaction (demo_key CHR ''m'') ''7'' 1 demo_begun) = Inr v"
    using is_ok_projr by metis
  then have run: "commit_compaction (demo_key CHR ''m'') ''7'' 1 demo_begun
      = (Inr v, snd (commit_compaction (demo_key CHR ''m'') ''7'' 1 demo_begun))" by (metis prod.collapse)
  with compaction_windows_bounded [OF ok] w show ?thesis by fastforce
qed

section \<open>Thread ancestry\<close>

definition parent_thread :: "scope_state \<Rightarrow> string \<Rightarrow> string \<Rightarrow> bool" where
  "parent_thread s child parent \<longleftrightarrow> Option.bind (find_child s child) ct_parent_thread_id = Some parent"

lemma ancestor_loop_reaches:
  assumes "ancestor \<notin> visited" and "\<And>v p. v \<in> visited \<Longrightarrow> parent_thread s v p \<Longrightarrow> p \<in> insert current visited"
  shows "ancestor_loop s ancestor visited current \<longleftrightarrow> (parent_thread s)\<^sup>*\<^sup>* current ancestor"
  using assms
proof (induction s ancestor visited current rule: ancestor_loop.induct)
  case (1 s ancestor visited current)
  show ?case
  proof (cases "current = ancestor \<or> current \<in> visited")
    case True
    have "x \<in> visited" if "(parent_thread s)\<^sup>*\<^sup>* current x" "current \<in> visited" for x
      using that by (induction rule: rtranclp_induct) (use 1(3) in auto)
    with True 1(2) show ?thesis by (subst ancestor_loop.simps) auto
  next
    case False
    have step: "(parent_thread s)\<^sup>*\<^sup>* current ancestor \<longleftrightarrow> (\<exists>p. parent_thread s current p \<and> (parent_thread s)\<^sup>*\<^sup>* p ancestor)"
      using False by (auto elim: converse_rtranclpE intro: converse_rtranclp_into_rtranclp)
    show ?thesis
    proof (cases "Option.bind (find_child s current) ct_parent_thread_id")
      case None
      with False step show ?thesis by (subst ancestor_loop.simps) (auto simp: parent_thread_def)
    next
      case (Some p)
      have "ancestor_loop s ancestor (insert current visited) p = (parent_thread s)\<^sup>*\<^sup>* p ancestor"
        using False Some 1(2,3) by (intro 1(1)) (auto simp: parent_thread_def)
      with False step Some show ?thesis by (subst ancestor_loop.simps) (auto simp: parent_thread_def)
    qed
  qed
qed

text \<open>
  \<open>thread_is_ancestor\<close> decides reachability along the stored parent pointers, exactly and for
  every ledger, cyclic ones included: its visited set ends the walk without changing the answer.
\<close>

theorem thread_is_ancestor_correct:
  "thread_is_ancestor ed ancestor thread \<longleftrightarrow> (parent_thread (ed_scope ed))\<^sup>*\<^sup>* thread ancestor"
  unfolding thread_is_ancestor_def by (rule ancestor_loop_reaches) simp_all

section \<open>Lookup keys\<close>

text \<open>
  Two lookups under one account key that yield the same key either are the same lookup, with
  the same downstream scope, kind and components, or are a collision of the MAC and its encoding on
  two different messages: the framing itself never confuses components, kinds or directions.
\<close>

theorem lookup_keys_unambiguous:
  assumes "lookup_key ext f kind cs = lookup_key ext g kind' cs'" and "lkf_key f = lkf_key g"
    and "\<forall>x \<in> {lkf_scope f, kind, lkf_scope g, kind'} \<union> set cs \<union> set cs'. length x < 2 ^ 64"
  shows "(lkf_scope f = lkf_scope g \<and> kind = kind' \<and> cs = cs')
    \<or> (mac_message f kind cs \<noteq> mac_message g kind' cs'
       \<and> base64_url_safe_no_pad ext (hmac_sha256 ext (lkf_key f) (mac_message f kind cs))
         = base64_url_safe_no_pad ext (hmac_sha256 ext (lkf_key f) (mac_message g kind' cs')))"
proof -
  have "\<forall>x \<in> {lkf_scope f, kind} \<union> set cs. length x < 2 ^ 64" "\<forall>x \<in> {lkf_scope g, kind'} \<union> set cs'. length x < 2 ^ 64"
    using assms(3) by blast+
  note inject = mac_message_inject [OF _ this]
  from assms(1,2) show ?thesis unfolding lookup_key_def using inject by fastforce
qed

theorem lookup_keys_unambiguous_witness:
  "mac_message demo_keys ''turn'' [''a'', ''b''] \<noteq> mac_message demo_keys ''turn'' [''ab'']"
proof -
  let ?ext = "demo_ext\<lparr>base64_url_safe_no_pad := \<lambda>_. ''x''\<rparr>"
  have "lookup_key ?ext demo_keys ''turn'' [''a'', ''b''] = lookup_key ?ext demo_keys ''turn'' [''ab'']"
    by (simp add: lookup_key_def)
  from lookup_keys_unambiguous [OF this refl] show ?thesis by (auto simp: demo_keys_def)
qed

end
