(* ===== verification/Vault_Files.thy ===== *)
theory Vault_Files
  imports Ledger_Validation
begin

text \<open>
  The accounts directory as the durable state of the gateway (\<open>vault_io.rs\<close> and the file helpers of
  \<open>request_state_store.rs\<close>).  A world maps file names to files; \<open>w_io\<close> counts the calls to the
  operating system and \<open>io_fault env n\<close> says whether the \<open>n\<close>-th call fails, so a theorem about all
  environments covers every failure at every point.  A failed write leaves the prefix
  \<open>io_written env n\<close> of its bytes.  Entries that are not regular files cannot be opened.
  Directory syncing and lock waiting have no effect on the contents; holders of a lock are the units
  of interleaving, so an operation under a lock is one action.
\<close>

record disk_file =
  f_regular :: bool
  f_mode :: nat
  f_bytes :: string

record world =
  w_files :: "(string, disk_file) btree_map"
  w_io :: nat
  w_draws :: nat

type_synonym 'a fs = "(world, ledger_error, 'a) action"

text \<open>\<open>uuid_simple\<close> is the hyphen-free text form of a UUID.\<close>

record io_env =
  io_fault :: "nat \<Rightarrow> bool"
  io_written :: "nat \<Rightarrow> nat"
  uuid_simple :: "string \<Rightarrow> string"

text \<open>
  The derived \<open>Serialize\<close> and \<open>Deserialize\<close> of a type through \<open>serde_json\<close>.  Encoding these types
  cannot fail: their map keys are strings and their numbers are integers.
\<close>

record 'a codec =
  cd_encode :: "'a \<Rightarrow> string"
  cd_decode :: "string \<Rightarrow> 'a option"

definition codec_ok :: "'a codec \<Rightarrow> bool" where
  "codec_ok c \<longleftrightarrow> (\<forall>x. cd_decode c (cd_encode c x) = Some x)"

definition PRIVATE_MODE :: nat where "PRIVATE_MODE = 384" \<comment> \<open>octal 600\<close>

section \<open>Calls to the operating system\<close>

definition io_call :: "io_env \<Rightarrow> string \<Rightarrow> unit fs" where
  "io_call env context w =
     (if io_fault env (w_io w) then Inl (Msg context) else Inr (), w\<lparr>w_io := w_io w + 1\<rparr>)"

definition get_file :: "string \<Rightarrow> world \<Rightarrow> disk_file option" where
  "get_file name w = bm_get (w_files w) name"

definition put_file :: "string \<Rightarrow> disk_file \<Rightarrow> unit fs" where
  "put_file name f = amodify (w_files_update (bm_insert name f))"

definition drop_file :: "string \<Rightarrow> unit fs" where
  "drop_file name = amodify (w_files_update (bm_remove name))"

text \<open>\<open>Path::exists\<close> answers false when the call fails.\<close>

definition path_exists :: "io_env \<Rightarrow> string \<Rightarrow> bool fs" where
  "path_exists env name w =
     (Inr (\<not> io_fault env (w_io w) \<and> get_file name w \<noteq> None), w\<lparr>w_io := w_io w + 1\<rparr>)"

text \<open>\<open>symlink_metadata\<close> with a context for every error kind but \<open>NotFound\<close>.\<close>

definition metadata :: "io_env \<Rightarrow> string \<Rightarrow> string \<Rightarrow> disk_file option fs" where
  "metadata env name context = athen (io_call env context) (aget (get_file name))"

definition set_permissions :: "io_env \<Rightarrow> string \<Rightarrow> string \<Rightarrow> unit fs" where
  "set_permissions env name context = athen (io_call env context)
     (amodify (w_files_update (bm_update name (\<lambda>f. f\<lparr>f_mode := PRIVATE_MODE\<rparr>))))"

definition open_existing :: "io_env \<Rightarrow> string \<Rightarrow> string \<Rightarrow> disk_file fs" where
  "open_existing env name context = athen (io_call env context)
     (abind (aget (get_file name)) (\<lambda>found. case found of
        None \<Rightarrow> afail (NotFound context)
      | Some f \<Rightarrow> if f_regular f then aret f else afail (Msg context)))"

definition create_new :: "io_env \<Rightarrow> string \<Rightarrow> string \<Rightarrow> unit fs" where
  "create_new env name context = athen (io_call env context)
     (abind (aget (get_file name)) (\<lambda>found. case found of
        None \<Rightarrow> put_file name \<lparr>f_regular = True, f_mode = PRIVATE_MODE, f_bytes = []\<rparr>
      | Some _ \<Rightarrow> afail (Msg context)))"

definition write_all :: "io_env \<Rightarrow> string \<Rightarrow> string \<Rightarrow> string \<Rightarrow> unit fs" where
  "write_all env name bytes context =
     abind (aget w_io) (\<lambda>n. if io_fault env n
       then athen (amodify (w_files_update (bm_update name (\<lambda>f. f\<lparr>f_bytes := take (io_written env n) bytes\<rparr>))))
         (io_call env context)
       else athen (io_call env context)
         (amodify (w_files_update (bm_update name (\<lambda>f. f\<lparr>f_bytes := bytes\<rparr>)))))"

definition rename_file :: "io_env \<Rightarrow> string \<Rightarrow> string \<Rightarrow> string \<Rightarrow> unit fs" where
  "rename_file env from to context = athen (io_call env context)
     (abind (aget (get_file from)) (\<lambda>found. case found of
        None \<Rightarrow> afail (NotFound context)
      | Some f \<Rightarrow> athen (put_file to f) (drop_file from)))"

definition remove_file :: "io_env \<Rightarrow> string \<Rightarrow> string \<Rightarrow> unit fs" where
  "remove_file env name context = athen (io_call env context)
     (abind (aget (get_file name)) (\<lambda>found. case found of
        None \<Rightarrow> afail (NotFound context)
      | Some _ \<Rightarrow> drop_file name))"

text \<open>\<open>read_dir\<close> lists the names; that every name is Unicode is part of the model of a name.\<close>

definition read_dir :: "io_env \<Rightarrow> string \<Rightarrow> string list fs" where
  "read_dir env context = athen (io_call env context) (aget (\<lambda>w. bm_keys (w_files w)))"

definition strip_suffix :: "string \<Rightarrow> string \<Rightarrow> string option" where
  "strip_suffix suffix s =
     (if length suffix \<le> length s \<and> drop (length s - length suffix) s = suffix
      then Some (take (length s - length suffix) s) else None)"

lemma strip_prefix_Some: "strip_prefix p s = Some t \<longleftrightarrow> s = p @ t"
  by (auto simp: strip_prefix_def dest: append_take_drop_id [symmetric, THEN trans]) (metis append_take_drop_id)

lemma strip_suffix_Some: "strip_suffix p s = Some t \<longleftrightarrow> s = t @ p"
  by (auto simp: strip_suffix_def) (metis append_take_drop_id)

section \<open>Errors\<close>

fun is_not_found :: "ledger_error \<Rightarrow> bool" where
  "is_not_found (NotFound _) = True"
| "is_not_found _ = False"

definition on_error :: "'a fs \<Rightarrow> unit fs \<Rightarrow> 'a fs" where
  "on_error m cleanup w = (case m w of (Inl e, w') \<Rightarrow> (Inl e, snd (cleanup w')) | (Inr a, w') \<Rightarrow> (Inr a, w'))"

definition attempt :: "'a fs \<Rightarrow> (ledger_error + 'a) fs" where
  "attempt m w = (case m w of (r, w') \<Rightarrow> (Inr r, w'))"

section \<open>Private files\<close>

definition open_private_file :: "io_env \<Rightarrow> string \<Rightarrow> unit fs" where
  "open_private_file env name =
     athen (io_call env ''opening private state file'')
    (athen (abind (aget (get_file name)) (\<lambda>found. case found of
        None \<Rightarrow> put_file name \<lparr>f_regular = True, f_mode = PRIVATE_MODE, f_bytes = []\<rparr>
      | Some f \<Rightarrow> if f_regular f then aret () else afail (Msg ''opening private state file'')))
     (set_permissions env name ''setting private file permissions''))"

definition read_json_limited :: "io_env \<Rightarrow> (string \<Rightarrow> 'a option) \<Rightarrow> string \<Rightarrow> nat \<Rightarrow> string \<Rightarrow> 'a fs" where
  "read_json_limited env decode name maximum description =
     abind (open_existing env name ''opening credential record'') (\<lambda>f.
     athen (io_call env (''reading '' @ description))
    (athen (aensure (length (f_bytes f) \<le> maximum) (Msg (description @ '' is too large'')))
     (alift (ok_or (decode (f_bytes f)) (Msg (''decoding '' @ description))))))"

definition draw_temp :: "io_env \<Rightarrow> externals \<Rightarrow> string \<Rightarrow> string fs" where
  "draw_temp env ext prefix w =
     (Inr (prefix @ uuid_simple env (new_v4 ext (w_draws w)) @ ''.tmp''), w\<lparr>w_draws := w_draws w + 1\<rparr>)"

definition remove_temp :: "io_env \<Rightarrow> string \<Rightarrow> unit fs" where
  "remove_temp env temp = remove_file env temp ''removing temp file''"

definition write_json_atomically :: "io_env \<Rightarrow> externals \<Rightarrow> string \<Rightarrow> string \<Rightarrow> unit fs" where
  "write_json_atomically env ext name bytes =
     abind (draw_temp env ext ''.credential-'') (\<lambda>temp.
       on_error
        (athen (open_private_file env temp)
        (athen (io_call env ''truncating credential temp file'')
        (athen (amodify (w_files_update (bm_update temp (\<lambda>f. f\<lparr>f_bytes := []\<rparr>))))
        (athen (write_all env temp bytes ''writing credential temp file'')
        (athen (io_call env ''syncing credential temp file'')
         (rename_file env temp name ''replacing credential record''))))))
        (remove_temp env temp))"

definition write_bytes_atomically :: "io_env \<Rightarrow> externals \<Rightarrow> string \<Rightarrow> string \<Rightarrow> unit fs" where
  "write_bytes_atomically env ext name bytes =
     abind (draw_temp env ext ''.request-state-'') (\<lambda>temp.
       on_error
        (athen (create_new env temp ''creating request state temp file'')
        (athen (write_all env temp bytes ''writing request state temp file'')
        (athen (io_call env ''syncing request state temp file'')
         (rename_file env temp name ''replacing request state''))))
        (remove_temp env temp))"

definition remove_path_if_exists :: "io_env \<Rightarrow> string \<Rightarrow> string \<Rightarrow> unit fs" where
  "remove_path_if_exists env name description =
     abind (attempt (remove_file env name description)) (\<lambda>r. case r of
       Inr _ \<Rightarrow> aret ()
     | Inl e \<Rightarrow> if is_not_found e then aret () else afail e)"

definition fault_free :: "io_env \<Rightarrow> bool" where
  "fault_free env \<longleftrightarrow> (\<forall>n. \<not> io_fault env n)"

lemma fault_free_calls:
  assumes "fault_free env"
  shows "io_call env c w = (Inr (), w\<lparr>w_io := w_io w + 1\<rparr>)"
  using assms by (simp add: fault_free_def io_call_def)

section \<open>What an action leaves alone\<close>

abbreviation leaves :: "string \<Rightarrow> 'a fs \<Rightarrow> bool" where
  "leaves p m \<equiv> (\<forall>x. keeps (\<lambda>w. get_file p w = x) m)"

named_theorems leaves_intros \<open>files an action does not touch\<close>

lemma leavesD: "leaves p m \<Longrightarrow> get_file p (snd (m w)) = get_file p w"
  by (auto simp: keeps_def)

lemma leavesI: "(\<And>w. get_file p (snd (m w)) = get_file p w) \<Longrightarrow> leaves p m"
  by (auto simp: keeps_def)

lemma get_file_simps [simp]:
  "get_file p (w\<lparr>w_io := n\<rparr>) = get_file p w"
  "get_file p (w\<lparr>w_draws := n\<rparr>) = get_file p w"
  "get_file p (w_files_update g w) = bm_get (g (w_files w)) p"
  by (simp_all add: get_file_def)

lemma leaves_basic [leaves_intros]:
  "leaves p (aret a)" "leaves p (afail e)" "leaves p (alift r)" "leaves p (aget f)" "leaves p (aensure b e)"
  "leaves p (io_call env c)" "leaves p (path_exists env q)" "leaves p (metadata env q c)"
  "leaves p (open_existing env q c)" "leaves p (read_dir env c)" "leaves p (draw_temp env ext prefix)"
  by (auto intro!: leavesI simp: io_call_def path_exists_def metadata_def open_existing_def read_dir_def draw_temp_def
      athen_def abind_def split: option.splits prod.splits sum.splits if_splits)

lemma leaves_abind [leaves_intros]: "leaves p m \<Longrightarrow> (\<And>a. leaves p (f a)) \<Longrightarrow> leaves p (abind m f)"
  by (auto intro: keeps_abind)

lemma leaves_athen [leaves_intros]: "leaves p m \<Longrightarrow> leaves p n \<Longrightarrow> leaves p (athen m n)"
  by (auto intro: keeps_athen)

lemma leaves_option [leaves_intros]: "leaves p m \<Longrightarrow> (\<And>a. leaves p (f a)) \<Longrightarrow> leaves p (case x of None \<Rightarrow> m | Some a \<Rightarrow> f a)"
  by (cases x) auto

lemma leaves_sum [leaves_intros]: "(\<And>e. leaves p (f e)) \<Longrightarrow> (\<And>a. leaves p (g a)) \<Longrightarrow> leaves p (case x of Inl e \<Rightarrow> f e | Inr a \<Rightarrow> g a)"
  by (cases x) auto

lemma leaves_if [leaves_intros]: "leaves p m \<Longrightarrow> leaves p n \<Longrightarrow> leaves p (if b then m else n)"
  by simp

lemma leaves_attempt [leaves_intros]: "leaves p m \<Longrightarrow> leaves p (attempt m)"
  by (auto simp: keeps_def attempt_def case_prod_unfold)

lemma leaves_on_error [leaves_intros]:
  assumes "leaves p m" and "leaves p c"
  shows "leaves p (on_error m c)"
proof (rule leavesI)
  fix w
  obtain r w' where m: "m w = (r, w')" by (cases "m w")
  with leavesD [OF assms(1), of w] leavesD [OF assms(2), of w']
  show "get_file p (snd (on_error m c w)) = get_file p w" by (cases r) (simp_all add: on_error_def)
qed

lemma leaves_update [leaves_intros]:
  "p \<noteq> q \<Longrightarrow> leaves p (put_file q f)" "p \<noteq> q \<Longrightarrow> leaves p (drop_file q)"
  "p \<noteq> q \<Longrightarrow> leaves p (amodify (w_files_update (bm_update q g)))"
  by (auto intro!: leavesI simp: put_file_def drop_file_def) (simp_all add: get_file_def)

lemma leaves_files [leaves_intros]:
  "p \<noteq> q \<Longrightarrow> leaves p (set_permissions env q c)" "p \<noteq> q \<Longrightarrow> leaves p (create_new env q c)"
  "p \<noteq> q \<Longrightarrow> leaves p (write_all env q b c)" "p \<noteq> q \<Longrightarrow> leaves p (remove_file env q c)"
  "p \<noteq> q \<Longrightarrow> leaves p (open_private_file env q)" "p \<noteq> q \<Longrightarrow> leaves p (remove_temp env q)"
  "p \<noteq> q \<Longrightarrow> leaves p (remove_path_if_exists env q c)" "p \<noteq> q \<Longrightarrow> p \<noteq> r \<Longrightarrow> leaves p (rename_file env q r c)"
  "leaves p (read_json_limited env dec q n c)"
  unfolding set_permissions_def create_new_def write_all_def remove_file_def open_private_file_def remove_temp_def
    remove_path_if_exists_def rename_file_def read_json_limited_def
  by (intro leaves_intros; assumption)+

section \<open>Atomic replacement\<close>

text \<open>Names the gateway keeps: temporary files start with a dot.\<close>

definition visible :: "string \<Rightarrow> bool" where
  "visible name \<longleftrightarrow> name \<noteq> [] \<and> hd name \<noteq> CHR ''.''"

definition private_file :: "string \<Rightarrow> disk_file" where
  "private_file bytes = \<lparr>f_regular = True, f_mode = PRIVATE_MODE, f_bytes = bytes\<rparr>"

text \<open>
  The contract of a writer that replaces one file through a temporary one.  The gateway has three
  such writers, for ledgers, for credential records and for fingerprints.
\<close>

locale atomic_writer =
  fixes replace :: "string \<Rightarrow> string \<Rightarrow> unit fs"
  assumes other: "visible p \<Longrightarrow> p \<noteq> name \<Longrightarrow> get_file p (snd (replace name bytes w)) = get_file p w"
    and ok: "visible name \<Longrightarrow> fst (replace name bytes w) = Inr ()
      \<Longrightarrow> get_file name (snd (replace name bytes w)) = Some (private_file bytes)"
    and failed: "visible name \<Longrightarrow> fst (replace name bytes w) = Inl e
      \<Longrightarrow> get_file name (snd (replace name bytes w)) = get_file name w"
begin

lemma old_or_new:
  assumes "visible p"
  shows "get_file p (snd (replace name bytes w)) \<in> {get_file p w, Some (private_file bytes)}"
proof (cases "p = name")
  case True
  with assms ok [of name bytes w] failed [of name bytes w] show ?thesis
    by (cases "fst (replace name bytes w)") auto
qed (use assms other in auto)

lemma leaves_other: "visible p \<Longrightarrow> p \<noteq> name \<Longrightarrow> leaves p (replace name bytes)"
  by (rule leavesI) (rule other)

end

lemma athen_assoc: "athen (athen a b) c = athen a (athen b c)"
  by (rule ext) (simp add: athen_def abind_def split: prod.splits sum.splits)

lemma io_call_run: "io_call env c w = (Inr (), w\<lparr>w_io := w_io w + 1\<rparr>) \<or> io_call env c w = (Inl (Msg c), w\<lparr>w_io := w_io w + 1\<rparr>)"
  by (simp add: io_call_def)

definition replace_via :: "io_env \<Rightarrow> string \<Rightarrow> string \<Rightarrow> string \<Rightarrow> unit fs \<Rightarrow> string \<Rightarrow> string \<Rightarrow> string \<Rightarrow> unit fs" where
  "replace_via env temp name bytes prep c1 c2 c3 =
     on_error (athen prep (athen (write_all env temp bytes c1) (athen (io_call env c2)
       (rename_file env temp name c3)))) (remove_temp env temp)"

lemma replace_via:
  fixes env temp name bytes prep c1 c2 c3
  defines "body \<equiv> replace_via env temp name bytes prep c1 c2 c3"
  assumes prep_leaves: "\<And>p. p \<noteq> temp \<Longrightarrow> leaves p prep" and diff: "temp \<noteq> name"
    and prep: "\<And>w w'. prep w = (Inr (), w') \<Longrightarrow> \<exists>b. get_file temp w' = Some (private_file b)"
  shows "p \<noteq> temp \<Longrightarrow> p \<noteq> name \<Longrightarrow> get_file p (snd (body w)) = get_file p w"
    and "fst (body w) = Inr () \<Longrightarrow> get_file name (snd (body w)) = Some (private_file bytes)"
    and "fst (body w) = Inl e \<Longrightarrow> get_file name (snd (body w)) = get_file name w"
proof -
  assume "p \<noteq> temp" "p \<noteq> name"
  then have "leaves p body" unfolding body_def replace_via_def by (intro leaves_intros prep_leaves) auto
  then show "get_file p (snd (body w)) = get_file p w" by (rule leavesD)
next
  assume "fst (body w) = Inr ()"
  then obtain w1 w2 w3 w4 where run: "prep w = (Inr (), w1)" "write_all env temp bytes c1 w1 = (Inr (), w2)"
      "io_call env c2 w2 = (Inr (), w3)" "rename_file env temp name c3 w3 = (Inr (), w4)" "snd (body w) = w4"
    unfolding body_def replace_via_def on_error_def by (auto simp: athen_def abind_def split: prod.splits sum.splits)
  from prep [OF run(1)] obtain b where "get_file temp w1 = Some (private_file b)" ..
  then have "get_file temp w2 = Some (private_file bytes)"
    using run(2) by (auto simp: write_all_def athen_def abind_def io_call_def private_file_def split: if_splits)
      (simp add: get_file_def)
  then have "get_file temp w3 = Some (private_file bytes)" using run(3) by (auto simp: io_call_def split: if_splits)
  then have "get_file name w4 = Some (private_file bytes)"
    using run(4) diff by (auto simp: rename_file_def athen_def abind_def io_call_def put_file_def drop_file_def
        split: if_splits option.splits)
  then show "get_file name (snd (body w)) = Some (private_file bytes)" using run(5) by simp
next
  assume fail: "fst (body w) = Inl e"
  let ?steps = "athen prep (athen (write_all env temp bytes c1) (athen (io_call env c2) (rename_file env temp name c3)))"
  obtain r w' where m: "?steps w = (r, w')" by (cases "?steps w")
  with fail have r: "r = Inl e" and final: "snd (body w) = snd (remove_temp env temp w')"
    unfolding body_def replace_via_def on_error_def by (auto split: sum.splits)
  have early: "leaves name (athen prep (athen (write_all env temp bytes c1) (io_call env c2)))"
    using diff by (intro leaves_intros prep_leaves [OF diff [symmetric]]) auto
  obtain r1 w1 where e: "athen prep (athen (write_all env temp bytes c1) (io_call env c2)) w = (r1, w1)"
    by (cases "athen prep (athen (write_all env temp bytes c1) (io_call env c2)) w")
  have split: "?steps = athen (athen prep (athen (write_all env temp bytes c1) (io_call env c2))) (rename_file env temp name c3)"
    by (simp add: athen_assoc)
  have same1: "get_file name w1 = get_file name w" using leavesD [OF early, of w] e by simp
  have "get_file name w' = get_file name w"
  proof (cases r1)
    case (Inl a)
    with m e same1 show ?thesis unfolding split by (simp add: athen_def abind_def)
  next
    case (Inr a)
    with m e r have "rename_file env temp name c3 w1 = (Inl e, w')" unfolding split by (simp add: athen_def abind_def)
    then show ?thesis
      using same1 by (auto simp: rename_file_def athen_def abind_def io_call_def put_file_def drop_file_def
          split: if_splits option.splits)
  qed
  with leavesD [OF leaves_files(6)] diff show "get_file name (snd (body w)) = get_file name w"
    unfolding final by metis
qed

lemma draw_temp_run: "draw_temp env ext prefix w
    = (Inr (prefix @ uuid_simple env (new_v4 ext (w_draws w)) @ ''.tmp''), w\<lparr>w_draws := w_draws w + 1\<rparr>)"
  by (simp add: draw_temp_def)

lemma visible_temp: "visible name \<Longrightarrow> prefix \<noteq> [] \<Longrightarrow> hd prefix = CHR ''.'' \<Longrightarrow> prefix @ s \<noteq> name"
  by (auto simp: visible_def)

text \<open>A writer that draws a temporary name and replaces the file through it meets the contract.\<close>

lemma atomic_writer_via:
  assumes "\<And>name bytes. replace name bytes
      = abind (draw_temp env ext prefix) (\<lambda>temp. replace_via env temp name bytes (prep temp) c1 c2 c3)"
    and "prefix \<noteq> []" and "hd prefix = CHR ''.''"
    and "\<And>temp p. p \<noteq> temp \<Longrightarrow> leaves p (prep temp)"
    and "\<And>temp w w'. prep temp w = (Inr (), w') \<Longrightarrow> \<exists>b. get_file temp w' = Some (private_file b)"
  shows "atomic_writer replace"
proof
  fix p name bytes and w :: world
  let ?temp = "prefix @ uuid_simple env (new_v4 ext (w_draws w)) @ ''.tmp''"
  let ?w = "w\<lparr>w_draws := w_draws w + 1\<rparr>"
  have run: "replace name bytes w = replace_via env ?temp name bytes (prep ?temp) c1 c2 c3 ?w"
    by (simp add: assms(1) abind_def draw_temp_run)
  show "visible p \<Longrightarrow> p \<noteq> name \<Longrightarrow> get_file p (snd (replace name bytes w)) = get_file p w"
  proof -
    assume p: "visible p" "p \<noteq> name"
    have "p \<noteq> ?temp" using visible_temp [OF p(1) assms(2,3)] by metis
    with p(2) have "leaves p (replace_via env ?temp name bytes (prep ?temp) c1 c2 c3)"
      unfolding replace_via_def by (intro leaves_intros assms(4)) auto
    from leavesD [OF this, of ?w] show ?thesis unfolding run by simp
  qed
  assume "visible name"
  then have diff: "?temp \<noteq> name" by (rule visible_temp [OF _ assms(2,3)])
  have priv: "prep ?temp v = (Inr (), v') \<Longrightarrow> \<exists>b. get_file ?temp v' = Some (private_file b)" for v v'
    by (rule assms(5))
  show "fst (replace name bytes w) = Inr () \<Longrightarrow> get_file name (snd (replace name bytes w)) = Some (private_file bytes)"
    unfolding run by (rule replace_via(2) [OF assms(4) diff priv])
  show "fst (replace name bytes w) = Inl e \<Longrightarrow> get_file name (snd (replace name bytes w)) = get_file name w" for e
    unfolding run by (subst replace_via(3) [OF assms(4) diff priv]) simp_all
qed

lemma create_new_private:
  "create_new env temp c w = (Inr (), w') \<Longrightarrow> \<exists>b. get_file temp w' = Some (private_file b)"
  by (auto simp: create_new_def put_file_def private_file_def athen_Inr_iff abind_Inr_iff split: option.splits)

lemma open_private_file_private:
  assumes "open_private_file env temp w = (Inr (), w')"
  shows "\<exists>b. get_file temp w' = Some (private_file b)"
proof -
  from assms obtain w0 w1 where w1: "(case get_file temp w0 of
        None \<Rightarrow> put_file temp \<lparr>f_regular = True, f_mode = PRIVATE_MODE, f_bytes = []\<rparr>
      | Some f \<Rightarrow> if f_regular f then aret () else afail (Msg ''opening private state file'')) w0 = (Inr (), w1)"
    and perm: "set_permissions env temp ''setting private file permissions'' w1 = (Inr (), w')"
    unfolding open_private_file_def athen_Inr_iff abind_Inr_iff by fastforce
  from w1 obtain f where f: "get_file temp w1 = Some f" "f_regular f"
    by (auto simp: put_file_def private_file_def split: option.splits if_splits)
  from perm f(1) have "get_file temp w' = Some (f\<lparr>f_mode := PRIVATE_MODE\<rparr>)"
    by (auto simp: set_permissions_def athen_Inr_iff io_call_def get_file_def split: if_splits)
  moreover from f have "f\<lparr>f_mode := PRIVATE_MODE\<rparr> = private_file (f_bytes f)" by (simp add: private_file_def)
  ultimately show ?thesis by metis
qed

interpretation ledger_writer: atomic_writer "write_bytes_atomically env ext" for env ext
  by (rule atomic_writer_via [where env = env and ext = ext and prefix = "''.request-state-''"
        and prep = "\<lambda>temp. create_new env temp ''creating request state temp file''"
        and ?c1.0 = "''writing request state temp file''" and ?c2.0 = "''syncing request state temp file''"
        and ?c3.0 = "''replacing request state''"])
    (simp_all add: write_bytes_atomically_def replace_via_def leaves_files create_new_private)

lemma truncate_private:
  assumes "athen (open_private_file env temp) (athen (io_call env c)
      (amodify (w_files_update (bm_update temp (\<lambda>f. f\<lparr>f_bytes := []\<rparr>))))) w = (Inr (), w')"
  shows "\<exists>b. get_file temp w' = Some (private_file b)"
proof -
  from assms obtain w1 where "open_private_file env temp w = (Inr (), w1)"
    and w': "get_file temp w' = map_option (\<lambda>f. f\<lparr>f_bytes := []\<rparr>) (get_file temp w1)"
    by (auto simp: athen_Inr_iff io_call_def get_file_def split: if_splits)
  from open_private_file_private [OF this(1)] w' show ?thesis by (auto simp: private_file_def)
qed

interpretation record_writer: atomic_writer "write_json_atomically env ext" for env ext
  by (rule atomic_writer_via [where env = env and ext = ext and prefix = "''.credential-''"
        and prep = "\<lambda>temp. athen (open_private_file env temp) (athen (io_call env ''truncating credential temp file'')
          (amodify (w_files_update (bm_update temp (\<lambda>f. f\<lparr>f_bytes := []\<rparr>)))))"
        and ?c1.0 = "''writing credential temp file''" and ?c2.0 = "''syncing credential temp file''"
        and ?c3.0 = "''replacing credential record''"])
    (simp_all add: write_json_atomically_def replace_via_def athen_assoc leaves_intros truncate_private)

end
