(* ===== verification/Subscription_Aliases.thy ===== *)
theory Subscription_Aliases
  imports Editor_Steps
begin

text \<open>
  The live subscription contexts extend the protection of an edit (\<open>subscription_aliases.rs\<close>): what
  an admitted or retained context still refers to may not be pruned.  Of a context record only the
  fields read here are modelled; sets and hash maps are lists of their elements, whose order does not
  matter.  A poisoned lock is \<open>None\<close>.
\<close>

record context_record =
  cr_session_id :: string
  cr_thread_id :: string
  cr_turn_id :: "string option"
  cr_lineage_turns :: "string list"
  cr_origins :: "((wire_id_domain \<times> string) \<times> string) list"
  cr_calls :: "string list"
  cr_items :: "string list"
  cr_has_history :: bool
  cr_socket :: "string option"

record context_inner =
  ci_scopes :: "(string, context_record list) btree_map" \<comment> \<open>the records of each scope\<close>
  ci_operations :: "(string \<times> context_record) list" \<comment> \<open>scope and record of each active operation\<close>
  ci_reservations :: "(string \<times> string) list" \<comment> \<open>scope and session of each pending reservation\<close>

definition scope_records :: "context_inner \<Rightarrow> string \<Rightarrow> context_record list" where
  "scope_records inner key = (case bm_get (ci_scopes inner) key of None \<Rightarrow> [] | Some rs \<Rightarrow> rs)"

definition active_records :: "context_inner \<Rightarrow> string \<Rightarrow> context_record list" where
  "active_records inner key = map snd (filter (\<lambda>(scope, _). scope = key) (ci_operations inner))"

definition content_origins ::
    "externals \<Rightarrow> context_inner option \<Rightarrow> string \<Rightarrow> string \<Rightarrow> string
      \<Rightarrow> ((wire_id_domain \<times> string) \<times> string) list result" where
  "content_origins ext contexts account_namespace key thread =
     (let scope = factory_scope_key ext (factory_new ext account_namespace key) in
      rbind (ok_or contexts (Msg ''context state unavailable'')) (\<lambda>inner.
      Inr (concat (map (\<lambda>r. map (\<lambda>((d, alias), raw). ((d, raw), alias)) (cr_origins r))
        (filter (\<lambda>r. cr_thread_id r = thread) (scope_records inner scope @ active_records inner scope))))))"

definition protected_records :: "context_inner \<Rightarrow> string \<Rightarrow> context_record list" where
  "protected_records inner key =
     filter (\<lambda>r. cr_has_history r \<or> cr_socket r \<noteq> None) (scope_records inner key) @ active_records inner key"

definition live_sessions :: "context_inner \<Rightarrow> string \<Rightarrow> string set" where
  "live_sessions inner key =
     set (map cr_session_id (protected_records inner key)
       @ map snd (filter (\<lambda>(scope, _). scope = key) (ci_reservations inner)))"

definition record_turns :: "context_record list \<Rightarrow> string set" where
  "record_turns records = set (concat (map (\<lambda>r.
     (case cr_turn_id r of None \<Rightarrow> [] | Some t \<Rightarrow> [t]) @ cr_lineage_turns r) records))"

text \<open>The session that owns a turn's thread; a root thread is its own session.\<close>

definition turn_session :: "scope_state \<Rightarrow> turn_entry \<Rightarrow> string" where
  "turn_session scope turn =
     (case find_child scope (te_thread_id turn) of Some thread \<Rightarrow> ct_session_id thread | None \<Rightarrow> te_thread_id turn)"

definition referenced_sessions :: "scope_state \<Rightarrow> string set \<Rightarrow> string set \<Rightarrow> string set" where
  "referenced_sessions scope sessions turns' =
     sessions \<union> turn_session scope ` set (filter (\<lambda>t. te_id t \<in> turns') (bm_values (turns scope)))"

definition referenced_ids :: "scope_state \<Rightarrow> context_record list \<Rightarrow> string set \<Rightarrow> string set \<Rightarrow> string set" where
  "referenced_ids scope records sessions turns' =
     (let ids = set (concat (map (\<lambda>r. cr_items r @ cr_calls r) records)) \<union> sessions \<union> turns'
            \<union> set (map cr_thread_id records) \<union> set (concat (map (\<lambda>r. map (\<lambda>((_, alias), _). alias) (cr_origins r)) records))
      in ids \<union> we_upstream_id ` set (filter (\<lambda>pair. we_downstream_id pair \<in> ids) (bm_values (wire_ids scope))))"

definition keys_where :: "string \<Rightarrow> ('v \<Rightarrow> bool) \<Rightarrow> (string, 'v) btree_map \<Rightarrow> (string \<times> string) set" where
  "keys_where key P m = set (map (\<lambda>(lookup, _). (key, lookup)) (filter (\<lambda>(_, v). P v) (bm_entries m)))"

definition protect_scope ::
    "context_inner \<Rightarrow> string \<Rightarrow> scope_state \<Rightarrow> protected_state_keys \<Rightarrow> protected_state_keys" where
  "protect_scope inner key scope protected =
     (let records = protected_records inner key;
          live = live_sessions inner key
      in if live = {} then protected
      else let turns' = record_turns records;
          sessions = referenced_sessions scope live turns';
          ids = referenced_ids scope records sessions turns';
          current = set (concat (map (\<lambda>c. case conv_current_turn_id c of None \<Rightarrow> [] | Some t \<Rightarrow> [t])
            (filter (\<lambda>c. conv_id c \<in> sessions) (bm_values (conversations scope)))))
      in protected\<lparr>
        pk_scopes := insert key (pk_scopes protected),
        pk_wire_ids := pk_wire_ids protected \<union> keys_where key (\<lambda>pair.
          we_upstream_id pair \<in> ids \<or> we_downstream_id pair \<in> ids
          \<or> is_some_and (we_owner pair) (\<lambda>owner. wo_session_id owner \<in> sessions)
          \<or> we_domain pair = Installation \<or> we_domain pair = ContextWindow) (wire_ids scope),
        pk_conversations := pk_conversations protected \<union> keys_where key (\<lambda>c. conv_id c \<in> sessions) (conversations scope),
        pk_child_threads := pk_child_threads protected \<union> keys_where key (\<lambda>c. ct_session_id c \<in> sessions) (child_threads scope),
        pk_turns := pk_turns protected \<union> keys_where key (\<lambda>t. te_id t \<in> turns' \<or> te_id t \<in> current) (turns scope),
        pk_generated_items := pk_generated_items protected \<union> keys_where key (\<lambda>i. gi_id i \<in> ids
          \<or> is_some_and (gi_turn_id i) (\<lambda>t. t \<in> turns')) (generated_items scope),
        pk_installations := pk_installations protected \<union> keys_where key (\<lambda>_. True) (scoped_installations scope)\<rparr>)"

definition protect_aliases ::
    "context_inner option \<Rightarrow> persisted_request_state \<Rightarrow> protected_state_keys \<Rightarrow> protected_state_keys result" where
  "protect_aliases contexts state protected =
     rbind (ok_or contexts (Msg ''context state unavailable'')) (\<lambda>inner.
       Inr (foldl (\<lambda>p (key, scope). protect_scope inner key scope p) protected (bm_entries (ps_scopes state))))"

section \<open>Protection only grows, and covers the live contexts\<close>

lemma protects_more_trans: "protects_more a b \<Longrightarrow> protects_more b c \<Longrightarrow> protects_more a c"
  unfolding protects_more_def by blast

lemma protect_scope_more: "protects_more p (protect_scope inner key scope p)"
  unfolding protects_more_def all_kinds protect_scope_def by (auto simp: Let_def)

lemma protect_fold_more:
  "protects_more p (foldl (\<lambda>p (key, scope). protect_scope inner key scope p) p xs)"
proof (induction xs arbitrary: p)
  case (Cons x xs)
  obtain key scope where "x = (key, scope)" by (cases x)
  then show ?case using protects_more_trans [OF protect_scope_more Cons] by simp
qed simp

lemma protect_fold_member:
  assumes "(key, scope) \<in> set xs"
  obtains q where "protects_more (protect_scope inner key scope q)
    (foldl (\<lambda>p (key, scope). protect_scope inner key scope p) p xs)"
proof -
  from assms obtain ys zs where "xs = ys @ (key, scope) # zs" by (auto dest: split_list)
  then show ?thesis using protect_fold_more that by force
qed

lemma protect_aliases_more:
  "protect_aliases contexts st p = Inr q \<Longrightarrow> protects_more p q"
  using protect_fold_more by (auto simp: protect_aliases_def rbind_Inr_iff)

lemma protect_aliases_covers:
  assumes "protect_aliases (Some inner) st p = Inr q" and "bm_get (ps_scopes st) key = Some scope"
  obtains p' where "protects_more (protect_scope inner key scope p') q"
proof -
  have "(key, scope) \<in> set (bm_entries (ps_scopes st))" using assms(2) by (simp add: bm_get_iff)
  then obtain p' where "protects_more (protect_scope inner key scope p')
      (foldl (\<lambda>p (key, scope). protect_scope inner key scope p) p (bm_entries (ps_scopes st)))"
    by (rule protect_fold_member)
  with assms(1) that show ?thesis by (auto simp: protect_aliases_def)
qed

end
