(* ===== verification/Request_State_Store.thy ===== *)
theory Request_State_Store
  imports Vault_Files Subscription_Aliases
begin

text \<open>
  Durable ledgers (\<open>request_state_store.rs\<close>, \<open>request_state_transaction.rs\<close>) and the part of the
  credential records they read (\<open>vault.rs\<close>).  Every operation runs under the lock of its ledger file
  and is one action on the directory; the JSON codecs are parameters.  Timestamps are integers.
\<close>

section \<open>Credential records\<close>

datatype credential_status = Ready | RequiresLogin

datatype credential_material =
  CodexOAuth (id_token: string) (access_token: string) (refresh_token: string) (account_id: string)
    (access_expires_at: "int option") (issuer: string) (client_id: string)
  | OpenAiApiKey (api_key: string)

record vault_record =
  vr_account_ref :: string
  vr_status :: credential_status
  vr_upstream_url :: string
  vr_created_at :: int
  vr_updated_at :: int
  vr_material :: credential_material

definition request_state_namespace :: "vault_record \<Rightarrow> string" where
  "request_state_namespace r = (case vr_material r of
     CodexOAuth _ _ _ account _ _ _ \<Rightarrow> account | OpenAiApiKey _ \<Rightarrow> vr_account_ref r)"

section \<open>Names and revisions\<close>

definition RECORD_MAXIMUM_BYTES :: nat where "RECORD_MAXIMUM_BYTES = 1024 * 1024"
definition STATE_SUFFIX :: string where "STATE_SUFFIX = ''.request-state.json''"
definition LOCK_SUFFIX :: string where "LOCK_SUFFIX = ''.request-state.lock''"
definition ROUTING_SUFFIX :: string where "ROUTING_SUFFIX = ''.turn-state.json''"

definition state_path :: "string \<Rightarrow> string" where
  "state_path state_ref = state_ref @ STATE_SUFFIX"

definition valid_state_ref :: "string \<Rightarrow> bool" where
  "valid_state_ref state_ref \<longleftrightarrow> is_some_and (strip_prefix ''rs_'' state_ref)
     (\<lambda>encoded. length encoded = 43 \<and> list_all valid_key_byte encoded)"

definition next_revision :: "u64 \<Rightarrow> u64 result" where
  "next_revision revision =
     rbind (ensure (revision \<ge> INITIAL_REQUEST_STATE_REVISION) (Msg ''invalid request state revision'')) (\<lambda>_.
     ok_or (u64_checked_succ revision) (Msg ''request state revision exhausted''))"

definition lock_state :: "io_env \<Rightarrow> string \<Rightarrow> unit fs" where
  "lock_state env state_ref =
     athen (aensure (valid_state_ref state_ref) (Msg ''invalid request state reference''))
    (athen (open_private_file env (state_ref @ LOCK_SUFFIX))
     (io_call env ''locking request state''))"

section \<open>Reading and writing a ledger\<close>

definition read_optional_state ::
    "io_env \<Rightarrow> externals \<Rightarrow> persisted_request_state codec \<Rightarrow> string \<Rightarrow> persisted_request_state option fs" where
  "read_optional_state env ext cd path =
     abind (metadata env path ''reading request state metadata'') (\<lambda>found. case found of
       None \<Rightarrow> aret None
     | Some meta \<Rightarrow>
         athen (aensure (f_regular meta) (Msg ''request state is not a regular file''))
        (athen (aensure (length (f_bytes meta) \<le> MAX_REQUEST_STATE_BYTES) (Msg ''request state is too large''))
        (athen (if f_mode meta mod 4096 \<noteq> PRIVATE_MODE
            then set_permissions env path ''setting request state permissions'' else aret ())
        (abind (open_existing env path ''opening request state'') (\<lambda>f.
         athen (io_call env ''reading request state'')
        (athen (aensure (length (f_bytes f) \<le> MAX_REQUEST_STATE_BYTES) (Msg ''request state is too large''))
        (abind (alift (ok_or (cd_decode cd (f_bytes f)) (Msg ''decoding request state''))) (\<lambda>state.
         athen (alift (validate_state ext state))
         (aret (Some state))))))))))"

definition write_state ::
    "io_env \<Rightarrow> externals \<Rightarrow> persisted_request_state codec \<Rightarrow> string \<Rightarrow> persisted_request_state \<Rightarrow> unit fs" where
  "write_state env ext cd path state =
     athen (aensure (length (cd_encode cd state) \<le> MAX_REQUEST_STATE_BYTES) (Msg ''request state is too large''))
     (write_bytes_atomically env ext path (cd_encode cd state))"

section \<open>Owners\<close>

text \<open>
  One entry of the scans over credential records: \<open>None\<close> to skip it, the record otherwise.  Reading
  an entry of the listing may fail like any other call.
\<close>

definition scan_record :: "io_env \<Rightarrow> vault_record codec \<Rightarrow> string \<Rightarrow> string \<Rightarrow> string \<Rightarrow> vault_record option fs" where
  "scan_record env vcd entry_context description name =
     athen (io_call env entry_context)
     (case strip_suffix ''.json'' name of
        None \<Rightarrow> aret None
      | Some account_ref \<Rightarrow>
          if \<not> is_ok (validate_account_ref account_ref) then aret None
          else abind (attempt (read_json_limited env (cd_decode vcd) name RECORD_MAXIMUM_BYTES description)) (\<lambda>r. case r of
            Inr record \<Rightarrow> aret (Some record)
          | Inl e \<Rightarrow> if is_not_found e then aret None else afail e))"

fun owners_loop :: "io_env \<Rightarrow> externals \<Rightarrow> vault_record codec \<Rightarrow> string \<Rightarrow> string list \<Rightarrow> string btree_set
    \<Rightarrow> string btree_set fs" where
  "owners_loop env ext vcd state_ref [] owners = aret owners"
| "owners_loop env ext vcd state_ref (name # names) owners =
     abind (scan_record env vcd ''reading credential owner entry'' ''credential owner record'' name) (\<lambda>found.
       owners_loop env ext vcd state_ref names
        (case found of
           None \<Rightarrow> owners
         | Some record \<Rightarrow> if account_state_ref ext (request_state_namespace record) = state_ref
             then bm_insert (vr_account_ref record) () owners else owners))"

definition owners_for_state_ref :: "io_env \<Rightarrow> externals \<Rightarrow> vault_record codec \<Rightarrow> string \<Rightarrow> string btree_set fs" where
  "owners_for_state_ref env ext vcd state_ref =
     athen (aensure (valid_state_ref state_ref) (Msg ''invalid request state reference''))
    (abind (read_dir env ''scanning credential owners'') (\<lambda>names.
     owners_loop env ext vcd state_ref names bm_empty))"

fun active_loop :: "io_env \<Rightarrow> externals \<Rightarrow> vault_record codec \<Rightarrow> string list \<Rightarrow> string btree_set \<Rightarrow> string btree_set fs" where
  "active_loop env ext vcd [] active = aret active"
| "active_loop env ext vcd (name # names) active =
     abind (scan_record env vcd ''reading credential namespace entry'' ''credential namespace record'' name) (\<lambda>found.
       active_loop env ext vcd names
        (case found of
           None \<Rightarrow> active
         | Some record \<Rightarrow> bm_insert (account_state_ref ext (request_state_namespace record)) () active))"

definition active_state_refs :: "io_env \<Rightarrow> externals \<Rightarrow> vault_record codec \<Rightarrow> string btree_set fs" where
  "active_state_refs env ext vcd =
     abind (read_dir env ''scanning credential namespaces'') (\<lambda>names. active_loop env ext vcd names bm_empty)"

section \<open>The edit transaction\<close>

text \<open>Rust's integer division truncates towards zero.\<close>

definition i64_div :: "int \<Rightarrow> int \<Rightarrow> int" where
  "i64_div a b = (if a < 0 then - ((- a) div b) else a div b)"

definition run_edit :: "externals \<Rightarrow> persisted_request_state \<Rightarrow> lookup_key_factory \<Rightarrow> string \<Rightarrow> int \<Rightarrow> int \<Rightarrow> 'r edit
    \<Rightarrow> ('r \<times> editor) fs" where
  "run_edit ext state keys owner day now operation w =
     (case editor_new ext state keys owner day now (w_draws w) of
        Inl e \<Rightarrow> (Inl e, w)
      | Inr ed \<Rightarrow> (case operation ed of
          (Inl e, ed') \<Rightarrow> (Inl e, w\<lparr>w_draws := ed_draws ed'\<rparr>)
        | (Inr out, ed') \<Rightarrow> (Inr (out, ed'), w\<lparr>w_draws := ed_draws ed'\<rparr>)))"

text \<open>The loop that evicts until the encoding fits; every eviction shrinks the ledger.\<close>

function evict_to_fit :: "(persisted_request_state \<Rightarrow> string) \<Rightarrow> protected_state_keys \<Rightarrow> persisted_request_state
    \<Rightarrow> persisted_request_state result" where
  "evict_to_fit encode protected state =
     (if length (encode state) \<le> MAX_REQUEST_STATE_BYTES then Inr state
      else case evict_one protected state of
        (True, state') \<Rightarrow> evict_to_fit encode protected state'
      | (False, _) \<Rightarrow> Inl (Msg ''request state cannot fit within the size limit''))"
  by pat_completeness auto
termination
  by (relation "measure (\<lambda>(_, _, state). ledger_size state)")
    (auto dest!: evict_one_step [OF sym] dest: prune_step_size)

declare evict_to_fit.simps [simp del]

definition new_state :: "io_env \<Rightarrow> externals \<Rightarrow> vault_record codec \<Rightarrow> string \<Rightarrow> string \<Rightarrow> persisted_request_state fs" where
  "new_state env ext vcd state_ref owner =
     abind (owners_for_state_ref env ext vcd state_ref) (\<lambda>owners.
     abind (\<lambda>w. (Inr (new_v4 ext (w_draws w)), w\<lparr>w_draws := w_draws w + 1\<rparr>)) (\<lambda>installation.
     aret (state_new installation (bm_insert owner () owners))))"

definition bump_revision :: "persisted_request_state \<Rightarrow> persisted_request_state result" where
  "bump_revision state = rbind (next_revision (ps_revision state)) (\<lambda>r. Inr (state\<lparr>ps_revision := r\<rparr>))"

definition start_state ::
    "io_env \<Rightarrow> externals \<Rightarrow> vault_record codec \<Rightarrow> string \<Rightarrow> string \<Rightarrow> persisted_request_state option
      \<Rightarrow> persisted_request_state fs" where
  "start_state env ext vcd state_ref owner existing = (case existing of
     Some state \<Rightarrow> aret state
   | None \<Rightarrow> abind (new_state env ext vcd state_ref owner) (\<lambda>state.
       athen (alift (validate_state ext state)) (aret state)))"

text \<open>What follows the operation: protect what live contexts use, prune, and write unless nothing changed.\<close>

definition commit_edit ::
    "io_env \<Rightarrow> externals \<Rightarrow> persisted_request_state codec \<Rightarrow> context_inner option \<Rightarrow> string \<Rightarrow> int
      \<Rightarrow> bool \<Rightarrow> editor \<Rightarrow> unit fs" where
  "commit_edit env ext cd contexts path day is_new ed =
     (let (changed, protected) = editor_finish ed in
      abind (alift (protect_aliases contexts (ed_state ed) protected)) (\<lambda>protected.
      let (result, state) = prune day protected (ed_state ed) in
      abind (alift result) (\<lambda>pruned.
        if \<not> is_new \<and> \<not> (changed \<or> pruned) then aret ()
        else
          abind (alift (if is_new then Inr state else bump_revision state)) (\<lambda>state.
          abind (alift (evict_to_fit (cd_encode cd) protected state)) (\<lambda>state.
          athen (alift (validate_state ext state))
           (write_bytes_atomically env ext path (cd_encode cd state)))))))"

definition edit_under_lock ::
    "io_env \<Rightarrow> externals \<Rightarrow> persisted_request_state codec \<Rightarrow> vault_record codec \<Rightarrow> context_inner option
      \<Rightarrow> string \<Rightarrow> string \<Rightarrow> string \<Rightarrow> int \<Rightarrow> 'r edit \<Rightarrow> 'r fs" where
  "edit_under_lock env ext cd vcd contexts account_namespace owner downstream_scope now operation =
     (let state_ref = account_state_ref ext account_namespace;
          path = state_path state_ref;
          day = i64_div now 86400000 in
      abind (read_optional_state env ext cd path) (\<lambda>existing.
      abind (start_state env ext vcd state_ref owner existing) (\<lambda>state.
      abind (run_edit ext state (factory_new ext account_namespace downstream_scope) owner day now operation)
       (\<lambda>(output, ed).
      athen (commit_edit env ext cd contexts path day (existing = None) ed)
       (aret output)))))"

definition edit_locked where
  "edit_locked env ext cd vcd contexts account_namespace owner downstream_scope now operation =
     athen (lock_state env (account_state_ref ext account_namespace))
     (edit_under_lock env ext cd vcd contexts account_namespace owner downstream_scope now operation)"

definition edit_at where
  "edit_at env ext cd vcd contexts account_namespace owner downstream_scope now operation =
     athen (alift (validate_account_ref owner))
    (athen (aensure (account_namespace \<noteq> []) (Msg ''empty request state namespace''))
    (athen (aensure (downstream_scope \<noteq> []) (Msg ''empty downstream scope''))
    (athen (aensure (now \<ge> 0) (Msg ''invalid request state time''))
     (edit_locked env ext cd vcd contexts account_namespace owner downstream_scope now operation))))"

section \<open>Owner registration, removal and cleanup\<close>

definition register_owner_if_exists ::
    "io_env \<Rightarrow> externals \<Rightarrow> persisted_request_state codec \<Rightarrow> string \<Rightarrow> string \<Rightarrow> unit fs" where
  "register_owner_if_exists env ext cd account_namespace owner =
     (let state_ref = account_state_ref ext account_namespace in
      athen (alift (validate_account_ref owner))
     (athen (lock_state env state_ref)
     (abind (read_optional_state env ext cd (state_path state_ref)) (\<lambda>found. case found of
        None \<Rightarrow> aret ()
      | Some state \<Rightarrow>
          if bm_contains (ps_owners state) owner then aret ()
          else abind (alift (bump_revision (state\<lparr>ps_owners := bm_insert owner () (ps_owners state)\<rparr>))) (\<lambda>state.
            athen (alift (validate_state ext state)) (write_state env ext cd (state_path state_ref) state))))))"

definition remove_file_if_exists :: "io_env \<Rightarrow> string \<Rightarrow> unit fs" where
  "remove_file_if_exists env path = remove_path_if_exists env path ''removing request state''"

definition routing_remove :: "io_env \<Rightarrow> string \<Rightarrow> unit fs" where
  "routing_remove env state_ref = remove_file_if_exists env (state_ref @ ROUTING_SUFFIX)"

definition remove_credential_owner ::
    "io_env \<Rightarrow> externals \<Rightarrow> persisted_request_state codec \<Rightarrow> vault_record codec \<Rightarrow> string \<Rightarrow> string \<Rightarrow> unit fs" where
  "remove_credential_owner env ext cd vcd state_ref owner =
     (let path = state_path state_ref in
      athen (alift (validate_account_ref owner))
     (athen (aensure (valid_state_ref state_ref) (Msg ''invalid request state reference''))
     (athen (lock_state env state_ref)
     (athen (remove_path_if_exists env (owner @ ''.json'') ''removing credential record'')
     (abind (attempt (owners_for_state_ref env ext vcd state_ref)) (\<lambda>r. case r of
        Inl _ \<Rightarrow> aret ()
      | Inr owners \<Rightarrow>
          if bm_len owners = 0 then athen (remove_file_if_exists env path) (routing_remove env state_ref)
          else abind (attempt (read_optional_state env ext cd path)) (\<lambda>r. case r of
            Inl _ \<Rightarrow> aret ()
          | Inr None \<Rightarrow> aret ()
          | Inr (Some state) \<Rightarrow>
              abind (alift (bump_revision (state\<lparr>ps_owners := owners\<rparr>))) (\<lambda>state.
              athen (alift (validate_state ext state)) (write_state env ext cd path state)))))))))"

definition cleanup_candidate :: "string \<Rightarrow> string option" where
  "cleanup_candidate name = (case strip_suffix STATE_SUFFIX name of
     Some r \<Rightarrow> Some r | None \<Rightarrow> strip_suffix ROUTING_SUFFIX name)"

fun cleanup_loop :: "io_env \<Rightarrow> externals \<Rightarrow> vault_record codec \<Rightarrow> string btree_set \<Rightarrow> string list \<Rightarrow> unit fs" where
  "cleanup_loop env ext vcd active [] = aret ()"
| "cleanup_loop env ext vcd active (name # names) =
     athen (io_call env ''reading request state entry'')
    (athen (case cleanup_candidate name of
        None \<Rightarrow> aret ()
      | Some state_ref \<Rightarrow>
          if \<not> valid_state_ref state_ref \<or> bm_contains active state_ref then aret ()
          else athen (lock_state env state_ref)
           (abind (owners_for_state_ref env ext vcd state_ref) (\<lambda>owners.
              if bm_len owners = 0 then athen (remove_file_if_exists env name) (routing_remove env state_ref)
              else aret ())))
     (cleanup_loop env ext vcd active names))"

definition cleanup_unowned_request_states ::
    "io_env \<Rightarrow> externals \<Rightarrow> vault_record codec \<Rightarrow> string btree_set \<Rightarrow> unit fs" where
  "cleanup_unowned_request_states env ext vcd active =
     abind (read_dir env ''scanning request state files'') (cleanup_loop env ext vcd active)"

definition cleanup_orphan_request_states :: "io_env \<Rightarrow> externals \<Rightarrow> vault_record codec \<Rightarrow> unit fs" where
  "cleanup_orphan_request_states env ext vcd =
     abind (active_state_refs env ext vcd) (cleanup_unowned_request_states env ext vcd)"

end
