(* ===== verification/Store_Frames.thy ===== *)
theory Store_Frames
  imports Request_State_Store Editor_Honest
begin

text \<open>
  What each operation of the ledger store may change: contents of files outside its own ledger stay,
  reading never changes contents, and every write puts a validated encoding of the next revision.
\<close>

section \<open>Contents\<close>

definition content :: "string \<Rightarrow> world \<Rightarrow> string option" where
  "content p w = map_option f_bytes (get_file p w)"

abbreviation steady :: "string \<Rightarrow> 'a fs \<Rightarrow> bool" where
  "steady p m \<equiv> (\<forall>x. keeps (\<lambda>w. content p w = x) m)"

named_theorems steady_intros \<open>actions that keep the contents of a file\<close>

lemma steadyD: "steady p m \<Longrightarrow> content p (snd (m w)) = content p w"
  by (auto simp: keeps_def)

lemma steadyI: "(\<And>w. content p (snd (m w)) = content p w) \<Longrightarrow> steady p m"
  by (auto simp: keeps_def)

lemma leaves_steady: "leaves p m \<Longrightarrow> steady p m"
  by (rule steadyI) (simp add: content_def leavesD)

lemma steady_abind [steady_intros]: "steady p m \<Longrightarrow> (\<And>a. steady p (f a)) \<Longrightarrow> steady p (abind m f)"
  by (auto intro: keeps_abind)

lemma steady_athen [steady_intros]: "steady p m \<Longrightarrow> steady p n \<Longrightarrow> steady p (athen m n)"
  by (auto intro: keeps_athen)

lemma steady_cases [steady_intros]:
  "steady p m \<Longrightarrow> steady p n \<Longrightarrow> steady p (if b then m else n)"
  "steady p m \<Longrightarrow> (\<And>a. steady p (f a)) \<Longrightarrow> steady p (case x of None \<Rightarrow> m | Some a \<Rightarrow> f a)"
  "(\<And>e. steady p (g e)) \<Longrightarrow> (\<And>c. steady p (h c)) \<Longrightarrow> steady p (case y of Inl e \<Rightarrow> g e | Inr c \<Rightarrow> h c)"
  by (auto split: option.splits sum.splits)

lemma steady_attempt [steady_intros]: "steady p m \<Longrightarrow> steady p (attempt m)"
  by (auto simp: keeps_def attempt_def case_prod_unfold)

lemma steady_basic [steady_intros]:
  "steady p (aret a)" "steady p (afail e)" "steady p (alift r)" "steady p (aget f)" "steady p (aensure b e)"
  "steady p (io_call env c)" "steady p (path_exists env q)" "steady p (metadata env q c)"
  "steady p (open_existing env q c)" "steady p (read_dir env c)" "steady p (draw_temp env ext prefix)"
  "steady p (read_json_limited env dec q n c)"
  by (rule leaves_steady, rule leaves_intros)+

lemma steady_permissions [steady_intros]: "steady p (set_permissions env q c)"
proof (rule steadyI)
  fix w
  show "content p (snd (set_permissions env q c w)) = content p w"
    by (cases "p = q") (auto simp: set_permissions_def content_def athen_def abind_def io_call_def get_file_def
        option.map_comp comp_def)
qed

lemma steady_run_edit [steady_intros]: "steady p (run_edit ext st keys owner day now operation)"
  by (rule steadyI) (auto simp: run_edit_def content_def split: sum.splits prod.splits)

lemma steady_scan [steady_intros]: "steady p (scan_record env vcd c d name)"
  unfolding scan_record_def by (intro steady_intros)

lemma steady_owners_loop [steady_intros]: "steady p (owners_loop env ext vcd r names owners)"
  by (induction names arbitrary: owners) (simp_all only: owners_loop.simps, (intro steady_intros | assumption)+)

lemma steady_active_loop [steady_intros]: "steady p (active_loop env ext vcd names active)"
  by (induction names arbitrary: active) (simp_all only: active_loop.simps, (intro steady_intros | assumption)+)

lemma steady_owners [steady_intros]: "steady p (owners_for_state_ref env ext vcd r)" "steady p (active_state_refs env ext vcd)"
  unfolding owners_for_state_ref_def active_state_refs_def by (intro steady_intros)+

lemma steady_draw_id: "steady p (\<lambda>w. (Inr (g w), w\<lparr>w_draws := n w\<rparr>))"
  by (rule steadyI) (simp add: content_def)

lemma steady_new_state [steady_intros]: "steady p (new_state env ext vcd r owner)"
  unfolding new_state_def by (intro steady_intros steady_draw_id)

lemma steady_read_state [steady_intros]: "steady p (read_optional_state env ext cd q)"
  unfolding read_optional_state_def by (intro steady_intros)

lemma steady_lock [steady_intros]: "p \<noteq> r @ LOCK_SUFFIX \<Longrightarrow> steady p (lock_state env r)"
  unfolding lock_state_def by (intro steady_intros leaves_steady [OF leaves_files(5)]) auto

end
