(* ===== verification/Store_Guarantees.thy ===== *)
theory Store_Guarantees
  imports Store_Frames Ledger_Edits
begin

text \<open>
  The ledger store as a versioned register.  An edit either leaves the stored bytes of its ledger or
  replaces them by the encoding of a validated ledger of the next revision, whatever call to the
  operating system fails; nothing else that is visible in the directory changes.
\<close>

section \<open>Versions\<close>

definition stored_ok :: "externals \<Rightarrow> persisted_request_state codec \<Rightarrow> string \<Rightarrow> bool" where
  "stored_ok ext cd bytes \<longleftrightarrow> length bytes \<le> MAX_REQUEST_STATE_BYTES
     \<and> (\<exists>st. cd_decode cd bytes = Some st \<and> validate_state ext st = Inr ())"

definition next_version ::
    "externals \<Rightarrow> persisted_request_state codec \<Rightarrow> string option \<Rightarrow> string option \<Rightarrow> bool" where
  "next_version ext cd old new \<longleftrightarrow> (\<exists>st. new = Some (cd_encode cd st)
     \<and> length (cd_encode cd st) \<le> MAX_REQUEST_STATE_BYTES \<and> validate_state ext st = Inr ()
     \<and> (case old of
          None \<Rightarrow> ps_revision st = INITIAL_REQUEST_STATE_REVISION
        | Some bytes \<Rightarrow> (\<exists>prev. cd_decode cd bytes = Some prev \<and> validate_state ext prev = Inr ()
            \<and> unat (ps_revision st) = unat (ps_revision prev) + 1)))"

text \<open>The closures an edit runs reach the ledger only through the operations of the editor.\<close>

definition editing :: "externals \<Rightarrow> 'r edit \<Rightarrow> bool" where
  "editing ext operation \<longleftrightarrow> (\<forall>ed out ed'. operation ed = (Inr out, ed') \<longrightarrow> edit_steps ext ed ed')"

lemma next_version_ok: "codec_ok cd \<Longrightarrow> next_version ext cd old (Some bytes) \<Longrightarrow> stored_ok ext cd bytes"
  by (auto simp: next_version_def stored_ok_def codec_ok_def)

section \<open>Revisions\<close>

lemma next_revision_Inr:
  assumes "next_revision r = Inr r'"
  shows "unat r' = unat r + 1"
  using assms
  by (auto simp: next_revision_def rbind_Inr_iff ok_or_def dest: u64_checked_succ_greater(2) split: option.splits)

lemma bump_revision_Inr:
  "bump_revision st = Inr st' \<Longrightarrow> \<exists>r. st' = st\<lparr>ps_revision := r\<rparr> \<and> unat r = unat (ps_revision st) + 1"
  using next_revision_Inr by (fastforce simp: bump_revision_def rbind_Inr_iff)

lemma edit_steps_revision:
  assumes "edit_steps ext ed ed'" and "editor_ok ed"
  shows "ps_revision (ed_state ed') = ps_revision (ed_state ed)"
proof -
  have "outside ed' = outside ed" using edit_steps_extends [OF assms(1)] assms(2) by (simp add: extends_def)
  then have "ps_revision (outside ed') = ps_revision (outside ed)" by simp
  then show ?thesis by (simp add: outside_def)
qed

lemma editor_new_revision: "editor_new ext st keys owner day now draws = Inr ed \<Longrightarrow> ps_revision (ed_state ed) = ps_revision st"
  by (auto simp: editor_new_def rbind_Inr_iff Let_def split: if_splits option.splits prod.splits)

section \<open>The eviction loop\<close>

lemma evict_to_fit_Inr:
  "evict_to_fit encode protected st = Inr st'
     \<Longrightarrow> prune_steps protected st st' \<and> length (encode st') \<le> MAX_REQUEST_STATE_BYTES"
proof (induction encode protected st arbitrary: st' rule: evict_to_fit.induct)
  case (1 encode protected state)
  show ?case
  proof (cases "length (encode state) \<le> MAX_REQUEST_STATE_BYTES")
    case True
    with 1(2) show ?thesis by (simp add: evict_to_fit.simps)
  next
    case False
    obtain b state' where e: "evict_one protected state = (b, state')" by (cases "evict_one protected state")
    with False 1(2) have b: b and rec: "evict_to_fit encode protected state' = Inr st'"
      by (cases b; simp add: evict_to_fit.simps [of encode protected state])+
    from b e have "prune_step protected state state'" by (auto dest: evict_one_step)
    with 1(1) [OF False e [symmetric]] b rec show ?thesis by (auto intro: converse_rtranclp_into_rtranclp)
  qed
qed

lemma evict_to_fit_Inl:
  "evict_to_fit encode protected st = Inl e \<Longrightarrow> \<exists>st' st''. prune_steps protected st st'
     \<and> \<not> length (encode st') \<le> MAX_REQUEST_STATE_BYTES \<and> evict_one protected st' = (False, st'')"
proof (induction encode protected st rule: evict_to_fit.induct)
  case (1 encode protected state)
  then have False: "\<not> length (encode state) \<le> MAX_REQUEST_STATE_BYTES"
    by (auto simp: evict_to_fit.simps [of encode protected state])
  obtain b state' where e: "evict_one protected state = (b, state')" by (cases "evict_one protected state")
  show ?case
  proof (cases b)
    case True
    with e have "prune_step protected state state'" by (auto dest: evict_one_step)
    moreover have "evict_to_fit encode protected state' = Inl e"
      using 1(2) False e True by (simp add: evict_to_fit.simps [of encode protected state])
    ultimately show ?thesis using 1(1) [OF False e [symmetric]] True by (blast intro: converse_rtranclp_into_rtranclp)
  next
    case b: False
    with e False show ?thesis by (intro exI [of _ state] exI [of _ state']) simp
  qed
qed

section \<open>Reading and running\<close>

lemma read_optional_state_Inr:
  assumes "read_optional_state env ext cd p w = (Inr found, w')"
  shows "content p w' = content p w"
    and "found = None \<Longrightarrow> content p w = None"
    and "found = Some st \<Longrightarrow> \<exists>bytes. content p w = Some bytes \<and> stored_ok ext cd bytes \<and> cd_decode cd bytes = Some st
      \<and> validate_state ext st = Inr ()"
proof -
  show keep: "content p w' = content p w"
    using steadyD [OF steady_read_state, of p env ext cd p w] assms by simp
  show "content p w = None" if "found = None"
    using assms that
    by (auto simp: read_optional_state_def metadata_def io_call_def athen_Inr_iff abind_Inr_iff content_def
        split: option.splits if_splits)
  show "\<exists>bytes. content p w = Some bytes \<and> stored_ok ext cd bytes \<and> cd_decode cd bytes = Some st
      \<and> validate_state ext st = Inr ()" if "found = Some st"
  proof -
    from assms that obtain meta w0 w1 f w2 where "metadata env p ''reading request state metadata'' w = (Inr (Some meta), w0)"
        and "(if f_mode meta mod 4096 \<noteq> PRIVATE_MODE
          then set_permissions env p ''setting request state permissions'' else aret ()) w0 = (Inr (), w1)"
        and run: "open_existing env p ''opening request state'' w1 = (Inr f, w2)"
        "cd_decode cd (f_bytes f) = Some st" "length (f_bytes f) \<le> MAX_REQUEST_STATE_BYTES"
        "validate_state ext st = Inr ()"
      unfolding read_optional_state_def abind_Inr_iff athen_Inr_iff
      by (fastforce simp: abind_Inr_iff athen_Inr_iff ok_or_def split: option.splits)
    then have "content p w1 = content p w"
      using steadyD [OF steady_basic(8), of p env p "''reading request state metadata''" w]
        steadyD [OF steady_permissions, of p env p "''setting request state permissions''" w0]
      by (auto split: if_splits)
    moreover from run(1) have "content p w1 = Some (f_bytes f)"
      by (auto simp: open_existing_def io_call_def athen_Inr_iff abind_Inr_iff content_def split: option.splits if_splits)
    ultimately have "content p w = Some (f_bytes f)" by simp
    with run(2-4) show ?thesis by (auto simp: stored_ok_def)
  qed
qed

lemma run_edit_Inr:
  assumes "run_edit ext st keys owner day now operation w = (Inr (out, ed), w')"
  obtains ed0 where "editor_new ext st keys owner day now (w_draws w) = Inr ed0" "operation ed0 = (Inr out, ed)"
  using assms by (auto simp: run_edit_def split: sum.splits prod.splits)

lemma new_state_Inr:
  "new_state env ext vcd r owner w = (Inr st, w')
    \<Longrightarrow> ps_revision st = INITIAL_REQUEST_STATE_REVISION \<and> ps_scopes st = bm_empty"
  by (auto simp: new_state_def abind_Inr_iff state_new_def)

lemma run_content: "run_edit ext st keys owner day now operation w = (r, w') \<Longrightarrow> content p w' = content p w"
  using steadyD [OF steady_run_edit, of p ext st keys owner day now operation w] by simp

lemma new_content: "new_state env ext vcd r owner w = (x, w') \<Longrightarrow> content p w' = content p w"
  using steadyD [OF steady_new_state, of p env ext vcd r owner w] by simp

lemma write_content:
  assumes "write_bytes_atomically env ext p bytes w = (Inr (), w')" and "visible p"
  shows "content p w' = Some bytes"
  using ledger_writer.ok [OF assms(2), of env ext bytes w] assms(1) by (simp add: content_def private_file_def)

lemma start_state_Inr:
  assumes "start_state env ext vcd r owner existing w = (Inr st, w')"
  shows "content p w' = content p w" and "existing = Some x \<Longrightarrow> st = x"
    and "existing = None \<Longrightarrow> ps_revision st = INITIAL_REQUEST_STATE_REVISION \<and> ps_scopes st = bm_empty
      \<and> validate_state ext st = Inr ()"
  using assms by (auto simp: start_state_def abind_Inr_iff athen_Inr_iff dest: new_state_Inr new_content split: option.splits)

lemma commit_edit_Inr:
  assumes "commit_edit env ext cd contexts p day is_new ed w = (Inr (), w')" and "visible p"
  obtains (kept) "\<not> is_new" "\<not> ed_changed ed" "content p w' = content p w"
  | (written) protected pruned st1 st2 st3 where
      "protect_aliases contexts (ed_state ed) (ed_protected ed) = Inr protected"
      "prune day protected (ed_state ed) = (Inr pruned, st1)"
      "(if is_new then Inr st1 else bump_revision st1) = Inr st2"
      "evict_to_fit (cd_encode cd) protected st2 = Inr st3"
      "validate_state ext st3 = Inr ()" "content p w' = Some (cd_encode cd st3)"
proof -
  obtain protected where prot: "protect_aliases contexts (ed_state ed) (ed_protected ed) = Inr protected"
    using assms(1) by (auto simp: commit_edit_def editor_finish_def abind_Inr_iff)
  obtain result st1 where prune: "prune day protected (ed_state ed) = (result, st1)" by (cases "prune day protected (ed_state ed)")
  with assms(1) prot obtain pruned where result: "result = Inr pruned"
    by (auto simp: commit_edit_def editor_finish_def abind_Inr_iff)
  show thesis
  proof (cases "\<not> is_new \<and> \<not> (ed_changed ed \<or> pruned)")
    case True
    with assms(1) prot prune result kept show ?thesis by (simp add: commit_edit_def editor_finish_def abind_Inr_iff)
  next
    case False
    with assms(1) prot prune result obtain st2 st3 where
      "(if is_new then Inr st1 else bump_revision st1) = Inr st2" "evict_to_fit (cd_encode cd) protected st2 = Inr st3"
      "validate_state ext st3 = Inr ()" "write_bytes_atomically env ext p (cd_encode cd st3) w = (Inr (), w')"
      by (auto simp: commit_edit_def editor_finish_def abind_Inr_iff athen_Inr_iff)
    with prot prune result written write_content [OF _ assms(2)] show ?thesis by metis
  qed
qed

text \<open>The ledger an edit starts from, given the stored bytes.\<close>

definition edit_start :: "externals \<Rightarrow> persisted_request_state codec \<Rightarrow> string option \<Rightarrow> persisted_request_state \<Rightarrow> bool" where
  "edit_start ext cd bytes st \<longleftrightarrow> validate_state ext st = Inr () \<and> (case bytes of
     None \<Rightarrow> ps_revision st = INITIAL_REQUEST_STATE_REVISION \<and> ps_scopes st = bm_empty | Some b \<Rightarrow> cd_decode cd b = Some st)"

lemma edit_under_lock_Inr:
  fixes ext ns scope now
  defines "p \<equiv> state_path (account_state_ref ext ns)" and "day \<equiv> i64_div now 86400000"
  assumes "edit_under_lock env ext cd vcd contexts ns owner scope now operation w = (Inr out, w')"
  obtains st ed0 ed n w3 where "edit_start ext cd (content p w) st"
      "editor_new ext st (factory_new ext ns scope) owner day now n = Inr ed0" "operation ed0 = (Inr out, ed)"
      "content p w3 = content p w" "commit_edit env ext cd contexts p day (content p w = None) ed w3 = (Inr (), w')"
proof -
  from assms(3) obtain existing w1 st w2 ed w3 where
    read: "read_optional_state env ext cd p w = (Inr existing, w1)"
    and start: "start_state env ext vcd (account_state_ref ext ns) owner existing w1 = (Inr st, w2)"
    and run: "run_edit ext st (factory_new ext ns scope) owner day now operation w2 = (Inr (out, ed), w3)"
    and commit: "commit_edit env ext cd contexts p day (existing = None) ed w3 = (Inr (), w')"
    unfolding edit_under_lock_def Let_def p_def day_def by (auto simp: abind_Inr_iff athen_Inr_iff)
  have same: "content p w3 = content p w"
    using read_optional_state_Inr(1) [OF read] start_state_Inr(1) [OF start] run_content [OF run] by simp
  have first: "edit_start ext cd (content p w) st" and none: "existing = None \<longleftrightarrow> content p w = None"
    using read_optional_state_Inr(2,3) [OF read] start_state_Inr(2,3) [OF start]
    by (cases existing; fastforce simp: edit_start_def)+
  from run obtain ed0 where new: "editor_new ext st (factory_new ext ns scope) owner day now (w_draws w2) = Inr ed0"
    "operation ed0 = (Inr out, ed)" by (rule run_edit_Inr)
  show thesis by (rule that [OF first new same commit [unfolded none]])
qed

section \<open>Failures change nothing\<close>

abbreviation fails_clean :: "string \<Rightarrow> 'a fs \<Rightarrow> bool" where
  "fails_clean p m \<equiv> (\<forall>w e w'. m w = (Inl e, w') \<longrightarrow> content p w' = content p w)"

named_theorems clean_intros \<open>actions that keep the contents of a file when they fail\<close>

lemma clean_abind [clean_intros]:
  assumes "steady p m" and "\<And>a. fails_clean p (f a)"
  shows "fails_clean p (abind m f)"
proof (intro allI impI)
  fix w e w'
  assume run: "abind m f w = (Inl e, w')"
  obtain r w1 where m: "m w = (r, w1)" by (cases "m w")
  have "content p w1 = content p w" using steadyD [OF assms(1), of w] m by simp
  with run m assms(2) show "content p w' = content p w" by (cases r) (fastforce simp: abind_def)+
qed

lemma clean_athen [clean_intros]: "steady p m \<Longrightarrow> fails_clean p n \<Longrightarrow> fails_clean p (athen m n)"
  unfolding athen_def by (rule clean_abind) simp_all

lemma clean_athen_ret [clean_intros]: "fails_clean p m \<Longrightarrow> fails_clean p (athen m (aret x))"
  by (auto simp: athen_def abind_def split: prod.splits sum.splits)

lemma clean_if [clean_intros]: "fails_clean p m \<Longrightarrow> fails_clean p n \<Longrightarrow> fails_clean p (if b then m else n)"
  by simp

lemma clean_option [clean_intros]:
  "fails_clean p m \<Longrightarrow> (\<And>a. fails_clean p (f a)) \<Longrightarrow> fails_clean p (case x of None \<Rightarrow> m | Some a \<Rightarrow> f a)"
  by (cases x) auto

lemma clean_steady: "steady p m \<Longrightarrow> fails_clean p m"
  using steadyD [of p m] by (metis snd_conv)

lemma clean_write [clean_intros]: "visible p \<Longrightarrow> fails_clean p (write_bytes_atomically env ext p bytes)"
  using ledger_writer.failed [of p env ext bytes] by (metis content_def fst_conv snd_conv)

lemma clean_commit [clean_intros]: "visible p \<Longrightarrow> fails_clean p (commit_edit env ext cd contexts p day is_new ed)"
  unfolding commit_edit_def Let_def case_prod_unfold
  by (intro clean_intros steady_intros clean_steady [OF steady_basic(1)])

lemma steady_start [steady_intros]: "steady p (start_state env ext vcd r owner existing)"
  unfolding start_state_def by (intro steady_intros)

lemma clean_edit: "visible (state_path (account_state_ref ext ns))
    \<Longrightarrow> fails_clean (state_path (account_state_ref ext ns)) (edit_under_lock env ext cd vcd contexts ns owner scope now operation)"
  unfolding edit_under_lock_def Let_def case_prod_unfold by (intro clean_intros steady_intros)

section \<open>Names\<close>

lemma valid_state_refE:
  assumes "valid_state_ref r"
  obtains s where "r = ''rs_'' @ s" "length s = 43"
proof -
  from assms obtain s where "strip_prefix ''rs_'' r = Some s" and "length s = 43"
    by (auto simp: valid_state_ref_def is_some_and_def split: option.splits)
  with that show thesis by (auto simp: strip_prefix_Some)
qed

lemma state_path_visible: "valid_state_ref r \<Longrightarrow> visible (state_path r)"
  by (erule valid_state_refE) (simp add: visible_def state_path_def)

lemma suffixes_differ:
  "x @ STATE_SUFFIX \<noteq> y @ LOCK_SUFFIX" "x @ STATE_SUFFIX \<noteq> y @ ROUTING_SUFFIX" "x @ LOCK_SUFFIX \<noteq> y @ ROUTING_SUFFIX"
  by (auto simp: STATE_SUFFIX_def LOCK_SUFFIX_def ROUTING_SUFFIX_def dest!: arg_cong [where f = rev])

lemma state_path_inj [simp]: "state_path a = state_path b \<longleftrightarrow> a = b"
  by (simp add: state_path_def)

section \<open>One edit\<close>

lemma commit_next_version:
  assumes "commit_edit env ext cd contexts p day (content p w = None) ed w3 = (Inr (), w')" and "visible p"
    and "edit_start ext cd (content p w) st" and "ps_revision (ed_state ed) = ps_revision st" and "content p w3 = content p w"
  shows "content p w' = content p w \<or> next_version ext cd (content p w) (content p w')"
  using assms(1,2)
proof (cases rule: commit_edit_Inr)
  case kept
  with assms(5) show ?thesis by simp
next
  case (written protected pruned st1 st2 st3)
  have "ps_revision st1 = ps_revision st"
    using prune_steps_header [OF prune_steps_prune [of protected "ed_state ed" day]] written(2) assms(4) by simp
  moreover have "ps_revision st3 = ps_revision st2" "length (cd_encode cd st3) \<le> MAX_REQUEST_STATE_BYTES"
    using evict_to_fit_Inr [OF written(4)] prune_steps_header by metis+
  ultimately show ?thesis
    using written(3,5,6) assms(3) bump_revision_Inr [of st1 st2]
    by (cases "content p w") (auto simp: next_version_def edit_start_def)
qed

lemma edit_under_lock_version:
  assumes "edit_under_lock env ext cd vcd contexts ns owner scope now operation w = (Inr out, w')"
    and "editing ext operation" and "visible p" and p: "p = state_path (account_state_ref ext ns)"
  shows "content p w' = content p w \<or> next_version ext cd (content p w) (content p w')"
proof -
  from assms(1) obtain st ed0 ed n w3 where run: "edit_start ext cd (content p w) st"
      "editor_new ext st (factory_new ext ns scope) owner (i64_div now 86400000) now n = Inr ed0"
      "operation ed0 = (Inr out, ed)" "content p w3 = content p w"
      "commit_edit env ext cd contexts p (i64_div now 86400000) (content p w = None) ed w3 = (Inr (), w')"
    unfolding p by (rule edit_under_lock_Inr)
  have "ps_revision (ed_state ed) = ps_revision st"
    using edit_steps_revision [of ext ed0 ed] assms(2) run(3) editor_new_ok [OF run(2)] editor_new_revision [OF run(2)]
    by (simp add: editing_def)
  then show ?thesis by (rule commit_next_version [OF run(5) assms(3) run(1) _ run(4)])
qed

lemma lock_state_valid: "lock_state env r w = (Inr (), w') \<Longrightarrow> valid_state_ref r"
  by (auto simp: lock_state_def athen_Inr_iff)

end
