(* ===== verification/Routing_Store.thy ===== *)
theory Routing_Store
  imports Store_Guarantees
begin

text \<open>
  Persisted turn routing (\<open>request_state_routing.rs\<close>, the token check of \<open>subscription_routing.rs\<close>): a
  bounded table of opaque provider tokens beside each ledger, under the lock of the ledger.
  \<open>header_ok\<close> says whether the \<open>http\<close> crate accepts the bytes as a printable header value.
\<close>

section \<open>Data\<close>

definition ROUTING_MAX_BYTES :: nat where "ROUTING_MAX_BYTES = 8 * 1024 * 1024"
definition ROUTING_MAX_ENTRIES :: nat where "ROUTING_MAX_ENTRIES = 4096"
definition ROUTING_TTL_MS :: int where "ROUTING_TTL_MS = 3 * 60 * 60 * 1000"
definition MAX_ROUTING_TOKEN_BYTES :: nat where "MAX_ROUTING_TOKEN_BYTES = 64 * 1024"

record routing_entry =
  re_scope :: string
  re_session :: string
  re_thread :: string
  re_turn :: string
  re_branch :: string
  re_token :: string
  re_seen_ms :: int

record routing_state =
  rt_version :: "32 word"
  rt_entries :: "(string, routing_entry) btree_map"

definition routing_default :: routing_state where
  "routing_default = \<lparr>rt_version = 1, rt_entries = bm_empty\<rparr>"

definition entry_key :: "routing_entry \<Rightarrow> string" where
  "entry_key e = re_scope e @ '':'' @ re_branch e @ '':'' @ re_turn e"

definition same_turn :: "routing_entry \<Rightarrow> routing_entry \<Rightarrow> bool" where
  "same_turn e other \<longleftrightarrow> re_scope e = re_scope other \<and> re_session e = re_session other
     \<and> re_thread e = re_thread other \<and> re_turn e = re_turn other"

definition validate_token :: "(string \<Rightarrow> bool) \<Rightarrow> string \<Rightarrow> unit result" where
  "validate_token header_ok token = checks
    [ensure (length token \<le> MAX_ROUTING_TOKEN_BYTES) (Msg ''invalid routing token size''),
     ensure (header_ok token) (Msg ''invalid header value'')]"

definition validate_entry :: "(string \<Rightarrow> bool) \<Rightarrow> routing_entry \<Rightarrow> unit result" where
  "validate_entry header_ok e = checks
    [for_each validate_wire_id [re_scope e, re_session e, re_thread e, re_turn e, re_branch e],
     ensure (re_turn e \<noteq> [] \<and> re_seen_ms e \<ge> 0) (Msg ''invalid routing identity''),
     validate_token header_ok (re_token e)]"

section \<open>Reading\<close>

definition validate_routing :: "(string \<Rightarrow> bool) \<Rightarrow> routing_state \<Rightarrow> unit result" where
  "validate_routing header_ok state = checks
    [ensure (rt_version state = 1 \<and> bm_len (rt_entries state) \<le> ROUTING_MAX_ENTRIES) (Msg ''unsupported routing state''),
     for_each (\<lambda>(key, e). checks [validate_entry header_ok e, ensure (key = entry_key e) (Msg ''invalid routing state key'')])
       (bm_entries (rt_entries state))]"

definition routing_read :: "io_env \<Rightarrow> (string \<Rightarrow> bool) \<Rightarrow> routing_state codec \<Rightarrow> string \<Rightarrow> routing_state fs" where
  "routing_read env header_ok rcd path =
     abind (metadata env path ''reading routing state metadata'') (\<lambda>found. case found of
       None \<Rightarrow> aret routing_default
     | Some meta \<Rightarrow>
         athen (aensure (f_regular meta \<and> length (f_bytes meta) \<le> ROUTING_MAX_BYTES) (Msg ''invalid routing state file''))
        (athen (if f_mode meta mod 4096 \<noteq> PRIVATE_MODE
            then set_permissions env path ''setting permissions'' else aret ())
        (abind (read_json_limited env (cd_decode rcd) path ROUTING_MAX_BYTES ''routing state'') (\<lambda>state.
         athen (alift (validate_routing header_ok state)) (aret state)))))"

section \<open>Writing within the bounds\<close>

text \<open>\<open>min_by_key\<close> answers the first of several minima.\<close>

fun first_min :: "('a \<Rightarrow> int) \<Rightarrow> 'a list \<Rightarrow> 'a option" where
  "first_min f [] = None"
| "first_min f (x # xs) = (case first_min f xs of None \<Rightarrow> Some x | Some y \<Rightarrow> Some (if f x \<le> f y then x else y))"

lemma first_min_in: "first_min f xs = Some x \<Longrightarrow> x \<in> set xs"
  by (induction xs arbitrary: x) (auto split: option.splits if_splits)

lemma first_min_None: "first_min f xs = None \<longleftrightarrow> xs = []"
  by (cases xs) (auto split: option.splits)

definition oldest_unprotected :: "string option \<Rightarrow> routing_state \<Rightarrow> string option" where
  "oldest_unprotected protected state = map_option fst
     (first_min (\<lambda>(_, e). re_seen_ms e) (filter (\<lambda>(key, _). Some key \<noteq> protected) (bm_entries (rt_entries state))))"

lemma oldest_unprotected_Some:
  "oldest_unprotected protected st = Some k \<Longrightarrow> bm_contains (rt_entries st) k \<and> protected \<noteq> Some k"
  by (auto simp: oldest_unprotected_def bm_contains_iff bm_get_iff dest!: first_min_in)

definition drop_entry_key :: "string \<Rightarrow> routing_state \<Rightarrow> routing_state" where
  "drop_entry_key key state = state\<lparr>rt_entries := bm_remove key (rt_entries state)\<rparr>"

function routing_fit :: "(routing_state \<Rightarrow> string) \<Rightarrow> string option \<Rightarrow> routing_state \<Rightarrow> routing_state result" where
  "routing_fit encode protected state =
     (if length (encode state) \<le> ROUTING_MAX_BYTES \<and> bm_len (rt_entries state) \<le> ROUTING_MAX_ENTRIES then Inr state
      else case oldest_unprotected protected state of
        None \<Rightarrow> Inl (Msg ''routing state capacity unavailable'')
      | Some oldest \<Rightarrow> routing_fit encode protected (drop_entry_key oldest state))"
  by pat_completeness auto
termination
  by (relation "measure (\<lambda>(_, _, state). bm_len (rt_entries state))")
    (auto simp: drop_entry_key_def dest!: oldest_unprotected_Some intro: bm.len_remove_less)

declare routing_fit.simps [simp del]

definition routing_write ::
    "io_env \<Rightarrow> externals \<Rightarrow> routing_state codec \<Rightarrow> string \<Rightarrow> routing_state \<Rightarrow> string option \<Rightarrow> unit fs" where
  "routing_write env ext rcd path state protected =
     abind (alift (routing_fit (cd_encode rcd) protected state)) (\<lambda>state.
       write_bytes_atomically env ext path (cd_encode rcd state))"

section \<open>Updating\<close>

definition path_is_file :: "io_env \<Rightarrow> string \<Rightarrow> bool fs" where
  "path_is_file env name w =
     (Inr (\<not> io_fault env (w_io w) \<and> is_some_and (get_file name w) f_regular), w\<lparr>w_io := w_io w + 1\<rparr>)"

definition fresh_entries :: "int \<Rightarrow> routing_state \<Rightarrow> routing_state" where
  "fresh_entries now state =
     state\<lparr>rt_entries := bm_retain (\<lambda>_ e. i64_saturating_sub now (re_seen_ms e) < ROUTING_TTL_MS) (rt_entries state)\<rparr>"

text \<open>Without a retained branch, only unanimous routing of the same thread and turn can be recovered.\<close>

fun unanimous :: "routing_entry option \<Rightarrow> routing_entry list \<Rightarrow> routing_entry option result" where
  "unanimous selected [] = Inr selected"
| "unanimous selected (candidate # rest) =
     rbind (ensure (is_none_or selected (\<lambda>first. re_token first = re_token candidate)) (Msg ''ambiguous restored turn routing''))
       (\<lambda>_. unanimous (Some candidate) rest)"

definition select_entry :: "routing_state \<Rightarrow> routing_entry \<Rightarrow> bool \<Rightarrow> bool \<Rightarrow> routing_entry option result" where
  "select_entry state entry has_token restore =
     (let selected = (case bm_get (rt_entries state) (entry_key entry) of
          Some value \<Rightarrow> if same_turn value entry then Some value else None | None \<Rightarrow> None) in
      if restore \<and> \<not> has_token \<and> re_branch entry = re_thread entry
      then unanimous selected (filter (\<lambda>value. same_turn value entry) (bm_values (rt_entries state)))
      else Inr selected)"

text \<open>What \<open>update\<close> does once the table is read: the entry to return and what to put, if anything.\<close>

datatype routing_plan = Forget_Expired routing_state | Answer string "(string \<times> routing_state) option" | Nothing

definition plan_update :: "(string \<Rightarrow> bool) \<Rightarrow> routing_state \<Rightarrow> routing_entry \<Rightarrow> bool \<Rightarrow> bool \<Rightarrow> routing_plan result" where
  "plan_update header_ok loaded entry has_token restore =
     (let before_len = bm_len (rt_entries loaded);
          now = re_seen_ms entry;
          state = fresh_entries now loaded;
          key = entry_key entry;
          expired = (before_len \<noteq> bm_len (rt_entries state)) in
      rbind (select_entry state entry has_token restore) (\<lambda>selected.
      if selected = None \<and> \<not> has_token then Inr (if expired then Forget_Expired state else Nothing)
      else
        rbind (if_some selected (\<lambda>s. ensure (\<not> has_token \<or> re_token entry = re_token s) (Msg ''turn routing owner conflict''))) (\<lambda>_.
        let entry = (case selected of Some s \<Rightarrow> entry\<lparr>re_token := re_token s\<rparr> | None \<Rightarrow> entry) in
        rbind (validate_entry header_ok entry) (\<lambda>_.
        let changed = (is_none_or (bm_get (rt_entries state) key)
              (\<lambda>old. i64_saturating_sub now (re_seen_ms old) \<ge> 30000) \<or> expired) in
        Inr (Answer (re_token entry)
          (if changed then Some (key, state\<lparr>rt_entries := bm_insert key entry (rt_entries state)\<rparr>) else None))))))"

definition apply_plan :: "io_env \<Rightarrow> externals \<Rightarrow> routing_state codec \<Rightarrow> string \<Rightarrow> routing_plan \<Rightarrow> string option fs" where
  "apply_plan env ext rcd path plan = (case plan of
     Nothing \<Rightarrow> aret None
   | Forget_Expired state \<Rightarrow> athen (routing_write env ext rcd path state None) (aret None)
   | Answer token None \<Rightarrow> aret (Some token)
   | Answer token (Some (key, state)) \<Rightarrow>
       athen (routing_write env ext rcd path state (Some key)) (aret (Some token)))"

definition routing_path :: "string \<Rightarrow> string" where
  "routing_path state_ref = state_ref @ ROUTING_SUFFIX"

definition routing_update ::
    "io_env \<Rightarrow> externals \<Rightarrow> (string \<Rightarrow> bool) \<Rightarrow> routing_state codec \<Rightarrow> string \<Rightarrow> routing_entry \<Rightarrow> bool \<Rightarrow> bool
      \<Rightarrow> string option fs" where
  "routing_update env ext header_ok rcd state_ref entry has_token restore =
     athen (lock_state env state_ref)
    (abind (path_is_file env (state_path state_ref)) (\<lambda>identity.
     athen (aensure identity (Msg ''routing identity state unavailable''))
    (abind (routing_read env header_ok rcd (routing_path state_ref)) (\<lambda>state.
     abind (alift (plan_update header_ok state entry has_token restore))
      (apply_plan env ext rcd (routing_path state_ref))))))"

end
