(* ===== verification/Store_Steps.thy ===== *)
theory Store_Steps
  imports Store_Guarantees
begin

text \<open>
  The ledger store as a step relation: edits, owner registration, owner removal and the orphan sweep,
  each one action under the lock of its ledger, with any call to the operating system failing.
\<close>

section \<open>How one ledger evolves\<close>

definition ledger_evolves ::
    "externals \<Rightarrow> persisted_request_state codec \<Rightarrow> string option \<Rightarrow> string option \<Rightarrow> bool" where
  "ledger_evolves ext cd old new \<longleftrightarrow> new = old \<or> new = None \<or> next_version ext cd old new"

abbreviation evolves :: "externals \<Rightarrow> persisted_request_state codec \<Rightarrow> string \<Rightarrow> 'a fs \<Rightarrow> bool" where
  "evolves ext cd p m \<equiv> (\<forall>w. ledger_evolves ext cd (content p w) (content p (snd (m w))))"

named_theorems evolves_intros \<open>actions under which a ledger evolves\<close>

lemma ledger_evolves_refl [simp]: "ledger_evolves ext cd x x"
  by (simp add: ledger_evolves_def)

lemma evolves_steady: "steady p m \<Longrightarrow> evolves ext cd p m"
  using steadyD by fastforce

lemma evolves_abind [evolves_intros]:
  assumes "steady p m" and "\<And>a. evolves ext cd p (f a)"
  shows "evolves ext cd p (abind m f)"
proof
  fix w
  obtain r w1 where m: "m w = (r, w1)" by (cases "m w")
  have "content p w1 = content p w" using steadyD [OF assms(1), of w] m by simp
  then show "ledger_evolves ext cd (content p w) (content p (snd (abind m f w)))"
    using assms(2) m by (cases r) (simp_all add: abind_def, metis)
qed

lemma evolves_athen [evolves_intros]: "steady p m \<Longrightarrow> evolves ext cd p n \<Longrightarrow> evolves ext cd p (athen m n)"
  unfolding athen_def by (rule evolves_abind) simp_all

lemma evolves_if [evolves_intros]: "evolves ext cd p m \<Longrightarrow> evolves ext cd p n \<Longrightarrow> evolves ext cd p (if b then m else n)"
  by simp

lemma evolves_read:
  assumes "steady p (f None)"
    and "\<And>st w bytes. content p w = Some bytes \<Longrightarrow> cd_decode cd bytes = Some st \<Longrightarrow> validate_state ext st = Inr ()
      \<Longrightarrow> ledger_evolves ext cd (content p w) (content p (snd (f (Some st) w)))"
  shows "evolves ext cd p (abind (read_optional_state env ext cd p) f)"
proof
  fix w
  obtain r w1 where m: "read_optional_state env ext cd p w = (r, w1)" by (cases "read_optional_state env ext cd p w")
  have same: "content p w1 = content p w" using steadyD [OF steady_read_state, of p env ext cd p w] m by simp
  show "ledger_evolves ext cd (content p w) (content p (snd (abind (read_optional_state env ext cd p) f w)))"
  proof (cases r)
    case (Inl e)
    with m same show ?thesis by (simp add: abind_def)
  next
    case (Inr found)
    with read_optional_state_Inr(3) [of env ext cd p w found w1] m same assms(2) steadyD [OF assms(1), of w1]
    show ?thesis by (cases found) (auto simp: abind_def)
  qed
qed

lemma evolves_attempt_read:
  assumes "\<And>e. steady p (f (Inl e))" and "steady p (f (Inr None))"
    and "\<And>st w bytes. content p w = Some bytes \<Longrightarrow> cd_decode cd bytes = Some st \<Longrightarrow> validate_state ext st = Inr ()
      \<Longrightarrow> ledger_evolves ext cd (content p w) (content p (snd (f (Inr (Some st)) w)))"
  shows "evolves ext cd p (abind (attempt (read_optional_state env ext cd p)) f)"
proof
  fix w
  obtain r w1 where m: "read_optional_state env ext cd p w = (r, w1)" by (cases "read_optional_state env ext cd p w")
  have same: "content p w1 = content p w" using steadyD [OF steady_read_state, of p env ext cd p w] m by simp
  have run: "abind (attempt (read_optional_state env ext cd p)) f w = f r w1" using m by (simp add: abind_def attempt_def)
  show "ledger_evolves ext cd (content p w) (content p (snd (abind (attempt (read_optional_state env ext cd p)) f w)))"
  proof (cases r)
    case (Inl e)
    with run same steadyD [OF assms(1), of e w1] show ?thesis by simp
  next
    case (Inr found)
    with run read_optional_state_Inr(3) [of env ext cd p w found w1] m same assms(3) [of w1] steadyD [OF assms(2), of w1]
    show ?thesis by (cases found) auto
  qed
qed

section \<open>Disappearing\<close>

abbreviation fades :: "string \<Rightarrow> 'a fs \<Rightarrow> bool" where
  "fades p m \<equiv> (\<forall>x. keeps (\<lambda>w. content p w = x \<or> content p w = None) m)"

named_theorems fades_intros \<open>actions that keep a file or remove it\<close>

lemma fades_steady: "steady p m \<Longrightarrow> fades p m"
  by (simp add: keeps_def)

lemma fades_abind [fades_intros]: "fades p m \<Longrightarrow> (\<And>a. fades p (f a)) \<Longrightarrow> fades p (abind m f)"
  by (auto intro: keeps_abind)

lemma fades_athen [fades_intros]: "fades p m \<Longrightarrow> fades p n \<Longrightarrow> fades p (athen m n)"
  by (auto intro: keeps_athen)

lemma fades_cases [fades_intros]:
  "fades p m \<Longrightarrow> fades p n \<Longrightarrow> fades p (if b then m else n)"
  "fades p m \<Longrightarrow> (\<And>a. fades p (f a)) \<Longrightarrow> fades p (case x of None \<Rightarrow> m | Some a \<Rightarrow> f a)"
  by (auto split: option.splits)

lemma fades_remove [fades_intros]: "fades p (remove_path_if_exists env q c)"
proof (cases "p = q")
  case True
  then show ?thesis
    by (auto simp: keeps_def remove_path_if_exists_def remove_file_def attempt_def abind_def athen_def io_call_def
        drop_file_def content_def split: option.splits sum.splits prod.splits if_splits)
next
  case False
  then show ?thesis by (intro fades_steady leaves_steady leaves_files(7)) auto
qed

lemma fades_removals [fades_intros]: "fades p (remove_file_if_exists env q)" "fades p (routing_remove env r)"
  unfolding remove_file_if_exists_def routing_remove_def by (rule fades_remove)+

lemma evolves_fades: "fades p m \<Longrightarrow> evolves ext cd p m"
  by (auto simp: ledger_evolves_def keeps_def)

section \<open>Rewriting a ledger\<close>

lemma write_bytes_evolves:
  assumes "visible p" and "next_version ext cd old (Some bytes)" and "content p w = old"
  shows "ledger_evolves ext cd old (content p (snd (write_bytes_atomically env ext' p bytes w)))"
  using ledger_writer.old_or_new [OF assms(1), of env ext' p bytes w] assms(2,3)
  by (auto simp: ledger_evolves_def content_def private_file_def)

lemma rewrite_evolves:
  assumes "visible p" and "content p w = Some bytes" and "cd_decode cd bytes = Some prev" and "validate_state ext prev = Inr ()"
    and "ps_revision st = ps_revision prev"
  shows "ledger_evolves ext cd (Some bytes) (content p (snd (abind (alift (bump_revision st)) (\<lambda>st.
    athen (alift (validate_state ext st)) (write_state env ext cd p st)) w)))"
proof (cases "bump_revision st")
  case (Inl e)
  with assms(2) show ?thesis by (simp add: abind_def)
next
  case (Inr st')
  with assms(5) bump_revision_Inr [OF Inr] have rev: "unat (ps_revision st') = unat (ps_revision prev) + 1" by auto
  show ?thesis
  proof (cases "is_ok (validate_state ext st') \<and> length (cd_encode cd st') \<le> MAX_REQUEST_STATE_BYTES")
    case True
    with rev assms(2-4) have "next_version ext cd (Some bytes) (Some (cd_encode cd st'))"
      by (auto simp: next_version_def is_ok_unit)
    from write_bytes_evolves [OF assms(1) this assms(2), of env ext] True Inr assms(2) show ?thesis
      by (simp add: abind_def athen_def write_state_def is_ok_unit)
  next
    case False
    with Inr assms(2) show ?thesis
      by (cases "validate_state ext st'") (auto simp: abind_def athen_def write_state_def is_ok_def)
  qed
qed

section \<open>The operations\<close>

lemma steady_write: "visible p \<Longrightarrow> p \<noteq> q \<Longrightarrow> steady p (write_bytes_atomically env ext q bytes)"
  by (rule leaves_steady) (rule ledger_writer.leaves_other)

lemma steady_write_state: "visible p \<Longrightarrow> p \<noteq> q \<Longrightarrow> steady p (write_state env ext cd q st)"
  unfolding write_state_def by (intro steady_intros steady_write) auto

lemma steady_commit: "visible p \<Longrightarrow> p \<noteq> q \<Longrightarrow> steady p (commit_edit env ext cd contexts q day is_new ed)"
  unfolding commit_edit_def Let_def case_prod_unfold by (intro steady_intros steady_write) auto

lemma steady_edit_other:
  "visible p \<Longrightarrow> p \<noteq> state_path (account_state_ref ext ns)
    \<Longrightarrow> steady p (edit_under_lock env ext cd vcd contexts ns owner scope now operation)"
  unfolding edit_under_lock_def Let_def case_prod_unfold by (intro steady_intros steady_commit) auto

lemma steady_state_lock [steady_intros]: "steady (state_path r) (lock_state env r')"
  using suffixes_differ(1) by (intro steady_lock) (simp add: state_path_def)

lemma edit_under_lock_evolves:
  assumes "visible p" and "editing ext operation"
  shows "evolves ext cd p (edit_under_lock env ext cd vcd contexts ns owner scope now operation)"
proof (cases "p = state_path (account_state_ref ext ns)")
  case False
  show ?thesis by (rule evolves_steady [OF steady_edit_other [OF assms(1) False]])
next
  case True
  show ?thesis
  proof
    fix w
    obtain r w' where m: "edit_under_lock env ext cd vcd contexts ns owner scope now operation w = (r, w')"
      by (cases "edit_under_lock env ext cd vcd contexts ns owner scope now operation w")
    show "ledger_evolves ext cd (content p w)
      (content p (snd (edit_under_lock env ext cd vcd contexts ns owner scope now operation w)))"
    proof (cases r)
      case (Inl e)
      with clean_edit [of ext ns env cd vcd contexts owner scope now operation] m assms(1) True show ?thesis by simp
    next
      case (Inr out)
      with edit_under_lock_version [OF _ assms(2,1) True, of env cd vcd contexts owner scope now w out w'] m
      show ?thesis by (simp add: ledger_evolves_def) blast
    qed
  qed
qed

lemma edit_at_evolves:
  assumes "valid_state_ref r" and "editing ext operation"
  shows "evolves ext cd (state_path r) (edit_at env ext cd vcd contexts ns owner scope now operation)"
  unfolding edit_at_def edit_locked_def
  by (intro evolves_intros steady_intros edit_under_lock_evolves state_path_visible assms)

lemma register_evolves:
  assumes "valid_state_ref r"
  shows "evolves ext cd (state_path r) (register_owner_if_exists env ext cd ns owner)"
proof (cases "r = account_state_ref ext ns")
  case True
  have vis: "visible (state_path r)" by (rule state_path_visible [OF assms])
  show ?thesis
    unfolding register_owner_if_exists_def Let_def True [symmetric]
    by (intro evolves_athen steady_basic steady_state_lock evolves_read) (auto intro: rewrite_evolves [OF vis])
next
  case False
  have "steady (state_path r) (register_owner_if_exists env ext cd ns owner)"
    unfolding register_owner_if_exists_def Let_def
    by (intro steady_intros steady_write_state state_path_visible assms) (use False in simp)
  then show ?thesis by (rule evolves_steady)
qed

lemma account_ref_starts: "validate_account_ref owner = Inr () \<Longrightarrow> \<exists>s. owner = ''acct_'' @ s"
  by (auto simp: validate_account_ref_def Let_def strip_prefix_Some split: option.splits)

lemma record_not_ledger: "validate_account_ref owner = Inr () \<Longrightarrow> valid_state_ref r \<Longrightarrow> state_path r \<noteq> owner @ s"
  by (auto simp: state_path_def dest!: account_ref_starts elim!: valid_state_refE)

lemma remove_owner_evolves:
  assumes "valid_state_ref r"
  shows "evolves ext cd (state_path r) (remove_credential_owner env ext cd vcd r' owner)"
proof (cases "validate_account_ref owner")
  case (Inl e)
  then show ?thesis by (simp add: remove_credential_owner_def Let_def athen_def abind_def)
next
  case (Inr u)
  have vis: "visible (state_path r)" by (rule state_path_visible [OF assms])
  have rec: "steady (state_path r) (remove_path_if_exists env (owner @ ''.json'') ''removing credential record'')"
    using record_not_ledger [OF _ assms] Inr by (intro leaves_steady leaves_files(7)) simp
  show ?thesis
    unfolding remove_credential_owner_def Let_def
  proof (intro evolves_athen evolves_abind steady_basic steady_state_lock rec steady_attempt steady_owners(1))
    fix res
    show "evolves ext cd (state_path r) (case res of
        Inl _ \<Rightarrow> aret ()
      | Inr owners \<Rightarrow>
          if bm_len owners = 0 then athen (remove_file_if_exists env (state_path r')) (routing_remove env r')
          else abind (attempt (read_optional_state env ext cd (state_path r'))) (\<lambda>r. case r of
            Inl _ \<Rightarrow> aret ()
          | Inr None \<Rightarrow> aret ()
          | Inr (Some state) \<Rightarrow>
              abind (alift (bump_revision (state\<lparr>ps_owners := owners\<rparr>))) (\<lambda>state.
              athen (alift (validate_state ext state)) (write_state env ext cd (state_path r') state))))"
    proof (cases res)
      case (Inr owners)
      have keep: "evolves ext cd (state_path r) (abind (attempt (read_optional_state env ext cd (state_path r'))) (\<lambda>r. case r of
            Inl _ \<Rightarrow> aret ()
          | Inr None \<Rightarrow> aret ()
          | Inr (Some state) \<Rightarrow>
              abind (alift (bump_revision (state\<lparr>ps_owners := owners\<rparr>))) (\<lambda>state.
              athen (alift (validate_state ext state)) (write_state env ext cd (state_path r') state))))"
      proof (cases "r = r'")
        case True
        show ?thesis unfolding True [symmetric]
          by (intro evolves_attempt_read) (auto intro: rewrite_evolves [OF vis])
      next
        case False
        then show ?thesis by (intro evolves_steady steady_intros steady_write_state vis) simp
      qed
      have "evolves ext cd (state_path r) (athen (remove_file_if_exists env (state_path r')) (routing_remove env r'))"
        by (intro evolves_fades fades_intros)
      with keep Inr show ?thesis by simp
    qed simp
  qed
qed

lemma cleanup_loop_fades: "fades (state_path r) (cleanup_loop env ext vcd active names)"
  by (induction names) (simp_all only: cleanup_loop.simps,
      (intro fades_intros fades_steady [OF steady_basic(1)] fades_steady [OF steady_basic(6)]
        fades_steady [OF steady_state_lock] fades_steady [OF steady_owners(1)] | assumption)+)

lemma cleanup_evolves: "evolves ext cd (state_path r) (cleanup_orphan_request_states env ext vcd)"
  unfolding cleanup_orphan_request_states_def cleanup_unowned_request_states_def
  by (intro evolves_fades fades_abind cleanup_loop_fades fades_steady [OF steady_owners(2)] fades_steady [OF steady_basic(10)])

end
