(* ===== verification/Fingerprint_Store.thy ===== *)
theory Fingerprint_Store
  imports Vault_Files Ledger_Editor Ledger_Demo
begin

text \<open>
  The fingerprint sidecar of a credential (\<open>fingerprint.rs\<close>): a small versioned file that records the
  identity mode, with a revision that counts the changes of mode.
\<close>

definition FINGERPRINT_VERSION :: "32 word" where "FINGERPRINT_VERSION = 1"
definition INITIAL_REVISION :: u64 where "INITIAL_REVISION = 1"
definition MAX_FINGERPRINT_BYTES :: nat where "MAX_FINGERPRINT_BYTES = 64 * 1024"
definition FINGERPRINT_SUFFIX :: string where "FINGERPRINT_SUFFIX = ''.fingerprint.json''"

text \<open>\<open>PersistedFingerprint\<close> has the same three fields; \<open>persisted\<close> is the identity here.\<close>

record fingerprint_snapshot =
  fp_version :: "32 word"
  fp_revision :: u64
  fp_mode :: fingerprint_mode

record fingerprint_metadata =
  fm_account_ref :: string
  fm_mode :: fingerprint_mode
  fm_revision :: u64

definition fingerprint_new :: "fingerprint_mode \<Rightarrow> fingerprint_snapshot" where
  "fingerprint_new mode = \<lparr>fp_version = FINGERPRINT_VERSION, fp_revision = INITIAL_REVISION, fp_mode = mode\<rparr>"

definition fp_metadata :: "fingerprint_snapshot \<Rightarrow> string \<Rightarrow> fingerprint_metadata" where
  "fp_metadata fp account_ref = \<lparr>fm_account_ref = account_ref, fm_mode = fp_mode fp, fm_revision = fp_revision fp\<rparr>"

definition sidecar_path :: "string \<Rightarrow> string" where
  "sidecar_path account_ref = account_ref @ FINGERPRINT_SUFFIX"

definition account_ref_from_sidecar_name :: "string \<Rightarrow> string option" where
  "account_ref_from_sidecar_name name = strip_suffix FINGERPRINT_SUFFIX name"

definition fp_write_atomically :: "io_env \<Rightarrow> externals \<Rightarrow> string \<Rightarrow> string \<Rightarrow> unit fs" where
  "fp_write_atomically env ext name bytes =
     abind (draw_temp env ext ''.fingerprint-'') (\<lambda>temp.
       on_error
        (athen (create_new env temp ''opening credential fingerprint temp file'')
        (athen (write_all env temp bytes ''writing credential fingerprint temp file'')
        (athen (io_call env ''syncing credential fingerprint temp file'')
         (rename_file env temp name ''replacing credential fingerprint''))))
        (remove_temp env temp))"

definition fp_validate :: "fingerprint_snapshot \<Rightarrow> fingerprint_snapshot result" where
  "fp_validate persisted =
     rbind (ensure (fp_version persisted = FINGERPRINT_VERSION) (Msg ''unsupported credential fingerprint version'')) (\<lambda>_.
     rbind (ensure (fp_revision persisted \<ge> INITIAL_REVISION) (Msg ''invalid credential fingerprint revision'')) (\<lambda>_.
     Inr persisted))"

definition fp_read :: "io_env \<Rightarrow> fingerprint_snapshot codec \<Rightarrow> string \<Rightarrow> fingerprint_snapshot fs" where
  "fp_read env cd name =
     abind (metadata env name ''reading credential fingerprint metadata'') (\<lambda>found. case found of
       None \<Rightarrow> afail (NotFound ''reading credential fingerprint metadata'')
     | Some meta \<Rightarrow>
         athen (aensure (f_regular meta) (Msg ''credential fingerprint is not a regular file''))
        (athen (set_permissions env name ''setting credential fingerprint permissions'')
        (abind (open_existing env name ''opening credential fingerprint'') (\<lambda>f.
         athen (io_call env ''reading credential fingerprint'')
        (athen (aensure (length (f_bytes f) \<le> MAX_FINGERPRINT_BYTES) (Msg ''credential fingerprint is too large''))
        (abind (alift (ok_or (cd_decode cd (f_bytes f)) (Msg ''decoding credential fingerprint'')))
         (\<lambda>persisted. alift (fp_validate persisted))))))))"

definition fp_create :: "io_env \<Rightarrow> externals \<Rightarrow> fingerprint_snapshot codec \<Rightarrow> string \<Rightarrow> fingerprint_mode
    \<Rightarrow> fingerprint_snapshot fs" where
  "fp_create env ext cd account_ref mode =
     abind (path_exists env (sidecar_path account_ref)) (\<lambda>present.
     athen (aensure (\<not> present) (Msg ''credential fingerprint already exists''))
    (athen (fp_write_atomically env ext (sidecar_path account_ref) (cd_encode cd (fingerprint_new mode)))
     (aret (fingerprint_new mode))))"

definition load_or_materialize :: "io_env \<Rightarrow> externals \<Rightarrow> fingerprint_snapshot codec \<Rightarrow> string
    \<Rightarrow> fingerprint_snapshot fs" where
  "load_or_materialize env ext cd account_ref =
     abind (attempt (fp_read env cd (sidecar_path account_ref))) (\<lambda>r. case r of
       Inr snapshot \<Rightarrow> aret snapshot
     | Inl e \<Rightarrow> if is_not_found e
         then athen (fp_write_atomically env ext (sidecar_path account_ref) (cd_encode cd (fingerprint_new Device)))
           (aret (fingerprint_new Device))
         else afail e)"

definition update_mode :: "io_env \<Rightarrow> externals \<Rightarrow> fingerprint_snapshot codec \<Rightarrow> string
    \<Rightarrow> fingerprint_snapshot \<Rightarrow> fingerprint_mode \<Rightarrow> fingerprint_snapshot fs" where
  "update_mode env ext cd account_ref snapshot mode =
     (if fp_mode snapshot = mode then aret snapshot
      else abind (alift (ok_or (u64_checked_succ (fp_revision snapshot)) (Msg ''credential fingerprint revision exhausted'')))
       (\<lambda>revision.
        let updated = \<lparr>fp_version = fp_version snapshot, fp_revision = revision, fp_mode = mode\<rparr> in
        athen (fp_write_atomically env ext (sidecar_path account_ref) (cd_encode cd updated)) (aret updated)))"

definition fp_remove_if_exists :: "io_env \<Rightarrow> string \<Rightarrow> bool fs" where
  "fp_remove_if_exists env account_ref =
     abind (attempt (remove_file env (sidecar_path account_ref) ''removing credential fingerprint'')) (\<lambda>r. case r of
       Inr _ \<Rightarrow> aret True
     | Inl e \<Rightarrow> if is_not_found e then aret False else afail e)"

section \<open>Reading back what was written\<close>

interpretation fingerprint_writer: atomic_writer "fp_write_atomically env ext" for env ext
  by (rule atomic_writer_via [where env = env and ext = ext and prefix = "''.fingerprint-''"
        and prep = "\<lambda>temp. create_new env temp ''opening credential fingerprint temp file''"
        and ?c1.0 = "''writing credential fingerprint temp file''" and ?c2.0 = "''syncing credential fingerprint temp file''"
        and ?c3.0 = "''replacing credential fingerprint''"])
    (simp_all add: fp_write_atomically_def replace_via_def leaves_files create_new_private)

lemma fp_read_private:
  assumes "fault_free env" and "codec_ok cd" and "get_file name w = Some (private_file (cd_encode cd fp))"
    and "length (cd_encode cd fp) \<le> MAX_FINGERPRINT_BYTES" and "fp_validate fp = Inr fp"
  shows "fst (fp_read env cd name w) = Inr fp"
  using assms by (simp add: fp_read_def metadata_def set_permissions_def open_existing_def athen_def abind_def
      fault_free_calls private_file_def codec_ok_def) (simp add: get_file_def abind_def fault_free_calls)

text \<open>
  C16.  A change of mode is durable.  When \<open>update_mode\<close> succeeds on a valid snapshot and changes the
  mode, the revision has gone up by exactly one without wrapping, and a later fault-free load of the
  sidecar answers exactly the returned snapshot.  When it fails, whatever call failed, the sidecar is
  the old file.
\<close>

theorem fingerprint_update_durable:
  assumes "codec_ok cd" and "\<forall>fp. length (cd_encode cd fp) \<le> MAX_FINGERPRINT_BYTES"
    and "fp_validate fp = Inr fp" and "visible (sidecar_path account)" and "fp_mode fp \<noteq> mode"
    and "update_mode env ext cd account fp mode w = (r, w')" and "fault_free env'"
  shows "case r of
      Inr fp' \<Rightarrow> fp_mode fp' = mode \<and> unat (fp_revision fp') = unat (fp_revision fp) + 1
        \<and> fst (load_or_materialize env' ext' cd account w') = Inr fp'
    | Inl _ \<Rightarrow> get_file (sidecar_path account) w' = get_file (sidecar_path account) w"
proof (cases "u64_checked_succ (fp_revision fp)")
  case None
  with assms(5,6) have "r = Inl (Msg ''credential fingerprint revision exhausted'') \<and> w' = w"
    by (auto simp: update_mode_def abind_def)
  then show ?thesis by simp
next
  case (Some rev)
  let ?fp = "\<lparr>fp_version = fp_version fp, fp_revision = rev, fp_mode = mode\<rparr>"
  let ?wrote = "fp_write_atomically env ext (sidecar_path account) (cd_encode cd ?fp)"
  from Some assms(5,6) have run: "athen ?wrote (aret ?fp) w = (r, w')" by (simp add: update_mode_def abind_def Let_def)
  show ?thesis
  proof (cases "fst (?wrote w)")
    case (Inl e)
    with run fingerprint_writer.failed [OF assms(4) Inl] show ?thesis
      by (auto simp: athen_def abind_def split: prod.splits)
  next
    case (Inr u)
    with run have r: "r = Inr ?fp" and w': "w' = snd (?wrote w)" by (auto simp: athen_def abind_def split: prod.splits)
    have "get_file (sidecar_path account) w' = Some (private_file (cd_encode cd ?fp))"
      unfolding w' using Inr fingerprint_writer.ok [OF assms(4)] by simp
    moreover have "fp_validate ?fp = Inr ?fp"
      using assms(3) u64_checked_succ_greater(1) [OF Some] by (auto simp: fp_validate_def rbind_Inr_iff)
    ultimately have "fst (fp_read env' cd (sidecar_path account) w') = Inr ?fp"
      using fp_read_private [OF assms(7,1)] assms(2) by simp
    then have "fst (load_or_materialize env' ext' cd account w') = Inr ?fp"
      by (cases "fp_read env' cd (sidecar_path account) w'") (simp add: load_or_materialize_def attempt_def abind_def)
    with r u64_checked_succ_greater(2) [OF Some] show ?thesis by simp
  qed
qed

section \<open>A demonstration\<close>

text \<open>A codec that writes the bits of a snapshot, a fault-free environment and an empty directory.\<close>

definition demo_bits :: "'a::len word \<Rightarrow> string" where
  "demo_bits w = map (\<lambda>i. if bit w i then CHR ''1'' else CHR ''0'') [0..<LENGTH('a)]"

definition demo_word :: "string \<Rightarrow> 'a::len word" where
  "demo_word s = horner_sum of_bool 2 (map (\<lambda>c. c = CHR ''1'') s)"

lemma demo_word_bits [simp]: "demo_word (demo_bits w) = w"
proof -
  have "map (\<lambda>c. c = CHR ''1'') (demo_bits w) = map (bit w) [0..<LENGTH('a)]" by (simp add: demo_bits_def)
  then show ?thesis by (simp add: demo_word_def horner_sum_bit_eq_take_bit)
qed

lemma length_demo_bits [simp]: "length (demo_bits (w :: 'a::len word)) = LENGTH('a)"
  by (simp add: demo_bits_def)

definition demo_fp_codec :: "fingerprint_snapshot codec" where
  "demo_fp_codec = \<lparr>
     cd_encode = (\<lambda>fp. (if fp_mode fp = Off then CHR ''o'' else CHR ''d'') # demo_bits (fp_version fp) @ demo_bits (fp_revision fp)),
     cd_decode = (\<lambda>s. case s of [] \<Rightarrow> None | c # bits \<Rightarrow> Some \<lparr>fp_version = demo_word (take 32 bits),
       fp_revision = demo_word (drop 32 bits), fp_mode = (if c = CHR ''o'' then Off else Device)\<rparr>)\<rparr>"

lemma demo_fp_codec: "codec_ok demo_fp_codec" "\<forall>fp. length (cd_encode demo_fp_codec fp) \<le> MAX_FINGERPRINT_BYTES"
proof -
  have "cd_decode demo_fp_codec (cd_encode demo_fp_codec fp) = Some fp" for fp
    by (cases fp; cases "fp_mode fp") (simp_all add: demo_fp_codec_def)
  then show "codec_ok demo_fp_codec" by (simp add: codec_ok_def)
qed (simp add: demo_fp_codec_def MAX_FINGERPRINT_BYTES_def)

definition demo_env :: io_env where
  "demo_env = \<lparr>io_fault = (\<lambda>_. False), io_written = (\<lambda>_. 0), uuid_simple = (\<lambda>s. s)\<rparr>"

definition demo_world :: world where
  "demo_world = \<lparr>w_files = bm_empty, w_io = 0, w_draws = 0\<rparr>"

lemma demo_env_fault_free: "fault_free demo_env"
  by (simp add: fault_free_def demo_env_def)

theorem fingerprint_update_durable_witness:
  "\<exists>fp w'. update_mode demo_env demo_ext demo_fp_codec ''acct_a'' (fingerprint_new Device) Off demo_world = (Inr fp, w')
     \<and> fst (load_or_materialize demo_env demo_ext demo_fp_codec ''acct_a'' w') = Inr fp"
proof -
  let ?run = "update_mode demo_env demo_ext demo_fp_codec ''acct_a'' (fingerprint_new Device) Off demo_world"
  have ok: "is_ok (fst ?run)" by code_simp
  have pre: "fp_validate (fingerprint_new Device) = Inr (fingerprint_new Device)" "visible (sidecar_path ''acct_a'')"
    "fp_mode (fingerprint_new Device) \<noteq> Off"
    by (simp_all add: fp_validate_def fingerprint_new_def ensure_def visible_def sidecar_path_def)
  from ok obtain fp w' where "?run = (Inr fp, w')" by (cases ?run; cases "fst ?run") auto
  with fingerprint_update_durable [OF demo_fp_codec pre this demo_env_fault_free] show ?thesis by auto
qed

end
