(* ===== verification/Store_Correct.thy ===== *)
theory Store_Correct
  imports Store_Steps Fingerprint_Store
begin

text \<open>The properties of the durable ledger store.\<close>

section \<open>The store as a state machine\<close>

text \<open>
  The answer of an edit is dropped here.  Every operation holds the lock of the ledger it changes, so
  the operations on one ledger are the steps of an interleaving; \<open>r\<close> may be an error.
\<close>

inductive store_step ::
    "io_env \<Rightarrow> externals \<Rightarrow> persisted_request_state codec \<Rightarrow> vault_record codec \<Rightarrow> world \<Rightarrow> world \<Rightarrow> bool"
  for env ext cd vcd where
  edit: "edit_at env ext cd vcd contexts ns owner scope now (operation :: unit edit) w = (r, w') \<Longrightarrow> editing ext operation
    \<Longrightarrow> store_step env ext cd vcd w w'"
| register: "register_owner_if_exists env ext cd ns owner w = (r, w') \<Longrightarrow> store_step env ext cd vcd w w'"
| remove: "remove_credential_owner env ext cd vcd state_ref owner w = (r, w') \<Longrightarrow> store_step env ext cd vcd w w'"
| cleanup: "cleanup_orphan_request_states env ext vcd w = (r, w') \<Longrightarrow> store_step env ext cd vcd w w'"

abbreviation store_steps where
  "store_steps env ext cd vcd \<equiv> (store_step env ext cd vcd)\<^sup>*\<^sup>*"

text \<open>A ledger that fits is read back as it was written.\<close>

definition ledger_codec_ok :: "externals \<Rightarrow> persisted_request_state codec \<Rightarrow> bool" where
  "ledger_codec_ok ext cd \<longleftrightarrow> (\<forall>st. validate_state ext st = Inr ()
     \<longrightarrow> length (cd_encode cd st) \<le> MAX_REQUEST_STATE_BYTES \<longrightarrow> cd_decode cd (cd_encode cd st) = Some st)"

definition ledger_at :: "persisted_request_state codec \<Rightarrow> string \<Rightarrow> world \<Rightarrow> persisted_request_state option" where
  "ledger_at cd state_ref w = Option.bind (content (state_path state_ref) w) (cd_decode cd)"

definition store_ok :: "externals \<Rightarrow> persisted_request_state codec \<Rightarrow> world \<Rightarrow> bool" where
  "store_ok ext cd w \<longleftrightarrow> (\<forall>r bytes. valid_state_ref r \<longrightarrow> content (state_path r) w = Some bytes \<longrightarrow> stored_ok ext cd bytes)"

text \<open>The abstract register a ledger implements.\<close>

inductive versioned :: "externals \<Rightarrow> persisted_request_state option \<Rightarrow> persisted_request_state option \<Rightarrow> bool"
  for ext where
  stay: "versioned ext x x"
| forget: "versioned ext x None"
| create: "validate_state ext st = Inr () \<Longrightarrow> ps_revision st = INITIAL_REQUEST_STATE_REVISION
    \<Longrightarrow> versioned ext None (Some st)"
| advance: "validate_state ext prev = Inr () \<Longrightarrow> validate_state ext st = Inr ()
    \<Longrightarrow> unat (ps_revision st) = Suc (unat (ps_revision prev)) \<Longrightarrow> versioned ext (Some prev) (Some st)"

lemma store_step_evolves:
  assumes "store_step env ext cd vcd w w'" and "valid_state_ref r"
  shows "ledger_evolves ext cd (content (state_path r) w) (content (state_path r) w')"
  using assms(1)
proof cases
  case (edit contexts ns owner scope now operation res)
  with edit_at_evolves [OF assms(2)] show ?thesis by (metis snd_conv)
next
  case (register ns owner res)
  with register_evolves [OF assms(2)] show ?thesis by (metis snd_conv)
next
  case (remove state_ref owner res)
  with remove_owner_evolves [OF assms(2)] show ?thesis by (metis snd_conv)
next
  case (cleanup res)
  with cleanup_evolves show ?thesis by (metis snd_conv)
qed

lemma evolves_versioned:
  assumes "ledger_evolves ext cd (content (state_path r) w) (content (state_path r) w')" and "ledger_codec_ok ext cd"
  shows "versioned ext (ledger_at cd r w) (ledger_at cd r w')"
proof -
  consider "content (state_path r) w' = content (state_path r) w" | "content (state_path r) w' = None"
    | "next_version ext cd (content (state_path r) w) (content (state_path r) w')"
    using assms(1) by (auto simp: ledger_evolves_def)
  then show ?thesis
  proof cases
    case 3
    with assms(2) show ?thesis
      by (cases "content (state_path r) w")
        (auto simp: next_version_def ledger_codec_ok_def ledger_at_def intro: create advance)
  qed (simp_all add: ledger_at_def stay forget)
qed

lemma evolves_stored:
  assumes "ledger_evolves ext cd old (Some bytes)" and "ledger_codec_ok ext cd" and "\<And>b. old = Some b \<Longrightarrow> stored_ok ext cd b"
  shows "stored_ok ext cd bytes"
  using assms by (auto simp: ledger_evolves_def next_version_def stored_ok_def ledger_codec_ok_def)

lemma store_step_ok:
  "store_step env ext cd vcd w w' \<Longrightarrow> ledger_codec_ok ext cd \<Longrightarrow> store_ok ext cd w \<Longrightarrow> store_ok ext cd w'"
  unfolding store_ok_def using store_step_evolves evolves_stored by metis

section \<open>Durable identities\<close>

lemma scope_identity_revision [simp]: "scope_identity (st\<lparr>ps_revision := n\<rparr>) sk kind key = scope_identity st sk kind key"
  by (simp add: scope_identity_def)

lemma wires_ok_revision [simp]: "wires_ok (st\<lparr>ps_revision := n\<rparr>) = wires_ok st"
  by (simp add: wires_ok_def)

lemma commit_keeps_identity:
  assumes "commit_edit env ext cd contexts p day is_new ed w = (Inr (), w')" and "visible p" and "ledger_codec_ok ext cd"
    and "wires_ok (ed_state ed)" and "scope_identity (ed_state ed) (ed_scope_key ed) kind key = Some x" and "editor_ok ed"
    and "directly_protected kind (ed_scope_key ed, key) (ed_protected ed)" and "kind \<in> graph_kinds"
    and "\<not> is_new \<Longrightarrow> \<not> ed_changed ed \<Longrightarrow> Option.bind (content p w) (cd_decode cd) = Some (ed_state ed)"
  shows "\<exists>st. Option.bind (content p w') (cd_decode cd) = Some st \<and> scope_identity st (ed_scope_key ed) kind key = Some x"
  using assms(1,2)
proof (cases rule: commit_edit_Inr)
  case kept
  with assms(5,9) show ?thesis by simp
next
  case (written protected pruned st1 st2 st3)
  have more: "protects_more (ed_protected ed) protected" by (rule protect_aliases_more [OF written(1)])
  have prot: "ed_scope_key ed \<in> pk_scopes protected" "directly_protected kind (ed_scope_key ed, key) protected"
    using more assms(6,7) by (auto simp: protects_more_def editor_ok_def)
  have steps1: "prune_steps protected (ed_state ed) st1" using prune_steps_prune [of protected "ed_state ed" day] written(2) by simp
  have wires1: "wires_ok st1" by (rule prune_steps_wires [OF steps1 assms(4)])
  have id1: "scope_identity st1 (ed_scope_key ed) kind key = Some x"
    using prune_steps_survive [OF steps1 assms(4) prot assms(8)] assms(5) by simp
  obtain n where st2: "st2 = st1\<lparr>ps_revision := n\<rparr>"
    using written(3) bump_revision_Inr [of st1 st2] that [of "ps_revision st1"] by (cases is_new) auto
  have steps2: "prune_steps protected st2 st3" and fits: "length (cd_encode cd st3) \<le> MAX_REQUEST_STATE_BYTES"
    using evict_to_fit_Inr [OF written(4)] by simp_all
  have "scope_identity st3 (ed_scope_key ed) kind key = Some x"
    using prune_steps_survive [OF steps2 _ prot assms(8)] wires1 id1 st2 by simp
  with written(5,6) fits assms(3) show ?thesis by (simp add: ledger_codec_ok_def)
qed

lemma edit_at_locked:
  assumes "edit_at env ext cd vcd contexts ns owner scope now operation w = (Inr out, w')"
  obtains w1 where "valid_state_ref (account_state_ref ext ns)"
    "content (state_path r) w1 = content (state_path r) w"
    "edit_under_lock env ext cd vcd contexts ns owner scope now operation w1 = (Inr out, w')"
proof -
  from assms obtain w1 where lock: "lock_state env (account_state_ref ext ns) w = (Inr (), w1)"
    and run: "edit_under_lock env ext cd vcd contexts ns owner scope now operation w1 = (Inr out, w')"
    by (auto simp: edit_at_def edit_locked_def athen_Inr_iff)
  have "content (state_path r) w1 = content (state_path r) w"
    using steadyD [OF steady_state_lock, of r env "account_state_ref ext ns" w] lock by simp
  with lock_state_valid [OF lock] that run show thesis by blast
qed

lemma edit_at_clean:
  "fails_clean (state_path (account_state_ref ext ns)) (edit_at env ext cd vcd contexts ns owner scope now operation)"
proof (cases "valid_state_ref (account_state_ref ext ns)")
  case True
  then show ?thesis
    unfolding edit_at_def edit_locked_def by (intro clean_intros steady_intros clean_edit state_path_visible)
next
  case False
  then have "edit_locked env ext cd vcd contexts ns owner scope now operation
      = afail (Msg ''invalid request state reference'')"
    by (intro ext) (simp add: edit_locked_def lock_state_def athen_def abind_def aensure_def ensure_def)
  then show ?thesis
    unfolding edit_at_def by (simp only:) (intro clean_intros steady_intros clean_steady [OF steady_basic(2)])
qed

text \<open>An operation that answers \<open>out\<close> only after it handed out identity \<open>x\<close> for the key.\<close>

definition answers :: "externals \<Rightarrow> 'r edit \<Rightarrow> 'r \<Rightarrow> entry_kind \<Rightarrow> string \<Rightarrow> string \<Rightarrow> bool" where
  "answers ext operation out kind key x \<longleftrightarrow> (\<forall>ed0 ed. operation ed0 = (Inr out, ed) \<longrightarrow>
     (\<exists>ed1 ed2. edit_steps ext ed0 ed1 \<and> hands_out ext ed1 kind key x ed2 \<and> edit_steps ext ed2 ed))"

lemma answers_held:
  assumes "answers ext operation out kind key x" and "operation ed0 = (Inr out, ed)" and "editor_ok ed0"
  shows "edit_steps ext ed0 ed" and "kind \<in> graph_kinds"
    and "scope_identity (ed_state ed) (ed_scope_key ed) kind key = Some x"
    and "directly_protected kind (ed_scope_key ed, key) (ed_protected ed)"
proof -
  from assms(1,2) obtain ed1 ed2 where run: "edit_steps ext ed0 ed1" "hands_out ext ed1 kind key x ed2" "edit_steps ext ed2 ed"
    unfolding answers_def by blast
  have step: "edit_steps ext ed1 ed2" by (rule hands_out_step [OF run(2)])
  show "edit_steps ext ed0 ed" using run step by simp
  show "kind \<in> graph_kinds" using run(2) by (cases rule: hands_out.cases) (simp_all add: graph_kinds_def)
  have ok: "editor_ok ed1" "editor_ok ed2"
    using edit_steps_extends [OF run(1)] edit_steps_extends [OF step] assms(3) by (simp_all add: extends_def)
  have held: "holds_identity kind key x ed2" by (rule hands_out_holds [OF run(2) ok(1)])
  show "scope_identity (ed_state ed) (ed_scope_key ed) kind key = Some x"
    using edit_identity [OF run(3) ok(2)] held ok(2) by (simp add: holds_identity_def scope_identity_ed)
  show "directly_protected kind (ed_scope_key ed, key) (ed_protected ed)"
    using edit_steps_extends [OF run(3)] ok(2) held by (simp add: extends_def holds_identity_def protects_more_def)
qed

text \<open>The alias table a downstream key would find in the stored ledger carries that key's own lookup keys.\<close>

definition stored_coherent ::
    "externals \<Rightarrow> persisted_request_state codec \<Rightarrow> string \<Rightarrow> string \<Rightarrow> world \<Rightarrow> bool" where
  "stored_coherent ext cd ns scope w \<longleftrightarrow> (\<forall>st s. ledger_at cd (account_state_ref ext ns) w = Some st
     \<longrightarrow> bm_get (ps_scopes st) (factory_scope_key ext (factory_new ext ns scope)) = Some s
     \<longrightarrow> wire_coherent ext (factory_new ext ns scope) s)"

lemma seen_day_wires [simp]:
  "wire_index_ok (s\<lparr>sc_last_seen_day := d\<rparr>) = wire_index_ok s"
  "wire_coherent ext keys (s\<lparr>sc_last_seen_day := d\<rparr>) = wire_coherent ext keys s"
  by (simp_all add: wire_index_ok_def wire_coherent_def)

lemma new_scope_wires [simp]: "wire_index_ok (scope_new day)" "wire_coherent ext keys (scope_new day)"
  by (simp_all add: wire_index_ok_def wire_coherent_def scope_new_def)

lemma opened_table:
  assumes "validate_state ext st = Inr ()" and "editor_new ext st keys owner day now n = Inr ed0"
    and "\<And>s. bm_get (ps_scopes st) (factory_scope_key ext keys) = Some s \<Longrightarrow> wire_coherent ext keys s"
  shows "table_ok ext ed0"
  using editor_new_Inr(1,2,6) [OF assms(2)] valid_wires [OF assms(1)] assms(3)
  by (auto simp: table_ok_def ed_scope_def wires_ok_def split: option.splits)

lemma edit_at_identity:
  assumes run: "edit_at env ext cd vcd contexts ns owner scope now operation w = (Inr out, w')"
    and codec: "ledger_codec_ok ext cd" and ans: "answers ext operation out kind key x"
    and coherent: "stored_coherent ext cd ns scope w"
  shows "\<exists>st. ledger_at cd (account_state_ref ext ns) w' = Some st
    \<and> scope_identity st (factory_scope_key ext (factory_new ext ns scope)) kind key = Some x"
proof -
  let ?keys = "factory_new ext ns scope" and ?p = "state_path (account_state_ref ext ns)"
  from run obtain w1 where valid: "valid_state_ref (account_state_ref ext ns)" and same1: "content ?p w1 = content ?p w"
    and under: "edit_under_lock env ext cd vcd contexts ns owner scope now operation w1 = (Inr out, w')"
    by (rule edit_at_locked)
  from under obtain st ed0 ed n w3 where start: "edit_start ext cd (content ?p w1) st"
      and new: "editor_new ext st ?keys owner (i64_div now 86400000) now n = Inr ed0"
      and op: "operation ed0 = (Inr out, ed)" and same3: "content ?p w3 = content ?p w1"
      and commit: "commit_edit env ext cd contexts ?p (i64_div now 86400000) (content ?p w1 = None) ed w3 = (Inr (), w')"
    by (rule edit_under_lock_Inr)
  have steps: "edit_steps ext ed0 ed" and held: "kind \<in> graph_kinds"
      "scope_identity (ed_state ed) (ed_scope_key ed) kind key = Some x"
      "directly_protected kind (ed_scope_key ed, key) (ed_protected ed)"
    using answers_held [OF ans op editor_new_ok [OF new]] by simp_all
  have coh: "bm_get (ps_scopes st) (factory_scope_key ext ?keys) = Some s \<Longrightarrow> wire_coherent ext ?keys s" for s
    using start coherent same1 by (auto simp: edit_start_def stored_coherent_def ledger_at_def split: option.splits)
  have wires: "wires_ok (ed_state ed)"
    using edited_wires [OF new steps _ opened_table [OF _ new coh]] start by (simp add: edit_start_def)
  have key: "ed_scope_key ed = factory_scope_key ext ?keys" and ok: "editor_ok ed"
    using edit_steps_extends [OF steps] editor_new_ok [OF new] editor_new_Inr(1) [OF new] by (simp_all add: extends_def)
  have keep: "Option.bind (content ?p w3) (cd_decode cd) = Some (ed_state ed)"
    if "content ?p w1 \<noteq> None" "\<not> ed_changed ed"
  proof -
    have "ed_state ed = st"
      using edit_steps_honest [OF steps editor_new_ok [OF new]] editor_new_unchanged [OF new] that(2)
      by (auto simp: honest_def)
    with that(1) start same3 show ?thesis by (auto simp: edit_start_def split: option.splits)
  qed
  from commit_keeps_identity [OF commit state_path_visible [OF valid] codec wires held(2) ok held(3,1) keep] key
  show ?thesis by (simp add: ledger_at_def)
qed

section \<open>A demonstration edit\<close>

text \<open>
  A directory with no files, an edit that asks for one conversation, and a codec that knows the
  ledger it leaves; every other ledger is too large to be stored.
\<close>

definition demo_vcd :: "vault_record codec" where
  "demo_vcd = \<lparr>cd_encode = (\<lambda>_. []), cd_decode = (\<lambda>_. None)\<rparr>"

definition demo_contexts :: context_inner where
  "demo_contexts = \<lparr>ci_scopes = bm_empty, ci_operations = [], ci_reservations = []\<rparr>"

definition demo_op :: "conversation_assignment edit" where
  "demo_op = conversation_with_id demo_edit_ext (demo_key CHR ''c'') None"

definition demo_ledger :: persisted_request_state where
  "demo_ledger = (let start = state_new (new_v4 demo_edit_ext 0) (bm_insert ''acct_demo'' () bm_empty);
       ed0 = projr (editor_new demo_edit_ext start (factory_new demo_edit_ext ''n'' ''s'') ''acct_demo'' 95 8208000000 1);
       ed = snd (demo_op ed0) in
     snd (prune 95 (projr (protect_aliases (Some demo_contexts) (ed_state ed) (ed_protected ed))) (ed_state ed)))"

definition demo_ledger_codec :: "persisted_request_state codec" where
  "demo_ledger_codec = \<lparr>
     cd_encode = (\<lambda>st. if st = demo_ledger then ''L'' else replicate (Suc MAX_REQUEST_STATE_BYTES) CHR ''x''),
     cd_decode = (\<lambda>s. if s = ''L'' then Some demo_ledger else None)\<rparr>"

definition demo_edit where
  "demo_edit = edit_at demo_env demo_edit_ext demo_ledger_codec demo_vcd (Some demo_contexts) ''n'' ''acct_demo'' ''s'' 8208000000 demo_op"

lemma demo_codec_ok: "ledger_codec_ok demo_edit_ext demo_ledger_codec"
  by (auto simp: ledger_codec_ok_def demo_ledger_codec_def)

lemma demo_edit_runs: "demo_edit demo_world = (Inr \<lparr>ca_id = ''7n'', ca_window_number = 0\<rparr>, snd (demo_edit demo_world))"
proof -
  have "fst (demo_edit demo_world) = Inr \<lparr>ca_id = ''7n'', ca_window_number = 0\<rparr>" by code_simp
  then show ?thesis by (metis prod.collapse)
qed

lemma demo_op_editing: "editing demo_edit_ext demo_op"
  by (auto simp: editing_def demo_op_def intro: edit_step.intros r_into_rtranclp)

lemma demo_op_answers:
  "answers demo_edit_ext demo_op \<lparr>ca_id = ''7n'', ca_window_number = 0\<rparr> KConversation (demo_key CHR ''c'') ''7n''"
  unfolding answers_def demo_op_def
proof (intro allI impI)
  fix ed0 ed
  assume "conversation_with_id demo_edit_ext (demo_key CHR ''c'') None ed0 = (Inr \<lparr>ca_id = ''7n'', ca_window_number = 0\<rparr>, ed)"
  from hands_out.intros(2) [OF this] show "\<exists>ed1 ed2. edit_steps demo_edit_ext ed0 ed1
      \<and> hands_out demo_edit_ext ed1 KConversation (demo_key CHR ''c'') ''7n'' ed2 \<and> edit_steps demo_edit_ext ed2 ed"
    by auto
qed

lemma demo_ref_valid: "valid_state_ref (account_state_ref demo_edit_ext ''n'')"
  by code_simp

section \<open>Properties\<close>

text \<open>
  C17.  An edit is atomic.  Whatever call to the operating system fails, an edit that returns an error
  leaves the bytes of its ledger, and one that succeeds leaves them or replaces them by the encoding
  of a validated ledger that fits the size limit and has the next revision, the first one for a new
  ledger.  Every other visible file but the lock stays as it is.
\<close>

theorem edit_is_atomic:
  assumes "editing ext operation"
    and "edit_at env ext cd vcd contexts ns owner scope now operation w = (result, w')"
    and "p = state_path (account_state_ref ext ns)" and "visible q" and "q \<noteq> p" and "q \<noteq> account_state_ref ext ns @ LOCK_SUFFIX"
  shows "(case result of
       Inl e \<Rightarrow> content p w' = content p w
     | Inr out \<Rightarrow> content p w' = content p w \<or> next_version ext cd (content p w) (content p w'))
    \<and> content q w' = content q w"
proof
  have "steady q (edit_at env ext cd vcd contexts ns owner scope now operation)"
    unfolding edit_at_def edit_locked_def using assms(3-6)
    by (intro steady_intros steady_edit_other) auto
  with assms(2) show "content q w' = content q w" using steadyD by (metis snd_conv)
  show "case result of
       Inl e \<Rightarrow> content p w' = content p w
     | Inr out \<Rightarrow> content p w' = content p w \<or> next_version ext cd (content p w) (content p w')"
  proof (cases result)
    case (Inl e)
    with edit_at_clean [of env ext cd vcd contexts ns owner scope now operation] assms(2,3) show ?thesis by simp
  next
    case (Inr out)
    from assms(2) [unfolded Inr] obtain w1 where "valid_state_ref (account_state_ref ext ns)" "content p w1 = content p w"
      "edit_under_lock env ext cd vcd contexts ns owner scope now operation w1 = (Inr out, w')"
      unfolding assms(3) by (rule edit_at_locked)
    with edit_under_lock_version [OF _ assms(1) _ assms(3)] state_path_visible assms(3) Inr show ?thesis by fastforce
  qed
qed

theorem edit_is_atomic_witness:
  "next_version demo_edit_ext demo_ledger_codec None
     (content (state_path (account_state_ref demo_edit_ext ''n'')) (snd (demo_edit demo_world)))
   \<and> content ''acct_demo.json'' (snd (demo_edit demo_world)) = None"
proof -
  have "content (state_path (account_state_ref demo_edit_ext ''n'')) (snd (demo_edit demo_world)) = Some ''L''"
    by code_simp
  moreover have "content p demo_world = None" for p by (simp add: demo_world_def content_def get_file_def)
  moreover have "visible ''acct_demo.json''" "''acct_demo.json'' \<noteq> state_path (account_state_ref demo_edit_ext ''n'')"
    "''acct_demo.json'' \<noteq> account_state_ref demo_edit_ext ''n'' @ LOCK_SUFFIX"
    by (simp_all add: visible_def state_path_def account_state_ref_def)
  ultimately show ?thesis
    using edit_is_atomic [OF demo_op_editing demo_edit_runs [unfolded demo_edit_def] refl] unfolding demo_edit_def by fastforce
qed

text \<open>
  C18.  The store implements a versioned register.  Under any step of the store, failures included,
  every ledger either stays, is forgotten, is created at the first revision, or advances by exactly
  one revision from a valid ledger to a valid one.
\<close>

theorem store_refines_register:
  assumes "store_step env ext cd vcd w w'" and "ledger_codec_ok ext cd" and "valid_state_ref r"
  shows "versioned ext (ledger_at cd r w) (ledger_at cd r w')"
  using evolves_versioned [OF store_step_evolves [OF assms(1,3)] assms(2)] .

definition demo_edit_unit :: "unit fs" where
  "demo_edit_unit = edit_at demo_env demo_edit_ext demo_ledger_codec demo_vcd (Some demo_contexts) ''n'' ''acct_demo'' ''s''
     8208000000 (athen demo_op (aret ()))"

lemma demo_unit_step: "store_step demo_env demo_edit_ext demo_ledger_codec demo_vcd demo_world (snd (demo_edit_unit demo_world))"
proof -
  have "editing demo_edit_ext (athen demo_op (aret ()))"
    using demo_op_editing by (auto simp: editing_def athen_Inr_iff)
  then show ?thesis
    using store_step.edit [where r = "fst (demo_edit_unit demo_world)" and w' = "snd (demo_edit_unit demo_world)"]
    unfolding demo_edit_unit_def by (metis prod.collapse)
qed

lemma demo_world_ok: "store_ok ext cd demo_world"
  by (simp add: store_ok_def content_def get_file_def demo_world_def)

theorem store_refines_register_witness:
  "versioned demo_edit_ext None
     (ledger_at demo_ledger_codec (account_state_ref demo_edit_ext ''n'') (snd (demo_edit_unit demo_world)))"
  using store_refines_register [OF demo_unit_step demo_codec_ok demo_ref_valid]
  by (simp add: ledger_at_def content_def get_file_def demo_world_def)

text \<open>
  C19.  The store stays readable.  From a directory in which every ledger file decodes to a validated
  ledger within the size limit, any sequence of edits, owner registrations, owner removals and
  sweeps, with failures at any point, leads only to such directories.
\<close>

theorem store_stays_valid:
  assumes "store_steps env ext cd vcd w w'" and "ledger_codec_ok ext cd" and "store_ok ext cd w"
  shows "store_ok ext cd w'"
  using assms(1,3) by (induction rule: rtranclp_induct) (blast intro: store_step_ok [OF _ assms(2)])+

theorem store_stays_valid_witness: "store_ok demo_edit_ext demo_ledger_codec (snd (demo_edit_unit demo_world))"
  using store_stays_valid [OF r_into_rtranclp [where r = "store_step demo_env demo_edit_ext demo_ledger_codec demo_vcd",
        OF demo_unit_step] demo_codec_ok demo_world_ok] .

text \<open>
  C20.  Answers are durable.  When an edit returns an answer in which it handed out an identity for a
  lookup key, the ledger on disk holds that identity under that key, whether the edit wrote or found
  nothing to write, and whatever pruning and size eviction removed.
\<close>

theorem edit_answers_durable:
  assumes "edit_at env ext cd vcd contexts ns owner scope now operation w = (Inr out, w')"
    and "ledger_codec_ok ext cd" and "answers ext operation out kind key x" and "stored_coherent ext cd ns scope w"
  shows "\<exists>st. ledger_at cd (account_state_ref ext ns) w' = Some st
    \<and> scope_identity st (factory_scope_key ext (factory_new ext ns scope)) kind key = Some x"
  using assms by (rule edit_at_identity)

theorem edit_answers_durable_witness:
  "\<exists>st. ledger_at demo_ledger_codec (account_state_ref demo_edit_ext ''n'') (snd (demo_edit demo_world)) = Some st
    \<and> scope_identity st (factory_scope_key demo_edit_ext (factory_new demo_edit_ext ''n'' ''s'')) KConversation
        (demo_key CHR ''c'') = Some ''7n''"
proof -
  have "stored_coherent demo_edit_ext demo_ledger_codec ''n'' ''s'' demo_world"
    by (simp add: stored_coherent_def ledger_at_def content_def get_file_def demo_world_def)
  with edit_answers_durable [OF demo_edit_runs [unfolded demo_edit_def] demo_codec_ok demo_op_answers] show ?thesis
    unfolding demo_edit_def .
qed

text \<open>
  C21.  Size eviction is bounded and complete.  The loop always ends; its result fits and is the
  ledger less evicted entries; it gives up only on a ledger that is still too large although nothing
  unprotected is left in it.
\<close>

theorem evict_to_fit_complete:
  "case evict_to_fit encode protected st of
     Inr st' \<Rightarrow> prune_steps protected st st' \<and> length (encode st') \<le> MAX_REQUEST_STATE_BYTES
   | Inl e \<Rightarrow> \<exists>st'. prune_steps protected st st' \<and> \<not> length (encode st') \<le> MAX_REQUEST_STATE_BYTES
       \<and> (\<forall>sk scope kind key. bm_get (ps_scopes st') sk = Some scope \<longrightarrow> sk \<in> pk_scopes protected
          \<and> (key \<in> set (entry_keys scope kind) \<longrightarrow> \<not> removable scope kind sk key protected))"
proof (cases "evict_to_fit encode protected st")
  case (Inr st')
  with evict_to_fit_Inr [OF this] show ?thesis by simp
next
  case (Inl e)
  with evict_to_fit_Inl [OF this] evict_one_stuck show ?thesis by (simp add: Inl) blast
qed

theorem evict_to_fit_complete_witness:
  "evict_to_fit (\<lambda>_. ''x'') protected_default demo_start = Inr demo_start
   \<and> prune_steps protected_default demo_start demo_start"
proof -
  have "evict_to_fit (\<lambda>_. ''x'') protected_default demo_start = Inr demo_start"
    by (simp add: evict_to_fit.simps MAX_REQUEST_STATE_BYTES_def)
  with evict_to_fit_complete [where encode = "\<lambda>_. ''x''" and protected = protected_default and st = demo_start] show ?thesis by simp
qed

end
