(* ===== verification/Routing_Correct.thy ===== *)
theory Routing_Correct
  imports Routing_Store Store_Correct
begin

text \<open>The properties of persisted turn routing: bounded, readable, write-once, never guessed.\<close>

section \<open>Stored tables\<close>

definition routing_file_ok :: "(string \<Rightarrow> bool) \<Rightarrow> routing_state codec \<Rightarrow> string option \<Rightarrow> bool" where
  "routing_file_ok header_ok rcd bytes \<longleftrightarrow> (case bytes of None \<Rightarrow> True | Some b \<Rightarrow> length b \<le> ROUTING_MAX_BYTES
     \<and> (\<exists>st. cd_decode rcd b = Some st \<and> validate_routing header_ok st = Inr ()))"

definition routing_codec_ok :: "routing_state codec \<Rightarrow> bool" where
  "routing_codec_ok rcd \<longleftrightarrow> (\<forall>st. length (cd_encode rcd st) \<le> ROUTING_MAX_BYTES \<longrightarrow> cd_decode rcd (cd_encode rcd st) = Some st)"

definition routing_at :: "routing_state codec \<Rightarrow> string \<Rightarrow> world \<Rightarrow> routing_state option" where
  "routing_at rcd state_ref w = Option.bind (content (routing_path state_ref) w) (cd_decode rcd)"

lemma routing_path_visible: "valid_state_ref r \<Longrightarrow> visible (routing_path r)"
  by (erule valid_state_refE) (simp add: visible_def routing_path_def)

lemma steady_routing_lock [steady_intros]: "steady (routing_path r) (lock_state env r')"
  using suffixes_differ(3) by (intro steady_lock) (metis routing_path_def)

lemma steady_is_file [steady_intros]: "steady p (path_is_file env q)"
  by (rule steadyI) (simp add: path_is_file_def content_def)

lemma steady_routing_read [steady_intros]: "steady p (routing_read env header_ok rcd q)"
  unfolding routing_read_def by (intro steady_intros)

lemma routing_read_Inr:
  assumes "routing_read env header_ok rcd p w = (Inr st, w')"
  shows "content p w' = content p w"
    and "(content p w = None \<and> st = routing_default)
      \<or> (\<exists>b. content p w = Some b \<and> cd_decode rcd b = Some st \<and> validate_routing header_ok st = Inr ())"
proof -
  show "content p w' = content p w" using steadyD [OF steady_routing_read, of p env header_ok rcd p w] assms by simp
  from assms obtain found w0 where meta: "metadata env p ''reading routing state metadata'' w = (Inr found, w0)"
    by (auto simp: routing_read_def abind_Inr_iff)
  have same0: "content p w0 = content p w" and found: "found = get_file p w"
    using meta by (auto simp: metadata_def io_call_def athen_Inr_iff content_def split: if_splits)
  show "(content p w = None \<and> st = routing_default)
      \<or> (\<exists>b. content p w = Some b \<and> cd_decode rcd b = Some st \<and> validate_routing header_ok st = Inr ())"
  proof (cases found)
    case None
    with assms meta found show ?thesis by (auto simp: routing_read_def abind_Inr_iff content_def)
  next
    case (Some m)
    with assms meta obtain w1 w2 where perm: "(if f_mode m mod 4096 \<noteq> PRIVATE_MODE
          then set_permissions env p ''setting permissions'' else aret ()) w0 = (Inr (), w1)"
        and rd: "read_json_limited env (cd_decode rcd) p ROUTING_MAX_BYTES ''routing state'' w1 = (Inr st, w2)"
        and ok: "validate_routing header_ok st = Inr ()"
      by (auto simp: routing_read_def abind_Inr_iff athen_Inr_iff)
    have "content p w1 = content p w0"
      using perm steadyD [OF steady_permissions, of p env p "''setting permissions''" w0] by (auto split: if_splits)
    moreover from rd have "\<exists>b. content p w1 = Some b \<and> cd_decode rcd b = Some st"
      by (auto simp: read_json_limited_def open_existing_def io_call_def abind_Inr_iff athen_Inr_iff content_def ok_or_def
          split: option.splits if_splits)
    ultimately show ?thesis using ok same0 by auto
  qed
qed

section \<open>Fitting\<close>

lemma routing_fit_Inr:
  "routing_fit encode protected st = Inr st' \<Longrightarrow> length (encode st') \<le> ROUTING_MAX_BYTES
     \<and> bm_len (rt_entries st') \<le> ROUTING_MAX_ENTRIES \<and> rt_version st' = rt_version st
     \<and> (\<forall>k. bm_get (rt_entries st') k = bm_get (rt_entries st) k
          \<or> (bm_get (rt_entries st') k = None \<and> protected \<noteq> Some k))"
proof (induction encode protected st arbitrary: st' rule: routing_fit.induct)
  case (1 encode protected state)
  show ?case
  proof (cases "length (encode state) \<le> ROUTING_MAX_BYTES \<and> bm_len (rt_entries state) \<le> ROUTING_MAX_ENTRIES")
    case True
    with 1(2) show ?thesis by (simp add: routing_fit.simps)
  next
    case False
    with 1(2) obtain k where k: "oldest_unprotected protected state = Some k"
      and rec: "routing_fit encode protected (drop_entry_key k state) = Inr st'"
      by (auto simp: routing_fit.simps [of encode protected state] split: option.splits)
    from 1(1) [OF False k rec] oldest_unprotected_Some [OF k] show ?thesis
      by (simp add: drop_entry_key_def) metis
  qed
qed

lemma validate_routing_iff:
  "validate_routing header_ok st = Inr () \<longleftrightarrow> rt_version st = 1 \<and> bm_len (rt_entries st) \<le> ROUTING_MAX_ENTRIES
     \<and> (\<forall>k e. bm_get (rt_entries st) k = Some e \<longrightarrow> validate_entry header_ok e = Inr () \<and> k = entry_key e)"
  by (auto simp: validate_routing_def is_ok_unit [symmetric] bm_get_iff simp del: checks.simps)

definition table_ok_but_size :: "(string \<Rightarrow> bool) \<Rightarrow> routing_state \<Rightarrow> bool" where
  "table_ok_but_size header_ok st \<longleftrightarrow> rt_version st = 1
     \<and> (\<forall>k e. bm_get (rt_entries st) k = Some e \<longrightarrow> validate_entry header_ok e = Inr () \<and> k = entry_key e)"

lemma routing_fit_valid:
  assumes "routing_fit encode protected st = Inr st'" and "table_ok_but_size header_ok st"
  shows "validate_routing header_ok st' = Inr ()"
  using routing_fit_Inr [OF assms(1)] assms(2) unfolding validate_routing_iff table_ok_but_size_def
  by (metis option.distinct(1))

section \<open>Plans\<close>

lemma unanimous_Inr:
  assumes "unanimous selected xs = Inr r"
  shows "x \<in> set xs \<Longrightarrow> \<exists>f. r = Some f \<and> re_token f = re_token x"
    and "selected = Some s \<Longrightarrow> \<exists>f. r = Some f \<and> re_token f = re_token s"
proof -
  have both: "(\<forall>x \<in> set xs. \<exists>f. r = Some f \<and> re_token f = re_token x)
      \<and> (\<forall>s. selected = Some s \<longrightarrow> (\<exists>f. r = Some f \<and> re_token f = re_token s))"
    using assms by (induction xs arbitrary: selected) (fastforce simp: rbind_Inr_iff)+
  show "x \<in> set xs \<Longrightarrow> \<exists>f. r = Some f \<and> re_token f = re_token x"
    and "selected = Some s \<Longrightarrow> \<exists>f. r = Some f \<and> re_token f = re_token s"
    using both by auto
qed

lemma select_entry_bound:
  assumes "select_entry st entry has_token restore = Inr r" and "bm_get (rt_entries st) (entry_key entry) = Some e"
    and "same_turn e entry"
  shows "\<exists>f. r = Some f \<and> re_token f = re_token e"
  using assms(1,3) unfolding select_entry_def Let_def assms(2)
  by (auto dest!: unanimous_Inr(2) [OF _ refl] split: if_splits)

lemma fresh_entries_get:
  "bm_get (rt_entries (fresh_entries now st)) k = Some e \<longleftrightarrow>
     bm_get (rt_entries st) k = Some e \<and> i64_saturating_sub now (re_seen_ms e) < ROUTING_TTL_MS"
  by (auto simp: fresh_entries_def split: option.splits)

lemma fresh_entries_version [simp]: "rt_version (fresh_entries now st) = rt_version st"
  by (simp add: fresh_entries_def)

lemma plan_bound:
  assumes "plan_update header_ok loaded entry has_token restore = Inr plan"
    and "bm_get (rt_entries loaded) (entry_key entry) = Some e" and "same_turn e entry"
    and "i64_saturating_sub (re_seen_ms entry) (re_seen_ms e) < ROUTING_TTL_MS"
  obtains put where "plan = Answer (re_token e) put" and "has_token \<longrightarrow> re_token entry = re_token e"
    and "\<forall>k st. put = Some (k, st) \<longrightarrow> k = entry_key entry \<and> (\<exists>e'. bm_get (rt_entries st) k = Some e' \<and> re_token e' = re_token e)"
proof -
  let ?st = "fresh_entries (re_seen_ms entry) loaded"
  from assms(1) obtain selected where sel: "select_entry ?st entry has_token restore = Inr selected"
    by (auto simp: plan_update_def Let_def rbind_Inr_iff)
  have "bm_get (rt_entries ?st) (entry_key entry) = Some e" using assms(2,4) by (simp add: fresh_entries_get)
  from select_entry_bound [OF sel this assms(3)] obtain f where f: "selected = Some f" "re_token f = re_token e" by blast
  from assms(1) sel f obtain put where "plan = Answer (re_token e) put" and "has_token \<longrightarrow> re_token entry = re_token e"
      and "put = None \<or> put = Some (entry_key entry, ?st\<lparr>rt_entries := bm_insert (entry_key entry)
        (entry\<lparr>re_token := re_token e\<rparr>) (rt_entries ?st)\<rparr>)"
    by (auto simp: plan_update_def Let_def rbind_Inr_iff if_some_def split: if_splits)
  then show thesis by (intro that [of put]) auto
qed

definition plan_puts :: "routing_plan \<Rightarrow> (routing_state \<times> string option) option" where
  "plan_puts plan = (case plan of Nothing \<Rightarrow> None | Forget_Expired st \<Rightarrow> Some (st, None)
     | Answer _ None \<Rightarrow> None | Answer _ (Some (k, st)) \<Rightarrow> Some (st, Some k))"

lemma entry_key_token [simp]: "entry_key (e\<lparr>re_token := t\<rparr>) = entry_key e"
  by (simp add: entry_key_def)

lemma plan_table:
  assumes "plan_update header_ok loaded entry has_token restore = Inr plan" and "table_ok_but_size header_ok loaded"
    and "plan_puts plan = Some (st, protected)"
  shows "table_ok_but_size header_ok st"
proof -
  let ?st = "fresh_entries (re_seen_ms entry) loaded"
  have fresh: "table_ok_but_size header_ok ?st"
    using assms(2) by (auto simp: table_ok_but_size_def fresh_entries_get)
  from assms(1,3) consider "st = ?st"
    | e where "st = ?st\<lparr>rt_entries := bm_insert (entry_key entry) e (rt_entries ?st)\<rparr>" "validate_entry header_ok e = Inr ()"
        "entry_key e = entry_key entry"
    by (auto simp: plan_update_def Let_def rbind_Inr_iff plan_puts_def split: if_splits option.splits)
  then show ?thesis
  proof cases
    case 2
    with fresh show ?thesis by (auto simp: table_ok_but_size_def)
  qed (use fresh in simp)
qed

section \<open>Runs\<close>

lemma apply_plan_puts:
  "apply_plan env ext rcd p plan w = (case plan_puts plan of
     None \<Rightarrow> (Inr (case plan of Answer t _ \<Rightarrow> Some t | _ \<Rightarrow> None), w)
   | Some (st, protected) \<Rightarrow> athen (routing_write env ext rcd p st protected)
       (aret (case plan of Answer t _ \<Rightarrow> Some t | _ \<Rightarrow> None)) w)"
  by (simp add: apply_plan_def plan_puts_def split: routing_plan.splits option.splits)

lemma routing_write_content:
  assumes "visible p"
  shows "routing_write env ext rcd p st protected w = (Inl e, w') \<Longrightarrow> content p w' = content p w"
    and "routing_write env ext rcd p st protected w = (Inr (), w') \<Longrightarrow> \<exists>st'. routing_fit (cd_encode rcd) protected st = Inr st'
      \<and> content p w' = Some (cd_encode rcd st')"
proof -
  have "fails_clean p (routing_write env ext rcd p st protected)"
    unfolding routing_write_def by (intro clean_intros steady_intros assms)
  then show "routing_write env ext rcd p st protected w = (Inl e, w') \<Longrightarrow> content p w' = content p w" by blast
  show "routing_write env ext rcd p st protected w = (Inr (), w') \<Longrightarrow> \<exists>st'. routing_fit (cd_encode rcd) protected st = Inr st'
      \<and> content p w' = Some (cd_encode rcd st')"
    using write_content [OF _ assms] by (auto simp: routing_write_def abind_Inr_iff)
qed

lemma routing_update_run:
  assumes "routing_update env ext header_ok rcd r entry has_token restore w = (result, w')"
  obtains (failed) e where "result = Inl e" "content (routing_path r) w' = content (routing_path r) w"
  | (planned) st plan w1 where "valid_state_ref r" "content (routing_path r) w1 = content (routing_path r) w"
      "(content (routing_path r) w = None \<and> st = routing_default)
        \<or> (\<exists>b. content (routing_path r) w = Some b \<and> cd_decode rcd b = Some st \<and> validate_routing header_ok st = Inr ())"
      "plan_update header_ok st entry has_token restore = Inr plan"
      "apply_plan env ext rcd (routing_path r) plan w1 = (result, w')"
proof -
  let ?p = "routing_path r"
  let ?front = "athen (lock_state env r) (abind (path_is_file env (state_path r)) (\<lambda>identity.
    athen (aensure identity (Msg ''routing identity state unavailable'')) (routing_read env header_ok rcd ?p)))"
  have split: "routing_update env ext header_ok rcd r entry has_token restore =
    abind ?front (\<lambda>st. abind (alift (plan_update header_ok st entry has_token restore)) (apply_plan env ext rcd ?p))"
    by (rule ext) (simp add: routing_update_def athen_def abind_def split: prod.splits sum.splits)
  have front: "steady ?p ?front" by (intro steady_intros)
  obtain res w1 where f: "?front w = (res, w1)" by (cases "?front w")
  have same: "content ?p w1 = content ?p w" using steadyD [OF front, of w] f by simp
  show thesis
  proof (cases res)
    case (Inl e)
    with assms f have "result = Inl e" "w' = w1" unfolding split by (simp_all add: abind_def)
    with same show ?thesis by (intro failed) simp_all
  next
    case (Inr st)
    from f [unfolded Inr] obtain w2 w3 where lock: "lock_state env r w = (Inr (), w2)"
      and is_file: "path_is_file env (state_path r) w2 = (Inr True, w3)"
      and rd: "routing_read env header_ok rcd ?p w3 = (Inr st, w1)"
      by (auto simp: abind_Inr_iff athen_Inr_iff)
    have "content ?p w3 = content ?p w"
      using steadyD [OF steady_routing_lock, of r env r w] steadyD [OF steady_is_file, of ?p env "state_path r" w2] lock is_file
      by simp
    with routing_read_Inr(2) [OF rd] have stored: "(content ?p w = None \<and> st = routing_default)
        \<or> (\<exists>b. content ?p w = Some b \<and> cd_decode rcd b = Some st \<and> validate_routing header_ok st = Inr ())" by simp
    show ?thesis
    proof (cases "plan_update header_ok st entry has_token restore")
      case (Inl e)
      with assms f Inr have "result = Inl e" "w' = w1" unfolding split by (simp_all add: abind_def)
      with same show ?thesis by (intro failed) simp_all
    next
      case plan: (Inr plan)
      with assms f Inr have "apply_plan env ext rcd ?p plan w1 = (result, w')" unfolding split by (simp add: abind_def)
      with planned [OF lock_state_valid [OF lock] same stored plan] show ?thesis by simp
    qed
  qed
qed

text \<open>What a successful plan leaves: the old table, or one that fits and keeps the protected entry.\<close>

lemma apply_plan_content:
  assumes "apply_plan env ext rcd p plan w = (result, w')" and "visible p"
  obtains (same) "content p w' = content p w" "result = Inr (case plan of Answer t _ \<Rightarrow> Some t | _ \<Rightarrow> None) \<or> (\<exists>e. result = Inl e)"
      "plan_puts plan = None \<or> (\<exists>e. result = Inl e)"
  | (put) st protected st' where "plan_puts plan = Some (st, protected)" "routing_fit (cd_encode rcd) protected st = Inr st'"
      "content p w' = Some (cd_encode rcd st')" "result = Inr (case plan of Answer t _ \<Rightarrow> Some t | _ \<Rightarrow> None)"
proof (cases "plan_puts plan")
  case None
  with assms(1) same show ?thesis by (simp add: apply_plan_puts)
next
  case (Some x)
  obtain st protected where x: "x = (st, protected)" by (cases x)
  obtain r w1 where write': "routing_write env ext rcd p st protected w = (r, w1)" by (cases "routing_write env ext rcd p st protected w")
  show ?thesis
  proof (cases r)
    case (Inl e)
    with assms(1) Some x write' have "result = Inl e" "w' = w1" by (simp_all add: apply_plan_puts athen_def abind_def)
    with routing_write_content(1) [OF assms(2)] write' Inl show ?thesis by (intro same) auto
  next
    case (Inr u)
    with assms(1) Some x write' have "w' = w1" "result = Inr (case plan of Answer t _ \<Rightarrow> Some t | _ \<Rightarrow> None)"
      by (simp_all add: apply_plan_puts athen_def abind_def)
    moreover obtain st' where "routing_fit (cd_encode rcd) protected st = Inr st'" "content p w1 = Some (cd_encode rcd st')"
      using routing_write_content(2) [OF assms(2), of env ext rcd st protected w w1] write' Inr by auto
    ultimately show ?thesis using Some x by (intro put) simp_all
  qed
qed

section \<open>A demonstration table\<close>

definition demo_entry :: "int \<Rightarrow> routing_entry" where
  "demo_entry seen = \<lparr>re_scope = ''s'', re_session = ''c'', re_thread = ''c'', re_turn = ''t'', re_branch = ''c'',
     re_token = ''token'', re_seen_ms = seen\<rparr>"

definition demo_table :: "int \<Rightarrow> routing_state" where
  "demo_table seen = routing_default\<lparr>rt_entries := bm_insert (entry_key (demo_entry seen)) (demo_entry seen) bm_empty\<rparr>"

text \<open>A codec that knows the table before and after the entry is refreshed forty seconds later.\<close>

definition demo_routing_codec :: "routing_state codec" where
  "demo_routing_codec = \<lparr>
     cd_encode = (\<lambda>st. if st = demo_table 0 then ''A'' else if st = demo_table 40000 then ''B''
       else replicate (Suc ROUTING_MAX_BYTES) CHR ''x''),
     cd_decode = (\<lambda>s. if s = ''A'' then Some (demo_table 0) else if s = ''B'' then Some (demo_table 40000) else None)\<rparr>"

definition demo_ref :: string where
  "demo_ref = account_state_ref demo_edit_ext ''n''"

definition demo_routing_world :: world where
  "demo_routing_world = demo_world\<lparr>w_files := bm_insert (routing_path demo_ref) (private_file ''A'')
     (bm_insert (state_path demo_ref) (private_file ''L'') bm_empty)\<rparr>"

definition demo_refresh :: "bool \<Rightarrow> string option fs" where
  "demo_refresh has_token = routing_update demo_env demo_edit_ext (\<lambda>_. True) demo_routing_codec demo_ref (demo_entry 40000) has_token True"

lemma demo_routing_codec_ok: "routing_codec_ok demo_routing_codec"
  by (auto simp: routing_codec_ok_def demo_routing_codec_def)

lemma demo_routing_at: "routing_at demo_routing_codec demo_ref demo_routing_world = Some (demo_table 0)"
    "bm_get (rt_entries (demo_table 0)) (entry_key (demo_entry 40000)) = Some (demo_entry 0)"
    "same_turn (demo_entry 0) (demo_entry 40000)"
    "i64_saturating_sub (re_seen_ms (demo_entry 40000)) (re_seen_ms (demo_entry 0)) < ROUTING_TTL_MS"
  by code_simp+

lemma demo_refresh_ok: "fst (demo_refresh True demo_routing_world) = Inr (Some ''token'')"
    "content (routing_path demo_ref) (snd (demo_refresh True demo_routing_world)) = Some ''B''"
  by code_simp+

section \<open>Properties\<close>

text \<open>
  C22.  A routing token is write-once.  While the entry a turn has on its branch is unexpired, an
  update answers with its token and leaves an entry with that token, whatever is evicted; an update
  that brings a different token fails, and a failed update leaves the file.
\<close>

theorem routing_token_write_once:
  assumes "routing_update env ext header_ok rcd r entry has_token restore w = (result, w')" and "routing_codec_ok rcd"
    and "routing_at rcd r w = Some st" and "bm_get (rt_entries st) (entry_key entry) = Some e" and "same_turn e entry"
    and "i64_saturating_sub (re_seen_ms entry) (re_seen_ms e) < ROUTING_TTL_MS"
  shows "(case result of Inl _ \<Rightarrow> content (routing_path r) w' = content (routing_path r) w
      | Inr answer \<Rightarrow> answer = Some (re_token e) \<and> (has_token \<longrightarrow> re_token entry = re_token e))
    \<and> (\<exists>st' e'. routing_at rcd r w' = Some st' \<and> bm_get (rt_entries st') (entry_key entry) = Some e'
        \<and> re_token e' = re_token e)"
  using assms(1)
proof (cases rule: routing_update_run)
  case (failed err)
  with assms(3,4) show ?thesis by (simp add: routing_at_def)
next
  case (planned st0 plan w1)
  have st0: "st0 = st" using planned(3) assms(3) by (auto simp: routing_at_def)
  obtain put where plan: "plan = Answer (re_token e) put" "has_token \<longrightarrow> re_token entry = re_token e"
    "\<forall>k st. put = Some (k, st) \<longrightarrow> k = entry_key entry \<and> (\<exists>e'. bm_get (rt_entries st) k = Some e' \<and> re_token e' = re_token e)"
    by (rule plan_bound [OF planned(4) [unfolded st0] assms(4-6)])
  from planned(5) routing_path_visible [OF planned(1)] show ?thesis
  proof (cases rule: apply_plan_content)
    case same
    with plan(1,2) planned(2) assms(3,4) show ?thesis by (auto simp: routing_at_def)
  next
    case (put st1 protected st2)
    then obtain k where k: "put = Some (k, st1)" "protected = Some k"
      using plan(1) by (auto simp: plan_puts_def split: option.splits)
    from plan(3) k(1) obtain e' where e': "bm_get (rt_entries st1) (entry_key entry) = Some e'" "re_token e' = re_token e"
      and "k = entry_key entry" by blast
    then have "bm_get (rt_entries st2) (entry_key entry) = Some e'" "length (cd_encode rcd st2) \<le> ROUTING_MAX_BYTES"
      using routing_fit_Inr [OF put(2)] k(2) by (metis, metis)
    with put(3,4) plan(1,2) e'(2) assms(2) show ?thesis by (simp add: routing_at_def routing_codec_ok_def)
  qed
qed

theorem routing_token_write_once_witness:
  "\<exists>st' e'. routing_at demo_routing_codec demo_ref (snd (demo_refresh True demo_routing_world)) = Some st'
     \<and> bm_get (rt_entries st') (entry_key (demo_entry 40000)) = Some e' \<and> re_token e' = ''token''"
proof -
  have "demo_refresh True demo_routing_world = (fst (demo_refresh True demo_routing_world), snd (demo_refresh True demo_routing_world))"
    by simp
  from routing_token_write_once [OF this [unfolded demo_refresh_def] demo_routing_codec_ok demo_routing_at]
  show ?thesis unfolding demo_refresh_def by (simp add: demo_entry_def)
qed

text \<open>
  C23.  The routing file stays bounded and readable.  From a readable file, any update, whatever call
  fails, leaves a file within eight mebibytes that decodes to at most 4096 entries, each valid and
  stored under its own key.
\<close>

theorem routing_stays_valid:
  assumes "routing_update env ext header_ok rcd r entry has_token restore w = (result, w')" and "routing_codec_ok rcd"
    and "routing_file_ok header_ok rcd (content (routing_path r) w)"
  shows "routing_file_ok header_ok rcd (content (routing_path r) w')"
  using assms(1)
proof (cases rule: routing_update_run)
  case (failed err)
  with assms(3) show ?thesis by simp
next
  case (planned st plan w1)
  have loaded: "table_ok_but_size header_ok st"
    using planned(3) by (auto simp: validate_routing_iff table_ok_but_size_def routing_default_def)
  from planned(5) routing_path_visible [OF planned(1)] show ?thesis
  proof (cases rule: apply_plan_content)
    case same
    with planned(2) assms(3) show ?thesis by simp
  next
    case (put st1 protected st2)
    have "validate_routing header_ok st2 = Inr ()"
      by (rule routing_fit_valid [OF put(2) plan_table [OF planned(4) loaded put(1)]])
    with put(3) routing_fit_Inr [OF put(2)] assms(2) show ?thesis by (simp add: routing_file_ok_def routing_codec_ok_def)
  qed
qed

theorem routing_stays_valid_witness:
  "routing_file_ok (\<lambda>_. True) demo_routing_codec (content (routing_path demo_ref) (snd (demo_refresh True demo_routing_world)))"
proof -
  have "validate_routing (\<lambda>_. True) (demo_table 0) = Inr ()" by code_simp
  moreover have "content (routing_path demo_ref) demo_routing_world = Some ''A''" by code_simp
  ultimately have "routing_file_ok (\<lambda>_. True) demo_routing_codec (content (routing_path demo_ref) demo_routing_world)"
    by (simp add: routing_file_ok_def demo_routing_codec_def ROUTING_MAX_BYTES_def)
  from routing_stays_valid [OF prod.collapse [symmetric] demo_routing_codec_ok this] show ?thesis
    unfolding demo_refresh_def by simp
qed

text \<open>
  C24.  Restoring never guesses.  A restore on the main branch of a thread that holds no token yet
  answers only with the token every unexpired entry of the same thread and turn has; when two of them
  differ the update fails.
\<close>

theorem routing_restore_unanimous:
  assumes "routing_update env ext header_ok rcd r entry False True w = (Inr answer, w')" and "re_branch entry = re_thread entry"
    and "routing_at rcd r w = Some st" and "bm_get (rt_entries st) k = Some e" and "same_turn e entry"
    and "i64_saturating_sub (re_seen_ms entry) (re_seen_ms e) < ROUTING_TTL_MS"
  shows "answer = Some (re_token e)"
  using assms(1)
proof (cases rule: routing_update_run)
  case (planned st0 plan w1)
  let ?st = "fresh_entries (re_seen_ms entry) st"
  have st0: "st0 = st" using planned(3) assms(3) by (auto simp: routing_at_def)
  from planned(4) obtain selected where sel: "select_entry ?st entry False True = Inr selected"
    by (auto simp: st0 plan_update_def Let_def rbind_Inr_iff)
  have "bm_get (rt_entries ?st) k = Some e" using assms(4,6) by (simp add: fresh_entries_get)
  then have "e \<in> set (filter (\<lambda>value. same_turn value entry) (bm_values (rt_entries ?st)))"
    using assms(5) in_bm_values by fastforce
  with sel assms(2) obtain f where f: "selected = Some f" "re_token f = re_token e"
    by (auto simp: select_entry_def Let_def dest: unanimous_Inr(1))
  with planned(4) sel obtain put where "plan = Answer (re_token e) put"
    by (auto simp: st0 plan_update_def Let_def rbind_Inr_iff split: if_splits)
  with planned(5) show ?thesis
    by (auto simp: apply_plan_def athen_Inr_iff split: option.splits)
qed simp

theorem routing_restore_unanimous_witness:
  "demo_refresh False demo_routing_world = (Inr (Some ''token''), snd (demo_refresh False demo_routing_world))
   \<and> Some ''token'' = Some (re_token (demo_entry 0))"
proof -
  have "fst (demo_refresh False demo_routing_world) = Inr (Some ''token'')" by code_simp
  then have run: "demo_refresh False demo_routing_world = (Inr (Some ''token''), snd (demo_refresh False demo_routing_world))"
    by (metis prod.collapse)
  have "re_branch (demo_entry 40000) = re_thread (demo_entry 40000)" by (simp add: demo_entry_def)
  from routing_restore_unanimous [OF run [unfolded demo_refresh_def] this demo_routing_at] run show ?thesis by blast
qed

end
