(* ===== verification/Credential_Vault.thy ===== *)
theory Credential_Vault
  imports Fingerprint_Store Request_State_Store
begin

text \<open>
  Credential records and their life cycle (\<open>vault.rs\<close>, \<open>vault_lifecycle.rs\<close>).  Every operation runs
  under the lock of its account and is one action on the accounts directory.  \<open>Utc::now()\<close> is the
  parameter \<open>now\<close>; holding a lock and dropping it do not change contents.  A locked record that fails to
  persist or to change mode is not used again.
\<close>

section \<open>Data\<close>

datatype removal_kind = ServiceOnly | OAuthRevoked

record removal_receipt =
  rr_account_ref :: string
  rr_kind :: removal_kind
  rr_completed_at :: int
  rr_request_state_ref :: "string option"

record credential_metadata =
  cm_account_ref :: string
  cm_auth_kind :: string
  cm_upstream_account_id :: "string option"
  cm_status :: credential_status

definition record_metadata :: "vault_record \<Rightarrow> credential_metadata" where
  "record_metadata r =
     (let (auth_kind, upstream_account_id) = (case vr_material r of
          CodexOAuth _ _ _ account _ _ _ \<Rightarrow> (''codex_oauth'', Some account)
        | OpenAiApiKey _ \<Rightarrow> (''openai_api_key'', None)) in
      \<lparr>cm_account_ref = vr_account_ref r, cm_auth_kind = auth_kind, cm_upstream_account_id = upstream_account_id,
       cm_status = vr_status r\<rparr>)"

text \<open>The JSON codecs of the files the vault keeps.\<close>

record vault_codecs =
  vc_record :: "vault_record codec"
  vc_receipt :: "removal_receipt codec"
  vc_fingerprint :: "fingerprint_snapshot codec"
  vc_state :: "persisted_request_state codec"

section \<open>Names and locks\<close>

definition vault_validate_account_ref :: "string \<Rightarrow> unit result" where
  "vault_validate_account_ref account_ref =
     rbind (ok_or (strip_prefix ''acct_'' account_ref) (Msg ''invalid account reference'')) (\<lambda>suffix.
       ensure (\<not> (suffix = [] \<or> length suffix > 128 \<or> \<not> list_all valid_key_byte suffix)) (Msg ''invalid account reference''))"

definition record_path :: "string \<Rightarrow> string result" where
  "record_path account_ref = rbind (vault_validate_account_ref account_ref) (\<lambda>_. Inr (account_ref @ ''.json''))"

definition receipt_path :: "string \<Rightarrow> string result" where
  "receipt_path account_ref = rbind (vault_validate_account_ref account_ref) (\<lambda>_. Inr (account_ref @ ''.removal.json''))"

definition lock_account :: "io_env \<Rightarrow> string \<Rightarrow> unit fs" where
  "lock_account env account_ref =
     athen (alift (vault_validate_account_ref account_ref))
    (athen (open_private_file env (account_ref @ ''.lock''))
     (io_call env ''locking credential record''))"

definition read_record :: "io_env \<Rightarrow> vault_codecs \<Rightarrow> string \<Rightarrow> vault_record fs" where
  "read_record env vc path = read_json_limited env (cd_decode (vc_record vc)) path (1024 * 1024) ''credential record''"

definition write_record_atomically :: "io_env \<Rightarrow> externals \<Rightarrow> vault_codecs \<Rightarrow> string \<Rightarrow> vault_record \<Rightarrow> unit fs" where
  "write_record_atomically env ext vc path r = write_json_atomically env ext path (cd_encode (vc_record vc) r)"

definition read_optional_receipt :: "io_env \<Rightarrow> vault_codecs \<Rightarrow> string \<Rightarrow> removal_receipt option fs" where
  "read_optional_receipt env vc path =
     abind (attempt (read_json_limited env (cd_decode (vc_receipt vc)) path (64 * 1024) ''credential removal receipt''))
      (\<lambda>r. case r of
         Inr receipt \<Rightarrow> aret (Some receipt)
       | Inl e \<Rightarrow> if is_not_found e then aret None else afail e)"

section \<open>Creation\<close>

definition new_record :: "io_env \<Rightarrow> externals \<Rightarrow> int \<Rightarrow> credential_material \<Rightarrow> string \<Rightarrow> vault_record fs" where
  "new_record env ext now material upstream_url w =
     (Inr \<lparr>vr_account_ref = ''acct_'' @ uuid_simple env (new_v4 ext (w_draws w)), vr_status = Ready,
        vr_upstream_url = upstream_url, vr_created_at = now, vr_updated_at = now, vr_material = material\<rparr>,
      w\<lparr>w_draws := w_draws w + 1\<rparr>)"

definition ensure_absent :: "io_env \<Rightarrow> string \<Rightarrow> string \<Rightarrow> unit fs" where
  "ensure_absent env path message = abind (path_exists env path) (\<lambda>present. aensure (\<not> present) (Msg message))"

definition create_record ::
    "io_env \<Rightarrow> externals \<Rightarrow> vault_codecs \<Rightarrow> vault_record \<Rightarrow> fingerprint_mode \<Rightarrow> credential_metadata fs" where
  "create_record env ext vc r fingerprint_mode =
     abind (alift (record_path (vr_account_ref r))) (\<lambda>path.
     athen (lock_account env (vr_account_ref r))
    (athen (ensure_absent env path ''credential reference collision'')
    (athen (ensure_absent env (sidecar_path (vr_account_ref r)) ''credential fingerprint reference collision'')
    (abind (alift (receipt_path (vr_account_ref r))) (\<lambda>receipt.
     athen (ensure_absent env receipt ''credential removal reference collision'')
    (athen (fp_create env ext (vc_fingerprint vc) (vr_account_ref r) fingerprint_mode)
    (abind (attempt (write_record_atomically env ext vc path r)) (\<lambda>written. case written of
       Inl write_error \<Rightarrow> athen (fp_remove_if_exists env (vr_account_ref r)) (afail write_error)
     | Inr _ \<Rightarrow>
         abind (attempt (register_owner_if_exists env ext (vc_state vc) (request_state_namespace r) (vr_account_ref r)))
          (\<lambda>registered. case registered of
             Inl state_error \<Rightarrow>
               athen (attempt (remove_file env path ''removing credential record''))
              (athen (fp_remove_if_exists env (vr_account_ref r)) (afail state_error))
           | Inr _ \<Rightarrow> aret (record_metadata r))))))))))"

definition create_oauth ::
    "io_env \<Rightarrow> externals \<Rightarrow> vault_codecs \<Rightarrow> int \<Rightarrow> credential_material \<Rightarrow> string \<Rightarrow> fingerprint_mode
      \<Rightarrow> credential_metadata fs" where
  "create_oauth env ext vc now material upstream_url fingerprint_mode =
     abind (new_record env ext now material upstream_url) (\<lambda>r. create_record env ext vc r fingerprint_mode)"

definition create_api_key ::
    "io_env \<Rightarrow> externals \<Rightarrow> vault_codecs \<Rightarrow> int \<Rightarrow> string \<Rightarrow> string \<Rightarrow> fingerprint_mode \<Rightarrow> credential_metadata fs" where
  "create_api_key env ext vc now key upstream_url fingerprint_mode =
     abind (new_record env ext now (OpenAiApiKey key) upstream_url) (\<lambda>r. create_record env ext vc r fingerprint_mode)"

section \<open>Locked records\<close>

record locked_record =
  lr_record_path :: string
  lr_fingerprint :: fingerprint_snapshot
  lr_record :: vault_record

definition lock_record :: "io_env \<Rightarrow> externals \<Rightarrow> vault_codecs \<Rightarrow> string \<Rightarrow> locked_record fs" where
  "lock_record env ext vc account_ref =
     athen (alift (vault_validate_account_ref account_ref))
    (abind (alift (record_path account_ref)) (\<lambda>path.
     athen (lock_account env account_ref)
    (abind (attempt (read_record env vc path)) (\<lambda>found. case found of
       Inl e \<Rightarrow>
         if is_not_found e
         then abind (alift (receipt_path account_ref)) (\<lambda>rp.
              abind (read_optional_receipt env vc rp) (\<lambda>receipt. case receipt of
                None \<Rightarrow> afail e
              | Some receipt \<Rightarrow>
                  athen (aensure (rr_account_ref receipt = account_ref) (Msg ''credential removal receipt identity mismatch''))
                 (athen (fp_remove_if_exists env account_ref) (afail e))))
         else afail e
     | Inr r \<Rightarrow>
         athen (aensure (vr_account_ref r = account_ref) (Msg ''credential record identity mismatch''))
        (abind (load_or_materialize env ext (vc_fingerprint vc) account_ref) (\<lambda>fp.
         aret \<lparr>lr_record_path = path, lr_fingerprint = fp, lr_record = r\<rparr>))))))"

definition persist :: "io_env \<Rightarrow> externals \<Rightarrow> vault_codecs \<Rightarrow> int \<Rightarrow> locked_record \<Rightarrow> locked_record fs" where
  "persist env ext vc now locked =
     (let r = (lr_record locked)\<lparr>vr_updated_at := now\<rparr> in
      athen (write_record_atomically env ext vc (lr_record_path locked) r) (aret (locked\<lparr>lr_record := r\<rparr>)))"

definition locked_set_fingerprint_mode ::
    "io_env \<Rightarrow> externals \<Rightarrow> vault_codecs \<Rightarrow> fingerprint_mode \<Rightarrow> locked_record \<Rightarrow> locked_record fs" where
  "locked_set_fingerprint_mode env ext vc mode locked =
     abind (update_mode env ext (vc_fingerprint vc) (vr_account_ref (lr_record locked)) (lr_fingerprint locked) mode)
       (\<lambda>fp. aret (locked\<lparr>lr_fingerprint := fp\<rparr>))"

definition vault_fingerprint_metadata :: "io_env \<Rightarrow> externals \<Rightarrow> vault_codecs \<Rightarrow> string \<Rightarrow> fingerprint_metadata fs" where
  "vault_fingerprint_metadata env ext vc account_ref =
     abind (lock_record env ext vc account_ref) (\<lambda>locked. aret (fp_metadata (lr_fingerprint locked) account_ref))"

definition set_fingerprint_mode ::
    "io_env \<Rightarrow> externals \<Rightarrow> vault_codecs \<Rightarrow> string \<Rightarrow> fingerprint_mode \<Rightarrow> fingerprint_metadata fs" where
  "set_fingerprint_mode env ext vc account_ref mode =
     abind (lock_record env ext vc account_ref) (\<lambda>locked.
     abind (locked_set_fingerprint_mode env ext vc mode locked) (\<lambda>locked.
     aret (fp_metadata (lr_fingerprint locked) account_ref)))"

section \<open>Removal\<close>

definition read_removed_record :: "io_env \<Rightarrow> vault_codecs \<Rightarrow> string \<Rightarrow> string \<Rightarrow> vault_record option fs" where
  "read_removed_record env vc path account_ref =
     abind (attempt (read_record env vc path)) (\<lambda>found. case found of
       Inr r \<Rightarrow> athen (aensure (vr_account_ref r = account_ref) (Msg ''credential record identity mismatch'')) (aret (Some r))
     | Inl e \<Rightarrow> if is_not_found e then aret None else afail e)"

text \<open>The receipt on disk, written when there is none; an existing one must allow the requested kind.\<close>

definition open_receipt ::
    "io_env \<Rightarrow> externals \<Rightarrow> vault_codecs \<Rightarrow> int \<Rightarrow> string \<Rightarrow> string \<Rightarrow> removal_kind \<Rightarrow> string option \<Rightarrow> removal_receipt fs" where
  "open_receipt env ext vc now rp account_ref requested_kind record_state_ref =
     abind (read_optional_receipt env vc rp) (\<lambda>found. case found of
       Some existing \<Rightarrow>
         athen (aensure (rr_account_ref existing = account_ref) (Msg ''credential removal receipt identity mismatch''))
        (athen (aensure (rr_kind existing = requested_kind \<or> (rr_kind existing = OAuthRevoked \<and> requested_kind = ServiceOnly))
           (Msg ''credential was removed without an upstream OAuth revoke''))
         (aret existing))
     | None \<Rightarrow>
         let receipt = \<lparr>rr_account_ref = account_ref, rr_kind = requested_kind, rr_completed_at = now,
           rr_request_state_ref = record_state_ref\<rparr> in
         athen (write_json_atomically env ext rp (cd_encode (vc_receipt vc) receipt)) (aret receipt))"

definition bind_receipt_state ::
    "io_env \<Rightarrow> externals \<Rightarrow> vault_codecs \<Rightarrow> string \<Rightarrow> string option \<Rightarrow> removal_receipt \<Rightarrow> removal_receipt fs" where
  "bind_receipt_state env ext vc rp record_state_ref receipt = (case record_state_ref of
     None \<Rightarrow> aret receipt
   | Some state_ref \<Rightarrow> (case rr_request_state_ref receipt of
       Some existing \<Rightarrow> athen (aensure (existing = state_ref) (Msg ''credential removal receipt state identity mismatch'')) (aret receipt)
     | None \<Rightarrow>
         let receipt = receipt\<lparr>rr_request_state_ref := Some state_ref\<rparr> in
         athen (write_json_atomically env ext rp (cd_encode (vc_receipt vc) receipt)) (aret receipt)))"

definition drop_record :: "io_env \<Rightarrow> externals \<Rightarrow> vault_codecs \<Rightarrow> string \<Rightarrow> string \<Rightarrow> removal_receipt \<Rightarrow> unit fs" where
  "drop_record env ext vc path account_ref receipt = (case rr_request_state_ref receipt of
     Some state_ref \<Rightarrow>
       athen (aensure (valid_state_ref state_ref) (Msg ''invalid credential removal state reference''))
        (remove_credential_owner env ext (vc_state vc) (vc_record vc) state_ref account_ref)
   | None \<Rightarrow> remove_path_if_exists env path ''removing credential record'')"

definition complete_removal_locked ::
    "io_env \<Rightarrow> externals \<Rightarrow> vault_codecs \<Rightarrow> int \<Rightarrow> string \<Rightarrow> string \<Rightarrow> removal_kind \<Rightarrow> removal_receipt fs" where
  "complete_removal_locked env ext vc now path account_ref requested_kind =
     abind (read_removed_record env vc path account_ref) (\<lambda>r.
     abind (alift (receipt_path account_ref)) (\<lambda>rp.
     let record_state_ref = map_option (\<lambda>r. account_state_ref ext (request_state_namespace r)) r in
     abind (open_receipt env ext vc now rp account_ref requested_kind record_state_ref) (\<lambda>receipt.
     abind (bind_receipt_state env ext vc rp record_state_ref receipt) (\<lambda>receipt.
     athen (drop_record env ext vc path account_ref receipt)
    (athen (fp_remove_if_exists env account_ref)
     (aret receipt))))))"

definition vault_remove :: "io_env \<Rightarrow> externals \<Rightarrow> vault_codecs \<Rightarrow> int \<Rightarrow> string \<Rightarrow> removal_kind \<Rightarrow> removal_receipt fs" where
  "vault_remove env ext vc now account_ref requested_kind =
     athen (alift (vault_validate_account_ref account_ref))
    (athen (lock_account env account_ref)
    (abind (alift (record_path account_ref)) (\<lambda>path.
     complete_removal_locked env ext vc now path account_ref requested_kind)))"

definition locked_complete_removal ::
    "io_env \<Rightarrow> externals \<Rightarrow> vault_codecs \<Rightarrow> int \<Rightarrow> removal_kind \<Rightarrow> locked_record \<Rightarrow> removal_receipt fs" where
  "locked_complete_removal env ext vc now requested_kind locked =
     complete_removal_locked env ext vc now (lr_record_path locked) (vr_account_ref (lr_record locked)) requested_kind"

definition removal_receipt_of :: "io_env \<Rightarrow> vault_codecs \<Rightarrow> string \<Rightarrow> removal_receipt option fs" where
  "removal_receipt_of env vc account_ref =
     athen (alift (vault_validate_account_ref account_ref))
    (athen (lock_account env account_ref)
    (abind (alift (receipt_path account_ref)) (\<lambda>rp.
     abind (read_optional_receipt env vc rp) (\<lambda>found. case found of
       None \<Rightarrow> aret None
     | Some receipt \<Rightarrow>
         athen (aensure (rr_account_ref receipt = account_ref) (Msg ''credential removal receipt identity mismatch''))
        (abind (alift (record_path account_ref)) (\<lambda>path.
         abind (path_exists env path) (\<lambda>present.
         athen (if present then aret () else athen (fp_remove_if_exists env account_ref) (aret ()))
         (aret (Some receipt)))))))))"

section \<open>Opening\<close>

fun orphan_fingerprints_loop :: "io_env \<Rightarrow> vault_codecs \<Rightarrow> string list \<Rightarrow> unit fs" where
  "orphan_fingerprints_loop env vc [] = aret ()"
| "orphan_fingerprints_loop env vc (name # names) =
     athen (io_call env ''reading credential vault entry'')
    (athen (case account_ref_from_sidecar_name name of
        None \<Rightarrow> aret ()
      | Some account_ref \<Rightarrow>
          if \<not> is_ok (vault_validate_account_ref account_ref) then aret ()
          else athen (lock_account env account_ref)
           (abind (alift (record_path account_ref)) (\<lambda>path.
            abind (path_exists env path) (\<lambda>present.
            if present then aret ()
            else abind (alift (receipt_path account_ref)) (\<lambda>rp.
              abind (read_optional_receipt env vc rp) (\<lambda>receipt.
              athen (case receipt of None \<Rightarrow> aret () | Some receipt \<Rightarrow>
                 aensure (rr_account_ref receipt = account_ref) (Msg ''credential removal receipt identity mismatch''))
              (athen (fp_remove_if_exists env account_ref) (aret ()))))))))
     (orphan_fingerprints_loop env vc names))"

definition cleanup_orphan_fingerprints :: "io_env \<Rightarrow> vault_codecs \<Rightarrow> unit fs" where
  "cleanup_orphan_fingerprints env vc =
     abind (read_dir env ''scanning credential vault'') (orphan_fingerprints_loop env vc)"

text \<open>\<open>Vault::open\<close> after the directories exist.\<close>

definition vault_open :: "io_env \<Rightarrow> externals \<Rightarrow> vault_codecs \<Rightarrow> unit fs" where
  "vault_open env ext vc =
     athen (cleanup_orphan_fingerprints env vc) (cleanup_orphan_request_states env ext (vc_record vc))"

end
