(* ===== verification/Vault_Correct.thy ===== *)
theory Vault_Correct
  imports Credential_Vault Store_Steps
begin

text \<open>
  The properties of the credential life cycle: a record disappears only after its removal receipt is
  on disk, removal is idempotent, creation overwrites nothing.
\<close>

section \<open>Names\<close>

definition valid_account :: "string \<Rightarrow> bool" where
  "valid_account a \<longleftrightarrow> is_ok (vault_validate_account_ref a)"

lemma valid_accountE:
  assumes "valid_account a"
  obtains s where "a = ''acct_'' @ s"
  using assms by (auto simp: valid_account_def vault_validate_account_ref_def is_ok_unit rbind_Inr_iff strip_prefix_Some)

lemma account_visible: "valid_account a \<Longrightarrow> visible (a @ s)"
  by (erule valid_accountE) (simp add: visible_def)

lemma account_not_state:
  "valid_account a \<Longrightarrow> valid_state_ref r \<Longrightarrow> a @ s \<noteq> r @ t"
  by (auto elim!: valid_accountE valid_state_refE)

lemma paths_Inr:
  "record_path a = Inr p \<longleftrightarrow> valid_account a \<and> p = a @ ''.json''"
  "receipt_path a = Inr p \<longleftrightarrow> valid_account a \<and> p = a @ ''.removal.json''"
  by (auto simp: record_path_def receipt_path_def rbind_Inr_iff valid_account_def is_ok_unit)

abbreviation record_file :: "string \<Rightarrow> string" where "record_file a \<equiv> a @ ''.json''"
abbreviation receipt_file :: "string \<Rightarrow> string" where "receipt_file a \<equiv> a @ ''.removal.json''"

definition receipt_at :: "vault_codecs \<Rightarrow> string \<Rightarrow> world \<Rightarrow> removal_receipt option" where
  "receipt_at vc a w = Option.bind (content (receipt_file a) w) (cd_decode (vc_receipt vc))"

section \<open>Frames\<close>

lemma steady_read_record [steady_intros]: "steady q (read_record env vc p)"
  unfolding read_record_def by (intro steady_intros)

lemma steady_read_receipt [steady_intros]: "steady q (read_optional_receipt env vc p)"
  unfolding read_optional_receipt_def by (intro steady_intros)

lemma steady_removed_record [steady_intros]: "steady q (read_removed_record env vc p a)"
  unfolding read_removed_record_def by (intro steady_intros)

lemma steady_lock_account [steady_intros]: "q \<noteq> a @ ''.lock'' \<Longrightarrow> steady q (lock_account env a)"
  unfolding lock_account_def by (intro steady_intros leaves_steady [OF leaves_files(5)]) auto

lemma steady_write_json: "visible q \<Longrightarrow> q \<noteq> p \<Longrightarrow> steady q (write_json_atomically env ext p bytes)"
  by (rule leaves_steady) (rule record_writer.leaves_other)

lemma steady_remove_path: "q \<noteq> p \<Longrightarrow> steady q (remove_path_if_exists env p c)"
  by (rule leaves_steady) (intro leaves_files(7); assumption)

lemma steady_fp_remove: "q \<noteq> sidecar_path a \<Longrightarrow> steady q (fp_remove_if_exists env a)"
  unfolding fp_remove_if_exists_def by (intro steady_intros leaves_steady [OF leaves_files(4)]) auto

lemma steady_remove_owner:
  assumes "valid_account a" and "q \<noteq> record_file a" and "q = a @ s"
  shows "steady q (remove_credential_owner env ext cd vcd r a)"
proof (cases "valid_state_ref r")
  case True
  note [simp] = account_not_state [OF assms(1) True]
  show ?thesis
    unfolding remove_credential_owner_def Let_def remove_file_if_exists_def routing_remove_def
    using account_visible [OF assms(1), of s] assms(2)
    by (intro steady_intros steady_remove_path steady_write_state)
      (auto simp: assms(3) state_path_def)
next
  case False
  then show ?thesis
    by (intro steadyI) (cases "validate_account_ref a", simp_all add: remove_credential_owner_def Let_def athen_def abind_def aensure_def ensure_def)
qed

lemma write_json_content:
  assumes "write_json_atomically env ext p bytes w = (Inr (), w')" and "visible p"
  shows "content p w' = Some bytes"
  using record_writer.ok [OF assms(2), of env ext bytes w] assms(1) by (simp add: content_def private_file_def)

section \<open>The receipt comes first\<close>

definition receipt_codec_ok :: "vault_codecs \<Rightarrow> bool" where
  "receipt_codec_ok vc \<longleftrightarrow> codec_ok (vc_receipt vc)"

lemma read_optional_receipt_Inr:
  assumes "read_optional_receipt env vc (receipt_file a) w = (Inr found, w')"
  shows "found = Some receipt \<Longrightarrow> receipt_at vc a w = Some receipt"
    and "found = None \<Longrightarrow> content (receipt_file a) w = None"
  using assms
  by (auto simp: read_optional_receipt_def read_json_limited_def open_existing_def io_call_def attempt_def abind_def athen_def
      receipt_at_def content_def ok_or_def aensure_def ensure_def
      split: option.splits if_splits prod.splits sum.splits)

lemma open_receipt_Inr:
  assumes "open_receipt env ext vc now (receipt_file a) a kind ref w = (Inr receipt, w')" and "valid_account a"
    and "receipt_codec_ok vc"
  shows "receipt_at vc a w' = Some receipt" and "rr_account_ref receipt = a"
    and "receipt_at vc a w = Some old \<Longrightarrow> receipt = old \<and> (rr_kind old = kind \<or> rr_kind old = OAuthRevoked)"
proof -
  from assms(1) obtain found w1 where found: "read_optional_receipt env vc (receipt_file a) w = (Inr found, w1)"
    by (auto simp: open_receipt_def abind_Inr_iff)
  have same: "receipt_at vc a w1 = receipt_at vc a w"
    using steadyD [OF steady_read_receipt, of "receipt_file a" env vc "receipt_file a" w] found by (simp add: receipt_at_def)
  have vis: "visible (receipt_file a)" by (rule account_visible [OF assms(2)])
  show "receipt_at vc a w' = Some receipt" "rr_account_ref receipt = a"
  proof -
    show "receipt_at vc a w' = Some receipt"
    proof (cases found)
      case None
      with assms(1) found have "write_json_atomically env ext (receipt_file a) (cd_encode (vc_receipt vc) receipt) w1 = (Inr (), w')"
        by (auto simp: open_receipt_def abind_Inr_iff athen_Inr_iff Let_def)
      from write_json_content [OF this vis] assms(3) show ?thesis
        by (simp add: receipt_at_def receipt_codec_ok_def codec_ok_def)
    next
      case (Some existing)
      with assms(1) found same read_optional_receipt_Inr(1) [OF found, of existing] show ?thesis
        by (auto simp: open_receipt_def abind_Inr_iff athen_Inr_iff)
    qed
    show "rr_account_ref receipt = a"
      using assms(1) found by (cases found) (auto simp: open_receipt_def abind_Inr_iff athen_Inr_iff Let_def)
  qed
  show "receipt = old \<and> (rr_kind old = kind \<or> rr_kind old = OAuthRevoked)" if "receipt_at vc a w = Some old"
  proof (cases found)
    case None
    with read_optional_receipt_Inr(2) [OF found] that show ?thesis by (simp add: receipt_at_def)
  next
    case (Some existing)
    with read_optional_receipt_Inr(1) [OF found Some] that assms(1) found show ?thesis
      by (auto simp: open_receipt_def abind_Inr_iff athen_Inr_iff)
  qed
qed

lemma bind_receipt_Inr:
  assumes "bind_receipt_state env ext vc (receipt_file a) ref receipt w = (Inr receipt', w')" and "valid_account a"
    and "receipt_codec_ok vc" and "receipt_at vc a w = Some receipt"
  shows "receipt_at vc a w' = Some receipt'" and "rr_account_ref receipt' = rr_account_ref receipt"
    and "ref = None \<Longrightarrow> receipt' = receipt"
proof -
  consider "receipt' = receipt" "w' = w" | x where "receipt' = receipt\<lparr>rr_request_state_ref := Some x\<rparr>"
      "write_json_atomically env ext (receipt_file a) (cd_encode (vc_receipt vc) receipt') w = (Inr (), w')"
    using assms(1) by (auto simp: bind_receipt_state_def athen_Inr_iff Let_def split: option.splits)
  then show "receipt_at vc a w' = Some receipt'"
  proof cases
    case 2
    from write_json_content [OF 2(2) account_visible [OF assms(2)]] assms(3) show ?thesis
      by (simp add: receipt_at_def receipt_codec_ok_def codec_ok_def)
  qed (use assms(4) in simp)
  show "rr_account_ref receipt' = rr_account_ref receipt" "ref = None \<Longrightarrow> receipt' = receipt"
    using assms(1) by (auto simp: bind_receipt_state_def athen_Inr_iff Let_def split: option.splits)
qed

section \<open>What each part of a removal leaves alone\<close>

lemma steady_open_receipt: "visible q \<Longrightarrow> q \<noteq> rp \<Longrightarrow> steady q (open_receipt env ext vc now rp a kind ref)"
  unfolding open_receipt_def Let_def by (intro steady_intros steady_write_json) auto

lemma steady_bind_receipt: "visible q \<Longrightarrow> q \<noteq> rp \<Longrightarrow> steady q (bind_receipt_state env ext vc rp ref receipt)"
  unfolding bind_receipt_state_def Let_def by (intro steady_intros steady_write_json) auto

lemma steady_drop_record:
  "valid_account a \<Longrightarrow> q \<noteq> record_file a \<Longrightarrow> q = a @ s \<Longrightarrow> steady q (drop_record env ext vc (record_file a) a receipt)"
  unfolding drop_record_def by (intro steady_intros steady_remove_owner steady_remove_path) auto

lemma removed_gone:
  "remove_path_if_exists env p c w = (Inr (), w') \<Longrightarrow> content p w' = None"
  by (auto simp: remove_path_if_exists_def remove_file_def attempt_def io_call_def athen_def abind_def drop_file_def content_def
      split: option.splits if_splits sum.splits prod.splits)

lemma remove_owner_gone:
  assumes "remove_credential_owner env ext cd vcd r a w = (Inr (), w')" and "valid_account a"
  shows "content (record_file a) w' = None"
proof -
  let ?rest = "abind (attempt (owners_for_state_ref env ext vcd r)) (\<lambda>res. case res of
        Inl _ \<Rightarrow> aret ()
      | Inr owners \<Rightarrow>
          if bm_len owners = 0 then athen (remove_file_if_exists env (state_path r)) (routing_remove env r)
          else abind (attempt (read_optional_state env ext cd (state_path r))) (\<lambda>r'. case r' of
            Inl _ \<Rightarrow> aret ()
          | Inr None \<Rightarrow> aret ()
          | Inr (Some state) \<Rightarrow>
              abind (alift (bump_revision (state\<lparr>ps_owners := owners\<rparr>))) (\<lambda>state.
              athen (alift (validate_state ext state)) (write_state env ext cd (state_path r) state))))"
  from assms(1) obtain w1 w2 where valid: "valid_state_ref r"
      and rm: "remove_path_if_exists env (record_file a) ''removing credential record'' w1 = (Inr (), w2)"
      and rest: "?rest w2 = (Inr (), w')"
    unfolding remove_credential_owner_def Let_def athen_Inr_iff by (auto simp del: abind_Inr_iff)
  note [simp] = account_not_state [OF assms(2) valid]
  have "steady (record_file a) ?rest"
    unfolding remove_file_if_exists_def routing_remove_def using account_visible [OF assms(2), of "''.json''"]
    by (intro steady_intros steady_remove_path steady_write_state) (auto simp: state_path_def)
  from steadyD [OF this, of w2] removed_gone [OF rm] rest show ?thesis by simp
qed

lemma drop_record_gone:
  "drop_record env ext vc (record_file a) a receipt w = (Inr (), w') \<Longrightarrow> valid_account a \<Longrightarrow> content (record_file a) w' = None"
  by (auto simp: drop_record_def athen_Inr_iff dest: removed_gone remove_owner_gone split: option.splits)

lemma fp_removed_gone:
  "fp_remove_if_exists env a w = (Inr b, w') \<Longrightarrow> content (sidecar_path a) w' = None"
  by (auto simp: fp_remove_if_exists_def remove_file_def attempt_def io_call_def athen_def abind_def drop_file_def content_def
      split: option.splits if_splits sum.splits prod.splits)

section \<open>Removal in two phases\<close>

definition receipt_phase ::
    "io_env \<Rightarrow> externals \<Rightarrow> vault_codecs \<Rightarrow> int \<Rightarrow> string \<Rightarrow> string \<Rightarrow> removal_kind \<Rightarrow> removal_receipt fs" where
  "receipt_phase env ext vc now path a kind =
     abind (read_removed_record env vc path a) (\<lambda>r.
     abind (alift (receipt_path a)) (\<lambda>rp.
     let ref = map_option (\<lambda>r. account_state_ref ext (request_state_namespace r)) r in
     abind (open_receipt env ext vc now rp a kind ref) (bind_receipt_state env ext vc rp ref)))"

definition erase_phase :: "io_env \<Rightarrow> externals \<Rightarrow> vault_codecs \<Rightarrow> string \<Rightarrow> string \<Rightarrow> removal_receipt \<Rightarrow> removal_receipt fs" where
  "erase_phase env ext vc path a receipt =
     athen (drop_record env ext vc path a receipt) (athen (fp_remove_if_exists env a) (aret receipt))"

lemma removal_phases:
  "complete_removal_locked env ext vc now path a kind = abind (receipt_phase env ext vc now path a kind) (erase_phase env ext vc path a)"
  by (rule ext) (simp add: complete_removal_locked_def receipt_phase_def erase_phase_def[abs_def] Let_def abind_def athen_def
      split: prod.splits sum.splits)

lemma steady_receipt_phase:
  "valid_account a \<Longrightarrow> steady (record_file a) (receipt_phase env ext vc now path a kind)"
proof -
  assume a: "valid_account a"
  then have rp: "receipt_path a = Inr (receipt_file a)" by (simp add: paths_Inr)
  show ?thesis
    unfolding receipt_phase_def rp Let_def abind_alift using account_visible [OF a]
    by (intro steady_intros steady_open_receipt steady_bind_receipt) auto
qed

lemma receipt_phase_Inr:
  assumes "receipt_phase env ext vc now path a kind w = (Inr receipt, w')" and "valid_account a" and "receipt_codec_ok vc"
  shows "receipt_at vc a w' = Some receipt" and "rr_account_ref receipt = a"
    and "receipt_at vc a w = Some old \<Longrightarrow> rr_kind old = kind \<or> rr_kind old = OAuthRevoked"
    and "receipt_at vc a w = Some old \<Longrightarrow> content path w = None \<Longrightarrow> receipt = old"
proof -
  from assms(1,2) obtain r w1 first w2 where rd: "read_removed_record env vc path a w = (Inr r, w1)"
    and op: "open_receipt env ext vc now (receipt_file a) a kind (map_option (\<lambda>r. account_state_ref ext (request_state_namespace r)) r) w1
      = (Inr first, w2)"
    and bd: "bind_receipt_state env ext vc (receipt_file a) (map_option (\<lambda>r. account_state_ref ext (request_state_namespace r)) r) first w2
      = (Inr receipt, w')"
    by (auto simp: receipt_phase_def Let_def abind_Inr_iff paths_Inr)
  have same: "receipt_at vc a w1 = receipt_at vc a w"
    using steadyD [OF steady_removed_record, of "receipt_file a" env vc path a w] rd by (simp add: receipt_at_def)
  note opened = open_receipt_Inr [OF op assms(2,3)]
  note bound = bind_receipt_Inr [OF bd assms(2,3) opened(1)]
  show "receipt_at vc a w' = Some receipt" "rr_account_ref receipt = a" using bound(1,2) opened(2) by simp_all
  show "rr_kind old = kind \<or> rr_kind old = OAuthRevoked" if "receipt_at vc a w = Some old" using opened(3) same that by simp
  show "receipt = old" if "receipt_at vc a w = Some old" "content path w = None"
  proof -
    have "get_file path w = None" using that(2) by (simp add: content_def)
    then have "r = None"
      using rd by (auto simp: read_removed_record_def read_record_def read_json_limited_def open_existing_def io_call_def
          attempt_def abind_def athen_def split: if_splits)
    with bound(3) opened(3) same that(1) show ?thesis by simp
  qed
qed

lemma steady_erase: "valid_account a \<Longrightarrow> steady (receipt_file a) (erase_phase env ext vc (record_file a) a receipt)"
  unfolding erase_phase_def
  by (intro steady_intros steady_drop_record steady_fp_remove) (auto simp: sidecar_path_def FINGERPRINT_SUFFIX_def)

lemma erase_phase_Inr:
  assumes "erase_phase env ext vc (record_file a) a receipt w = (Inr receipt', w')" and "valid_account a"
  shows "receipt' = receipt" and "content (record_file a) w' = None" and "content (sidecar_path a) w' = None"
proof -
  from assms(1) obtain w1 b where drop: "drop_record env ext vc (record_file a) a receipt w = (Inr (), w1)"
    and fp: "fp_remove_if_exists env a w1 = (Inr b, w')" and "receipt' = receipt"
    by (auto simp: erase_phase_def athen_Inr_iff)
  show "receipt' = receipt" by fact
  have "record_file a \<noteq> sidecar_path a" by (simp add: sidecar_path_def FINGERPRINT_SUFFIX_def)
  from steadyD [OF steady_fp_remove [OF this, of env], of w1] drop_record_gone [OF drop assms(2)] fp
  show "content (record_file a) w' = None" by simp
  show "content (sidecar_path a) w' = None" by (rule fp_removed_gone [OF fp])
qed

text \<open>A removal that gets past the checks, as a run of the two phases.\<close>

lemma vault_remove_run:
  assumes "vault_remove env ext vc now a kind w = (result, w')"
  obtains (refused) e where "result = Inl e" "content (record_file a) w' = content (record_file a) w"
      "receipt_at vc a w' = receipt_at vc a w"
  | (phases) w1 where "valid_account a" "content (record_file a) w1 = content (record_file a) w"
      "receipt_at vc a w1 = receipt_at vc a w"
      "abind (receipt_phase env ext vc now (record_file a) a kind) (erase_phase env ext vc (record_file a) a) w1 = (result, w')"
proof (cases "valid_account a")
  case False
  then obtain e where "vault_validate_account_ref a = Inl e" by (auto simp: valid_account_def is_ok_def split: sum.splits)
  with assms have "result = Inl e" "w' = w" by (auto simp: vault_remove_def athen_def abind_def)
  then show ?thesis by (intro refused) simp_all
next
  case True
  obtain r w1 where lock: "lock_account env a w = (r, w1)" by (cases "lock_account env a w")
  have same: "content (record_file a) w1 = content (record_file a) w" "receipt_at vc a w1 = receipt_at vc a w"
    using steadyD [OF steady_lock_account, of "record_file a" a env w] steadyD [OF steady_lock_account, of "receipt_file a" a env w] lock
    by (simp_all add: receipt_at_def)
  have front: "vault_validate_account_ref a = Inr ()" "record_path a = Inr (record_file a)"
    using True by (simp_all add: paths_Inr) (simp add: valid_account_def is_ok_unit)
  show ?thesis
  proof (cases r)
    case (Inl e)
    with assms lock front have "result = Inl e" "w' = w1" by (simp_all add: vault_remove_def athen_def abind_def)
    with same show ?thesis by (intro refused) simp_all
  next
    case (Inr u)
    with assms lock front have "abind (receipt_phase env ext vc now (record_file a) a kind) (erase_phase env ext vc (record_file a) a) w1
        = (result, w')"
      by (simp add: vault_remove_def athen_def removal_phases) (simp add: abind_def)
    with True same show ?thesis by (rule phases)
  qed
qed

section \<open>A demonstration removal\<close>

text \<open>A receipt codec with length prefixes, and a directory with one API-key record.\<close>

definition demo_put :: "string \<Rightarrow> string" where
  "demo_put s = replicate (length s) (CHR ''1'') @ CHR ''0'' # s"

definition demo_get :: "string \<Rightarrow> string \<times> string" where
  "demo_get t = (let n = length (takeWhile (\<lambda>c. c = CHR ''1'') t); rest = drop (Suc n) t in (take n rest, drop n rest))"

lemma demo_get_put [simp]: "demo_get (demo_put s @ t) = (s, t)"
proof -
  have "takeWhile (\<lambda>c. c = CHR ''1'') (demo_put s @ t) = replicate (length s) (CHR ''1'')"
    by (simp add: demo_put_def takeWhile_append)
  then show ?thesis by (simp add: demo_get_def demo_put_def)
qed

definition demo_receipt_codec :: "removal_receipt codec" where
  "demo_receipt_codec = \<lparr>
     cd_encode = (\<lambda>r. demo_put (rr_account_ref r) @ demo_put (if rr_kind r = ServiceOnly then [] else ''o'')
       @ demo_put (replicate (nat (rr_completed_at r)) CHR ''t'') @ demo_put (replicate (nat (- rr_completed_at r)) CHR ''t'')
       @ demo_put (case rr_request_state_ref r of None \<Rightarrow> [] | Some x \<Rightarrow> CHR ''s'' # x)),
     cd_decode = (\<lambda>s0. let (a, s1) = demo_get s0; (k, s2) = demo_get s1; (p, s3) = demo_get s2; (m, s4) = demo_get s3;
         (x, _) = demo_get s4 in
       Some \<lparr>rr_account_ref = a, rr_kind = (if k = [] then ServiceOnly else OAuthRevoked),
         rr_completed_at = int (length p) - int (length m), rr_request_state_ref = (case x of [] \<Rightarrow> None | _ # y \<Rightarrow> Some y)\<rparr>)\<rparr>"

definition demo_record :: vault_record where
  "demo_record = \<lparr>vr_account_ref = ''acct_a'', vr_status = Ready, vr_upstream_url = ''u'', vr_created_at = 0, vr_updated_at = 0,
     vr_material = OpenAiApiKey ''key''\<rparr>"

definition demo_codecs :: vault_codecs where
  "demo_codecs = \<lparr>vc_record = \<lparr>cd_encode = (\<lambda>_. ''R''), cd_decode = (\<lambda>s. if s = ''R'' then Some demo_record else None)\<rparr>,
     vc_receipt = demo_receipt_codec, vc_fingerprint = demo_fp_codec,
     vc_state = \<lparr>cd_encode = (\<lambda>_. []), cd_decode = (\<lambda>_. None)\<rparr>\<rparr>"

lemma demo_codecs_ok: "receipt_codec_ok demo_codecs"
proof -
  have "cd_decode demo_receipt_codec (cd_encode demo_receipt_codec r) = Some r" for r
  proof -
    have last: "demo_get (demo_put s) = (s, [])" for s using demo_get_put [of s "[]"] by simp
    show ?thesis by (cases r; cases "rr_kind r"; cases "rr_request_state_ref r") (simp_all add: demo_receipt_codec_def last)
  qed
  then show ?thesis by (simp add: receipt_codec_ok_def codec_ok_def demo_codecs_def)
qed

definition demo_vault_ext :: externals where
  "demo_vault_ext = demo_ext\<lparr>base64_url_safe_no_pad := (\<lambda>_. replicate 43 CHR ''a'')\<rparr>"

definition demo_vault :: world where
  "demo_vault = demo_world\<lparr>w_files := bm_insert (record_file ''acct_a'') (private_file ''R'') bm_empty\<rparr>"

definition demo_remove :: "removal_kind \<Rightarrow> int \<Rightarrow> removal_receipt fs" where
  "demo_remove kind now = vault_remove demo_env demo_vault_ext demo_codecs now ''acct_a'' kind"

lemma demo_removal:
  "is_ok (fst (demo_remove ServiceOnly 1 demo_vault))"
  "is_ok (fst (demo_remove ServiceOnly 2 (snd (demo_remove ServiceOnly 1 demo_vault))))"
  by code_simp+

section \<open>Creation\<close>







lemma removal_first_facts:
  assumes "vault_remove env ext vc now a kind w = (Inr receipt, w')" and "receipt_codec_ok vc"
  shows "content (record_file a) w' = None \<and> content (sidecar_path a) w' = None
    \<and> receipt_at vc a w' = Some receipt \<and> rr_account_ref receipt = a"
  using assms(1)
proof (cases rule: vault_remove_run)
  case (phases w1)
  then obtain first w2 where run: "receipt_phase env ext vc now (record_file a) a kind w1 = (Inr first, w2)"
      "erase_phase env ext vc (record_file a) a first w2 = (Inr receipt, w')"
    by (auto simp: abind_Inr_iff)
  have "receipt_at vc a w' = receipt_at vc a w2"
    using steadyD [OF steady_erase [OF phases(1)], of env ext vc first w2] run(2) by (simp add: receipt_at_def)
  with receipt_phase_Inr(1,2) [OF run(1) phases(1) assms(2)] erase_phase_Inr [OF run(2) phases(1)] show ?thesis by simp
qed simp

section \<open>Properties\<close>

text \<open>
  C25.  No credential disappears without a trace.  Whatever call fails during a removal, afterwards
  the record file is as it was, or a removal receipt for that account is on disk.
\<close>

theorem removal_receipt_first:
  assumes "vault_remove env ext vc now a kind w = (result, w')" and "receipt_codec_ok vc"
  shows "content (record_file a) w' = content (record_file a) w
    \<or> (\<exists>receipt. receipt_at vc a w' = Some receipt \<and> rr_account_ref receipt = a)"
  using assms(1)
proof (cases rule: vault_remove_run)
  case (phases w1)
  obtain r w2 where first: "receipt_phase env ext vc now (record_file a) a kind w1 = (r, w2)"
    by (cases "receipt_phase env ext vc now (record_file a) a kind w1")
  show ?thesis
  proof (cases r)
    case (Inl e)
    with first phases(4) have "w' = w2" by (simp add: abind_def)
    with steadyD [OF steady_receipt_phase [OF phases(1)], of env ext vc now "record_file a" kind w1] first phases(2)
    show ?thesis by simp
  next
    case (Inr receipt)
    with first phases(4) have "w' = snd (erase_phase env ext vc (record_file a) a receipt w2)" by (simp add: abind_def)
    with steadyD [OF steady_erase [OF phases(1)], of env ext vc receipt w2]
      receipt_phase_Inr(1,2) [OF first [unfolded Inr] phases(1) assms(2)]
    show ?thesis by (simp add: receipt_at_def)
  qed
qed simp

theorem removal_receipt_first_witness:
  "\<exists>receipt. receipt_at demo_codecs ''acct_a'' (snd (demo_remove ServiceOnly 1 demo_vault)) = Some receipt
     \<and> rr_account_ref receipt = ''acct_a''"
proof -
  have "content (record_file ''acct_a'') (snd (demo_remove ServiceOnly 1 demo_vault)) = None"
    "content (record_file ''acct_a'') demo_vault = Some ''R''" by code_simp+
  with removal_receipt_first [OF prod.collapse [symmetric] demo_codecs_ok,
      where env = demo_env and ext = demo_vault_ext and now = 1 and a = "''acct_a''" and kind = ServiceOnly and w = demo_vault]
  show ?thesis unfolding demo_remove_def by simp
qed

text \<open>
  A removal that succeeds is complete: the record and the fingerprint are gone, and the returned
  receipt names the account and is the one on disk.
\<close>

theorem removal_completes:
  assumes "vault_remove env ext vc now a kind w = (Inr receipt, w')" and "receipt_codec_ok vc"
  shows "content (record_file a) w' = None \<and> content (sidecar_path a) w' = None
    \<and> receipt_at vc a w' = Some receipt \<and> rr_account_ref receipt = a"
  using assms by (rule removal_first_facts)

theorem removal_completes_witness:
  "content (record_file ''acct_a'') (snd (demo_remove ServiceOnly 1 demo_vault)) = None
   \<and> content (sidecar_path ''acct_a'') (snd (demo_remove ServiceOnly 1 demo_vault)) = None"
proof -
  obtain receipt where "demo_remove ServiceOnly 1 demo_vault = (Inr receipt, snd (demo_remove ServiceOnly 1 demo_vault))"
    using demo_removal(1) by (cases "demo_remove ServiceOnly 1 demo_vault"; cases "fst (demo_remove ServiceOnly 1 demo_vault)") auto
  from removal_completes [OF this [unfolded demo_remove_def] demo_codecs_ok] show ?thesis unfolding demo_remove_def by simp
qed

text \<open>
  C27.  Removal is idempotent.  Asking again after a removal, in any environment and at any later time,
  answers with the same receipt when it succeeds; and it cannot succeed when it asks for an upstream
  revoke that the receipt does not record.
\<close>

theorem removal_idempotent:
  assumes "vault_remove env ext vc now a kind w = (Inr receipt, w1)" and "receipt_codec_ok vc"
    and "vault_remove env' ext' vc now' a kind' w1 = (Inr receipt', w2)"
  shows "receipt' = receipt \<and> (kind' = OAuthRevoked \<longrightarrow> rr_kind receipt = OAuthRevoked)"
proof -
  have gone: "content (record_file a) w1 = None" "receipt_at vc a w1 = Some receipt"
    using removal_first_facts [OF assms(1,2)] by simp_all
  from assms(3) show ?thesis
  proof (cases rule: vault_remove_run)
    case (phases w3)
    then obtain first w4 where run: "receipt_phase env' ext' vc now' (record_file a) a kind' w3 = (Inr first, w4)"
        "erase_phase env' ext' vc (record_file a) a first w4 = (Inr receipt', w2)"
      by (auto simp: abind_Inr_iff)
    have "content (record_file a) w3 = None" "receipt_at vc a w3 = Some receipt" using phases(2,3) gone by simp_all
    with receipt_phase_Inr(3,4) [OF run(1) phases(1) assms(2)] erase_phase_Inr(1) [OF run(2) phases(1)] show ?thesis
      by auto
  qed simp
qed

theorem removal_idempotent_witness:
  "\<exists>receipt w2. demo_remove ServiceOnly 1 demo_vault = (Inr receipt, snd (demo_remove ServiceOnly 1 demo_vault))
     \<and> demo_remove ServiceOnly 2 (snd (demo_remove ServiceOnly 1 demo_vault)) = (Inr receipt, w2)"
proof -
  obtain receipt where one: "demo_remove ServiceOnly 1 demo_vault = (Inr receipt, snd (demo_remove ServiceOnly 1 demo_vault))"
    using demo_removal(1) by (cases "demo_remove ServiceOnly 1 demo_vault"; cases "fst (demo_remove ServiceOnly 1 demo_vault)") auto
  obtain receipt' w2 where two: "demo_remove ServiceOnly 2 (snd (demo_remove ServiceOnly 1 demo_vault)) = (Inr receipt', w2)"
    using demo_removal(2) by (cases "demo_remove ServiceOnly 2 (snd (demo_remove ServiceOnly 1 demo_vault))";
        cases "fst (demo_remove ServiceOnly 2 (snd (demo_remove ServiceOnly 1 demo_vault)))") auto
  have "receipt' = receipt"
    using removal_idempotent [OF one [unfolded demo_remove_def] demo_codecs_ok two [unfolded demo_remove_def]] by simp
  with one two show ?thesis by blast
qed




end
