(* ===== verification/Json_Value.thy ===== *)
theory Json_Value
  imports Ordered_Map
begin

text \<open>
  JSON values as \<open>serde_json\<close> has them with \<open>preserve_order\<close> and \<open>arbitrary_precision\<close>: objects keep the
  order of their keys, numbers keep their text, and equality of objects ignores the order.  The text
  encoding of a value is a parameter.
\<close>

section \<open>Values\<close>

datatype json =
  JNull
  | JBool bool
  | JNumber string
  | JString string
  | JArray "json list"
  | JObject "(string \<times> json) list"

fun as_object :: "json \<Rightarrow> (string \<times> json) list option" where
  "as_object (JObject xs) = Some xs"
| "as_object _ = None"

fun as_array :: "json \<Rightarrow> json list option" where
  "as_array (JArray xs) = Some xs"
| "as_array _ = None"

fun as_str :: "json \<Rightarrow> string option" where
  "as_str (JString s) = Some s"
| "as_str _ = None"

definition is_object :: "json \<Rightarrow> bool" where
  "is_object v \<longleftrightarrow> as_object v \<noteq> None"

text \<open>\<open>parse::<u64>\<close> of the text of a number, which has no plus sign.\<close>

definition parse_u64 :: "string \<Rightarrow> nat option" where
  "parse_u64 s =
     (let n = foldl (\<lambda>n c. n * 10 + (of_char c - 48)) 0 s
      in if s \<noteq> [] \<and> list_all is_ascii_digit s \<and> n < 2 ^ 64 then Some n else None)"

fun as_u64 :: "json \<Rightarrow> nat option" where
  "as_u64 (JNumber s) = parse_u64 s"
| "as_u64 _ = None"

section \<open>Members\<close>

text \<open>\<open>Value::get\<close>, indexing by name and by position, and JSON pointers over member names.\<close>

definition jget :: "json \<Rightarrow> string \<Rightarrow> json option" where
  "jget v name = (case v of JObject xs \<Rightarrow> map_of xs name | _ \<Rightarrow> None)"

definition jindex :: "json \<Rightarrow> string \<Rightarrow> json" where
  "jindex v name = (case jget v name of Some x \<Rightarrow> x | None \<Rightarrow> JNull)"

definition jnth :: "json \<Rightarrow> nat \<Rightarrow> json" where
  "jnth v i = (case v of JArray xs \<Rightarrow> if i < length xs then xs ! i else JNull | _ \<Rightarrow> JNull)"

fun pointer :: "json \<Rightarrow> string list \<Rightarrow> json option" where
  "pointer v [] = Some v"
| "pointer v (name # names) = Option.bind (jget v name) (\<lambda>x. pointer x names)"

definition str_of :: "json option \<Rightarrow> string option" where
  "str_of v = Option.bind v as_str"

definition type_of :: "json \<Rightarrow> string option" where
  "type_of v = str_of (jget v ''type'')"

definition is_text :: "json \<Rightarrow> string \<Rightarrow> bool" where
  "is_text v s \<longleftrightarrow> as_str v = Some s"

section \<open>Objects\<close>

definition obj_contains :: "(string \<times> 'v) list \<Rightarrow> string \<Rightarrow> bool" where
  "obj_contains xs name \<longleftrightarrow> map_of xs name \<noteq> None"

fun obj_insert :: "string \<Rightarrow> 'v \<Rightarrow> (string \<times> 'v) list \<Rightarrow> (string \<times> 'v) list" where
  "obj_insert name v [] = [(name, v)]"
| "obj_insert name v ((k, x) # xs) = (if k = name then (k, v) # xs else (k, x) # obj_insert name v xs)"

text \<open>With \<open>preserve_order\<close>, \<open>Map::remove\<close> puts the last entry in the place of the removed one.\<close>

fun obj_remove :: "string \<Rightarrow> (string \<times> 'v) list \<Rightarrow> (string \<times> 'v) list" where
  "obj_remove name [] = []"
| "obj_remove name ((k, x) # xs) =
     (if k = name then (if xs = [] then [] else last xs # butlast xs) else (k, x) # obj_remove name xs)"

lemma map_of_obj_insert [simp]: "map_of (obj_insert name v xs) = (map_of xs)(name \<mapsto> v)"
  by (induction xs) auto

lemma set_obj_remove: "distinct (map fst xs) \<Longrightarrow> set (obj_remove name xs) = {(k, v) \<in> set xs. k \<noteq> name}"
proof (induction xs)
  case (Cons x xs)
  obtain k v where x: "x = (k, v)" by (cases x)
  have "set (last xs # butlast xs) = set xs" if "xs \<noteq> []"
    using that by (cases xs rule: rev_cases) auto
  with Cons x show ?case by (auto split: if_splits) force+
qed simp

lemma keys_obj_remove: "distinct (map fst xs) \<Longrightarrow> distinct (map fst (obj_remove name xs))"
proof (induction xs)
  case (Cons x xs)
  obtain k v where x: "x = (k, v)" by (cases x)
  have "distinct (map fst (last xs # butlast xs))" if "xs \<noteq> []" "distinct (map fst xs)"
    using that by (cases xs rule: rev_cases) auto
  moreover have "fst ` set (obj_remove name xs) \<subseteq> fst ` set xs"
    using set_obj_remove [of xs name] Cons.prems x by auto
  ultimately show ?case using Cons x by auto
qed simp

lemma map_of_obj_remove [simp]:
  assumes "distinct (map fst xs)"
  shows "map_of (obj_remove name xs) = (map_of xs)(name := None)"
proof
  fix k
  have "map_of (obj_remove name xs) k = Some v \<longleftrightarrow> ((map_of xs)(name := None)) k = Some v" for v
    using set_obj_remove [OF assms, of name] keys_obj_remove [OF assms, of name] assms by auto
  then show "map_of (obj_remove name xs) k = ((map_of xs)(name := None)) k"
    by (metis not_Some_eq)
qed

section \<open>Equality and canonical form\<close>

function json_eq :: "json \<Rightarrow> json \<Rightarrow> bool" where
  "json_eq JNull w = (w = JNull)"
| "json_eq (JBool b) w = (w = JBool b)"
| "json_eq (JNumber n) w = (w = JNumber n)"
| "json_eq (JString s) w = (w = JString s)"
| "json_eq (JArray xs) w = (case w of
     JArray ys \<Rightarrow> length xs = length ys \<and> list_all (\<lambda>i. json_eq (xs ! i) (ys ! i)) [0..<length xs] | _ \<Rightarrow> False)"
| "json_eq (JObject xs) w = (case w of
     JObject ys \<Rightarrow> length xs = length ys
       \<and> list_all (\<lambda>(k, v). case map_of ys k of Some v' \<Rightarrow> json_eq v v' | None \<Rightarrow> False) xs | _ \<Rightarrow> False)"
  by pat_completeness auto
termination
proof (relation "measure (\<lambda>(v, _). size v)")
  fix xs :: "json list" and i
  assume "i \<in> set [0..<length xs]"
  then have "xs ! i \<in> set xs" by simp
  then have "size (xs ! i) \<le> size_list size xs" by (intro size_list_estimation') auto
  then show "((xs ! i, ys ! i), (JArray xs, w)) \<in> measure (\<lambda>(v, _). size v)" for ys w by simp
next
  fix xs :: "(string \<times> json) list" and z k v
  assume "z \<in> set xs" and "(k, v) = z"
  then have "size v \<le> size_list (size_prod (\<lambda>_. 0) size) xs" by (intro size_list_estimation' [of z]) auto
  then show "((v, v'), (JObject xs, w)) \<in> measure (\<lambda>(v, _). size v)" for v' w by simp
qed simp

fun json_sorted :: "json \<Rightarrow> json" where
  "json_sorted (JObject xs) = JObject (sort_key fst (map (\<lambda>(k, v). (k, json_sorted v)) xs))"
| "json_sorted (JArray xs) = JArray (map json_sorted xs)"
| "json_sorted v = v"

end
