(* ===== verification/Output_Lifecycle.thy ===== *)
theory Output_Lifecycle
  imports Json_Value Ledger_Validation
begin

text \<open>
  Evidence about the output of one response (\<open>response_output_lifecycle.rs\<close>, \<open>response_output.rs\<close>,
  \<open>response_interrupt.rs\<close>, and the compaction proof of \<open>request_compaction.rs\<close>): which items were
  started, finished and discarded, by fingerprints only.  \<open>to_vec\<close> is the text encoding of a value.
\<close>

section \<open>Identities\<close>

datatype locator = LIndex nat | LId string

instantiation locator :: linorder
begin

definition less_eq_locator :: "locator \<Rightarrow> locator \<Rightarrow> bool" where
  "less_eq_locator a b = (case (a, b) of
     (LIndex i, LIndex j) \<Rightarrow> i \<le> j | (LIndex _, LId _) \<Rightarrow> True | (LId _, LIndex _) \<Rightarrow> False | (LId x, LId y) \<Rightarrow> x \<le> y)"

definition less_locator :: "locator \<Rightarrow> locator \<Rightarrow> bool" where
  "less_locator a b = (case (a, b) of
     (LIndex i, LIndex j) \<Rightarrow> i < j | (LIndex _, LId _) \<Rightarrow> True | (LId _, LIndex _) \<Rightarrow> False | (LId x, LId y) \<Rightarrow> x < y)"

instance
  by standard (auto simp: less_eq_locator_def less_locator_def split: locator.splits)

end

record identity =
  idn_id :: "string option"
  idn_kind :: "string option"

definition fingerprint :: "externals \<Rightarrow> json option \<Rightarrow> string option" where
  "fingerprint ext value = (case str_of value of Some s \<Rightarrow> if s \<noteq> [] then Some (sha256 ext s) else None | None \<Rightarrow> None)"

definition identity_item :: "externals \<Rightarrow> json \<Rightarrow> identity" where
  "identity_item ext item = \<lparr>idn_id = fingerprint ext (jget item ''id''), idn_kind = fingerprint ext (jget item ''type'')\<rparr>"

definition opt_or :: "'a option \<Rightarrow> 'a option \<Rightarrow> 'a option" where
  "opt_or a b = (case a of Some _ \<Rightarrow> a | None \<Rightarrow> b)"

definition merge_agrees :: "'a option \<Rightarrow> 'a option \<Rightarrow> bool" where
  "merge_agrees previous next \<longleftrightarrow> (\<forall>p \<in> set_option previous. \<forall>n \<in> set_option next. p = n)"

text \<open>The fields are merged in order; a conflict leaves the ones before it merged.\<close>

definition identity_merge :: "identity \<Rightarrow> identity \<Rightarrow> unit result \<times> identity" where
  "identity_merge self other =
     (if \<not> merge_agrees (idn_id self) (idn_id other) then (Inl (Msg ''output item identity changed''), self)
      else let self = self\<lparr>idn_id := opt_or (idn_id self) (idn_id other)\<rparr> in
        if \<not> merge_agrees (idn_kind self) (idn_kind other) then (Inl (Msg ''output item identity changed''), self)
        else (Inr (), self\<lparr>idn_kind := opt_or (idn_kind self) (idn_kind other)\<rparr>))"

definition identity_matches :: "externals \<Rightarrow> identity \<Rightarrow> json \<Rightarrow> bool" where
  "identity_matches ext self final_item =
     (let other = identity_item ext final_item in
      is_none_or (idn_id self) (\<lambda>i. Some i = idn_id other) \<and> is_none_or (idn_kind self) (\<lambda>k. Some k = idn_kind other))"

section \<open>The lifecycle\<close>

record output_lifecycle =
  ol_pending :: "(locator, identity) btree_map"
  ol_by_id :: "(string, locator) btree_map"
  ol_finished :: "(locator, identity) btree_map"
  ol_finished_ids :: "string btree_set"
  ol_discarded :: "(locator, identity) btree_map"
  ol_discarded_ids :: "string btree_set"
  ol_unverified :: bool

definition lifecycle_default :: output_lifecycle where
  "lifecycle_default = \<lparr>ol_pending = bm_empty, ol_by_id = bm_empty, ol_finished = bm_empty, ol_finished_ids = bm_empty,
     ol_discarded = bm_empty, ol_discarded_ids = bm_empty, ol_unverified = False\<rparr>"

type_synonym 'a lifecycle_op = "(output_lifecycle, ledger_error, 'a) action"

definition tracked_count :: "output_lifecycle \<Rightarrow> nat" where
  "tracked_count self = bm_len (ol_pending self) + bm_len (ol_discarded self) + bm_len (ol_finished self)"

definition starts_with :: "string \<Rightarrow> string \<Rightarrow> bool" where
  "starts_with s p \<longleftrightarrow> strip_prefix p s \<noteq> None"

definition ends_with :: "string \<Rightarrow> string \<Rightarrow> bool" where
  "ends_with s p \<longleftrightarrow> length p \<le> length s \<and> drop (length s - length p) s = p"

definition kind_or_empty :: "json \<Rightarrow> string" where
  "kind_or_empty event = (case type_of event of Some k \<Rightarrow> k | None \<Rightarrow> [])"

definition is_output_event :: "json \<Rightarrow> bool" where
  "is_output_event event =
     (let kind = kind_or_empty event in
      starts_with kind ''response.''
      \<and> kind \<notin> {''response.created'', ''response.in_progress'', ''response.completed'', ''response.failed'',
          ''response.incomplete'', ''response.metadata''}
      \<and> (jget event ''output_index'' \<noteq> None \<or> jget event ''item_id'' \<noteq> None
         \<or> starts_with kind ''response.output_item.'' \<or> starts_with kind ''response.content_part.''
         \<or> ends_with kind ''.delta'' \<or> kind = ''response.output_text.done''))"

definition unfinished :: "json \<Rightarrow> bool" where
  "unfinished item \<longleftrightarrow> is_some_and (str_of (jget item ''status'')) (\<lambda>s. s \<in> {''in_progress'', ''incomplete'', ''queued'',
     ''searching'', ''generating'', ''interpreting''})"

definition existing_id :: "output_lifecycle \<Rightarrow> identity \<Rightarrow> locator option" where
  "existing_id self identity = Option.bind (idn_id identity) (bm_get (ol_by_id self))"

definition locate :: "output_lifecycle \<Rightarrow> nat option \<Rightarrow> identity \<Rightarrow> locator option result" where
  "locate self index identity =
     (let existing = existing_id self identity in
      rbind (case (index, existing) of
          (Some i, Some (LIndex previous)) \<Rightarrow> ensure (i = previous) (Msg ''output item index changed'')
        | _ \<Rightarrow> Inr ()) (\<lambda>_.
      Inr (opt_or (map_option LIndex index) (opt_or existing (map_option LId (idn_id identity))))))"

definition ensure_not_discarded :: "output_lifecycle \<Rightarrow> locator \<Rightarrow> identity \<Rightarrow> unit result" where
  "ensure_not_discarded self key identity =
     ensure (\<not> bm_contains (ol_discarded self) key
       \<and> \<not> is_some_and (idn_id identity) (\<lambda>i. bm_contains (ol_discarded_ids self) i))
      (Msg ''discarded output item reappeared'')"

text \<open>Move the evidence an identity left under another locator, which it returns merged.\<close>

definition take_moved :: "locator \<Rightarrow> identity \<Rightarrow> identity lifecycle_op" where
  "take_moved key identity self =
     (case existing_id self identity of
        Some previous \<Rightarrow> if previous = key then (Inr identity, self) else (case bm_get (ol_pending self) previous of
            None \<Rightarrow> (Inr identity, self)
          | Some moved \<Rightarrow>
              (let (r, merged) = identity_merge identity moved;
                   self = self\<lparr>ol_pending := bm_remove previous (ol_pending self)\<rparr> in
               case r of Inl e \<Rightarrow> (Inl e, self) | Inr _ \<Rightarrow> (Inr merged, self)))
      | None \<Rightarrow> (Inr identity, self))"

definition index_id :: "locator \<Rightarrow> identity \<Rightarrow> output_lifecycle \<Rightarrow> output_lifecycle" where
  "index_id key identity self = (case idn_id identity of None \<Rightarrow> self
     | Some i \<Rightarrow> self\<lparr>ol_by_id := bm_insert i key (ol_by_id self)\<rparr>)"

definition put_pending :: "locator \<Rightarrow> identity \<Rightarrow> nat \<Rightarrow> unit lifecycle_op" where
  "put_pending key identity maximum self =
     (case bm_get (ol_pending self) key of
        Some previous \<Rightarrow>
          (let (r, merged) = identity_merge previous identity;
               self = self\<lparr>ol_pending := bm_insert key merged (ol_pending self)\<rparr> in
           case r of Inl e \<Rightarrow> (Inl e, self) | Inr _ \<Rightarrow> (Inr (), index_id key merged self))
      | None \<Rightarrow>
          if tracked_count self < maximum
          then (Inr (), index_id key identity (self\<lparr>ol_pending := bm_insert key identity (ol_pending self)\<rparr>))
          else (Inr (), self\<lparr>ol_unverified := True\<rparr>))"

definition lc_start :: "nat option \<Rightarrow> identity \<Rightarrow> nat \<Rightarrow> unit lifecycle_op" where
  "lc_start index identity maximum =
     abind (aget (\<lambda>self. locate self index identity)) (\<lambda>located.
     abind (alift located) (\<lambda>key. case key of
       None \<Rightarrow> amodify (ol_unverified_update (\<lambda>_. True))
     | Some key \<Rightarrow>
         abind (aget (\<lambda>self. ensure_not_discarded self key identity)) (\<lambda>checked.
         athen (alift checked)
        (abind (take_moved key identity) (\<lambda>identity. put_pending key identity maximum)))))"

text \<open>One locator of \<open>finish\<close>: its pending evidence must agree, and is dropped.\<close>

definition settle_pending :: "identity \<Rightarrow> locator \<Rightarrow> unit lifecycle_op" where
  "settle_pending identity key self =
     (case bm_get (ol_pending self) key of
        None \<Rightarrow> (Inr (), self)
      | Some previous \<Rightarrow>
          if is_none_or (idn_id previous) (\<lambda>i. Some i = idn_id identity)
             \<and> is_none_or (idn_kind previous) (\<lambda>k. Some k = idn_kind identity)
          then (Inr (), self\<lparr>ol_pending := bm_remove key (ol_pending self),
             ol_by_id := (case idn_id previous of None \<Rightarrow> ol_by_id self | Some i \<Rightarrow> bm_remove i (ol_by_id self))\<rparr>)
          else (Inl (Msg ''finished output item does not match its start''), self))"

definition settle_other :: "identity \<Rightarrow> locator \<Rightarrow> locator option \<Rightarrow> unit lifecycle_op" where
  "settle_other identity key other =
     (case other of Some o' \<Rightarrow> if o' \<noteq> key then settle_pending identity o' else aret () | None \<Rightarrow> aret ())"

definition put_finished :: "locator \<Rightarrow> identity \<Rightarrow> nat \<Rightarrow> unit lifecycle_op" where
  "put_finished key identity maximum self =
     (let note = (\<lambda>identity self. case idn_id identity of None \<Rightarrow> self
        | Some i \<Rightarrow> self\<lparr>ol_finished_ids := bm_insert i () (ol_finished_ids self)\<rparr>) in
      case bm_get (ol_finished self) key of
        Some previous \<Rightarrow>
          (let (r, merged) = identity_merge previous identity;
               self = self\<lparr>ol_finished := bm_insert key merged (ol_finished self)\<rparr> in
           case r of Inl e \<Rightarrow> (Inl e, self) | Inr _ \<Rightarrow> (Inr (), note merged self))
      | None \<Rightarrow>
          if tracked_count self < maximum
          then (Inr (), note identity (self\<lparr>ol_finished := bm_insert key identity (ol_finished self)\<rparr>))
          else (Inr (), self\<lparr>ol_unverified := True\<rparr>))"

definition lc_finish :: "nat option \<Rightarrow> identity \<Rightarrow> nat \<Rightarrow> unit lifecycle_op" where
  "lc_finish index identity maximum =
     abind (aget (\<lambda>self. locate self index identity)) (\<lambda>located.
     abind (alift located) (\<lambda>key. case key of
       None \<Rightarrow> aret ()
     | Some key \<Rightarrow>
         abind (aget (\<lambda>self. ensure_not_discarded self key identity)) (\<lambda>checked.
         athen (alift checked)
        (abind (aget (\<lambda>self. existing_id self identity)) (\<lambda>other.
         athen (settle_pending identity key)
        (athen (settle_other identity key other)
         (put_finished key identity maximum)))))))"

definition pending_place :: "output_lifecycle \<Rightarrow> locator \<Rightarrow> identity \<Rightarrow> locator" where
  "pending_place self key identity = (if bm_contains (ol_pending self) key then key
     else (case existing_id self identity of Some k \<Rightarrow> k | None \<Rightarrow> key))"

definition note_discarded :: "identity \<Rightarrow> output_lifecycle \<Rightarrow> output_lifecycle" where
  "note_discarded identity self = (case idn_id identity of None \<Rightarrow> self
     | Some i \<Rightarrow> self\<lparr>ol_by_id := bm_remove i (ol_by_id self), ol_discarded_ids := bm_insert i () (ol_discarded_ids self)\<rparr>)"

definition discard_pending :: "locator \<Rightarrow> locator \<Rightarrow> identity \<Rightarrow> unit lifecycle_op" where
  "discard_pending key pending_key identity self =
     (case bm_get (ol_pending self) pending_key of
        None \<Rightarrow> (Inl (Msg ''interrupted output was not pending''), self)
      | Some previous \<Rightarrow>
          if \<not> is_none_or (idn_id previous) (\<lambda>i. idn_id identity = Some i)
          then (Inl (Msg ''interrupted output identity changed''), self)
          else
            (let self = self\<lparr>ol_pending := bm_remove pending_key (ol_pending self)\<rparr>;
                 (r, merged) = identity_merge previous identity in
             case r of
               Inl e \<Rightarrow> (Inl e, self)
             | Inr _ \<Rightarrow>
                 (let self = note_discarded merged self in
                  (Inr (), self\<lparr>ol_discarded := bm_insert key merged (ol_discarded self)\<rparr>))))"

definition lc_discard :: "nat option \<Rightarrow> identity \<Rightarrow> unit lifecycle_op" where
  "lc_discard index identity =
     abind (aget (\<lambda>self. rbind (locate self index identity) (\<lambda>key.
       rbind (ok_or key (Msg ''interrupted output has no identity'')) (\<lambda>key.
       rbind (ensure_not_discarded self key identity) (\<lambda>_.
       rbind (ensure (\<not> bm_contains (ol_finished self) key
           \<and> \<not> is_some_and (idn_id identity) (\<lambda>i. bm_contains (ol_finished_ids self) i))
         (Msg ''interrupted output was already completed'')) (\<lambda>_.
       Inr (key, pending_place self key identity))))))) (\<lambda>checked.
     abind (alift checked) (\<lambda>(key, pending_key).
       discard_pending key pending_key identity))"

fun start_items :: "externals \<Rightarrow> nat \<Rightarrow> nat \<Rightarrow> json list \<Rightarrow> unit lifecycle_op" where
  "start_items ext maximum index [] = aret ()"
| "start_items ext maximum index (item # items) =
     athen (lc_start (Some index) (identity_item ext item) maximum) (start_items ext maximum (Suc index) items)"

text \<open>\<open>usize\<close> has 64 bits, so every \<open>u64\<close> index converts.\<close>

definition event_index :: "json \<Rightarrow> nat option result" where
  "event_index event = (case jget event ''output_index'' of
     None \<Rightarrow> Inr None
   | Some value \<Rightarrow> rbind (ok_or (as_u64 value) (Msg ''invalid output item index'')) (\<lambda>i. Inr (Some i)))"

definition event_identity :: "externals \<Rightarrow> json \<Rightarrow> identity result" where
  "event_identity ext event =
     (if kind_or_empty event \<in> {''response.output_item.added'', ''response.output_item.done''}
      then rbind (ok_or (case jget event ''item'' of Some item \<Rightarrow> if is_object item then Some item else None | None \<Rightarrow> None)
          (Msg ''invalid output item'')) (\<lambda>item. Inr (identity_item ext item))
      else Inr \<lparr>idn_id = fingerprint ext (jget event ''item_id''), idn_kind = None\<rparr>)"

definition observe_with_interrupt :: "externals \<Rightarrow> json \<Rightarrow> nat \<Rightarrow> bool \<Rightarrow> unit lifecycle_op" where
  "observe_with_interrupt ext event maximum interrupt_requested =
     (let kind = kind_or_empty event in
      if kind \<in> {''response.created'', ''response.in_progress''}
      then (case Option.bind (pointer event [''response'', ''output'']) as_array of
          Some items \<Rightarrow> start_items ext maximum 0 items
        | None \<Rightarrow> aret ())
      else if \<not> is_output_event event then aret ()
      else
        abind (alift (event_index event)) (\<lambda>index.
        abind (alift (event_identity ext event)) (\<lambda>identity.
        if kind = ''response.output_item.interrupted''
        then athen (aensure interrupt_requested (Msg ''unsolicited output interruption'')) (lc_discard index identity)
        else if kind = ''response.output_item.done'' \<and> \<not> unfinished (jindex event ''item'')
        then lc_finish index identity maximum
        else lc_start index identity maximum)))"


section \<open>Completion evidence\<close>

definition canonical :: "(json \<Rightarrow> string) \<Rightarrow> json \<Rightarrow> string" where
  "canonical to_vec value = to_vec (json_sorted value)"

definition drop_completed_status :: "(string \<times> json) list \<Rightarrow> (string \<times> json) list" where
  "drop_completed_status obj =
     (if str_of (map_of obj ''status'') = Some ''completed'' then obj_remove ''status'' obj else obj)"

definition project_completed_metadata :: "json \<Rightarrow> json" where
  "project_completed_metadata item = (case item of
     JObject obj \<Rightarrow>
       (let obj = obj_remove ''internal_chat_message_metadata_passthrough'' obj in
        JObject (if str_of (map_of obj ''type'') = Some ''message''
          then drop_completed_status (obj_remove ''id'' obj) else obj))
   | _ \<Rightarrow> item)"

definition completion_key :: "(json \<Rightarrow> string) \<Rightarrow> json \<Rightarrow> string" where
  "completion_key to_vec item = canonical to_vec (project_completed_metadata item)"

record completion_fingerprint =
  cf_digest :: string
  cf_id :: "string option"
  cf_message :: bool

definition completion_fingerprint_new :: "externals \<Rightarrow> (json \<Rightarrow> string) \<Rightarrow> json \<Rightarrow> completion_fingerprint" where
  "completion_fingerprint_new ext to_vec item =
     \<lparr>cf_digest = sha256 ext (completion_key to_vec item),
      cf_id = map_option (\<lambda>i. sha256 ext (canonical to_vec i)) (jget item ''id''),
      cf_message = (type_of item = Some ''message'')\<rparr>"

definition cf_compatible :: "externals \<Rightarrow> (json \<Rightarrow> string) \<Rightarrow> completion_fingerprint \<Rightarrow> json \<Rightarrow> bool" where
  "cf_compatible ext to_vec self final_item =
     (let final = completion_fingerprint_new ext to_vec final_item in
      cf_digest self = cf_digest final \<and> ((cf_message self \<and> cf_id self = None) \<or> cf_id self = cf_id final))"

definition validate_done :: "json \<Rightarrow> unit result" where
  "validate_done event =
     (if type_of event = Some ''response.output_item.done''
      then checks
        [ensure (is_some_and (jget event ''item'') is_object \<and> \<not> unfinished (jindex event ''item''))
           (Msg ''invalid or unfinished completed item''),
         ensure (is_none_or (jget event ''output_index'') (\<lambda>i. as_u64 i \<noteq> None)) (Msg ''invalid completed item index'')]
      else Inr ())"

definition metadata_only :: "json option \<Rightarrow> bool" where
  "metadata_only output \<longleftrightarrow> output = None \<or> output = Some (JArray [])"

definition populated :: "json option \<Rightarrow> json list option" where
  "populated output = (case Option.bind output as_array of Some items \<Rightarrow> if items \<noteq> [] then Some items else None | None \<Rightarrow> None)"

definition get_at :: "'a list \<Rightarrow> nat \<Rightarrow> 'a option" where
  "get_at xs i = (if i < length xs then Some (xs ! i) else None)"

definition validate_terminal ::
    "externals \<Rightarrow> (json \<Rightarrow> string) \<Rightarrow> json \<Rightarrow> (nat \<times> completion_fingerprint) list \<Rightarrow> bool \<Rightarrow> unit result" where
  "validate_terminal ext to_vec response observed all_observed =
     checks
       [ensure (is_object response) (Msg ''terminal response is not an object''),
        ensure (is_none_or (jget response ''output'') (\<lambda>output. is_some_and (as_array output) (list_all is_object)))
          (Msg ''terminal output is not an array of items''),
        (case populated (jget response ''output'') of
           Some output \<Rightarrow> for_each (\<lambda>(index, item).
             ensure (is_some_and (get_at output index) (cf_compatible ext to_vec item))
              (Msg ''terminal output conflicts with a completed item'')) observed
         | None \<Rightarrow> ensure (\<not> all_observed \<or> map fst observed = [0..<length observed])
             (Msg ''terminal output is missing completed items''))]"

definition validate_interrupted ::
    "externals \<Rightarrow> (json \<Rightarrow> string) \<Rightarrow> output_lifecycle \<Rightarrow> json \<Rightarrow> (nat \<times> completion_fingerprint) list \<Rightarrow> unit result" where
  "validate_interrupted ext to_vec self response observed =
     (let renumbered = zip [0..<length observed] (map snd observed) in
      checks
        [ensure (\<not> ol_unverified self \<and> bm_len (ol_pending self) = 0) (Msg ''interrupted response contains unresolved output''),
         ensure (list_all (\<lambda>(index, _). \<not> bm_contains (ol_discarded self) (LIndex index)) observed)
           (Msg ''interrupted output overlaps a completed item''),
         if_some (populated (jget response ''output'')) (\<lambda>output. checks
           [ensure (length output = length renumbered \<and> list_all (\<lambda>item. \<not> unfinished item) output)
              (Msg ''interrupted footer contains unproven output''),
            ensure (list_all (\<lambda>item. \<not> is_some_and (fingerprint ext (jget item ''id'')) (\<lambda>i. bm_contains (ol_discarded_ids self) i)) output)
              (Msg ''interrupted footer revives discarded output'')]),
         validate_terminal ext to_vec response renumbered True])"

text \<open>
  The index from identities of pending items to positions of the footer; an identity the footer
  names twice is ambiguous.
\<close>

fun index_final :: "externals \<Rightarrow> nat \<Rightarrow> json list \<Rightarrow> (string, nat option) btree_map \<Rightarrow> (string, nat option) btree_map result" where
  "index_final ext index [] final_by_id = Inr final_by_id"
| "index_final ext index (item # items) final_by_id =
     (case fingerprint ext (jget item ''id'') of
        None \<Rightarrow> index_final ext (Suc index) items final_by_id
      | Some i \<Rightarrow> (case bm_get final_by_id i of
          None \<Rightarrow> index_final ext (Suc index) items final_by_id
        | Some found \<Rightarrow>
            rbind (ensure (found = None) (Msg ''ambiguous final output identity'')) (\<lambda>_.
            index_final ext (Suc index) items (bm_insert i (Some index) final_by_id))))"

definition pending_ids :: "output_lifecycle \<Rightarrow> (string, nat option) btree_map" where
  "pending_ids self = foldl (\<lambda>m key. case key of LId i \<Rightarrow> bm_insert i None m | LIndex _ \<Rightarrow> m) bm_empty (bm_keys (ol_pending self))"

definition final_item :: "json list option \<Rightarrow> (string, nat option) btree_map \<Rightarrow> locator \<Rightarrow> json option" where
  "final_item output final_by_id locator = (case locator of
     LIndex index \<Rightarrow> Option.bind output (\<lambda>items. get_at items index)
   | LId i \<Rightarrow> (case bm_get final_by_id i of
       Some (Some index) \<Rightarrow> Option.bind output (\<lambda>items. get_at items index)
     | _ \<Rightarrow> None))"

definition validate_completed :: "externals \<Rightarrow> (json \<Rightarrow> string) \<Rightarrow> output_lifecycle \<Rightarrow> json \<Rightarrow> unit result" where
  "validate_completed ext to_vec self response =
     (let output = Option.bind (jget response ''output'') as_array;
          wanted = pending_ids self in
      rbind (checks
        [ensure (bm_len (ol_discarded self) = 0) (Msg ''completed response discarded output''),
         validate_terminal ext to_vec response [] True,
         ensure (\<not> ol_unverified self) (Msg ''output completion evidence is unavailable''),
         ensure (is_none_or (jget response ''status'') (\<lambda>status. as_str status = Some ''completed''))
           (Msg ''completed response has an unfinished status''),
         ensure (is_none_or output (list_all (\<lambda>item. \<not> unfinished item))) (Msg ''completed response contains unfinished output'')]) (\<lambda>_.
      rbind (if bm_len wanted = 0 then Inr wanted
          else (case output of Some items \<Rightarrow> index_final ext 0 items wanted | None \<Rightarrow> Inr wanted)) (\<lambda>final_by_id.
      for_each (\<lambda>(locator, identity).
        ensure (is_some_and (final_item output final_by_id locator) (identity_matches ext identity))
          (Msg ''completed response omitted unfinished output'')) (bm_entries (ol_pending self)))))"

definition lifecycle_retained_bytes :: "output_lifecycle \<Rightarrow> nat" where
  "lifecycle_retained_bytes self = tracked_count self * 192
     + (bm_len (ol_by_id self) + bm_len (ol_discarded_ids self) + bm_len (ol_finished_ids self)) * 128"

section \<open>Interruption\<close>

definition control_id :: "json \<Rightarrow> string result" where
  "control_id value =
     rbind (ok_or (as_object value) (Msg ''invalid interrupt'')) (\<lambda>obj.
     rbind (ensure (length obj = 3 \<and> is_text (jindex value ''type'') ''response.interrupt''
         \<and> is_text (jindex value ''mode'') ''discard_partial_items'') (Msg ''invalid interrupt shape'')) (\<lambda>_.
     rbind (ok_or (as_str (jindex value ''response_id'')) (Msg ''interrupt response is missing'')) (\<lambda>i.
     rbind (validate_wire_id i) (\<lambda>_. Inr i))))"

definition interrupted :: "json \<Rightarrow> bool" where
  "interrupted event \<longleftrightarrow> is_text (jindex event ''type'') ''response.incomplete''
     \<and> str_of (pointer event [''response'', ''incomplete_details'', ''reason'']) = Some ''interrupted''
     \<and> is_none_or (pointer event [''response'', ''status'']) (\<lambda>status. as_str status = Some ''incomplete'')"

record interrupt_state =
  is_response_id :: "string option"
  is_requested :: bool

definition interrupt_default :: interrupt_state where
  "interrupt_default = \<lparr>is_response_id = None, is_requested = False\<rparr>"

definition interrupt_request :: "string \<Rightarrow> (interrupt_state, ledger_error, unit) action" where
  "interrupt_request i self =
     (if \<not> is_requested self \<and> is_response_id self = Some i then (Inr (), self\<lparr>is_requested := True\<rparr>)
      else (Inl (Msg ''interrupt does not target the active response''), self))"

definition interrupt_observe :: "json \<Rightarrow> (interrupt_state, ledger_error, unit) action" where
  "interrupt_observe event self =
     (let kind = kind_or_empty event in
      if kind = ''response.created''
      then (case str_of (pointer event [''response'', ''id'']) of
          None \<Rightarrow> (Inr (), self)
        | Some i \<Rightarrow>
            (case rbind (validate_wire_id i) (\<lambda>_.
                ensure (is_none_or (is_response_id self) (\<lambda>known. known = i)) (Msg ''response changed during inference'')) of
               Inl e \<Rightarrow> (Inl e, self)
             | Inr _ \<Rightarrow> (Inr (), self\<lparr>is_response_id := Some i\<rparr>)))
      else if kind \<in> {''response.interrupt.accepted'', ''response.output_item.interrupted''}
      then (ensure (is_requested self \<and> is_some_and (is_response_id self) (\<lambda>i. as_str (jindex event ''response_id'') = Some i))
          (Msg ''unassociated interruption event''), self)
      else (Inr (), self))"

definition interrupt_completes :: "interrupt_state \<Rightarrow> json \<Rightarrow> bool" where
  "interrupt_completes self event \<longleftrightarrow> is_requested self \<and> interrupted event
     \<and> is_some_and (is_response_id self) (\<lambda>i. str_of (pointer event [''response'', ''id'']) = Some i)"

section \<open>Compaction output\<close>

record pending_compaction =
  pc_marker_key :: string
  pc_thread_id :: string
  pc_target_window :: u64
  pc_requires_compaction_item :: bool

text \<open>The counter saturates at the largest \<open>usize\<close>.\<close>

record compaction_output =
  co_count :: nat
  co_fingerprint :: "string option"

definition compaction_output_default :: compaction_output where
  "compaction_output_default = \<lparr>co_count = 0, co_fingerprint = None\<rparr>"

definition is_compaction :: "json \<Rightarrow> bool" where
  "is_compaction item \<longleftrightarrow> type_of item = Some ''compaction''"

definition compaction_fingerprint :: "externals \<Rightarrow> json \<Rightarrow> string option" where
  "compaction_fingerprint ext item = map_option (sha256 ext) (str_of (jget item ''encrypted_content''))"

definition co_observe :: "externals \<Rightarrow> json \<Rightarrow> compaction_output \<Rightarrow> compaction_output" where
  "co_observe ext item self =
     (if is_compaction item
      then let count = min (2 ^ 64 - 1) (co_count self + 1) in
        self\<lparr>co_count := count, co_fingerprint := (if count = 1 then compaction_fingerprint ext item else co_fingerprint self)\<rparr>
      else self)"

definition co_matches_single :: "externals \<Rightarrow> compaction_output \<Rightarrow> json \<Rightarrow> bool" where
  "co_matches_single ext self item \<longleftrightarrow> co_count self = 1 \<and> co_fingerprint self \<noteq> None
     \<and> co_fingerprint self = compaction_fingerprint ext item"

definition committed_base :: "pending_compaction \<Rightarrow> u64" where
  "committed_base self = (if pc_target_window self = 0 then 0 else pc_target_window self - 1)"

definition accepts_response :: "externals \<Rightarrow> pending_compaction \<Rightarrow> json \<Rightarrow> compaction_output option \<Rightarrow> bool" where
  "accepts_response ext self response observed =
     (if \<not> pc_requires_compaction_item self then True
      else (case observed of
          None \<Rightarrow> False
        | Some observed \<Rightarrow>
            if co_count observed \<noteq> 1 then False
            else (case co_fingerprint observed of
                None \<Rightarrow> False
              | Some fp \<Rightarrow>
                  if metadata_only (jget response ''output'') then True
                  else (case Option.bind (jget response ''output'') as_array of
                      None \<Rightarrow> False
                    | Some items \<Rightarrow> (case filter is_compaction items of
                        [only] \<Rightarrow> compaction_fingerprint ext only = Some fp
                      | _ \<Rightarrow> False)))))"

end
