(* ===== verification/Output_Steps.thy ===== *)
theory Output_Steps
  imports Output_Lifecycle
begin

text \<open>
  The successful operations of the output lifecycle as a step relation.  A report is what an event
  says of one item: its position and its identity.  Every property of the evidence is proved over
  the rules below; \<open>lc_start_step\<close>, \<open>lc_finish_step\<close> and \<open>lc_discard_step\<close> show that the code takes them.
\<close>

section \<open>Reports\<close>

type_synonym report = "nat option \<times> identity"

datatype lc_action = Started | Finished | Discarded

abbreviation has :: "('k::linorder, 'v) btree_map \<Rightarrow> 'k \<Rightarrow> bool" where
  "has m k \<equiv> bm_get m k \<noteq> None"

definition pending_id :: "output_lifecycle \<Rightarrow> locator \<Rightarrow> string option" where
  "pending_id s key = Option.bind (bm_get (ol_pending s) key) idn_id"

text \<open>The pending entries without the one an identity left under another locator.\<close>

definition other_locator :: "output_lifecycle \<Rightarrow> identity \<Rightarrow> locator \<Rightarrow> locator option" where
  "other_locator s identity key = (case existing_id s identity of Some o' \<Rightarrow> if o' = key then None else Some o' | None \<Rightarrow> None)"

definition drop_at :: "'k::linorder option \<Rightarrow> ('k, 'v) btree_map \<Rightarrow> ('k, 'v) btree_map" where
  "drop_at k m = (case k of Some k \<Rightarrow> bm_remove k m | None \<Rightarrow> m)"

lemma bm_get_drop_at [simp]: "bm_get (drop_at k m) x = (if k = Some x then None else bm_get m x)"
  by (simp add: drop_at_def split: option.splits)

lemma bm_remove_absent: "bm_get m k = None \<Longrightarrow> bm_remove k m = m"
  by (rule bm_ext) auto

section \<open>Steps\<close>

inductive lc_moves :: "nat \<Rightarrow> lc_action \<Rightarrow> report \<Rightarrow> output_lifecycle \<Rightarrow> output_lifecycle \<Rightarrow> bool" for maximum where
  lost: "idn_id identity = None \<Longrightarrow> lc_moves maximum Started (None, identity) s (s\<lparr>ol_unverified := True\<rparr>)"
| unnamed: "idn_id identity = None \<Longrightarrow> lc_moves maximum Finished (None, identity) s s"
| full: "a \<noteq> Discarded \<Longrightarrow> maximum \<le> tracked_count s \<Longrightarrow> lc_moves maximum a (index, identity) s (s\<lparr>ol_unverified := True\<rparr>)"
| started: "locate s index identity = Inr (Some key) \<Longrightarrow> ensure_not_discarded s key identity = Inr ()
    \<Longrightarrow> merge_agrees (pending_id s key) (idn_id identity) \<Longrightarrow> idn_id final = opt_or (pending_id s key) (idn_id identity)
    \<Longrightarrow> has (ol_pending s) key \<or> tracked_count (s\<lparr>ol_pending := drop_at (other_locator s identity key) (ol_pending s)\<rparr>) < maximum
    \<Longrightarrow> lc_moves maximum Started (index, identity) s
      (index_id key final (s\<lparr>ol_pending := bm_insert key final (drop_at (other_locator s identity key) (ol_pending s))\<rparr>))"
| finished: "locate s index identity = Inr (Some key) \<Longrightarrow> ensure_not_discarded s key identity = Inr ()
    \<Longrightarrow> p = bm_remove key (drop_at (other_locator s identity key) (ol_pending s))
    \<Longrightarrow> \<forall>key' \<in> {key} \<union> set_option (other_locator s identity key). \<forall>x. pending_id s key' = Some x \<longrightarrow> idn_id identity = Some x \<and> bm_get b x = None
    \<Longrightarrow> \<forall>x. bm_get b x = None \<or> bm_get b x = bm_get (ol_by_id s) x
    \<Longrightarrow> merge_agrees (Option.bind (bm_get (ol_finished s) key) idn_id) (idn_id identity)
    \<Longrightarrow> idn_id final = opt_or (Option.bind (bm_get (ol_finished s) key) idn_id) (idn_id identity)
    \<Longrightarrow> has (ol_finished s) key \<or> tracked_count (s\<lparr>ol_pending := p\<rparr>) < maximum
    \<Longrightarrow> lc_moves maximum Finished (index, identity) s
      (s\<lparr>ol_pending := p, ol_by_id := b, ol_finished := bm_insert key final (ol_finished s),
         ol_finished_ids := (case idn_id final of None \<Rightarrow> ol_finished_ids s | Some i \<Rightarrow> bm_insert i () (ol_finished_ids s))\<rparr>)"
| discarded: "locate s index identity = Inr (Some key) \<Longrightarrow> ensure_not_discarded s key identity = Inr ()
    \<Longrightarrow> \<not> has (ol_finished s) key \<Longrightarrow> (\<forall>i. idn_id identity = Some i \<longrightarrow> \<not> has (ol_finished_ids s) i)
    \<Longrightarrow> place = key \<or> (\<not> has (ol_pending s) key \<and> existing_id s identity = Some place)
    \<Longrightarrow> has (ol_pending s) place \<Longrightarrow> (\<forall>x. pending_id s place = Some x \<longrightarrow> idn_id identity = Some x)
    \<Longrightarrow> idn_id final = idn_id identity
    \<Longrightarrow> lc_moves maximum Discarded (index, identity) s
      (s\<lparr>ol_pending := bm_remove place (ol_pending s), ol_by_id := drop_at (idn_id final) (ol_by_id s),
         ol_discarded := bm_insert key final (ol_discarded s),
         ol_discarded_ids := (case idn_id final of None \<Rightarrow> ol_discarded_ids s | Some i \<Rightarrow> bm_insert i () (ol_discarded_ids s))\<rparr>)"

section \<open>The code takes these steps\<close>

lemma identity_merge_Inr:
  assumes "identity_merge a b = (Inr (), c)"
  shows "merge_agrees (idn_id a) (idn_id b)" and "idn_id c = opt_or (idn_id a) (idn_id b)"
  using assms by (auto simp: identity_merge_def Let_def split: if_splits)

lemma locate_None: "locate s index identity = Inr None \<Longrightarrow> index = None \<and> idn_id identity = None"
  by (auto simp: locate_def Let_def opt_or_def rbind_def split: option.splits sum.splits locator.splits)

lemma take_moved_Inr:
  assumes "take_moved key identity s = (Inr identity', s')"
  shows "s' = s\<lparr>ol_pending := drop_at (other_locator s identity key) (ol_pending s)\<rparr>"
    and "idn_id identity' = idn_id identity"
proof -
  from assms show "s' = s\<lparr>ol_pending := drop_at (other_locator s identity key) (ol_pending s)\<rparr>"
    by (auto simp: take_moved_def other_locator_def drop_at_def bm_remove_absent Let_def
        split: option.splits if_splits sum.splits prod.splits)
  from assms show "idn_id identity' = idn_id identity"
    by (auto simp: take_moved_def existing_id_def opt_or_def Let_def identity_merge_Inr
        split: option.splits if_splits sum.splits prod.splits)
qed

lemma tracked_count_drop:
  "has (ol_pending s) k \<Longrightarrow> tracked_count (s\<lparr>ol_pending := bm_remove k (ol_pending s)\<rparr>) < tracked_count s"
  by (auto simp: tracked_count_def dest: bm.len_remove_less)

lemma tracked_count_drop_le: "tracked_count (s\<lparr>ol_pending := drop_at k (ol_pending s)\<rparr>) \<le> tracked_count s"
  by (auto simp: tracked_count_def drop_at_def bm.len_remove_le split: option.splits)

lemma drop_at_absent: "(\<And>x. k = Some x \<Longrightarrow> bm_get m x = None) \<Longrightarrow> drop_at k m = m"
  by (rule bm_ext) auto

text \<open>With room left, nothing that was pending has been dropped when the limit refuses an item.\<close>

lemma full_drop:
  assumes "tracked_count s \<le> maximum" and "\<not> tracked_count (s\<lparr>ol_pending := drop_at k (ol_pending s)\<rparr>) < maximum"
  shows "drop_at k (ol_pending s) = ol_pending s" and "maximum \<le> tracked_count s"
proof -
  have "\<not> has (ol_pending s) x" if "k = Some x" for x
    using assms that tracked_count_drop [of s x] unfolding drop_at_def by fastforce
  then show "drop_at k (ol_pending s) = ol_pending s" by (intro drop_at_absent) auto
  then show "maximum \<le> tracked_count s" using assms by (simp add: tracked_count_def)
qed

lemma len_remove_drop:
  assumes "bm_len m \<le> bm_len (bm_remove k (drop_at k' m))"
  shows "bm_remove k (drop_at k' m) = m"
proof (rule bm_ext)
  fix x
  have "dom (bm_get (bm_remove k (drop_at k' m))) \<subseteq> dom (bm_get m)" by (auto split: if_splits)
  with assms have "dom (bm_get (bm_remove k (drop_at k' m))) = dom (bm_get m)"
    by (intro card_seteq) (auto simp: bm.len_card bm.finite_dom)
  then have "has (bm_remove k (drop_at k' m)) x \<longleftrightarrow> has m x" by (metis domIff)
  then show "bm_get (bm_remove k (drop_at k' m)) x = bm_get m x" by (auto split: if_splits)
qed

lemma put_pending_step:
  assumes put: "put_pending key identity' maximum (s\<lparr>ol_pending := drop_at (other_locator s identity key) (ol_pending s)\<rparr>) = (Inr (), t)"
    and at: "locate s index identity = Inr (Some key)" "ensure_not_discarded s key identity = Inr ()"
    and same: "idn_id identity' = idn_id identity" and room: "tracked_count s \<le> maximum"
  shows "lc_moves maximum Started (index, identity) s t"
proof -
  let ?s = "s\<lparr>ol_pending := drop_at (other_locator s identity key) (ol_pending s)\<rparr>"
  have other: "other_locator s identity key \<noteq> Some key"
    by (auto simp: other_locator_def split: option.splits)
  show ?thesis
  proof (cases "bm_get (ol_pending s) key")
    case (Some previous)
    with put other obtain final where m: "identity_merge previous identity' = (Inr (), final)"
      and t: "t = index_id key final (s\<lparr>ol_pending := bm_insert key final (drop_at (other_locator s identity key) (ol_pending s))\<rparr>)"
      by (auto simp: put_pending_def Let_def split: sum.splits prod.splits)
    show ?thesis unfolding t using at same Some identity_merge_Inr [OF m]
      by (intro lc_moves.started) (auto simp: pending_id_def)
  next
    case None
    show ?thesis
    proof (cases "tracked_count ?s < maximum")
      case True
      with put None other have t: "t = index_id key identity' (s\<lparr>ol_pending := bm_insert key identity' (drop_at (other_locator s identity key) (ol_pending s))\<rparr>)"
        by (auto simp: put_pending_def Let_def split: option.splits if_splits)
      show ?thesis unfolding t using at same None True
        by (intro lc_moves.started) (auto simp: pending_id_def merge_agrees_def opt_or_def)
    next
      case False
      with put None other full_drop [OF room False] have "t = s\<lparr>ol_unverified := True\<rparr>"
        by (auto simp: put_pending_def)
      then show ?thesis using full_drop [OF room False] by (simp add: lc_moves.full)
    qed
  qed
qed

lemma lc_start_step:
  assumes "lc_start index identity maximum s = (Inr (), t)" and "tracked_count s \<le> maximum"
  shows "lc_moves maximum Started (index, identity) s t"
proof -
  from assms(1) obtain located where l: "locate s index identity = Inr located"
    by (auto simp: lc_start_def abind_Inr_iff)
  show ?thesis
  proof (cases located)
    case None
    with assms(1) l locate_None [of s index identity] show ?thesis
      by (auto simp: lc_start_def abind_Inr_iff intro: lc_moves.lost)
  next
    case (Some key)
    with assms(1) l obtain identity' s' where nd: "ensure_not_discarded s key identity = Inr ()"
      and tm: "take_moved key identity s = (Inr identity', s')" and put: "put_pending key identity' maximum s' = (Inr (), t)"
      by (auto simp: lc_start_def abind_Inr_iff athen_Inr_iff)
    note put' = put [unfolded take_moved_Inr(1) [OF tm]]
    show ?thesis using l Some nd take_moved_Inr(2) [OF tm] assms(2) by (intro put_pending_step [OF put']) auto
  qed
qed

text \<open>Settling a locator forgets its pending evidence, which agreed with the finished item.\<close>

lemma settle_pending_Inr:
  assumes "settle_pending identity key s = (Inr (), t)"
  obtains b where "t = s\<lparr>ol_pending := bm_remove key (ol_pending s), ol_by_id := b\<rparr>"
    and "\<forall>x. pending_id s key = Some x \<longrightarrow> idn_id identity = Some x \<and> bm_get b x = None"
    and "\<forall>x. bm_get b x = None \<or> bm_get b x = bm_get (ol_by_id s) x"
    and "\<not> has (ol_pending s) key \<longrightarrow> b = ol_by_id s"
proof (cases "bm_get (ol_pending s) key")
  case None
  with assms show ?thesis
    by (intro that [of "ol_by_id s"]) (auto simp: settle_pending_def pending_id_def bm_remove_absent)
next
  case (Some previous)
  let ?b = "case idn_id previous of None \<Rightarrow> ol_by_id s | Some i \<Rightarrow> bm_remove i (ol_by_id s)"
  from assms Some have "t = s\<lparr>ol_pending := bm_remove key (ol_pending s), ol_by_id := ?b\<rparr>"
    and "is_none_or (idn_id previous) (\<lambda>i. Some i = idn_id identity)"
    by (auto simp: settle_pending_def split: if_splits)
  with Some show ?thesis by (intro that [of ?b]) (auto simp: pending_id_def split: option.splits)
qed

lemma put_finished_Inr:
  assumes "put_finished key identity maximum s = (Inr (), t)"
  obtains (full) "maximum \<le> tracked_count s" "\<not> has (ol_finished s) key" "t = s\<lparr>ol_unverified := True\<rparr>"
  | (put) final where "merge_agrees (Option.bind (bm_get (ol_finished s) key) idn_id) (idn_id identity)"
      and "idn_id final = opt_or (Option.bind (bm_get (ol_finished s) key) idn_id) (idn_id identity)"
      and "has (ol_finished s) key \<or> tracked_count s < maximum"
      and "t = s\<lparr>ol_finished := bm_insert key final (ol_finished s),
        ol_finished_ids := (case idn_id final of None \<Rightarrow> ol_finished_ids s | Some i \<Rightarrow> bm_insert i () (ol_finished_ids s))\<rparr>"
proof (cases "bm_get (ol_finished s) key")
  case (Some previous)
  with assms obtain final where "identity_merge previous identity = (Inr (), final)"
    and "t = s\<lparr>ol_finished := bm_insert key final (ol_finished s),
        ol_finished_ids := (case idn_id final of None \<Rightarrow> ol_finished_ids s | Some i \<Rightarrow> bm_insert i () (ol_finished_ids s))\<rparr>"
    by (auto simp: put_finished_def Let_def split: sum.splits prod.splits option.splits)
  with Some identity_merge_Inr show ?thesis by (intro put [of final]) auto
next
  case None
  show ?thesis
  proof (cases "tracked_count s < maximum")
    case True
    with None assms show ?thesis
      by (intro put [of identity]) (auto simp: put_finished_def Let_def merge_agrees_def opt_or_def split: option.splits)
  next
    case False
    with None assms show ?thesis by (intro full) (auto simp: put_finished_def Let_def)
  qed
qed

lemma other_locator_pending:
  assumes "locate s index identity = Inr (Some key)"
  shows "other_locator s identity key \<noteq> Some (LIndex i)" and "other_locator s identity key \<noteq> Some key"
  using assms by (auto simp: other_locator_def locate_def Let_def opt_or_def rbind_Inr_iff
      split: option.splits if_splits locator.splits)

lemma settle_both:
  assumes "settle_pending identity key s = (Inr (), s1)"
    and "settle_other identity key (existing_id s identity) s1 = (Inr (), s2)"
  obtains b where "s2 = s\<lparr>ol_pending := bm_remove key (drop_at (other_locator s identity key) (ol_pending s)), ol_by_id := b\<rparr>"
    and "\<forall>key' \<in> {key} \<union> set_option (other_locator s identity key).
      \<forall>x. pending_id s key' = Some x \<longrightarrow> idn_id identity = Some x \<and> bm_get b x = None"
    and "\<forall>x. bm_get b x = None \<or> bm_get b x = bm_get (ol_by_id s) x"
    and "bm_remove key (drop_at (other_locator s identity key) (ol_pending s)) = ol_pending s \<longrightarrow> b = ol_by_id s"
proof -
  from assms(1) obtain b1 where s1: "s1 = s\<lparr>ol_pending := bm_remove key (ol_pending s), ol_by_id := b1\<rparr>"
    and b1: "\<forall>x. pending_id s key = Some x \<longrightarrow> idn_id identity = Some x \<and> bm_get b1 x = None"
      "\<forall>x. bm_get b1 x = None \<or> bm_get b1 x = bm_get (ol_by_id s) x"
      "\<not> has (ol_pending s) key \<longrightarrow> b1 = ol_by_id s"
    by (rule settle_pending_Inr)
  have gone: "\<not> has (ol_pending s) x" if "bm_remove key (drop_at (other_locator s identity key) (ol_pending s)) = ol_pending s"
      and "x = key \<or> other_locator s identity key = Some x" for x
  proof -
    have "bm_get (bm_remove key (drop_at (other_locator s identity key) (ol_pending s))) x = None" using that(2) by auto
    with that(1) show ?thesis by simp
  qed
  show ?thesis
  proof (cases "other_locator s identity key")
    case None
    then have "s2 = s1" using assms(2) by (auto simp: settle_other_def other_locator_def split: option.splits if_splits)
    with None s1 b1 gone show ?thesis by (intro that [of b1]) (auto simp: drop_at_def)
  next
    case (Some o')
    then have e: "settle_pending identity o' s1 = (Inr (), s2)" and ne: "o' \<noteq> key"
      using assms(2) by (auto simp: settle_other_def other_locator_def split: option.splits if_splits)
    from e obtain b where "s2 = s1\<lparr>ol_pending := bm_remove o' (ol_pending s1), ol_by_id := b\<rparr>"
      and b: "\<forall>x. pending_id s1 o' = Some x \<longrightarrow> idn_id identity = Some x \<and> bm_get b x = None"
        "\<forall>x. bm_get b x = None \<or> bm_get b x = bm_get (ol_by_id s1) x"
        "\<not> has (ol_pending s1) o' \<longrightarrow> b = ol_by_id s1"
      by (rule settle_pending_Inr)
    moreover have "bm_remove o' (bm_remove key (ol_pending s)) = bm_remove key (bm_remove o' (ol_pending s))"
      by (rule bm_ext) auto
    moreover have "pending_id s1 o' = pending_id s o'" using ne by (simp add: s1 pending_id_def)
    moreover have "b = ol_by_id s" if "bm_remove key (drop_at (other_locator s identity key) (ol_pending s)) = ol_pending s"
      using gone [OF that] Some b(3) b1(3) by (simp add: s1)
    ultimately show ?thesis using s1 b1(1,2) b Some
      by (intro that [of b]) (auto simp: drop_at_def, (metis option.distinct(1))+)
  qed
qed

lemma lc_finish_step:
  assumes "lc_finish index identity maximum s = (Inr (), t)" and room: "tracked_count s \<le> maximum"
  shows "lc_moves maximum Finished (index, identity) s t"
proof -
  from assms(1) obtain located where l: "locate s index identity = Inr located"
    by (auto simp: lc_finish_def abind_Inr_iff)
  show ?thesis
  proof (cases located)
    case None
    with assms(1) l locate_None [of s index identity] show ?thesis
      by (auto simp: lc_finish_def abind_Inr_iff intro: lc_moves.unnamed)
  next
    case (Some key)
    with assms(1) l obtain s1 s2 where nd: "ensure_not_discarded s key identity = Inr ()"
      and st: "settle_pending identity key s = (Inr (), s1)" "settle_other identity key (existing_id s identity) s1 = (Inr (), s2)"
      and put: "put_finished key identity maximum s2 = (Inr (), t)"
      by (auto simp: lc_finish_def abind_Inr_iff athen_Inr_iff settle_other_def)
    from st obtain b where s2: "s2 = s\<lparr>ol_pending := bm_remove key (drop_at (other_locator s identity key) (ol_pending s)), ol_by_id := b\<rparr>"
      and b: "\<forall>key' \<in> {key} \<union> set_option (other_locator s identity key).
          \<forall>x. pending_id s key' = Some x \<longrightarrow> idn_id identity = Some x \<and> bm_get b x = None"
        "\<forall>x. bm_get b x = None \<or> bm_get b x = bm_get (ol_by_id s) x"
        "bm_remove key (drop_at (other_locator s identity key) (ol_pending s)) = ol_pending s \<longrightarrow> b = ol_by_id s"
      by (rule settle_both)
    from put show ?thesis
    proof (cases rule: put_finished_Inr)
      case (put final)
      have "lc_moves maximum Finished (index, identity) s
        (s\<lparr>ol_pending := bm_remove key (drop_at (other_locator s identity key) (ol_pending s)), ol_by_id := b,
           ol_finished := bm_insert key final (ol_finished s),
           ol_finished_ids := (case idn_id final of None \<Rightarrow> ol_finished_ids s | Some i \<Rightarrow> bm_insert i () (ol_finished_ids s))\<rparr>)"
        using l Some nd b(1,2) put(1-3) by (intro lc_moves.finished) (auto simp: s2 tracked_count_def)
      then show ?thesis by (simp add: put(4) s2 cong: option.case_cong)
    next
      case full
      have "bm_remove key (drop_at (other_locator s identity key) (ol_pending s)) = ol_pending s"
        using full(1) room by (intro len_remove_drop) (simp add: s2 tracked_count_def)
      then have "t = s\<lparr>ol_unverified := True\<rparr>" and "maximum \<le> tracked_count s"
        using full b(3) by (simp_all add: s2 tracked_count_def)
      then show ?thesis by (simp add: lc_moves.full)
    qed
  qed
qed

lemma discard_pending_Inr:
  assumes "discard_pending key place identity s = (Inr (), t)"
  obtains final where "has (ol_pending s) place" and "\<forall>x. pending_id s place = Some x \<longrightarrow> idn_id identity = Some x"
    and "idn_id final = idn_id identity"
    and "t = s\<lparr>ol_pending := bm_remove place (ol_pending s), ol_by_id := drop_at (idn_id final) (ol_by_id s),
      ol_discarded := bm_insert key final (ol_discarded s),
      ol_discarded_ids := (case idn_id final of None \<Rightarrow> ol_discarded_ids s | Some i \<Rightarrow> bm_insert i () (ol_discarded_ids s))\<rparr>"
proof -
  from assms obtain previous final
    where p: "bm_get (ol_pending s) place = Some previous" "is_none_or (idn_id previous) (\<lambda>i. idn_id identity = Some i)"
      and m: "identity_merge previous identity = (Inr (), final)"
      and t: "t = (let u = note_discarded final (s\<lparr>ol_pending := bm_remove place (ol_pending s)\<rparr>)
        in u\<lparr>ol_discarded := bm_insert key final (ol_discarded u)\<rparr>)"
    by (auto simp: discard_pending_def Let_def split: option.splits if_splits prod.splits sum.splits)
  have "idn_id final = idn_id identity"
    using identity_merge_Inr [OF m] p(2) by (auto simp: opt_or_def split: option.splits)
  with p t show ?thesis
    by (intro that [of final])
      (auto simp: pending_id_def is_none_or_iff note_discarded_def drop_at_def Let_def split: option.splits)
qed

lemma lc_discard_step:
  assumes "lc_discard index identity s = (Inr (), t)"
  shows "lc_moves maximum Discarded (index, identity) s t"
proof -
  from assms obtain key where l: "locate s index identity = Inr (Some key)"
      and nd: "ensure_not_discarded s key identity = Inr ()"
      and fin: "\<not> has (ol_finished s) key" "\<forall>i. idn_id identity = Some i \<longrightarrow> \<not> has (ol_finished_ids s) i"
      and d: "discard_pending key (pending_place s key identity) identity s = (Inr (), t)"
    by (auto simp: lc_discard_def abind_Inr_iff rbind_Inr_iff is_some_and_iff split: prod.splits)
  have place: "pending_place s key identity = key
      \<or> (\<not> has (ol_pending s) key \<and> existing_id s identity = Some (pending_place s key identity))"
    by (auto simp: pending_place_def split: option.splits)
  from d show ?thesis
  proof (rule discard_pending_Inr)
    fix final
    assume f: "has (ol_pending s) (pending_place s key identity)"
      "\<forall>x. pending_id s (pending_place s key identity) = Some x \<longrightarrow> idn_id identity = Some x"
      "idn_id final = idn_id identity"
      and t: "t = s\<lparr>ol_pending := bm_remove (pending_place s key identity) (ol_pending s),
        ol_by_id := drop_at (idn_id final) (ol_by_id s), ol_discarded := bm_insert key final (ol_discarded s),
        ol_discarded_ids := (case idn_id final of None \<Rightarrow> ol_discarded_ids s | Some i \<Rightarrow> bm_insert i () (ol_discarded_ids s))\<rparr>"
    show ?thesis unfolding t by (rule lc_moves.discarded [OF l nd fin place f])
  qed
qed

section \<open>Whole events\<close>

definition enumerated :: "externals \<Rightarrow> nat \<Rightarrow> json list \<Rightarrow> report list" where
  "enumerated ext n items = map (\<lambda>(i, item). (Some i, identity_item ext item)) (zip [n..<n + length items] items)"

definition created_items :: "json \<Rightarrow> json list" where
  "created_items event = (case Option.bind (pointer event [''response'', ''output'']) as_array of Some items \<Rightarrow> items | None \<Rightarrow> [])"

definition event_action :: "json \<Rightarrow> lc_action" where
  "event_action event =
     (if kind_or_empty event = ''response.output_item.interrupted'' then Discarded
      else if kind_or_empty event = ''response.output_item.done'' \<and> \<not> unfinished (jindex event ''item'') then Finished
      else Started)"

text \<open>What an event reports, and as what.\<close>

definition event_reports :: "externals \<Rightarrow> json \<Rightarrow> (lc_action \<times> report) list" where
  "event_reports ext event =
     (if kind_or_empty event \<in> {''response.created'', ''response.in_progress''}
      then map (Pair Started) (enumerated ext 0 (created_items event))
      else if is_output_event event
      then (case (event_index event, event_identity ext event) of
          (Inr index, Inr identity) \<Rightarrow> [(event_action event, index, identity)] | _ \<Rightarrow> [])
      else [])"

inductive lc_run :: "nat \<Rightarrow> (lc_action \<times> report) list \<Rightarrow> output_lifecycle \<Rightarrow> output_lifecycle \<Rightarrow> bool" for maximum where
  lc_run_Nil: "lc_run maximum [] s s"
| lc_run_Cons: "lc_moves maximum a r s s' \<Longrightarrow> lc_run maximum rs s' t \<Longrightarrow> lc_run maximum ((a, r) # rs) s t"

lemma lc_run_append: "lc_run maximum xs s t \<Longrightarrow> lc_run maximum ys t u \<Longrightarrow> lc_run maximum (xs @ ys) s u"
  by (induction rule: lc_run.induct) (auto intro: lc_run.intros)

lemma bm_len_insert_le: "bm_len (bm_insert k v m) \<le> bm_len m + 1"
  by (cases "bm_get m k") (simp_all add: bm.len_insert_new bm.len_insert_old)

lemma bm_len_insert_has: "has m k \<Longrightarrow> bm_len (bm_insert k v m) = bm_len m"
  by (simp add: bm.len_insert_old)

lemma index_id_simps [simp]:
  "ol_pending (index_id key identity s) = ol_pending s"
  "ol_finished (index_id key identity s) = ol_finished s"
  "ol_finished_ids (index_id key identity s) = ol_finished_ids s"
  "ol_discarded (index_id key identity s) = ol_discarded s"
  "ol_discarded_ids (index_id key identity s) = ol_discarded_ids s"
  "ol_unverified (index_id key identity s) = ol_unverified s"
  "bm_get (ol_by_id (index_id key identity s)) x = (if idn_id identity = Some x then Some key else bm_get (ol_by_id s) x)"
  by (simp_all add: index_id_def split: option.splits)

lemma lc_moves_bounded:
  assumes "lc_moves maximum a r s t" and "tracked_count s \<le> maximum"
  shows "tracked_count t \<le> maximum"
  using assms
proof (cases rule: lc_moves.cases)
  case (started index identity key final)
  let ?p = "drop_at (other_locator s identity key) (ol_pending s)"
  have "bm_len ?p \<le> bm_len (ol_pending s)" by (simp add: drop_at_def bm.len_remove_le split: option.splits)
  moreover have "bm_len (bm_insert key final ?p) = bm_len ?p" if "has (ol_pending s) key"
    using that other_locator_pending(2) [OF started(4)] by (simp add: bm_len_insert_has)
  ultimately show ?thesis
    using started assms(2) bm_len_insert_le [of key final ?p] by (auto simp: tracked_count_def)
next
  case (finished index identity key p b final)
  have "bm_len p \<le> bm_len (ol_pending s)"
    unfolding finished by (intro bm.len_mono) (auto split: if_splits)
  then show ?thesis
    using finished assms(2) bm_len_insert_le [of key final "ol_finished s"] bm_len_insert_has [of "ol_finished s" key final]
    by (auto simp: tracked_count_def)
next
  case (discarded index identity key place final)
  from \<open>has (ol_pending s) place\<close> have "bm_len (bm_remove place (ol_pending s)) + 1 = bm_len (ol_pending s)"
    using bm.len_remove by fastforce
  then show ?thesis using discarded(3) assms(2) bm_len_insert_le [of key final "ol_discarded s"]
    by (simp add: tracked_count_def)
qed (simp_all add: tracked_count_def)

lemma start_items_run:
  assumes "start_items ext maximum n items s = (Inr (), t)" and "tracked_count s \<le> maximum"
  shows "lc_run maximum (map (Pair Started) (enumerated ext n items)) s t"
  using assms
proof (induction items arbitrary: n s)
  case (Cons item items)
  then obtain s' where st: "lc_start (Some n) (identity_item ext item) maximum s = (Inr (), s')"
    and rest: "start_items ext maximum (Suc n) items s' = (Inr (), t)"
    by (auto simp: athen_Inr_iff)
  from lc_start_step [OF st] Cons.prems(2) have m: "lc_moves maximum Started (Some n, identity_item ext item) s s'" .
  with Cons.IH [OF rest] Cons.prems(2) show ?case
    by (auto simp: enumerated_def upt_rec [of n] intro!: lc_run_Cons lc_moves_bounded simp del: upt_Suc)
qed (simp add: enumerated_def lc_run_Nil)

lemma observe_run:
  assumes "observe_with_interrupt ext event maximum flag s = (Inr (), t)" and "tracked_count s \<le> maximum"
  shows "lc_run maximum (event_reports ext event) s t"
    and "\<forall>r. (Discarded, r) \<in> set (event_reports ext event) \<longrightarrow> flag"
proof -
  let ?k = "kind_or_empty event"
  consider (created) "?k \<in> {''response.created'', ''response.in_progress''}"
    | (outputs) "?k \<notin> {''response.created'', ''response.in_progress''}" "is_output_event event"
    | (other) "?k \<notin> {''response.created'', ''response.in_progress''}" "\<not> is_output_event event" by blast
  then have "lc_run maximum (event_reports ext event) s t \<and> (\<forall>r. (Discarded, r) \<in> set (event_reports ext event) \<longrightarrow> flag)"
  proof cases
    case created
    with assms start_items_run [of ext maximum 0 "created_items event" s t] show ?thesis
      by (auto simp: observe_with_interrupt_def Let_def event_reports_def created_items_def enumerated_def lc_run_Nil
          split: option.splits)
  next
    case outputs
    with assms(1) obtain index identity where "event_index event = Inr index" "event_identity ext event = Inr identity"
      by (auto simp: observe_with_interrupt_def Let_def abind_Inr_iff)
    with outputs assms lc_start_step lc_finish_step lc_discard_step show ?thesis
      by (auto simp: observe_with_interrupt_def Let_def event_reports_def event_action_def abind_Inr_iff athen_Inr_iff
          intro!: lc_run_Cons lc_run_Nil split: if_splits)
  next
    case other
    with assms show ?thesis by (auto simp: observe_with_interrupt_def Let_def event_reports_def lc_run_Nil)
  qed
  then show "lc_run maximum (event_reports ext event) s t"
    and "\<forall>r. (Discarded, r) \<in> set (event_reports ext event) \<longrightarrow> flag" by blast+
qed

end
