(* ===== verification/Output_Correct.thy ===== *)
theory Output_Correct
  imports Output_Steps Ledger_Demo
begin

text \<open>
  What the evidence about a response's output guarantees: it stays within its bound, a response is
  accepted as complete only when every item that was reported was finished or is in the final
  output, and an interrupted one only when every reported item was finished or discarded.
\<close>

section \<open>Bounded evidence\<close>

text \<open>Each index of identities is covered by the entries of its map.\<close>

definition ids_covered :: "output_lifecycle \<Rightarrow> bool" where
  "ids_covered s \<longleftrightarrow>
     (\<forall>x loc. bm_get (ol_by_id s) x = Some loc \<longrightarrow> pending_id s loc = Some x)
     \<and> (\<forall>x. has (ol_finished_ids s) x \<longrightarrow> (\<exists>loc p. bm_get (ol_finished s) loc = Some p \<and> idn_id p = Some x))
     \<and> (\<forall>x. has (ol_discarded_ids s) x \<longrightarrow> (\<exists>loc p. bm_get (ol_discarded s) loc = Some p \<and> idn_id p = Some x))"

lemma len_le_by_witness:
  assumes "\<And>x. has (m :: ('a::linorder, 'b) btree_map) x \<Longrightarrow> \<exists>loc p. bm_get (n :: ('c::linorder, 'd) btree_map) loc = Some p \<and> f p = Some x"
  shows "bm_len m \<le> bm_len n"
proof -
  have "dom (bm_get m) \<subseteq> (\<lambda>loc. the (f (the (bm_get n loc)))) ` dom (bm_get n)"
  proof
    fix x assume "x \<in> dom (bm_get m)"
    with assms [of x] obtain loc p where "bm_get n loc = Some p" "f p = Some x" by auto
    then show "x \<in> (\<lambda>loc. the (f (the (bm_get n loc)))) ` dom (bm_get n)" by (intro image_eqI [of _ _ loc]) auto
  qed
  then have "card (dom (bm_get m)) \<le> card (dom (bm_get n))" by (intro surj_card_le) (auto simp: bm.finite_dom)
  then show ?thesis by (simp add: bm.len_card)
qed

lemma ids_covered_bound:
  assumes "ids_covered s" and "tracked_count s \<le> maximum"
  shows "lifecycle_retained_bytes s \<le> 320 * maximum"
proof -
  have "bm_len (ol_by_id s) \<le> bm_len (ol_pending s)"
    using assms(1) by (intro len_le_by_witness [where f = idn_id]) (fastforce simp: ids_covered_def pending_id_def bind_eq_Some_conv)
  moreover have "bm_len (ol_finished_ids s) \<le> bm_len (ol_finished s)" "bm_len (ol_discarded_ids s) \<le> bm_len (ol_discarded s)"
    using assms(1) by (intro len_le_by_witness [where f = idn_id], fastforce simp: ids_covered_def)+
  ultimately show ?thesis using assms(2) by (simp add: lifecycle_retained_bytes_def tracked_count_def)
qed

lemma opt_or_simps [simp]: "opt_or None b = b" "opt_or (Some x) b = Some x" "opt_or b None = b"
  by (auto simp: opt_or_def split: option.splits)

lemma existing_id_Some: "existing_id s identity = Some loc \<longleftrightarrow> (\<exists>x. idn_id identity = Some x \<and> bm_get (ol_by_id s) x = Some loc)"
  by (auto simp: existing_id_def bind_eq_Some_conv)

lemma other_locator_Some:
  "other_locator s identity key = Some loc \<longleftrightarrow> existing_id s identity = Some loc \<and> loc \<noteq> key"
  by (auto simp: other_locator_def split: option.splits)

lemma by_id_step:
  assumes "lc_moves maximum a r s t" and cov: "\<And>x loc. bm_get (ol_by_id s) x = Some loc \<Longrightarrow> pending_id s loc = Some x"
    and "bm_get (ol_by_id t) x = Some loc"
  shows "pending_id t loc = Some x"
  using assms(1)
proof (cases rule: lc_moves.cases)
  case (started index identity key final)
  show ?thesis
  proof (cases "idn_id final = Some x")
    case True
    with started(3) assms(3) show ?thesis by (simp add: pending_id_def)
  next
    case False
    with started(3) assms(3) have old: "bm_get (ol_by_id s) x = Some loc" by simp
    then have pend: "pending_id s loc = Some x" by (rule cov)
    have "loc \<noteq> key" using pend started(7) False by auto
    moreover have "other_locator s identity key \<noteq> Some loc"
    proof
      assume "other_locator s identity key = Some loc"
      then obtain y where y: "idn_id identity = Some y" "bm_get (ol_by_id s) y = Some loc"
        by (auto simp: other_locator_Some existing_id_Some)
      with cov pend have "y = x" by force
      with y(1) started(6,7) False show False by (cases "pending_id s key") (auto simp: merge_agrees_def)
    qed
    ultimately show ?thesis using started(3) pend by (simp add: pending_id_def)
  qed
next
  case (finished index identity key p b final)
  from finished(3) assms(3) have b: "bm_get b x = Some loc" by simp
  with finished(8) have "bm_get (ol_by_id s) x = Some loc" by (metis option.distinct(1))
  then have pend: "pending_id s loc = Some x" by (intro cov)
  with finished(7) b have "loc \<noteq> key" "other_locator s identity key \<noteq> Some loc" by auto
  with pend finished show ?thesis by (simp add: pending_id_def)
next
  case (discarded index identity key place final)
  with assms(3) have old: "bm_get (ol_by_id s) x = Some loc" and ne: "idn_id identity \<noteq> Some x" by (auto split: if_splits)
  then have pend: "pending_id s loc = Some x" by (intro cov)
  with discarded(10) ne have "loc \<noteq> place" by auto
  with pend discarded show ?thesis by (simp add: pending_id_def)
qed (use assms(2,3) in \<open>auto simp: pending_id_def\<close>)

lemma ids_covered_step:
  assumes "lc_moves maximum a r s t" and "ids_covered s"
  shows "ids_covered t"
proof -
  have "\<forall>x loc. bm_get (ol_by_id t) x = Some loc \<longrightarrow> pending_id t loc = Some x"
    using by_id_step [OF assms(1)] assms(2) by (simp add: ids_covered_def)
  moreover have "\<forall>x. has (ol_finished_ids t) x \<longrightarrow> (\<exists>loc p. bm_get (ol_finished t) loc = Some p \<and> idn_id p = Some x)"
    using assms
  proof (cases rule: lc_moves.cases)
    case (finished index identity key p b final)
    show ?thesis
    proof (intro allI impI)
      fix x assume x: "has (ol_finished_ids t) x"
      show "\<exists>loc p. bm_get (ol_finished t) loc = Some p \<and> idn_id p = Some x"
      proof (cases "idn_id final = Some x")
        case True
        with finished(3) show ?thesis by auto
      next
        case False
        with x finished(3) assms(2) obtain loc p where "bm_get (ol_finished s) loc = Some p" "idn_id p = Some x"
          by (auto simp: ids_covered_def split: option.splits if_splits)
        with finished(3,10) False show ?thesis by (cases "loc = key") auto
      qed
    qed
  qed (auto simp: ids_covered_def)
  moreover have "\<forall>x. has (ol_discarded_ids t) x \<longrightarrow> (\<exists>loc p. bm_get (ol_discarded t) loc = Some p \<and> idn_id p = Some x)"
    using assms
  proof (cases rule: lc_moves.cases)
    case (discarded index identity key place final)
    show ?thesis
    proof (intro allI impI)
      fix x assume x: "has (ol_discarded_ids t) x"
      show "\<exists>loc p. bm_get (ol_discarded t) loc = Some p \<and> idn_id p = Some x"
      proof (cases "idn_id final = Some x")
        case True
        with discarded(3) show ?thesis by auto
      next
        case False
        with x discarded(3) assms(2) obtain loc p where "bm_get (ol_discarded s) loc = Some p" "idn_id p = Some x"
          by (auto simp: ids_covered_def split: option.splits if_splits)
        with discarded(3,5) show ?thesis by (cases "loc = key") (auto simp: ensure_not_discarded_def)
      qed
    qed
  qed (auto simp: ids_covered_def)
  ultimately show ?thesis by (simp add: ids_covered_def)
qed

section \<open>Accounting for reported items\<close>

text \<open>
  A position is \<open>position_settled\<close> by an action when an event of that kind names it, or names the identity that
  another event gave for it.
\<close>

definition named :: "lc_action \<Rightarrow> string \<Rightarrow> (lc_action \<times> report) list \<Rightarrow> bool" where
  "named a x rs \<longleftrightarrow> (\<exists>ix identity. (a, ix, identity) \<in> set rs \<and> idn_id identity = Some x)"

definition reported_as :: "nat \<Rightarrow> string \<Rightarrow> (lc_action \<times> report) list \<Rightarrow> bool" where
  "reported_as i x rs \<longleftrightarrow> (\<exists>a identity. (a, Some i, identity) \<in> set rs \<and> idn_id identity = Some x)"

definition position_settled :: "lc_action \<Rightarrow> nat \<Rightarrow> (lc_action \<times> report) list \<Rightarrow> bool" where
  "position_settled a i rs \<longleftrightarrow> (\<exists>identity. (a, Some i, identity) \<in> set rs) \<or> (\<exists>x. reported_as i x rs \<and> named a x rs)"

lemma named_append [simp]: "named a x (rs @ [(a', ix, identity)]) \<longleftrightarrow> named a x rs \<or> (a = a' \<and> idn_id identity = Some x)"
  by (auto simp: named_def)

lemma reported_as_append [simp]:
  "reported_as i x (rs @ [(a', ix, identity)]) \<longleftrightarrow> reported_as i x rs \<or> (ix = Some i \<and> idn_id identity = Some x)"
  by (auto simp: reported_as_def)

lemma position_settled_mono: "position_settled a i rs \<Longrightarrow> position_settled a i (rs @ [r])"
  by (cases r) (auto simp: position_settled_def)

definition positions_kept :: "(lc_action \<times> report) list \<Rightarrow> output_lifecycle \<Rightarrow> bool" where
  "positions_kept rs s \<longleftrightarrow> (\<forall>a i identity. (a, Some i, identity) \<in> set rs \<longrightarrow>
     ol_unverified s \<or> has (ol_pending s) (LIndex i) \<or> has (ol_finished s) (LIndex i) \<or> has (ol_discarded s) (LIndex i))"

definition names_kept :: "(lc_action \<times> report) list \<Rightarrow> output_lifecycle \<Rightarrow> bool" where
  "names_kept rs s \<longleftrightarrow> (\<forall>a x. named a x rs \<longrightarrow>
     ol_unverified s \<or> (\<exists>loc. pending_id s loc = Some x) \<or> has (ol_finished_ids s) x \<or> has (ol_discarded_ids s) x)"

definition pending_reported :: "(lc_action \<times> report) list \<Rightarrow> output_lifecycle \<Rightarrow> bool" where
  "pending_reported rs s \<longleftrightarrow> (\<forall>i x. pending_id s (LIndex i) = Some x \<longrightarrow> reported_as i x rs)
     \<and> (\<forall>x. has (ol_pending s) (LId x) \<longrightarrow> pending_id s (LId x) = Some x)"

definition finished_reported :: "(lc_action \<times> report) list \<Rightarrow> output_lifecycle \<Rightarrow> bool" where
  "finished_reported rs s \<longleftrightarrow> (\<forall>i. has (ol_finished s) (LIndex i) \<longrightarrow> position_settled Finished i rs)
     \<and> (\<forall>loc p x. bm_get (ol_finished s) loc = Some p \<and> idn_id p = Some x \<longrightarrow> named Finished x rs)"

definition discarded_reported :: "(lc_action \<times> report) list \<Rightarrow> output_lifecycle \<Rightarrow> bool" where
  "discarded_reported rs s \<longleftrightarrow> (\<forall>i. has (ol_discarded s) (LIndex i) \<longrightarrow> position_settled Discarded i rs)
     \<and> (\<forall>loc p x. bm_get (ol_discarded s) loc = Some p \<and> idn_id p = Some x \<longrightarrow> named Discarded x rs)"

text \<open>The key of an operation: the reported position, or where the identity already is.\<close>

lemma locate_cases:
  assumes "locate s index identity = Inr (Some key)"
  obtains (position) i where "index = Some i" "key = LIndex i"
  | (known) x where "index = None" "idn_id identity = Some x" "bm_get (ol_by_id s) x = Some key"
  | (fresh) x where "index = None" "idn_id identity = Some x" "bm_get (ol_by_id s) x = None" "key = LId x"
  using assms
  by (auto simp: locate_def Let_def rbind_Inr_iff opt_or_def existing_id_def bind_eq_Some_conv split: option.splits)

lemma locate_position: "locate s (Some i) identity = Inr (Some key) \<Longrightarrow> key = LIndex i"
  by (erule locate_cases) auto

lemma positions_kept_step:
  assumes "lc_moves maximum a r s t" and "positions_kept rs s"
  shows "positions_kept (rs @ [(a, r)]) t"
  using assms
proof (cases rule: lc_moves.cases)
  case (started index identity key final)
  with assms(2) other_locator_pending(1) [OF started(4)] show ?thesis
    by (auto simp: positions_kept_def dest: locate_position)
next
  case (finished index identity key p b final)
  with assms(2) other_locator_pending(1) [OF finished(4)] show ?thesis
    by (auto simp: positions_kept_def dest: locate_position)
next
  case (discarded index identity key place final)
  have place: "place = LIndex i \<Longrightarrow> key = LIndex i" for i
    using discarded(8) other_locator_pending(1) [OF discarded(4)] by (auto simp: other_locator_Some)
  show ?thesis unfolding positions_kept_def
  proof (intro allI impI)
    fix b i identity'
    assume in': "(b, Some i, identity') \<in> set (rs @ [(a, r)])"
    show "ol_unverified t \<or> has (ol_pending t) (LIndex i) \<or> has (ol_finished t) (LIndex i) \<or> has (ol_discarded t) (LIndex i)"
    proof (cases "key = LIndex i")
      case True
      with discarded(3) show ?thesis by simp
    next
      case False
      then have "index \<noteq> Some i" using locate_position discarded(4) by blast
      with in' discarded(2) have "(b, Some i, identity') \<in> set rs" by simp
      with assms(2) have "ol_unverified s \<or> has (ol_pending s) (LIndex i) \<or> has (ol_finished s) (LIndex i) \<or> has (ol_discarded s) (LIndex i)"
        unfolding positions_kept_def by blast
      moreover have "place \<noteq> LIndex i" using place False by blast
      ultimately show ?thesis using False by (simp add: discarded(3))
    qed
  qed
qed (auto simp: positions_kept_def)

lemma names_kept_step:
  assumes "lc_moves maximum a r s t" and "names_kept rs s" and "ids_covered s"
  shows "names_kept (rs @ [(a, r)]) t"
  using assms(1)
proof (cases rule: lc_moves.cases)
  case (started index identity key final)
  have new: "pending_id t key = Some x" if "idn_id identity = Some x" for x
  proof -
    have "idn_id final = Some x" using that started(6,7) by (cases "pending_id s key") (auto simp: merge_agrees_def)
    with started(3) show ?thesis by (simp add: pending_id_def)
  qed
  have old: "\<exists>loc. pending_id t loc = Some x" if "pending_id s loc = Some x" for x loc
  proof (cases "loc = key \<or> other_locator s identity key = Some loc")
    case True
    then have "pending_id t key = Some x"
    proof
      assume "loc = key"
      with that started(3,7) show ?thesis by (simp add: pending_id_def)
    next
      assume "other_locator s identity key = Some loc"
      with assms(3) that have "idn_id identity = Some x" by (auto simp: other_locator_Some existing_id_Some ids_covered_def)
      then show ?thesis by (rule new)
    qed
    then show ?thesis ..
  next
    case False
    with that started(3) show ?thesis by (intro exI [of _ loc]) (simp add: pending_id_def)
  qed
  show ?thesis using assms(2) new old started(1,2,3) by (simp add: names_kept_def) blast
next
  case (finished index identity key p b final)
  have new: "has (ol_finished_ids t) x" if "idn_id identity = Some x" for x
  proof -
    have "idn_id final = Some x"
      using that finished(9,10) by (cases "Option.bind (bm_get (ol_finished s) key) idn_id") (auto simp: merge_agrees_def)
    with finished(3) show ?thesis by simp
  qed
  have old: "(\<exists>loc. pending_id t loc = Some x) \<or> has (ol_finished_ids t) x" if "pending_id s loc = Some x" for x loc
  proof (cases "loc = key \<or> other_locator s identity key = Some loc")
    case True
    with that finished(7) have "idn_id identity = Some x" by auto
    with new show ?thesis by blast
  next
    case False
    with that finished(3,6) show ?thesis by (intro disjI1 exI [of _ loc]) (simp add: pending_id_def)
  qed
  have keep: "has (ol_finished_ids s) x \<Longrightarrow> has (ol_finished_ids t) x" for x
    using finished(3) by (auto split: option.splits)
  show ?thesis using assms(2) new old keep finished(1,2,3) by (simp add: names_kept_def) blast
next
  case (discarded index identity key place final)
  have new: "has (ol_discarded_ids t) x" if "idn_id identity = Some x" for x
    using that discarded(3,11) by simp
  have old: "(\<exists>loc. pending_id t loc = Some x) \<or> has (ol_discarded_ids t) x" if "pending_id s loc = Some x" for x loc
  proof (cases "loc = place")
    case True
    with that discarded(10) new show ?thesis by blast
  next
    case False
    with that discarded(3) show ?thesis by (intro disjI1 exI [of _ loc]) (simp add: pending_id_def)
  qed
  have keep: "has (ol_discarded_ids s) x \<Longrightarrow> has (ol_discarded_ids t) x" for x
    using discarded(3) by (auto split: option.splits)
  show ?thesis using assms(2) new old keep discarded(1,2,3) by (simp add: names_kept_def) blast
qed (use assms(2) in \<open>auto simp: names_kept_def pending_id_def\<close>)

lemma pending_reported_step:
  assumes "lc_moves maximum a r s t" and "pending_reported rs s" and "ids_covered s"
  shows "pending_reported (rs @ [(a, r)]) t"
  using assms(1)
proof (cases rule: lc_moves.cases)
  case (started index identity key final)
  have known: "bm_get (ol_by_id s) x = Some loc \<Longrightarrow> pending_id s loc = Some x" for x loc
    using assms(3) by (simp add: ids_covered_def)
  have at: "pending_id t loc = (if loc = key then idn_id final else if other_locator s identity key = Some loc then None else pending_id s loc)" for loc
    using started(3) by (simp add: pending_id_def)
  have "reported_as i x (rs @ [(a, r)])" if "pending_id t (LIndex i) = Some x" for i x
    using that assms(2) started(1,2,7) started(4) known
    by (cases "pending_id s key") (auto simp: at pending_reported_def split: if_splits elim!: locate_cases)
  moreover have "pending_id t (LId x) = Some x" if "has (ol_pending t) (LId x)" for x
  proof (cases "LId x = key")
    case True
    show ?thesis
    proof (cases "has (ol_pending s) key")
      case True
      with \<open>LId x = key\<close> assms(2) started(7) show ?thesis by (auto simp: at pending_reported_def)
    next
      case False
      then have none: "pending_id s key = None" by (simp add: pending_id_def)
      from started(4) have "idn_id identity = Some x"
        by (rule locate_cases) (use \<open>LId x = key\<close> none known in auto)
      with none started(7) show ?thesis by (simp add: at \<open>LId x = key\<close>)
    qed
  next
    case False
    with that assms(2) started(3) show ?thesis by (auto simp: at pending_reported_def pending_id_def split: if_splits)
  qed
  ultimately show ?thesis by (simp add: pending_reported_def)
next
  case (finished index identity key p b final)
  with assms(2) show ?thesis by (auto simp: pending_reported_def pending_id_def)
next
  case (discarded index identity key place final)
  with assms(2) show ?thesis by (auto simp: pending_reported_def pending_id_def)
qed (use assms(2) in \<open>auto simp: pending_reported_def pending_id_def\<close>)

text \<open>An operation that keys on a position was given it, or the identity reported there.\<close>

lemma locate_settles:
  assumes "locate s index identity = Inr (Some (LIndex i))" and "pending_reported rs s" and "ids_covered s"
  shows "position_settled a i (rs @ [(a, index, identity)])"
  using assms(1)
proof (cases rule: locate_cases)
  case (position j)
  then show ?thesis by (auto simp: position_settled_def)
next
  case (known x)
  with assms(2,3) have "reported_as i x rs" by (simp add: ids_covered_def pending_reported_def)
  with known show ?thesis by (auto simp: position_settled_def)
qed auto

lemma finished_reported_step:
  assumes "lc_moves maximum a r s t" and "finished_reported rs s" and "pending_reported rs s" and "ids_covered s"
  shows "finished_reported (rs @ [(a, r)]) t"
  using assms(1)
proof (cases rule: lc_moves.cases)
  case (finished index identity key p b final)
  have "position_settled Finished i (rs @ [(a, r)])" if "has (ol_finished t) (LIndex i)" for i
  proof (cases "key = LIndex i")
    case True
    with locate_settles [OF _ assms(3,4)] finished(1,2,4) show ?thesis by simp
  next
    case False
    with that finished(3) assms(2) have "position_settled Finished i rs" by (simp add: finished_reported_def)
    then show ?thesis by (rule position_settled_mono)
  qed
  moreover have "named Finished x (rs @ [(a, r)])" if "bm_get (ol_finished t) loc = Some q" "idn_id q = Some x" for loc q x
  proof (cases "loc = key")
    case True
    with that finished(3,10) have e: "opt_or (Option.bind (bm_get (ol_finished s) key) idn_id) (idn_id identity) = Some x" by simp
    show ?thesis
    proof (cases "Option.bind (bm_get (ol_finished s) key) idn_id")
      case None
      with e finished(1,2) show ?thesis by simp
    next
      case (Some y)
      with e assms(2) finished(1,2) show ?thesis by (auto simp: finished_reported_def bind_eq_Some_conv)
    qed
  next
    case False
    with that finished(1,2,3) assms(2) show ?thesis by (auto simp: finished_reported_def)
  qed
  ultimately show ?thesis unfolding finished_reported_def by blast
qed (use assms(2) in \<open>auto simp: finished_reported_def position_settled_mono\<close>)

lemma discarded_reported_step:
  assumes "lc_moves maximum a r s t" and "discarded_reported rs s" and "pending_reported rs s" and "ids_covered s"
  shows "discarded_reported (rs @ [(a, r)]) t"
  using assms(1)
proof (cases rule: lc_moves.cases)
  case (discarded index identity key place final)
  have "position_settled Discarded i (rs @ [(a, r)])" if "has (ol_discarded t) (LIndex i)" for i
  proof (cases "key = LIndex i")
    case True
    with locate_settles [OF _ assms(3,4)] discarded(1,2,4) show ?thesis by simp
  next
    case False
    with that discarded(3) assms(2) have "position_settled Discarded i rs" by (simp add: discarded_reported_def)
    then show ?thesis by (rule position_settled_mono)
  qed
  moreover have "named Discarded x (rs @ [(a, r)])" if "bm_get (ol_discarded t) loc = Some q" "idn_id q = Some x" for loc q x
    using that discarded(1,2,3,11) assms(2) by (auto simp: discarded_reported_def split: if_splits)
  ultimately show ?thesis unfolding discarded_reported_def by blast
qed (use assms(2) in \<open>auto simp: discarded_reported_def position_settled_mono\<close>)

text \<open>No identity is both finished and discarded.\<close>

definition exclusive :: "(lc_action \<times> report) list \<Rightarrow> output_lifecycle \<Rightarrow> bool" where
  "exclusive rs s \<longleftrightarrow>
     (\<forall>x. named Finished x rs \<longrightarrow> ol_unverified s \<or> has (ol_finished_ids s) x)
     \<and> (\<forall>x. named Discarded x rs \<longrightarrow> has (ol_discarded_ids s) x)
     \<and> (\<forall>x. has (ol_finished_ids s) x \<longrightarrow> \<not> has (ol_discarded_ids s) x)
     \<and> (\<forall>loc p x. bm_get (ol_finished s) loc = Some p \<and> idn_id p = Some x \<longrightarrow> has (ol_finished_ids s) x)"

lemma exclusive_step:
  assumes "lc_moves maximum a r s t" and "exclusive rs s"
  shows "exclusive (rs @ [(a, r)]) t"
  using assms(1)
proof (cases rule: lc_moves.cases)
  case (finished index identity key p b final)
  let ?old = "Option.bind (bm_get (ol_finished s) key) idn_id"
  have ids: "has (ol_finished_ids t) x \<longleftrightarrow> idn_id final = Some x \<or> has (ol_finished_ids s) x" for x
    using finished(3) by (auto split: option.splits)
  have cases: "?old = Some x \<or> idn_id identity = Some x" if "idn_id final = Some x" for x
    using that finished(10) by (cases ?old) auto
  have olds: "has (ol_finished_ids s) x" if "?old = Some x" for x
    using that assms(2) by (auto simp: exclusive_def bind_eq_Some_conv)
  have "\<not> has (ol_discarded_ids s) x" if "idn_id identity = Some x" for x
    using that finished(5) by (auto simp: ensure_not_discarded_def)
  moreover have gone: "ol_discarded_ids t = ol_discarded_ids s" using finished(3) by simp
  ultimately have "\<not> has (ol_discarded_ids t) x" if "has (ol_finished_ids t) x" for x
    using that assms(2) cases olds gone unfolding ids exclusive_def by metis
  moreover have "idn_id final = Some x" if "idn_id identity = Some x" for x
    using that finished(9,10) by (cases ?old) (auto simp: merge_agrees_def)
  ultimately show ?thesis using assms(2) finished(1,2,3) ids
    by (auto simp: exclusive_def split: if_splits)
next
  case (discarded index identity key place final)
  have ids: "has (ol_discarded_ids t) x \<longleftrightarrow> idn_id identity = Some x \<or> has (ol_discarded_ids s) x" for x
    using discarded(3,11) by (auto split: option.splits)
  from assms(2) discarded(7) show ?thesis unfolding exclusive_def ids
    by (simp add: discarded(1,2)) (simp add: discarded(3), blast)
qed (use assms(2) in \<open>auto simp: exclusive_def\<close>)

section \<open>Whole responses\<close>

definition accounted :: "nat \<Rightarrow> (lc_action \<times> report) list \<Rightarrow> output_lifecycle \<Rightarrow> bool" where
  "accounted maximum rs s \<longleftrightarrow> tracked_count s \<le> maximum \<and> ids_covered s \<and> positions_kept rs s \<and> names_kept rs s
     \<and> pending_reported rs s \<and> finished_reported rs s \<and> discarded_reported rs s \<and> exclusive rs s"

lemmas accounted_steps = lc_moves_bounded ids_covered_step positions_kept_step names_kept_step pending_reported_step
  finished_reported_step discarded_reported_step exclusive_step

lemma accounted_step: "lc_moves maximum a r s t \<Longrightarrow> accounted maximum rs s \<Longrightarrow> accounted maximum (rs @ [(a, r)]) t"
  unfolding accounted_def by (metis accounted_steps)

lemma accounted_run: "lc_run maximum new s t \<Longrightarrow> accounted maximum rs s \<Longrightarrow> accounted maximum (rs @ new) t"
proof (induction arbitrary: rs rule: lc_run.induct)
  case (lc_run_Cons a r s s' new t)
  then have "accounted maximum ((rs @ [(a, r)]) @ new) t" by (intro lc_run_Cons.IH accounted_step)
  then show ?case by simp
qed simp

lemma accounted_default: "accounted maximum [] lifecycle_default"
  by (simp add: accounted_def lifecycle_default_def tracked_count_def ids_covered_def positions_kept_def names_kept_def
      pending_reported_def finished_reported_def discarded_reported_def exclusive_def pending_id_def named_def)

text \<open>The events of one response, each with whether an interrupt had been requested before it.\<close>

fun observe_all :: "externals \<Rightarrow> nat \<Rightarrow> (json \<times> bool) list \<Rightarrow> unit lifecycle_op" where
  "observe_all ext maximum [] = aret ()"
| "observe_all ext maximum ((event, flag) # events) =
     athen (observe_with_interrupt ext event maximum flag) (observe_all ext maximum events)"

definition all_reports :: "externals \<Rightarrow> (json \<times> bool) list \<Rightarrow> (lc_action \<times> report) list" where
  "all_reports ext events = concat (map (\<lambda>(event, _). event_reports ext event) events)"

lemma accounted_observe_all:
  assumes "observe_all ext maximum events s = (Inr (), t)" and "accounted maximum rs s"
  shows "accounted maximum (rs @ all_reports ext events) t"
  using assms
proof (induction ext maximum events arbitrary: s rs rule: observe_all.induct)
  case (2 ext maximum event flag events)
  then obtain s' where first: "observe_with_interrupt ext event maximum flag s = (Inr (), s')"
    and rest: "observe_all ext maximum events s' = (Inr (), t)"
    by (auto simp: athen_Inr_iff)
  from first 2(3) have "accounted maximum (rs @ event_reports ext event) s'"
    by (intro accounted_run [OF observe_run(1)]) (auto simp: accounted_def)
  from 2(1) [OF rest this] show ?case by (simp add: all_reports_def)
qed (simp add: all_reports_def)

lemmas accounted_from_default = accounted_observe_all [OF _ accounted_default, simplified]

definition output_of :: "json \<Rightarrow> json list" where
  "output_of response = (case Option.bind (jget response ''output'') as_array of Some items \<Rightarrow> items | None \<Rightarrow> [])"

lemma checks_Inr_iff: "checks cs = Inr u \<longleftrightarrow> (\<forall>c \<in> set cs. is_ok c)"
  using is_ok_checks [of cs] by (simp add: is_ok_unit)

lemma for_each_Inr_iff: "for_each f xs = Inr u \<longleftrightarrow> (\<forall>x \<in> set xs. is_ok (f x))"
  using is_ok_for_each [of f xs] by (simp add: is_ok_unit)

text \<open>A final item stands for every pending one.\<close>

lemma get_at_Some: "get_at xs i = Some x \<longleftrightarrow> i < length xs \<and> xs ! i = x"
  by (auto simp: get_at_def)

lemma final_item_in: "final_item output m loc = Some item \<Longrightarrow> \<exists>items. output = Some items \<and> item \<in> set items"
  by (auto simp: final_item_def get_at_Some bind_eq_Some_conv split: locator.splits option.splits)

lemma validate_completed_Inr:
  assumes "validate_completed ext to_vec s response = Inr ()"
  shows "bm_len (ol_discarded s) = 0" and "\<not> ol_unverified s"
    and "item \<in> set (output_of response) \<Longrightarrow> \<not> unfinished item"
    and "bm_get (ol_pending s) loc = Some identity \<Longrightarrow>
      \<exists>item \<in> set (output_of response). identity_matches ext identity item \<and> (\<forall>i. loc = LIndex i \<longrightarrow> get_at (output_of response) i = Some item)"
proof -
  let ?output = "Option.bind (jget response ''output'') as_array"
  from assms obtain final_by_id
    where top: "bm_len (ol_discarded s) = 0" "\<not> ol_unverified s" "is_none_or ?output (list_all (\<lambda>item. \<not> unfinished item))"
    and each: "\<forall>(loc, identity) \<in> set (bm_entries (ol_pending s)). is_some_and (final_item ?output final_by_id loc) (identity_matches ext identity)"
    by (auto simp: validate_completed_def rbind_Inr_iff Let_def checks_Inr_iff for_each_Inr_iff split_beta simp del: checks.simps)
  from top show "bm_len (ol_discarded s) = 0" "\<not> ol_unverified s" by blast+
  show "item \<in> set (output_of response) \<Longrightarrow> \<not> unfinished item"
    using top(3) by (cases ?output) (auto simp: output_of_def list_all_iff)
  assume "bm_get (ol_pending s) loc = Some identity"
  with each obtain item where item: "final_item ?output final_by_id loc = Some item" "identity_matches ext identity item"
    by (auto simp: bm_get_iff is_some_and_iff)
  then show "\<exists>item \<in> set (output_of response). identity_matches ext identity item
      \<and> (\<forall>i. loc = LIndex i \<longrightarrow> get_at (output_of response) i = Some item)"
    using final_item_in [OF item(1)]
    by (intro bexI [of _ item]) (auto simp: output_of_def final_item_def split: option.splits)
qed

lemma validate_interrupted_Inr:
  assumes "validate_interrupted ext to_vec s response observed = Inr ()"
  shows "\<not> ol_unverified s" and "bm_get (ol_pending s) loc = None"
    and "item \<in> set (output_of response) \<Longrightarrow> fingerprint ext (jget item ''id'') = Some x \<Longrightarrow> \<not> has (ol_discarded_ids s) x"
proof -
  from assms have top: "\<not> ol_unverified s" "bm_len (ol_pending s) = 0"
    and footer: "\<forall>output. populated (jget response ''output'') = Some output \<longrightarrow>
      list_all (\<lambda>item. \<not> is_some_and (fingerprint ext (jget item ''id'')) (\<lambda>i. bm_contains (ol_discarded_ids s) i)) output"
    by (auto simp: validate_interrupted_def Let_def checks_Inr_iff simp del: checks.simps)
  from top show "\<not> ol_unverified s" by blast
  from top(2) show "bm_get (ol_pending s) loc = None"
    by (auto simp: bm.len_card bm.finite_dom)
  assume "item \<in> set (output_of response)" "fingerprint ext (jget item ''id'') = Some x"
  moreover from this(1) have "populated (jget response ''output'') = Some (output_of response)"
    by (cases "Option.bind (jget response ''output'') as_array") (auto simp: output_of_def populated_def)
  ultimately show "\<not> has (ol_discarded_ids s) x"
    using footer by (auto simp: list_all_iff)
qed

section \<open>An example response\<close>

definition demo_item :: "string \<Rightarrow> json" where
  "demo_item x = JObject [(''id'', JString x), (''type'', JString ''message'')]"

definition demo_event :: "string \<Rightarrow> string \<Rightarrow> string \<Rightarrow> json" where
  "demo_event kind i x = JObject [(''type'', JString kind), (''output_index'', JNumber i),
     (''item_id'', JString x), (''item'', demo_item x)]"

definition demo_added :: "string \<Rightarrow> string \<Rightarrow> json" where
  "demo_added = demo_event ''response.output_item.added''"

definition demo_done :: "string \<Rightarrow> string \<Rightarrow> json" where
  "demo_done = demo_event ''response.output_item.done''"

definition demo_interrupted :: "string \<Rightarrow> string \<Rightarrow> json" where
  "demo_interrupted = demo_event ''response.output_item.interrupted''"

definition demo_response :: "string list \<Rightarrow> json" where
  "demo_response xs = JObject [(''id'', JString ''r''), (''output'', JArray (map demo_item xs))]"

definition demo_encode :: "json \<Rightarrow> string" where
  "demo_encode v = (case jget v ''id'' of Some (JString x) \<Rightarrow> x | _ \<Rightarrow> [])"

definition demo_events :: "(json \<times> bool) list" where
  "demo_events = [(demo_added ''0'' ''a'', False), (demo_done ''0'' ''a'', False), (demo_added ''1'' ''b'', False)]"

definition demo_interruption :: "(json \<times> bool) list" where
  "demo_interruption = demo_events @ [(demo_interrupted ''1'' ''b'', True)]"

lemma demo_output_runs:
  "fst (observe_all demo_ext 5 demo_events lifecycle_default) = Inr ()"
  "fst (observe_all demo_ext 5 demo_interruption lifecycle_default) = Inr ()"
  by code_simp+

lemma demo_run_eqs:
  "observe_all demo_ext 5 demo_events lifecycle_default = (Inr (), snd (observe_all demo_ext 5 demo_events lifecycle_default))"
  "observe_all demo_ext 5 demo_interruption lifecycle_default = (Inr (), snd (observe_all demo_ext 5 demo_interruption lifecycle_default))"
  by (simp_all add: prod_eq_iff demo_output_runs)

lemma demo_accepted:
  "validate_completed demo_ext demo_encode (snd (observe_all demo_ext 5 demo_events lifecycle_default)) (demo_response [''a'', ''b'']) = Inr ()"
  "validate_interrupted demo_ext demo_encode (snd (observe_all demo_ext 5 demo_interruption lifecycle_default)) (demo_response [''a''])
     [(0, completion_fingerprint_new demo_ext demo_encode (demo_item ''a''))] = Inr ()"
  by code_simp+

section \<open>Properties\<close>

text \<open>
  C29. However many events a response has, the evidence kept about its output stays within the item
  limit, and its memory estimate within 320 bytes per item of that limit.
\<close>

theorem output_evidence_bounded:
  assumes "observe_all ext maximum events lifecycle_default = (Inr (), s)"
  shows "tracked_count s \<le> maximum \<and> lifecycle_retained_bytes s \<le> 320 * maximum"
  using accounted_from_default [OF assms] ids_covered_bound by (simp add: accounted_def)

theorem output_evidence_bounded_witness:
  "\<exists>s. observe_all demo_ext 5 demo_events lifecycle_default = (Inr (), s) \<and> tracked_count s \<le> 5 \<and> lifecycle_retained_bytes s \<le> 320 * 5"
  using output_evidence_bounded [OF demo_run_eqs(1)] demo_run_eqs(1) by blast

text \<open>Where the evidence leaves each reported position and identity.\<close>

lemma reported_position:
  assumes "accounted maximum rs s" and "\<not> ol_unverified s" and "(a, Some i, identity) \<in> set rs"
  obtains "position_settled Finished i rs" | "position_settled Discarded i rs" "has (ol_discarded s) (LIndex i)"
    | q where "bm_get (ol_pending s) (LIndex i) = Some q"
proof -
  from assms(1,3) have "ol_unverified s \<or> has (ol_pending s) (LIndex i) \<or> has (ol_finished s) (LIndex i) \<or> has (ol_discarded s) (LIndex i)"
    unfolding accounted_def positions_kept_def by blast
  moreover from assms(1) have "has (ol_finished s) (LIndex i) \<Longrightarrow> position_settled Finished i rs"
    "has (ol_discarded s) (LIndex i) \<Longrightarrow> position_settled Discarded i rs"
    unfolding accounted_def finished_reported_def discarded_reported_def by blast+
  ultimately show ?thesis using assms(2) that by blast
qed

lemma reported_name:
  assumes "accounted maximum rs s" and "\<not> ol_unverified s" and "named a x rs"
  obtains "named Finished x rs" | "named Discarded x rs" "has (ol_discarded_ids s) x"
    | loc q where "bm_get (ol_pending s) loc = Some q" "idn_id q = Some x"
proof -
  from assms have "(\<exists>loc. pending_id s loc = Some x) \<or> has (ol_finished_ids s) x \<or> has (ol_discarded_ids s) x"
    unfolding accounted_def names_kept_def by blast
  moreover from assms(1) have "has (ol_finished_ids s) x \<Longrightarrow> named Finished x rs"
    "has (ol_discarded_ids s) x \<Longrightarrow> named Discarded x rs"
    unfolding accounted_def ids_covered_def finished_reported_def discarded_reported_def by meson+
  ultimately show ?thesis using that by (auto simp: pending_id_def bind_eq_Some_conv)
qed

text \<open>
  C30. A response is accepted as completed only when it accounts for every item any event
  mentioned: for each reported position an event finished it (naming the position or the identity
  reported for it) or the final output has an item there that is not unfinished, and for each
  reported identity an event finished it or an item of the final output bears it.
\<close>

theorem completed_response_accounts_for_output:
  assumes run: "observe_all ext maximum events lifecycle_default = (Inr (), s)"
    and ok: "validate_completed ext to_vec s response = Inr ()"
  shows "(\<forall>a i identity. (a, Some i, identity) \<in> set (all_reports ext events) \<longrightarrow>
      position_settled Finished i (all_reports ext events)
      \<or> (\<exists>item. get_at (output_of response) i = Some item \<and> \<not> unfinished item))
    \<and> (\<forall>a x. named a x (all_reports ext events) \<longrightarrow> named Finished x (all_reports ext events)
      \<or> (\<exists>item \<in> set (output_of response). fingerprint ext (jget item ''id'') = Some x \<and> \<not> unfinished item))"
proof (intro conjI allI impI)
  let ?rs = "all_reports ext events"
  note acc = accounted_from_default [OF run] and evidence = validate_completed_Inr [OF ok]
  have none: "\<not> has (ol_discarded s) loc" "\<not> has (ol_discarded_ids s) x" for loc x
  proof -
    show *: "\<not> has (ol_discarded s) loc" for loc using evidence(1) by (auto simp: bm.len_card bm.finite_dom)
    show "\<not> has (ol_discarded_ids s) x" using acc * by (force simp: accounted_def ids_covered_def)
  qed
  show "position_settled Finished i ?rs \<or> (\<exists>item. get_at (output_of response) i = Some item \<and> \<not> unfinished item)"
    if "(a, Some i, identity) \<in> set ?rs" for a i identity
    using acc evidence(2) that
  proof (cases rule: reported_position)
    case (3 q)
    with evidence(4) obtain item where "item \<in> set (output_of response)" "get_at (output_of response) i = Some item" by blast
    with evidence(3) show ?thesis by blast
  qed (use none in blast)+
  show "named Finished x ?rs
      \<or> (\<exists>item \<in> set (output_of response). fingerprint ext (jget item ''id'') = Some x \<and> \<not> unfinished item)"
    if "named a x ?rs" for a x
    using acc evidence(2) that
  proof (cases rule: reported_name)
    case (3 loc q)
    with evidence(4) obtain item where "item \<in> set (output_of response)" "identity_matches ext q item" by blast
    with evidence(3) 3(2) show ?thesis by (auto simp: identity_matches_def identity_item_def)
  qed (use none in blast)+
qed

theorem completed_response_accounts_for_output_witness:
  "(Started, Some 1, identity_item demo_ext (demo_item ''b'')) \<in> set (all_reports demo_ext demo_events)
   \<and> (position_settled Finished 1 (all_reports demo_ext demo_events)
      \<or> (\<exists>item. get_at (output_of (demo_response [''a'', ''b''])) 1 = Some item \<and> \<not> unfinished item))"
proof -
  have r: "(Started, Some 1, identity_item demo_ext (demo_item ''b'')) \<in> set (all_reports demo_ext demo_events)"
    by code_simp
  with completed_response_accounts_for_output [OF demo_run_eqs(1) demo_accepted(1)] show ?thesis by blast
qed

text \<open>
  C31. An interrupted response is accepted only when every reported item was finished or discarded,
  no identity is both, and the footer brings back none that was discarded.
\<close>

theorem interrupted_response_resolves_output:
  assumes run: "observe_all ext maximum events lifecycle_default = (Inr (), s)"
    and ok: "validate_interrupted ext to_vec s response observed = Inr ()"
  shows "(\<forall>a i identity. (a, Some i, identity) \<in> set (all_reports ext events) \<longrightarrow>
      position_settled Finished i (all_reports ext events) \<or> position_settled Discarded i (all_reports ext events))
    \<and> (\<forall>a x. named a x (all_reports ext events) \<longrightarrow>
      named Finished x (all_reports ext events) \<noteq> named Discarded x (all_reports ext events))
    \<and> (\<forall>item \<in> set (output_of response). \<forall>x. fingerprint ext (jget item ''id'') = Some x \<longrightarrow>
      \<not> named Discarded x (all_reports ext events))"
proof (intro conjI allI impI ballI)
  let ?rs = "all_reports ext events"
  note acc = accounted_from_default [OF run] and evidence = validate_interrupted_Inr [OF ok]
  have apart: "\<not> (named Finished x ?rs \<and> named Discarded x ?rs)" "named Discarded x ?rs \<Longrightarrow> has (ol_discarded_ids s) x" for x
    using acc evidence(1) unfolding accounted_def exclusive_def by blast+
  show "position_settled Finished i ?rs \<or> position_settled Discarded i ?rs" if "(a, Some i, identity) \<in> set ?rs" for a i identity
    using acc evidence(1) that by (cases rule: reported_position) (simp_all add: evidence(2))
  show "named Finished x ?rs \<noteq> named Discarded x ?rs" if "named a x ?rs" for a x
    using acc evidence(1) that by (cases rule: reported_name) (use apart(1) in \<open>auto simp: evidence(2)\<close>)
  show "\<not> named Discarded x ?rs"
    if "item \<in> set (output_of response)" "fingerprint ext (jget item ''id'') = Some x" for item x
    using evidence(3) [OF that] apart(2) by blast
qed

theorem interrupted_response_resolves_output_witness:
  "named Discarded ''b'' (all_reports demo_ext demo_interruption)
   \<and> \<not> named Finished ''b'' (all_reports demo_ext demo_interruption)
   \<and> position_settled Finished 0 (all_reports demo_ext demo_interruption)"
proof -
  have "(Discarded, Some 1, \<lparr>idn_id = Some ''b'', idn_kind = None\<rparr>) \<in> set (all_reports demo_ext demo_interruption)"
    and "(Finished, Some 0, identity_item demo_ext (demo_item ''a'')) \<in> set (all_reports demo_ext demo_interruption)"
    by code_simp+
  then have "named Discarded ''b'' (all_reports demo_ext demo_interruption)"
    and "position_settled Finished 0 (all_reports demo_ext demo_interruption)"
    by (force simp: named_def, force simp: position_settled_def)
  with interrupted_response_resolves_output [OF demo_run_eqs(2) demo_accepted(2)] show ?thesis by blast
qed

end
