(* ===== verification/Wire_Order.thy ===== *)
theory Wire_Order
  imports Json_Value
begin

text \<open>
  The order of members on the wire (\<open>finalize_wire_order\<close> of \<open>request_normalizer.rs\<close>, with
  \<open>responses_lite.rs\<close>, \<open>request_emulation_items.rs\<close> and \<open>request_emulation_overlay.rs\<close>).  Reordering moves
  members and neither drops, adds nor changes one.
\<close>

section \<open>Reordering an object\<close>

datatype emulation_transport = Http | WebSocket

definition obj_extend :: "(string \<times> json) list \<Rightarrow> (string \<times> json) list \<Rightarrow> (string \<times> json) list" where
  "obj_extend obj more = foldl (\<lambda>o' (k, v). obj_insert k v o') obj more"

text \<open>The loop over the wanted names, then the members that are left.\<close>

fun reorder_into :: "string list \<Rightarrow> (string \<times> json) list \<Rightarrow> (string \<times> json) list \<Rightarrow> (string \<times> json) list" where
  "reorder_into [] obj existing = obj_extend obj existing"
| "reorder_into (name # order) obj existing =
     (case map_of existing name of
        Some v \<Rightarrow> reorder_into order (obj_insert name v obj) (obj_remove name existing)
      | None \<Rightarrow> reorder_into order obj existing)"

definition reorder_preserving :: "string list \<Rightarrow> (string \<times> json) list \<Rightarrow> (string \<times> json) list" where
  "reorder_preserving order obj = reorder_into order [] obj"

definition fields_for_kind :: "string option \<Rightarrow> string list" where
  "fields_for_kind kind =
     (let meta = ''internal_chat_message_metadata_passthrough'' in
      case kind of
        None \<Rightarrow> [''type'']
      | Some k \<Rightarrow>
          if k = ''configuration_update'' then [''type'', ''reasoning'']
          else if k = ''additional_tools'' then [''type'', ''id'', ''role'', ''tools'']
          else if k = ''message'' then [''type'', ''id'', ''role'', ''content'', ''phase'', meta]
          else if k = ''agent_message'' then [''type'', ''id'', ''author'', ''recipient'', ''content'', meta]
          else if k = ''function_call'' then [''type'', ''id'', ''name'', ''namespace'', ''arguments'', ''encrypted_function_args'', ''call_id'', meta]
          else if k = ''function_call_output'' then [''type'', ''id'', ''call_id'', ''name'', ''namespace'', ''output'', meta]
          else if k = ''custom_tool_call'' then [''type'', ''id'', ''status'', ''call_id'', ''name'', ''namespace'', ''input'', meta]
          else if k = ''custom_tool_call_output'' then [''type'', ''id'', ''call_id'', ''name'', ''output'', meta]
          else if k = ''reasoning'' then [''type'', ''id'', ''summary'', ''content'', ''encrypted_content'', meta]
          else if k = ''local_shell_call'' then [''type'', ''id'', ''call_id'', ''status'', ''action'', meta]
          else if k = ''tool_search_call'' then [''type'', ''id'', ''call_id'', ''status'', ''execution'', ''arguments'', meta]
          else if k = ''tool_search_output'' then [''type'', ''id'', ''call_id'', ''status'', ''execution'', ''tools'', meta]
          else if k = ''web_search_call'' then [''type'', ''id'', ''status'', ''action'', meta]
          else if k = ''image_generation_call'' then [''type'', ''id'', ''status'', ''revised_prompt'', ''result'', meta]
          else if k \<in> {''compaction'', ''context_compaction''} then [''type'', ''id'', ''encrypted_content'', meta]
          else if k = ''compaction_trigger'' then [''type'']
          else if k = ''item_reference'' then [''type'', ''id'']
          else [''type''])"

definition order_projected_item :: "(string \<times> json) list \<Rightarrow> (string \<times> json) list" where
  "order_projected_item obj = reorder_preserving (fields_for_kind (str_of (map_of obj ''type''))) obj"

definition order_item :: "json \<Rightarrow> json" where
  "order_item item = (case item of JObject obj \<Rightarrow> JObject (order_projected_item obj) | _ \<Rightarrow> item)"

definition order_projected_items :: "(string \<times> json) list \<Rightarrow> (string \<times> json) list" where
  "order_projected_items request = (case Option.bind (map_of request ''input'') as_array of
     Some items \<Rightarrow> obj_insert ''input'' (JArray (map order_item items)) request
   | None \<Rightarrow> request)"

definition HTTP_ORDER :: "string list" where
  "HTTP_ORDER = [''model'', ''stream'', ''service_tier'', ''previous_response_id'', ''input'', ''tools'', ''tool_choice'',
     ''parallel_tool_calls'', ''reasoning'', ''store'', ''stream_options'', ''include'', ''prompt_cache_key'', ''text'',
     ''client_metadata'', ''access_programs'']"

definition WEBSOCKET_ORDER :: "string list" where
  "WEBSOCKET_ORDER = [''type'', ''model'', ''stream'', ''service_tier'', ''previous_response_id'', ''input'', ''tools'', ''tool_choice'',
     ''parallel_tool_calls'', ''reasoning'', ''store'', ''stream_options'', ''include'', ''prompt_cache_key'', ''text'',
     ''generate'', ''client_metadata'', ''access_programs'']"

definition canonicalize_request_order :: "emulation_transport \<Rightarrow> (string \<times> json) list \<Rightarrow> (string \<times> json) list" where
  "canonicalize_request_order transport obj =
     reorder_into (if transport = WebSocket then WEBSOCKET_ORDER else HTTP_ORDER) [] obj"

definition finalize_wire_order :: "emulation_transport \<Rightarrow> (string \<times> json) list \<Rightarrow> (string \<times> json) list" where
  "finalize_wire_order transport obj = canonicalize_request_order transport (order_projected_items obj)"

section \<open>Members are preserved\<close>

abbreviation keys_ok :: "(string \<times> json) list \<Rightarrow> bool" where
  "keys_ok obj \<equiv> distinct (map fst obj)"

lemma keys_obj_insert: "fst ` set (obj_insert k v obj) = insert k (fst ` set obj)"
  by (induction obj rule: obj_insert.induct) auto

lemma keys_ok_obj_insert: "keys_ok obj \<Longrightarrow> keys_ok (obj_insert k v obj)"
proof (induction obj)
  case (Cons x obj)
  then show ?case using keys_obj_insert [of k v obj] by (cases x) (auto simp: image_iff)
qed simp

lemma obj_extend_members:
  "keys_ok obj \<Longrightarrow> keys_ok more \<Longrightarrow> map_of (obj_extend obj more) = map_of obj ++ map_of more \<and> keys_ok (obj_extend obj more)"
proof (induction more arbitrary: obj)
  case (Cons x more)
  obtain k v where x: "x = (k, v)" by (cases x)
  have none: "map_of more k = None" using Cons.prems(2) x by (simp add: map_of_eq_None_iff)
  have "map_of (obj_insert k v obj) ++ map_of more = map_of obj ++ map_of (x # more)"
    by (rule ext) (use none in \<open>auto simp: x map_add_def split: option.splits\<close>)
  moreover have "obj_extend obj (x # more) = obj_extend (obj_insert k v obj) more" by (simp add: obj_extend_def x)
  moreover have "map_of (obj_extend (obj_insert k v obj) more) = map_of (obj_insert k v obj) ++ map_of more
      \<and> keys_ok (obj_extend (obj_insert k v obj) more)"
    using Cons.prems by (intro Cons.IH) (auto simp: keys_ok_obj_insert)
  ultimately show ?case by (simp only:)
qed (simp add: obj_extend_def)

lemma reorder_into_members:
  assumes "keys_ok obj" and "keys_ok existing" and "fst ` set obj \<inter> fst ` set existing = {}"
  shows "map_of (reorder_into order obj existing) = map_of obj ++ map_of existing \<and> keys_ok (reorder_into order obj existing)"
  using assms
proof (induction order obj existing rule: reorder_into.induct)
  case (1 obj existing)
  then show ?case using obj_extend_members by simp
next
  case (2 name order obj existing)
  show ?case
  proof (cases "map_of existing name")
    case None
    with 2 show ?thesis by simp
  next
    case (Some v)
    have keys: "fst ` set (obj_remove name existing) = fst ` set existing - {name}"
      using set_obj_remove [OF 2(4), of name] by force
    have "map_of (reorder_into order (obj_insert name v obj) (obj_remove name existing))
        = map_of (obj_insert name v obj) ++ map_of (obj_remove name existing)
      \<and> keys_ok (reorder_into order (obj_insert name v obj) (obj_remove name existing))"
      using 2(3-5) keys by (intro 2(2) [OF Some]) (auto simp: keys_obj_insert keys_ok_obj_insert keys_obj_remove)
    moreover have "map_of (obj_insert name v obj) ++ map_of (obj_remove name existing) = map_of obj ++ map_of existing"
      using Some 2(4) by (auto simp: fun_eq_iff map_add_def split: option.splits)
    ultimately show ?thesis using Some by simp
  qed
qed

text \<open>Two values with the same members, in whatever order.\<close>

definition same_members :: "json \<Rightarrow> json \<Rightarrow> bool" where
  "same_members v w \<longleftrightarrow> (case (v, w) of (JObject xs, JObject ys) \<Rightarrow> map_of xs = map_of ys | _ \<Rightarrow> v = w)"

definition item_keys_ok :: "json \<Rightarrow> bool" where
  "item_keys_ok item = (case item of JObject obj \<Rightarrow> keys_ok obj | _ \<Rightarrow> True)"

lemma order_item_members: "item_keys_ok item \<Longrightarrow> same_members (order_item item) item"
  using reorder_into_members [of "[]"]
  by (auto simp: same_members_def order_item_def item_keys_ok_def order_projected_item_def reorder_preserving_def split: json.splits)

lemma finalize_wire_order_members:
  assumes "keys_ok obj" and "map_of obj ''input'' = Some (JArray items)" and "list_all item_keys_ok items"
  shows "\<exists>items'. list_all2 same_members items' items
      \<and> map_of (finalize_wire_order transport obj) = (map_of obj)(''input'' \<mapsto> JArray items')"
proof (intro exI conjI)
  show "list_all2 same_members (map order_item items) items"
    using assms(3) order_item_members by (auto simp: list_all2_conv_all_nth list_all_length)
  show "map_of (finalize_wire_order transport obj) = (map_of obj)(''input'' \<mapsto> JArray (map order_item items))"
    using assms(1,2) reorder_into_members [of "[]" "order_projected_items obj"]
    by (simp add: finalize_wire_order_def canonicalize_request_order_def order_projected_items_def keys_ok_obj_insert)
qed

end
