(* ===== verification/Websocket_Reuse.thy ===== *)
theory Websocket_Reuse
  imports Wire_Order Output_Lifecycle
begin

text \<open>
  Reuse of a completed response as the prefix of the next request on a socket
  (\<open>responses_websocket_projection.rs\<close>, \<open>responses_websocket_reuse.rs\<close>).  The serializer is a
  parameter: \<open>enc v\<close> are the pieces it writes for a value and \<open>to_vec\<close> is their concatenation.
\<close>

section \<open>Projection\<close>

definition REUSE_PROPERTIES :: "string list" where
  "REUSE_PROPERTIES = [''model'', ''instructions'', ''tools'', ''tool_choice'', ''parallel_tool_calls'', ''reasoning'', ''store'',
     ''stream'', ''include'', ''service_tier'', ''prompt_cache_key'', ''text'']"

definition REUSABLE_ITEM_TYPES :: "string list" where
  "REUSABLE_ITEM_TYPES = [''additional_tools'', ''agent_message'', ''apply_patch_call'', ''apply_patch_call_output'',
     ''code_interpreter_call'', ''compaction'', ''compaction_trigger'', ''configuration_update'', ''computer_call'',
     ''computer_call_output'', ''context_compaction'', ''custom_tool_call'', ''custom_tool_call_output'', ''file_search_call'',
     ''function_call'', ''function_call_output'', ''image_generation_call'', ''local_shell_call'', ''local_shell_call_output'',
     ''mcp_approval_request'', ''mcp_approval_response'', ''mcp_call'', ''mcp_list_tools'', ''message'', ''other'', ''program'',
     ''program_output'', ''reasoning'', ''shell_call'', ''shell_call_output'', ''tool_search_call'', ''tool_search_output'',
     ''web_search_call'']"

definition project_properties :: "(string \<times> json) list \<Rightarrow> (string \<times> json) list" where
  "project_properties obj = filter (\<lambda>(name, _). name \<in> set REUSE_PROPERTIES) obj"

definition project_item :: "json \<Rightarrow> json" where
  "project_item v = (case v of
     JObject obj \<Rightarrow> JObject (obj_remove ''internal_chat_message_metadata_passthrough'' obj) | _ \<Rightarrow> v)"

definition equivalent_items :: "json list \<Rightarrow> json list \<Rightarrow> bool" where
  "equivalent_items left right \<longleftrightarrow> length left = length right
     \<and> list_all (\<lambda>(l, r). json_eq (project_item l) (project_item r)) (zip left right)"

text \<open>The late evidence of tool results, with the call it belongs to.\<close>

definition tool_result_metadata :: "json \<Rightarrow> (nat \<times> json option \<times> json option \<times> json) list" where
  "tool_result_metadata item =
     (let calls = (case Option.bind (Option.bind (jget item ''internal_chat_message_metadata_passthrough'')
            (\<lambda>metadata. jget metadata ''executed_tool_calls'')) as_array of Some calls \<Rightarrow> calls | None \<Rightarrow> []) in
      List.map_filter (\<lambda>(index, call). map_option (\<lambda>metadata. (index, jget call ''name'', jget call ''arguments'', metadata))
          (jget call ''tool_result_metadata'')) (enumerate 0 calls))"

definition opt_json_eq :: "json option \<Rightarrow> json option \<Rightarrow> bool" where
  "opt_json_eq a b \<longleftrightarrow> (case (a, b) of (Some x, Some y) \<Rightarrow> json_eq x y | (None, None) \<Rightarrow> True | _ \<Rightarrow> False)"

definition same_evidence :: "(nat \<times> json option \<times> json option \<times> json) list \<Rightarrow> (nat \<times> json option \<times> json option \<times> json) list \<Rightarrow> bool" where
  "same_evidence xs ys \<longleftrightarrow> list_all2 (\<lambda>(i, name, arguments, metadata) (i', name', arguments', metadata').
     i = i' \<and> opt_json_eq name name' \<and> opt_json_eq arguments arguments' \<and> json_eq metadata metadata') xs ys"

definition equivalent_items_for_reuse :: "json list \<Rightarrow> json list \<Rightarrow> bool" where
  "equivalent_items_for_reuse left right \<longleftrightarrow> equivalent_items left right
     \<and> list_all (\<lambda>(l, r). same_evidence (tool_result_metadata l) (tool_result_metadata r)) (zip left right)"

text \<open>The counting writer: it refuses the first piece that exceeds the budget.\<close>

definition counter_write :: "nat \<Rightarrow> string \<Rightarrow> nat \<Rightarrow> nat option" where
  "counter_write maximum buffer written =
     (let next = written + length buffer in if next \<le> maximum then Some next else None)"

fun counter_write_all :: "nat \<Rightarrow> string list \<Rightarrow> nat \<Rightarrow> nat option" where
  "counter_write_all maximum [] written = Some written"
| "counter_write_all maximum (buffer # buffers) written =
     Option.bind (counter_write maximum buffer written) (counter_write_all maximum buffers)"

definition encoded_len_within :: "(json \<Rightarrow> string list) \<Rightarrow> json \<Rightarrow> nat \<Rightarrow> nat option" where
  "encoded_len_within enc v maximum = counter_write_all maximum (enc v) 0"

fun output_encoded_len_from :: "(json \<Rightarrow> string list) \<Rightarrow> nat \<Rightarrow> json list \<Rightarrow> nat \<Rightarrow> nat option" where
  "output_encoded_len_from enc maximum [] sofar = Some sofar"
| "output_encoded_len_from enc maximum (item # items) sofar =
     Option.bind (encoded_len_within enc item (maximum - sofar)) (\<lambda>n. output_encoded_len_from enc maximum items (sofar + n))"

definition output_encoded_len :: "(json \<Rightarrow> string list) \<Rightarrow> json list \<Rightarrow> nat \<Rightarrow> nat option" where
  "output_encoded_len enc output maximum = output_encoded_len_from enc maximum output 0"

definition reusable_item :: "json \<Rightarrow> bool" where
  "reusable_item item \<longleftrightarrow> is_some_and (type_of item) (\<lambda>item_type. item_type \<in> set REUSABLE_ITEM_TYPES)"

section \<open>Snapshots\<close>

record request_snapshot =
  rs_properties :: "(string \<times> json) list"
  rs_input :: "json list"
  rs_comparison_input :: "json list"
  rs_thread_id :: "string option"

record reuse_baseline =
  rb_request :: request_snapshot
  rb_response_id :: string
  rb_output :: "json list"

definition EXPLICIT_STATE_CARRIERS :: "string list" where
  "EXPLICIT_STATE_CARRIERS = [''previous_response_id'', ''conversation'', ''generate'', ''stream_id'']"

definition has_explicit_state_carrier :: "json \<Rightarrow> bool" where
  "has_explicit_state_carrier request \<longleftrightarrow>
     is_some_and (as_object request) (\<lambda>obj. list_ex (obj_contains obj) EXPLICIT_STATE_CARRIERS)"

definition snapshot_of :: "json \<Rightarrow> request_snapshot option" where
  "snapshot_of request =
     Option.bind (as_object request) (\<lambda>obj.
     if str_of (map_of obj ''type'') \<noteq> Some ''response.create'' then None
     else Option.bind (Option.bind (map_of obj ''input'') as_array) (\<lambda>input.
     if \<not> list_all reusable_item input then None
     else Some \<lparr>rs_properties = project_properties obj, rs_input = input, rs_comparison_input = input,
       rs_thread_id = str_of (Option.bind (map_of obj ''client_metadata'') (\<lambda>metadata. jget metadata ''thread_id''))\<rparr>))"

definition is_developer_message :: "json \<Rightarrow> bool" where
  "is_developer_message item \<longleftrightarrow> type_of item = Some ''message'' \<and> str_of (jget item ''role'') = Some ''developer''"

definition lite_prewarm_prefix :: "json list \<Rightarrow> json list option" where
  "lite_prewarm_prefix input =
     (let tools = (case input of item # _ \<Rightarrow> if is_text (jindex item ''type'') ''additional_tools'' then 1 else 0 | [] \<Rightarrow> 0);
          prefix_len = tools + length (takeWhile is_developer_message (drop tools input)) in
      Some (take prefix_len input))"

text \<open>\<open>new_v5 namespace name\<close> is the text of the name-based UUID.\<close>

definition NAMESPACE_OID :: string where
  "NAMESPACE_OID = ''6ba7b812-9dad-11d1-80b4-00c04fd430c8''"

definition ordinary_prewarm_prefix :: "(string \<Rightarrow> string \<Rightarrow> string) \<Rightarrow> json \<Rightarrow> json list" where
  "ordinary_prewarm_prefix new_v5 request =
     (case as_str (jindex (jindex request ''client_metadata'') ''thread_id'') of
        None \<Rightarrow> []
      | Some thread \<Rightarrow>
          (let base = jnth (jindex request ''input'') 0 in
           case as_str (jindex (jnth (jindex base ''content'') 0) ''text'') of
             None \<Rightarrow> []
           | Some text \<Rightarrow>
               (let expected = ''msg_'' @ new_v5 (new_v5 NAMESPACE_OID thread) text in
                if is_text (jindex base ''type'') ''message'' \<and> is_text (jindex base ''role'') ''developer''
                   \<and> is_text (jindex base ''id'') expected then [base] else [])))"

definition split_at_checked :: "'a list \<Rightarrow> nat \<Rightarrow> ('a list \<times> 'a list) option" where
  "split_at_checked xs n = (if n \<le> length xs then Some (take n xs, drop n xs) else None)"

definition incremental_input :: "reuse_baseline \<Rightarrow> request_snapshot \<Rightarrow> json list option" where
  "incremental_input baseline current =
     (if rs_thread_id (rb_request baseline) \<noteq> rs_thread_id current
         \<or> \<not> json_eq (JObject (rs_properties (rb_request baseline))) (JObject (rs_properties current))
         \<or> rb_response_id baseline = []
      then None
      else let prefix_len = length (rs_comparison_input (rb_request baseline)) + length (rb_output baseline) in
        Option.bind (split_at_checked (rs_comparison_input current) prefix_len) (\<lambda>(comparison_prefix, _).
        let expected = rs_comparison_input (rb_request baseline) @ rb_output baseline in
        if \<not> equivalent_items_for_reuse expected comparison_prefix then None
        else map_option snd (split_at_checked (rs_input current) prefix_len)))"

definition item_cost :: "(json \<Rightarrow> string list) \<Rightarrow> json \<Rightarrow> nat" where
  "item_cost enc v = length (concat (enc v)) * 4 + 64"

definition snapshot_cost :: "(json \<Rightarrow> string list) \<Rightarrow> request_snapshot \<Rightarrow> nat" where
  "snapshot_cost enc self =
     (case rs_thread_id self of None \<Rightarrow> 0 | Some t \<Rightarrow> length t)
     + length (concat (enc (JObject (rs_properties self)))) * 4
     + sum_list (map (item_cost enc) (rs_input self @ rs_comparison_input self))"

section \<open>Facts\<close>

lemma counter_write_all_eq:
  "written \<le> maximum \<Longrightarrow> counter_write_all maximum buffers written =
     (if written + length (concat buffers) \<le> maximum then Some (written + length (concat buffers)) else None)"
  by (induction buffers arbitrary: written) (auto simp: counter_write_def Let_def)

text \<open>The streaming count agrees with measuring the whole encoding.\<close>

lemma encoded_len_within_eq:
  "encoded_len_within enc v maximum = (if length (concat (enc v)) \<le> maximum then Some (length (concat (enc v))) else None)"
  by (simp add: encoded_len_within_def counter_write_all_eq)

lemma output_encoded_len_from_eq:
  "sofar \<le> maximum \<Longrightarrow> output_encoded_len_from enc maximum items sofar =
     (let n = sofar + sum_list (map (\<lambda>v. length (concat (enc v))) items) in if n \<le> maximum then Some n else None)"
proof (induction items arbitrary: sofar)
  case (Cons item items)
  then show ?case
    by (cases "length (concat (enc item)) \<le> maximum - sofar") (auto simp: encoded_len_within_eq Let_def)
qed (simp add: Let_def)

lemma output_encoded_len_Some:
  "output_encoded_len enc items maximum \<noteq> None \<longleftrightarrow> sum_list (map (\<lambda>v. length (concat (enc v))) items) \<le> maximum"
  by (simp add: output_encoded_len_def output_encoded_len_from_eq Let_def)

lemma incremental_input_Some:
  assumes "incremental_input baseline current = Some delta"
  obtains prefix where "rs_thread_id (rb_request baseline) = rs_thread_id current"
    and "json_eq (JObject (rs_properties (rb_request baseline))) (JObject (rs_properties current))"
    and "rb_response_id baseline \<noteq> []"
    and "equivalent_items_for_reuse (rs_comparison_input (rb_request baseline) @ rb_output baseline)
      (take (length (rs_comparison_input (rb_request baseline)) + length (rb_output baseline)) (rs_comparison_input current))"
    and "rs_input current = prefix @ delta"
    and "length prefix = length (rs_comparison_input (rb_request baseline)) + length (rb_output baseline)"
proof -
  let ?n = "length (rs_comparison_input (rb_request baseline)) + length (rb_output baseline)"
  show ?thesis using assms
    by (intro that [of "take ?n (rs_input current)"])
      (auto simp: incremental_input_def split_at_checked_def Let_def bind_eq_Some_conv simp del: json_eq.simps split: if_splits)
qed

end
