(* ===== verification/Websocket_State.thy ===== *)
theory Websocket_State
  imports Websocket_Reuse Routing_Store
begin

text \<open>
  The continuation state of one socket (\<open>responses_websocket_state.rs\<close>, \<open>responses_websocket_state_output.rs\<close>,
  \<open>responses_websocket_state_types.rs\<close>, \<open>responses_websocket_interrupt.rs\<close>).  Parameters: the digest
  (\<open>ext\<close>), the serializer (\<open>enc\<close>), the name-based UUID (\<open>new_v5\<close>) and the header check (\<open>header_ok\<close>).
\<close>

section \<open>Types\<close>

datatype caller_kind = Bare | Codex

datatype upstream_profile = ApiKeyPassthrough | CodexSubscription1620

definition emulates_codex :: "upstream_profile \<Rightarrow> bool" where
  "emulates_codex profile \<longleftrightarrow> profile \<noteq> ApiKeyPassthrough"

definition uses_subscription_transport :: "upstream_profile \<Rightarrow> bool" where
  "uses_subscription_transport profile \<longleftrightarrow> profile = CodexSubscription1620"

datatype prewarm_mode = Ordinary | ResponsesLite

datatype public_create_mode = Passthrough | ExplicitState | Full | Incremental

datatype operation_kind = HiddenSetup | PublicCreate

datatype operation_phase = Idle | Planned | Attempted | ResponseObserved | Completed | Failed

datatype event_disposition = Unassociated | ConsumeHiddenSetup | ForwardPublic

record public_create_plan =
  pp_frame :: json
  pp_mode :: public_create_mode

record observed_server_event =
  oe_disposition :: event_disposition
  oe_completed_compaction :: "pending_compaction option"

record planned_operation =
  po_kind :: operation_kind
  po_request :: "request_snapshot option"
  po_pending_compaction :: "pending_compaction option"

record active_operation =
  ao_kind :: operation_kind
  ao_request :: "request_snapshot option"
  ao_output :: "(nat, json) btree_map"
  ao_output_bytes :: nat
  ao_compaction_output :: compaction_output
  ao_output_lifecycle :: output_lifecycle
  ao_interruption :: interrupt_state
  ao_reusable :: bool
  ao_pending_compaction :: "pending_compaction option"

record websocket_state =
  ws_caller :: caller_kind
  ws_profile :: upstream_profile
  ws_baseline :: "reuse_baseline option"
  ws_setup_turn_state :: "string option"
  ws_planned :: "planned_operation option"
  ws_active :: "active_operation option"
  ws_setup_phase :: operation_phase
  ws_public_phase :: operation_phase
  ws_rebuilt_reference :: bool
  ws_automatic_reuse :: bool
  ws_max_output_items :: nat
  ws_max_output_bytes :: nat

definition websocket_state_new :: "nat \<Rightarrow> nat \<Rightarrow> caller_kind \<Rightarrow> upstream_profile \<Rightarrow> websocket_state" where
  "websocket_state_new output_items output_bytes caller profile = \<lparr>ws_caller = caller, ws_profile = profile,
     ws_baseline = None, ws_setup_turn_state = None, ws_planned = None, ws_active = None,
     ws_setup_phase = Idle, ws_public_phase = Idle, ws_rebuilt_reference = False,
     ws_automatic_reuse = (caller = Bare \<and> uses_subscription_transport profile),
     ws_max_output_items = output_items, ws_max_output_bytes = output_bytes\<rparr>"

section \<open>Small operations\<close>

definition mark_rebuilt_reference :: "bool \<Rightarrow> websocket_state \<Rightarrow> websocket_state" where
  "mark_rebuilt_reference reconstructed self = self\<lparr>ws_rebuilt_reference := reconstructed\<rparr>"

definition public_create_attempted :: "websocket_state \<Rightarrow> bool" where
  "public_create_attempted self \<longleftrightarrow> ws_public_phase self \<in> {Attempted, ResponseObserved, Completed, Failed}"

definition automatic_reuse_enabled :: "websocket_state \<Rightarrow> bool" where
  "automatic_reuse_enabled self \<longleftrightarrow> ws_automatic_reuse self \<and> ws_caller self = Bare \<and> uses_subscription_transport (ws_profile self)"

definition disable_automatic_reuse :: "websocket_state \<Rightarrow> websocket_state" where
  "disable_automatic_reuse self = self\<lparr>ws_automatic_reuse := False\<rparr>"

definition set_phase :: "operation_kind \<Rightarrow> operation_phase \<Rightarrow> websocket_state \<Rightarrow> websocket_state" where
  "set_phase kind phase self = (case kind of
     HiddenSetup \<Rightarrow> self\<lparr>ws_setup_phase := phase\<rparr> | PublicCreate \<Rightarrow> self\<lparr>ws_public_phase := phase\<rparr>)"

definition forget_setup_token :: "operation_kind \<Rightarrow> websocket_state \<Rightarrow> websocket_state" where
  "forget_setup_token kind self = (if kind = HiddenSetup then self\<lparr>ws_setup_turn_state := None\<rparr> else self)"

definition fail_active :: "operation_kind \<Rightarrow> websocket_state \<Rightarrow> websocket_state" where
  "fail_active kind self = set_phase kind Failed
     ((forget_setup_token kind self)\<lparr>ws_active := None, ws_planned := None, ws_baseline := None\<rparr>)"

definition fail_operation :: "operation_kind \<Rightarrow> websocket_state \<Rightarrow> websocket_state" where
  "fail_operation kind self =
     (let self = forget_setup_token kind self;
          self = (if is_some_and (ws_active self) (\<lambda>active. ao_kind active = kind) then self\<lparr>ws_active := None\<rparr> else self);
          self = (if is_some_and (ws_planned self) (\<lambda>planned. po_kind planned = kind) then self\<lparr>ws_planned := None\<rparr> else self) in
      set_phase kind Failed (self\<lparr>ws_baseline := None\<rparr>))"

definition fail_hidden_setup :: "websocket_state \<Rightarrow> websocket_state" where
  "fail_hidden_setup = fail_operation HiddenSetup"

definition fail_public_create :: "websocket_state \<Rightarrow> websocket_state" where
  "fail_public_create = fail_operation PublicCreate"

definition abandon_pending_operation :: "websocket_state \<Rightarrow> websocket_state" where
  "abandon_pending_operation self =
     (case opt_or (map_option ao_kind (ws_active self)) (map_option po_kind (ws_planned self)) of
        Some kind \<Rightarrow> fail_operation kind self
      | None \<Rightarrow> self)"

definition reset_for_reconnect :: "websocket_state \<Rightarrow> websocket_state" where
  "reset_for_reconnect self = self\<lparr>ws_rebuilt_reference := False, ws_setup_turn_state := None, ws_baseline := None,
     ws_planned := None, ws_active := None, ws_setup_phase := Idle, ws_public_phase := Idle\<rparr>"

definition setup_turn_state :: "websocket_state \<Rightarrow> string option" where
  "setup_turn_state self = (if ws_setup_phase self = Completed then ws_setup_turn_state self else None)"

definition expire_baseline :: "websocket_state \<Rightarrow> websocket_state" where
  "expire_baseline self = self\<lparr>ws_baseline := None\<rparr>"

definition abandon_output :: "active_operation \<Rightarrow> active_operation" where
  "abandon_output active = active\<lparr>ao_output := bm_empty, ao_output_bytes := 0, ao_reusable := False\<rparr>"

definition abandon_cached_bodies :: "websocket_state \<Rightarrow> websocket_state" where
  "abandon_cached_bodies self = self\<lparr>ws_baseline := None,
     ws_active := map_option (\<lambda>active. abandon_output (active\<lparr>ao_request := None\<rparr>)) (ws_active self),
     ws_planned := map_option (\<lambda>planned. planned\<lparr>po_request := None\<rparr>) (ws_planned self)\<rparr>"

definition retained_bytes :: "(json \<Rightarrow> string list) \<Rightarrow> websocket_state \<Rightarrow> nat" where
  "retained_bytes enc self =
     (case ws_setup_turn_state self of None \<Rightarrow> 0 | Some t \<Rightarrow> length t)
     + (case ws_baseline self of None \<Rightarrow> 0 | Some b \<Rightarrow> snapshot_cost enc (rb_request b) + sum_list (map (item_cost enc) (rb_output b)))
     + (case Option.bind (ws_planned self) po_request of None \<Rightarrow> 0 | Some r \<Rightarrow> snapshot_cost enc r)
     + (case ws_active self of None \<Rightarrow> 0 | Some a \<Rightarrow>
          (case ao_request a of None \<Rightarrow> 0 | Some r \<Rightarrow> snapshot_cost enc r) + ao_output_bytes a * 4
          + lifecycle_retained_bytes (ao_output_lifecycle a)
          + (case is_response_id (ao_interruption a) of None \<Rightarrow> 0 | Some i \<Rightarrow> length i))"

section \<open>Planning\<close>

definition order_frame :: "json \<Rightarrow> json" where
  "order_frame frame = (case frame of JObject obj \<Rightarrow> JObject (finalize_wire_order WebSocket obj) | _ \<Rightarrow> frame)"

text \<open>The setup frame: the request with only the prefix worth warming up, marked not to generate.\<close>

definition setup_frame :: "(string \<Rightarrow> string \<Rightarrow> string) \<Rightarrow> json \<Rightarrow> prewarm_mode \<Rightarrow> (json \<times> request_snapshot) option" where
  "setup_frame new_v5 request mode =
     Option.bind (snapshot_of request) (\<lambda>_. Option.bind (as_object request) (\<lambda>frame.
     Option.bind (Option.bind (map_of frame ''input'') as_array) (\<lambda>input.
     Option.bind (case mode of Ordinary \<Rightarrow> Some (ordinary_prewarm_prefix new_v5 request) | ResponsesLite \<Rightarrow> lite_prewarm_prefix input) (\<lambda>prefix.
     let frame = JObject (obj_insert ''generate'' (JBool False) (obj_insert ''input'' (JArray prefix) frame)) in
     map_option (\<lambda>snapshot. (frame, snapshot)) (snapshot_of frame)))))"

definition plan_hidden_setup :: "(string \<Rightarrow> string \<Rightarrow> string) \<Rightarrow> json \<Rightarrow> prewarm_mode \<Rightarrow> websocket_state \<Rightarrow> json option \<times> websocket_state" where
  "plan_hidden_setup new_v5 request mode self =
     (if \<not> automatic_reuse_enabled self \<or> ws_rebuilt_reference self \<or> ws_setup_phase self \<noteq> Idle
         \<or> ws_baseline self \<noteq> None \<or> ws_planned self \<noteq> None \<or> ws_active self \<noteq> None \<or> has_explicit_state_carrier request
      then (None, self)
      else
        (case setup_frame new_v5 request mode of
          None \<Rightarrow> (None, self)
        | Some (frame, snapshot) \<Rightarrow>
            (Some (order_frame frame),
             self\<lparr>ws_planned := Some \<lparr>po_kind = HiddenSetup, po_request = Some snapshot, po_pending_compaction = None\<rparr>,
               ws_setup_phase := Planned\<rparr>)))"

definition with_delta :: "json \<Rightarrow> string \<Rightarrow> json list \<Rightarrow> json option" where
  "with_delta frame response_id delta = map_option (\<lambda>obj.
     JObject (obj_insert ''input'' (JArray delta) (obj_insert ''previous_response_id'' (JString response_id) obj))) (as_object frame)"

text \<open>The frame and mode of a public create, and whether the baseline is kept.\<close>

definition choose_frame :: "json \<Rightarrow> bool \<Rightarrow> request_snapshot option \<Rightarrow> websocket_state \<Rightarrow> json \<times> public_create_mode \<times> bool" where
  "choose_frame request explicit_state snapshot self =
     (if explicit_state then (request, ExplicitState, False)
      else if \<not> automatic_reuse_enabled self
      then (request, if ws_profile self = ApiKeyPassthrough then Passthrough else Full, False)
      else (case (ws_baseline self, snapshot) of
          (Some baseline, Some current) \<Rightarrow>
            (case Option.bind (incremental_input baseline current) (with_delta request (rb_response_id baseline)) of
               Some frame \<Rightarrow> (frame, Incremental, True)
             | None \<Rightarrow> (request, Full, False))
        | _ \<Rightarrow> (request, Full, False)))"

definition plan_public_create :: "json \<Rightarrow> pending_compaction option \<Rightarrow> websocket_state \<Rightarrow> public_create_plan \<times> websocket_state" where
  "plan_public_create request pending_compaction self =
     (let self = abandon_pending_operation self;
          explicit_state = (ws_rebuilt_reference self \<or> has_explicit_state_carrier request);
          self = self\<lparr>ws_rebuilt_reference := False\<rparr>;
          automatic = (automatic_reuse_enabled self \<and> \<not> explicit_state);
          snapshot = (if automatic then snapshot_of request else None);
          (frame, mode, keep) = choose_frame request explicit_state snapshot self;
          self = (if keep then self else self\<lparr>ws_baseline := None\<rparr>);
          frame = (if emulates_codex (ws_profile self) then order_frame frame else frame) in
      (\<lparr>pp_frame = frame, pp_mode = mode\<rparr>,
       self\<lparr>ws_planned := Some \<lparr>po_kind = PublicCreate, po_request = snapshot, po_pending_compaction = pending_compaction\<rparr>,
         ws_public_phase := Planned\<rparr>))"

definition active_new :: "planned_operation \<Rightarrow> active_operation" where
  "active_new planned = \<lparr>ao_kind = po_kind planned, ao_request = po_request planned, ao_output = bm_empty, ao_output_bytes = 0,
     ao_compaction_output = compaction_output_default, ao_output_lifecycle = lifecycle_default,
     ao_interruption = interrupt_default, ao_reusable = True, ao_pending_compaction = po_pending_compaction planned\<rparr>"

definition activate :: "operation_kind \<Rightarrow> websocket_state \<Rightarrow> bool \<times> websocket_state" where
  "activate expected self =
     (case ws_planned self of
        None \<Rightarrow> (False, self)
      | Some planned \<Rightarrow>
          if po_kind planned \<noteq> expected \<or> ws_active self \<noteq> None then (False, self)
          else (True, set_phase expected Attempted (self\<lparr>ws_planned := None, ws_active := Some (active_new planned)\<rparr>)))"

definition mark_hidden_setup_attempted :: "websocket_state \<Rightarrow> bool \<times> websocket_state" where
  "mark_hidden_setup_attempted = activate HiddenSetup"

definition mark_public_create_attempted :: "websocket_state \<Rightarrow> bool \<times> websocket_state" where
  "mark_public_create_attempted = activate PublicCreate"

section \<open>Server events\<close>

fun token_value :: "json \<Rightarrow> string option" where
  "token_value (JString token) = Some token"
| "token_value (JArray (v # _)) = token_value v"
| "token_value _ = None"

definition metadata_token :: "json \<Rightarrow> string option" where
  "metadata_token event =
     (if type_of event \<noteq> Some ''response.metadata'' then None
      else Option.bind (Option.bind (jget event ''headers'') as_object) (\<lambda>headers.
        Option.bind (List.find (\<lambda>(name, _). eq_ignore_ascii_case name ''x-codex-turn-state'') headers) (\<lambda>(_, v). token_value v)))"

definition store_output :: "(json \<Rightarrow> string list) \<Rightarrow> nat \<Rightarrow> nat \<Rightarrow> json \<Rightarrow> json option \<Rightarrow> active_operation \<Rightarrow> active_operation" where
  "store_output enc max_output_items max_output_bytes event item active =
     (case (case item of Some i \<Rightarrow> if reusable_item i then Some i else None | None \<Rightarrow> None) of
        None \<Rightarrow> abandon_output active
      | Some item \<Rightarrow>
          (case encoded_len_within enc item (max_output_bytes - ao_output_bytes active) of
             None \<Rightarrow> abandon_output active
           | Some encoded \<Rightarrow>
               (let index = (case Option.bind (jget event ''output_index'') as_u64 of Some i \<Rightarrow> i | None \<Rightarrow> bm_len (ao_output active)) in
                if index \<ge> max_output_items then abandon_output active
                else (case bm_get (ao_output active) index of
                    Some previous \<Rightarrow> if equivalent_items [previous] [item] then active else abandon_output active
                  | None \<Rightarrow> active\<lparr>ao_output := bm_insert index item (ao_output active),
                      ao_output_bytes := min (2 ^ 64 - 1) (ao_output_bytes active + encoded)\<rparr>))))"

definition observe_output_item :: "externals \<Rightarrow> (json \<Rightarrow> string list) \<Rightarrow> json \<Rightarrow> websocket_state \<Rightarrow> websocket_state" where
  "observe_output_item ext enc event self =
     (case ws_active self of
        None \<Rightarrow> self
      | Some active \<Rightarrow>
          (let item = jget event ''item'';
               active = (case item of Some i \<Rightarrow> active\<lparr>ao_compaction_output := co_observe ext i (ao_compaction_output active)\<rparr> | None \<Rightarrow> active) in
           self\<lparr>ws_active := Some (if \<not> ao_reusable active then active
             else store_output enc (ws_max_output_items self) (ws_max_output_bytes self) event item active)\<rparr>))"

definition observed_fingerprints :: "externals \<Rightarrow> (json \<Rightarrow> string list) \<Rightarrow> active_operation \<Rightarrow> (nat \<times> completion_fingerprint) list" where
  "observed_fingerprints ext enc active =
     map (\<lambda>(index, item). (index, completion_fingerprint_new ext (concat \<circ> enc) item)) (bm_entries (ao_output active))"

definition validate_completion :: "externals \<Rightarrow> (json \<Rightarrow> string list) \<Rightarrow> json \<Rightarrow> active_operation \<Rightarrow> unit result" where
  "validate_completion ext enc event active =
     (if interrupt_completes (ao_interruption active) event
      then validate_interrupted ext (concat \<circ> enc) (ao_output_lifecycle active) (jindex event ''response'') (observed_fingerprints ext enc active)
      else validate_completed ext (concat \<circ> enc) (ao_output_lifecycle active) (jindex event ''response''))"

text \<open>The output of the completed response, and the operation, which a footer that cannot be reused abandons.\<close>

definition reconcile_footer :: "(json \<Rightarrow> string list) \<Rightarrow> nat \<Rightarrow> nat \<Rightarrow> json list option \<Rightarrow> active_operation \<Rightarrow> json list \<times> active_operation" where
  "reconcile_footer enc max_output_items max_output_bytes footer active =
     (let collected = bm_values (ao_output active) in
      case footer of
        None \<Rightarrow> (collected, active)
      | Some output \<Rightarrow>
          if \<not> list_all reusable_item output \<or> length output > max_output_items \<or> output_encoded_len enc output max_output_bytes = None
          then (collected, abandon_output active)
          else if bm_len (ao_output active) = 0 then (output, active)
          else if \<not> equivalent_items collected output then (collected, abandon_output active)
          else (collected, active))"

definition response_object :: "json \<Rightarrow> (string \<times> json) list option" where
  "response_object event = Option.bind (jget event ''response'') as_object"

definition response_id_of :: "json \<Rightarrow> string option" where
  "response_id_of event = (case str_of (Option.bind (response_object event) (\<lambda>r. map_of r ''id'')) of
     Some i \<Rightarrow> if i \<noteq> [] then Some i else None | None \<Rightarrow> None)"

definition refuse_compaction :: "externals \<Rightarrow> json \<Rightarrow> active_operation \<Rightarrow> active_operation" where
  "refuse_compaction ext event active =
     (if is_some_and (ao_pending_compaction active) (\<lambda>pending.
          \<not> accepts_response ext pending (case jget event ''response'' of Some r \<Rightarrow> r | None \<Rightarrow> event) (Some (ao_compaction_output active)))
      then active\<lparr>ao_reusable := False\<rparr> else active)"

definition new_baseline :: "active_operation \<Rightarrow> string option \<Rightarrow> json list \<Rightarrow> reuse_baseline option" where
  "new_baseline active response_id collected =
     (case (ao_reusable active, ao_request active, response_id) of
        (True, Some request, Some response_id) \<Rightarrow> Some \<lparr>rb_request = request, rb_response_id = response_id, rb_output = collected\<rparr>
      | _ \<Rightarrow> None)"

definition complete_active :: "externals \<Rightarrow> (json \<Rightarrow> string list) \<Rightarrow> json \<Rightarrow> websocket_state \<Rightarrow> pending_compaction option \<times> websocket_state" where
  "complete_active ext enc event self =
     (case ws_active self of
        None \<Rightarrow> (None, self)
      | Some active \<Rightarrow>
          (let self = self\<lparr>ws_active := None\<rparr> in
           case validate_completion ext enc event active of
             Inl _ \<Rightarrow> (None, fail_active (ao_kind active) self)
           | Inr _ \<Rightarrow>
               (let (collected, active) = reconcile_footer enc (ws_max_output_items self) (ws_max_output_bytes self)
                      (populated (Option.bind (response_object event) (\<lambda>r. map_of r ''output''))) active;
                    active = refuse_compaction ext event active in
                (ao_pending_compaction active,
                 set_phase (ao_kind active) Completed
                   (self\<lparr>ws_baseline := new_baseline active (response_id_of event) collected\<rparr>)))))"

definition learn_setup_token :: "(string \<Rightarrow> bool) \<Rightarrow> operation_kind \<Rightarrow> json \<Rightarrow> websocket_state \<Rightarrow> websocket_state" where
  "learn_setup_token header_ok kind event self =
     (if kind = HiddenSetup \<and> ws_setup_turn_state self = None
      then (case metadata_token event of
          Some token \<Rightarrow> if is_ok (validate_token header_ok token) then self\<lparr>ws_setup_turn_state := Some token\<rparr> else self
        | None \<Rightarrow> self)
      else self)"

text \<open>The interrupt, the shape of the item and the lifecycle, in order; the first error stops.\<close>

definition observe_evidence :: "externals \<Rightarrow> nat \<Rightarrow> json \<Rightarrow> (active_operation, ledger_error, unit) action" where
  "observe_evidence ext max_output_items event active =
     (case interrupt_observe event (ao_interruption active) of
        (Inl e, i) \<Rightarrow> (Inl e, active\<lparr>ao_interruption := i\<rparr>)
      | (Inr _, i) \<Rightarrow>
          (let active = active\<lparr>ao_interruption := i\<rparr> in
           case validate_done event of
             Inl e \<Rightarrow> (Inl e, active)
           | Inr _ \<Rightarrow>
               (let (r, l) = observe_with_interrupt ext event max_output_items (is_requested i) (ao_output_lifecycle active) in
                (r, active\<lparr>ao_output_lifecycle := l\<rparr>))))"

definition dispatch_event :: "externals \<Rightarrow> (json \<Rightarrow> string list) \<Rightarrow> operation_kind \<Rightarrow> string \<Rightarrow> json \<Rightarrow> websocket_state
    \<Rightarrow> pending_compaction option \<times> websocket_state" where
  "dispatch_event ext enc kind event_type event self =
     (if event_type = ''response.output_item.done'' then (None, observe_output_item ext enc event self)
      else if event_type = ''response.completed'' then complete_active ext enc event self
      else if event_type = ''response.incomplete'' \<and> is_some_and (ws_active self) (\<lambda>a. interrupt_completes (ao_interruption a) event)
      then complete_active ext enc event self
      else if event_type \<in> {''response.failed'', ''response.incomplete'', ''error''} then (None, fail_active kind self)
      else (None, self))"

definition observe_server_event ::
    "externals \<Rightarrow> (json \<Rightarrow> string list) \<Rightarrow> (string \<Rightarrow> bool) \<Rightarrow> json \<Rightarrow> websocket_state \<Rightarrow> observed_server_event \<times> websocket_state" where
  "observe_server_event ext enc header_ok event self =
     (case ws_active self of
        None \<Rightarrow> (\<lparr>oe_disposition = Unassociated, oe_completed_compaction = None\<rparr>, self)
      | Some active \<Rightarrow>
          (let kind = ao_kind active;
               disposition = (case kind of HiddenSetup \<Rightarrow> ConsumeHiddenSetup | PublicCreate \<Rightarrow> ForwardPublic);
               self = set_phase kind ResponseObserved (learn_setup_token header_ok kind event self) in
           case type_of event of
             None \<Rightarrow> (\<lparr>oe_disposition = disposition, oe_completed_compaction = None\<rparr>, self\<lparr>ws_active := Some (active\<lparr>ao_reusable := False\<rparr>)\<rparr>)
           | Some event_type \<Rightarrow>
               (case observe_evidence ext (ws_max_output_items self) event active of
                  (Inl _, _) \<Rightarrow> (\<lparr>oe_disposition = disposition, oe_completed_compaction = None\<rparr>, fail_active kind self)
                | (Inr _, active) \<Rightarrow>
                    (let (completed, self) = dispatch_event ext enc kind event_type event (self\<lparr>ws_active := Some active\<rparr>) in
                     (\<lparr>oe_disposition = disposition, oe_completed_compaction = completed\<rparr>, self)))))"

definition completes_interruption :: "websocket_state \<Rightarrow> json \<Rightarrow> bool" where
  "completes_interruption self event \<longleftrightarrow> is_some_and (ws_active self) (\<lambda>active. interrupt_completes (ao_interruption active) event)"

definition request_interrupt :: "string \<Rightarrow> (websocket_state, ledger_error, unit) action" where
  "request_interrupt response_id self =
     (case ws_active self of
        None \<Rightarrow> (Inl (Msg ''no active response''), self)
      | Some active \<Rightarrow>
          if ao_kind active \<noteq> PublicCreate \<or> ao_pending_compaction active \<noteq> None
          then (Inl (Msg ''cannot interrupt setup or compaction''), self)
          else (let (r, i) = interrupt_request response_id (ao_interruption active) in
            (r, self\<lparr>ws_active := Some (active\<lparr>ao_interruption := i\<rparr>)\<rparr>)))"

end
