(* ===== verification/Websocket_Steps.thy ===== *)
theory Websocket_Steps
  imports Websocket_State
begin

text \<open>
  The calls a relay makes on the state of its socket, in any order, and the invariants that every
  sequence of them keeps.
\<close>

section \<open>Calls\<close>

record socket_env =
  se_ext :: externals
  se_enc :: "json \<Rightarrow> string list"
  se_new_v5 :: "string \<Rightarrow> string \<Rightarrow> string"
  se_header_ok :: "string \<Rightarrow> bool"

datatype ws_call =
  Plan_Setup json prewarm_mode
  | Plan_Public json "pending_compaction option"
  | Attempt operation_kind
  | Event json
  | Fail operation_kind
  | Reconnect
  | Expire
  | Abandon
  | Disable
  | Rebuilt bool
  | Interrupt string

fun ws_apply :: "socket_env \<Rightarrow> ws_call \<Rightarrow> websocket_state \<Rightarrow> websocket_state" where
  "ws_apply env (Plan_Setup request mode) s = snd (plan_hidden_setup (se_new_v5 env) request mode s)"
| "ws_apply env (Plan_Public request pending) s = snd (plan_public_create request pending s)"
| "ws_apply env (Attempt kind) s = snd (activate kind s)"
| "ws_apply env (Event event) s = snd (observe_server_event (se_ext env) (se_enc env) (se_header_ok env) event s)"
| "ws_apply env (Fail kind) s = fail_operation kind s"
| "ws_apply env Reconnect s = reset_for_reconnect s"
| "ws_apply env Expire s = expire_baseline s"
| "ws_apply env Abandon s = abandon_cached_bodies s"
| "ws_apply env Disable s = disable_automatic_reuse s"
| "ws_apply env (Rebuilt b) s = mark_rebuilt_reference b s"
| "ws_apply env (Interrupt i) s = snd (request_interrupt i s)"

definition ws_run :: "socket_env \<Rightarrow> ws_call list \<Rightarrow> websocket_state \<Rightarrow> websocket_state" where
  "ws_run env calls s = fold (ws_apply env) calls s"

lemma ws_run_simps [simp]:
  "ws_run env [] s = s"
  "ws_run env (calls @ [c]) s = ws_apply env c (ws_run env calls s)"
  by (simp_all add: ws_run_def)

text \<open>An invariant of the state that may speak about the calls so far.\<close>

lemma ws_run_invariant:
  assumes "P [] s" and "\<And>calls c t. P calls t \<Longrightarrow> P (calls @ [c]) (ws_apply env c t)"
  shows "P calls (ws_run env calls s)"
  by (induction calls rule: rev_induct) (simp_all add: assms)

section \<open>Phases\<close>

definition phase_of :: "websocket_state \<Rightarrow> operation_kind \<Rightarrow> operation_phase" where
  "phase_of s kind = (case kind of HiddenSetup \<Rightarrow> ws_setup_phase s | PublicCreate \<Rightarrow> ws_public_phase s)"

definition planned_kind :: "websocket_state \<Rightarrow> operation_kind option" where
  "planned_kind s = map_option po_kind (ws_planned s)"

definition active_kind :: "websocket_state \<Rightarrow> operation_kind option" where
  "active_kind s = map_option ao_kind (ws_active s)"

definition phases_ok :: "websocket_state \<Rightarrow> bool" where
  "phases_ok s \<longleftrightarrow> (planned_kind s = None \<or> active_kind s = None)
     \<and> (\<forall>kind. phase_of s kind = Planned \<longleftrightarrow> planned_kind s = Some kind)
     \<and> (\<forall>kind. phase_of s kind \<in> {Attempted, ResponseObserved} \<longleftrightarrow> active_kind s = Some kind)
     \<and> (ws_setup_turn_state s \<noteq> None \<longrightarrow> phase_of s HiddenSetup \<in> {ResponseObserved, Completed})"

lemmas phase_defs = phases_ok_def phase_of_def planned_kind_def active_kind_def

lemma all_operations: "(\<forall>kind. P kind) \<longleftrightarrow> P HiddenSetup \<and> P PublicCreate"
  by (metis operation_kind.exhaust)

lemma phase_of_set_phase: "phase_of (set_phase kind phase s) kind' = (if kind = kind' then phase else phase_of s kind')"
  by (simp add: phase_of_def set_phase_def split: operation_kind.splits)

lemma set_phase_simps [simp]:
  "ws_active (set_phase kind phase s) = ws_active s"
  "ws_planned (set_phase kind phase s) = ws_planned s"
  "ws_baseline (set_phase kind phase s) = ws_baseline s"
  "ws_setup_turn_state (set_phase kind phase s) = ws_setup_turn_state s"
  "ws_max_output_items (set_phase kind phase s) = ws_max_output_items s"
  "ws_max_output_bytes (set_phase kind phase s) = ws_max_output_bytes s"
  "ws_profile (set_phase kind phase s) = ws_profile s"
  by (simp_all add: set_phase_def split: operation_kind.splits)

lemma phases_ok_fail_operation: "phases_ok s \<Longrightarrow> phases_ok (fail_operation kind s)"
  by (cases kind; cases "ws_active s"; cases "ws_planned s")
    (auto simp: phase_defs all_operations fail_operation_def forget_setup_token_def set_phase_def Let_def)

text \<open>While an operation runs, the other one is at rest.\<close>

definition other_rests :: "operation_kind \<Rightarrow> websocket_state \<Rightarrow> bool" where
  "other_rests kind s \<longleftrightarrow> planned_kind s = None
     \<and> (case kind of
          HiddenSetup \<Rightarrow> ws_public_phase s \<notin> {Planned, Attempted, ResponseObserved}
        | PublicCreate \<Rightarrow> ws_setup_phase s \<notin> {Planned, Attempted, ResponseObserved}
            \<and> (ws_setup_turn_state s \<noteq> None \<longrightarrow> ws_setup_phase s = Completed))"

lemma other_restsI: "phases_ok s \<Longrightarrow> ws_active s = Some a \<Longrightarrow> other_rests (ao_kind a) s"
  by (cases "ao_kind a") (auto simp: other_rests_def phase_defs all_operations)

lemma other_rests_update:
  "other_rests kind s \<Longrightarrow> other_rests kind (s\<lparr>ws_active := x\<rparr>)"
  "other_rests kind s \<Longrightarrow> other_rests kind (s\<lparr>ws_baseline := y\<rparr>)"
  "other_rests kind s \<Longrightarrow> other_rests kind (set_phase kind phase s)"
  "other_rests kind s \<Longrightarrow> other_rests kind (learn_setup_token header_ok kind event s)"
  by (auto simp: other_rests_def planned_kind_def set_phase_def learn_setup_token_def split: operation_kind.splits option.splits)

lemma phase_of_active [simp]: "phase_of (s\<lparr>ws_active := x\<rparr>) kind = phase_of s kind"
  by (simp add: phase_of_def split: operation_kind.splits)

lemma phases_ok_running:
  "other_rests kind s \<Longrightarrow> active_kind s = Some kind \<Longrightarrow> phase_of s kind = ResponseObserved \<Longrightarrow> phases_ok s"
  by (cases kind) (auto simp: other_rests_def phase_defs all_operations)

lemma phases_ok_fail_active: "other_rests kind s \<Longrightarrow> phases_ok (fail_active kind s)"
  by (cases kind) (auto simp: other_rests_def phase_defs all_operations fail_active_def forget_setup_token_def set_phase_def)

lemma phases_ok_completed: "other_rests kind s \<Longrightarrow> ws_active s = None \<Longrightarrow> phases_ok (set_phase kind Completed s)"
  by (cases kind) (auto simp: other_rests_def phase_defs all_operations set_phase_def)

lemma abandon_output_kind [simp]: "ao_kind (abandon_output a) = ao_kind a"
  by (simp add: abandon_output_def)

lemma store_output_kind [simp]: "ao_kind (store_output enc m n event item a) = ao_kind a"
  by (simp add: store_output_def Let_def split: option.splits)

lemma reconcile_footer_kind [simp]: "ao_kind (snd (reconcile_footer enc m n footer a)) = ao_kind a"
  by (simp add: reconcile_footer_def Let_def split: option.splits)

lemma refuse_compaction_kind [simp]: "ao_kind (refuse_compaction ext event a) = ao_kind a"
  by (simp add: refuse_compaction_def)

lemma observe_evidence_kind [simp]: "ao_kind (snd (observe_evidence ext m event a)) = ao_kind a"
  by (simp add: observe_evidence_def Let_def split: prod.splits sum.splits)

lemma observe_output_item_frame:
  assumes "ws_active s = Some a"
  obtains a' where "observe_output_item ext enc event s = s\<lparr>ws_active := Some a'\<rparr>" and "ao_kind a' = ao_kind a"
  using assms by (cases "jget event ''item''") (auto simp: observe_output_item_def Let_def)

lemma phases_ok_complete_active:
  assumes "other_rests kind s" and "ws_active s = Some a" and "ao_kind a = kind"
  shows "phases_ok (snd (complete_active ext enc event s))"
proof -
  have "other_rests kind (s\<lparr>ws_active := None\<rparr>)" using assms(1) by (rule other_rests_update)
  with assms(2,3) show ?thesis
    by (auto simp: complete_active_def Let_def split_beta split: sum.splits
        intro!: phases_ok_fail_active phases_ok_completed other_rests_update)
qed

lemma phases_ok_dispatch:
  assumes "other_rests kind s" and "ws_active s = Some a" and "ao_kind a = kind" and "phase_of s kind = ResponseObserved"
  shows "phases_ok (snd (dispatch_event ext enc kind event_type event s))"
proof -
  obtain a' where a': "observe_output_item ext enc event s = s\<lparr>ws_active := Some a'\<rparr>" "ao_kind a' = kind"
    using observe_output_item_frame [OF assms(2), of ext enc event] assms(3) by blast
  have "phases_ok (observe_output_item ext enc event s)"
    unfolding a'(1) using assms a'(2) by (intro phases_ok_running [of kind] other_rests_update(1)) (auto simp: active_kind_def)
  moreover have "phases_ok s" using assms by (intro phases_ok_running [of kind]) (auto simp: active_kind_def)
  ultimately show ?thesis using assms(1) phases_ok_complete_active [OF assms(1-3)]
    by (simp add: dispatch_event_def phases_ok_fail_active)
qed

lemma phases_ok_event:
  assumes "phases_ok s"
  shows "phases_ok (snd (observe_server_event ext enc header_ok event s))"
proof (cases "ws_active s")
  case None
  with assms show ?thesis by (simp add: observe_server_event_def)
next
  case (Some a)
  let ?s = "set_phase (ao_kind a) ResponseObserved (learn_setup_token header_ok (ao_kind a) event s)"
  have rests: "other_rests (ao_kind a) ?s"
    using other_restsI [OF assms Some] by (intro other_rests_update)
  have observed: "phase_of ?s (ao_kind a) = ResponseObserved" by (simp add: phase_of_set_phase)
  let ?observed = "observe_evidence ext (ws_max_output_items ?s) event a"
  have untyped: "phases_ok (?s\<lparr>ws_active := Some (a\<lparr>ao_reusable := False\<rparr>)\<rparr>)"
    using rests observed by (intro phases_ok_running [of "ao_kind a"] other_rests_update(1)) (auto simp: active_kind_def)
  have typed: "phases_ok (snd (dispatch_event ext enc (ao_kind a) t event (?s\<lparr>ws_active := Some (snd ?observed)\<rparr>)))" for t
    using rests observed by (intro phases_ok_dispatch [where a = "snd ?observed"] other_rests_update(1)) simp_all
  show ?thesis using Some rests untyped typed
    by (simp add: observe_server_event_def Let_def split_beta phases_ok_fail_active split: option.splits sum.splits)
qed

lemma phases_ok_abandon: "phases_ok s \<Longrightarrow> phases_ok (abandon_pending_operation s)"
  by (simp add: abandon_pending_operation_def phases_ok_fail_operation split: option.splits)

lemma fail_operation_simps [simp]:
  "ws_planned (fail_operation kind s) = (if planned_kind s = Some kind then None else ws_planned s)"
  "ws_active (fail_operation kind s) = (if active_kind s = Some kind then None else ws_active s)"
  "ws_baseline (fail_operation kind s) = None"
  by (auto simp: fail_operation_def forget_setup_token_def planned_kind_def active_kind_def Let_def is_some_and_iff)

lemma abandon_pending_clears:
  assumes "planned_kind s = None \<or> active_kind s = None"
  shows "ws_planned (abandon_pending_operation s) = None" and "ws_active (abandon_pending_operation s) = None"
  using assms by (cases "ws_active s"; cases "ws_planned s";
      simp add: abandon_pending_operation_def opt_or_def planned_kind_def active_kind_def)+

lemma phases_ok_plan:
  assumes "phases_ok s"
  shows "phases_ok (snd (plan_public_create request pending s))"
proof -
  let ?s = "abandon_pending_operation s"
  have clear: "ws_planned ?s = None" "ws_active ?s = None"
    using assms by (auto simp: phases_ok_def intro: abandon_pending_clears)
  have "phases_ok (?s\<lparr>ws_rebuilt_reference := r, ws_baseline := b, ws_planned := Some p, ws_public_phase := Planned\<rparr>)"
    if "po_kind p = PublicCreate" for r b p
    using phases_ok_abandon [OF assms] clear that by (auto simp: phase_defs all_operations)
  moreover have "phases_ok (?s\<lparr>ws_rebuilt_reference := r, ws_planned := Some p, ws_public_phase := Planned\<rparr>)"
    if "po_kind p = PublicCreate" for r p
    using phases_ok_abandon [OF assms] clear that by (auto simp: phase_defs all_operations)
  ultimately show ?thesis by (simp add: plan_public_create_def Let_def split_beta)
qed

lemma plan_hidden_setup_cases:
  obtains (refused) "snd (plan_hidden_setup new_v5 request mode s) = s"
  | (planned) frame snapshot where "setup_frame new_v5 request mode = Some (frame, snapshot)"
      and "ws_planned s = None" and "ws_active s = None" and "ws_setup_phase s = Idle" and "ws_baseline s = None"
      and "snd (plan_hidden_setup new_v5 request mode s) = s\<lparr>ws_planned := Some \<lparr>po_kind = HiddenSetup,
        po_request = Some snapshot, po_pending_compaction = None\<rparr>, ws_setup_phase := Planned\<rparr>"
proof (cases "snd (plan_hidden_setup new_v5 request mode s) = s")
  case False
  then show ?thesis
    by (intro planned [of "fst (the (setup_frame new_v5 request mode))" "snd (the (setup_frame new_v5 request mode))"])
      (auto simp: plan_hidden_setup_def split: if_splits option.splits)
qed (rule refused)

lemma activate_cases:
  obtains (refused) "snd (activate kind s) = s"
  | (activated) planned where "ws_planned s = Some planned" and "po_kind planned = kind" and "ws_active s = None"
      and "snd (activate kind s) = set_phase kind Attempted (s\<lparr>ws_planned := None, ws_active := Some (active_new planned)\<rparr>)"
proof (cases "ws_planned s")
  case None
  then show ?thesis by (intro refused) (simp add: activate_def)
next
  case (Some planned)
  then show ?thesis
    by (cases "po_kind planned \<noteq> kind \<or> ws_active s \<noteq> None") (auto simp: activate_def intro: refused activated)
qed

lemma active_new_kind [simp]: "ao_kind (active_new planned) = po_kind planned"
  by (simp add: active_new_def)

lemma phases_ok_activated:
  assumes "phases_ok s" and "ws_planned s = Some planned" and "ws_active s = None" and "po_kind planned = kind"
  shows "phases_ok (set_phase kind Attempted (s\<lparr>ws_planned := None, ws_active := Some (active_new planned)\<rparr>))"
  using assms by (cases kind) (auto simp: phase_defs all_operations set_phase_def)

lemma phases_ok_small:
  "phases_ok (reset_for_reconnect s)"
  "phases_ok (expire_baseline s) = phases_ok s"
  "phases_ok (disable_automatic_reuse s) = phases_ok s"
  "phases_ok (mark_rebuilt_reference b s) = phases_ok s"
  by (simp_all add: reset_for_reconnect_def expire_baseline_def disable_automatic_reuse_def mark_rebuilt_reference_def
      phase_defs all_operations)

lemma phases_ok_apply: "phases_ok s \<Longrightarrow> phases_ok (ws_apply env c s)"
proof (cases c)
  case (Plan_Setup request mode)
  assume "phases_ok s"
  then show ?thesis unfolding Plan_Setup ws_apply.simps
    by (cases rule: plan_hidden_setup_cases [of "se_new_v5 env" request mode s]) (simp_all add: phase_defs all_operations)
next
  case (Attempt kind)
  assume "phases_ok s"
  then show ?thesis unfolding Attempt ws_apply.simps
    by (cases rule: activate_cases [of kind s]) (simp_all add: phases_ok_activated)
next
  case (Interrupt i)
  assume "phases_ok s"
  then show ?thesis
    by (auto simp: Interrupt request_interrupt_def phase_defs all_operations Let_def split_beta split: option.splits)
next
  case Abandon
  assume "phases_ok s"
  then show ?thesis unfolding Abandon ws_apply.simps
    by (cases "ws_active s"; cases "ws_planned s") (simp_all add: abandon_cached_bodies_def phase_defs all_operations)
qed (simp_all add: phases_ok_plan phases_ok_event phases_ok_fail_operation phases_ok_small)

lemma phases_ok_run: "phases_ok s \<Longrightarrow> phases_ok (ws_run env calls s)"
  by (rule ws_run_invariant [where P = "\<lambda>_. phases_ok"]) (simp_all add: phases_ok_apply)

lemma phases_ok_new: "phases_ok (websocket_state_new m n caller profile)"
  by (simp add: websocket_state_new_def phase_defs all_operations)

end
