(* ===== verification/Websocket_Correct.thy ===== *)
theory Websocket_Correct
  imports Websocket_Steps Output_Correct
begin

text \<open>
  What the socket state promises: it reuses a response only as the prefix of a request that extends
  it, only after that response completed on this socket, and within the output budget.
\<close>

section \<open>Retained output\<close>

definition encoded :: "(json \<Rightarrow> string list) \<Rightarrow> json list \<Rightarrow> nat" where
  "encoded enc items = sum_list (map (\<lambda>v. length (concat (enc v))) items)"

lemma sum_ins_sorted:
  "k \<notin> fst ` set xs \<Longrightarrow> sum_list (map f (map snd (ins_sorted k v xs))) = f v + (sum_list (map f (map snd xs)) :: nat)"
  by (induction k v xs rule: ins_sorted.induct) auto

lemma encoded_insert:
  "bm_get m k = None \<Longrightarrow> encoded enc (bm_values (bm_insert k v m)) = length (concat (enc v)) + encoded enc (bm_values m)"
  unfolding encoded_def bm_values_def bm_entries_simps
  by (rule sum_ins_sorted) (simp add: bm_get_def map_of_eq_None_iff)

definition output_ok :: "(json \<Rightarrow> string list) \<Rightarrow> nat \<Rightarrow> nat \<Rightarrow> active_operation \<Rightarrow> bool" where
  "output_ok enc m n a \<longleftrightarrow> (\<forall>i item. bm_get (ao_output a) i = Some item \<longrightarrow> i < m \<and> reusable_item item)
     \<and> ao_output_bytes a = encoded enc (bm_values (ao_output a)) \<and> ao_output_bytes a \<le> n"

lemma output_ok_abandon [simp]: "output_ok enc m n (abandon_output a)"
  by (simp add: output_ok_def abandon_output_def encoded_def bm_values_def)

lemma output_ok_new [simp]: "output_ok enc m n (active_new planned)"
  by (simp add: output_ok_def active_new_def encoded_def bm_values_def)

lemma active_new_request [simp]: "ao_request (active_new planned) = po_request planned"
  by (simp add: active_new_def)

lemma output_ok_frame [simp]:
  "output_ok enc m n (a\<lparr>ao_compaction_output := x1\<rparr>) = output_ok enc m n a"
  "output_ok enc m n (a\<lparr>ao_output_lifecycle := x2\<rparr>) = output_ok enc m n a"
  "output_ok enc m n (a\<lparr>ao_interruption := x3\<rparr>) = output_ok enc m n a"
  "output_ok enc m n (a\<lparr>ao_reusable := x4\<rparr>) = output_ok enc m n a"
  "output_ok enc m n (a\<lparr>ao_request := x5\<rparr>) = output_ok enc m n a"
  by (simp_all add: output_ok_def)

text \<open>The byte count saturates at the word size, which the budget never reaches.\<close>

lemma output_ok_store:
  assumes "output_ok enc m n a" and "n < 2 ^ 64"
  shows "output_ok enc m n (store_output enc m n event item a)"
proof -
  have "output_ok enc m n (a\<lparr>ao_output := bm_insert i v (ao_output a), ao_output_bytes := min (2 ^ 64 - 1) (ao_output_bytes a + k)\<rparr>)"
    if "bm_get (ao_output a) i = None" "i < m" "reusable_item v" "encoded_len_within enc v (n - ao_output_bytes a) = Some k" for i v k
  proof -
    have k: "k = length (concat (enc v))" "ao_output_bytes a + k \<le> n"
      using that(4) assms(1) by (auto simp: encoded_len_within_eq output_ok_def split: if_splits)
    then have "min (2 ^ 64 - 1) (ao_output_bytes a + k) = ao_output_bytes a + k" using assms(2) by simp
    with k that assms(1) show ?thesis by (auto simp: output_ok_def encoded_insert split: if_splits)
  qed
  with assms(1) show ?thesis
    by (auto simp: store_output_def Let_def split: option.splits if_splits)
qed

lemma output_ok_length:
  assumes "output_ok enc m n a"
  shows "length (bm_values (ao_output a)) \<le> m"
proof -
  have "dom (bm_get (ao_output a)) \<subseteq> {..<m}" using assms by (auto simp: output_ok_def)
  then have "card (dom (bm_get (ao_output a))) \<le> card {..<m}" by (intro card_mono) auto
  then show ?thesis by (simp add: bm.len_card [symmetric] bm_values_def bm_len_def)
qed

section \<open>Provenance of the baseline\<close>

definition offered :: "socket_env \<Rightarrow> ws_call list \<Rightarrow> request_snapshot \<Rightarrow> bool" where
  "offered env calls r \<longleftrightarrow> (\<exists>request pending. Plan_Public request pending \<in> set calls \<and> snapshot_of request = Some r)
     \<or> (\<exists>request mode frame. Plan_Setup request mode \<in> set calls \<and> setup_frame (se_new_v5 env) request mode = Some (frame, r))"

fun clears :: "ws_call \<Rightarrow> bool" where
  "clears (Fail _) = True"
| "clears Reconnect = True"
| "clears Expire = True"
| "clears Abandon = True"
| "clears _ = False"

text \<open>The baseline is a request offered before, whose response completed, with nothing that clears it since.\<close>

definition from_completion :: "socket_env \<Rightarrow> ws_call list \<Rightarrow> reuse_baseline \<Rightarrow> bool" where
  "from_completion env calls b \<longleftrightarrow> (\<exists>pre event post. calls = pre @ Event event # post
     \<and> offered env pre (rb_request b) \<and> response_id_of event = Some (rb_response_id b)
     \<and> type_of event \<in> {Some ''response.completed'', Some ''response.incomplete''}
     \<and> (\<forall>c \<in> set post. \<not> clears c))"

definition baseline_ok :: "(json \<Rightarrow> string list) \<Rightarrow> nat \<Rightarrow> nat \<Rightarrow> reuse_baseline \<Rightarrow> bool" where
  "baseline_ok enc m n b \<longleftrightarrow> rb_response_id b \<noteq> [] \<and> length (rb_output b) \<le> m \<and> encoded enc (rb_output b) \<le> n
     \<and> list_all reusable_item (rb_output b)"

lemma offered_append: "offered env calls r \<Longrightarrow> offered env (calls @ later) r"
  unfolding offered_def set_append by blast

lemma from_completion_append:
  assumes "from_completion env calls b" and "\<not> clears c"
  shows "from_completion env (calls @ [c]) b"
proof -
  from assms(1) obtain pre event post where "calls = pre @ Event event # post" "offered env pre (rb_request b)"
      "response_id_of event = Some (rb_response_id b)" "type_of event \<in> {Some ''response.completed'', Some ''response.incomplete''}"
      "\<forall>c \<in> set post. \<not> clears c"
    unfolding from_completion_def by blast
  with assms(2) show ?thesis
    unfolding from_completion_def by (intro exI [of _ pre] exI [of _ event] exI [of _ "post @ [c]"]) simp
qed

lemma from_completion_now:
  "offered env calls (rb_request b) \<Longrightarrow> response_id_of event = Some (rb_response_id b)
    \<Longrightarrow> type_of event \<in> {Some ''response.completed'', Some ''response.incomplete''}
    \<Longrightarrow> from_completion env (calls @ [Event event]) b"
  unfolding from_completion_def by (intro exI [of _ calls] exI [of _ event] exI [of _ "[]"]) simp

lemma new_baseline_ok:
  assumes "output_ok enc m n a" and "reconcile_footer enc m n footer a = (collected, a')"
    and "new_baseline (refuse_compaction ext event a') (response_id_of event) collected = Some b"
  shows "baseline_ok enc m n b" and "ao_request a = Some (rb_request b)" and "response_id_of event = Some (rb_response_id b)"
proof -
  from assms(3) have b: "ao_reusable a'" "ao_request a' = Some (rb_request b)" "response_id_of event = Some (rb_response_id b)" "rb_output b = collected"
    by (auto simp: new_baseline_def refuse_compaction_def split: option.splits bool.splits if_splits)
  from assms(2) b(1) have "a' = a" and collected: "collected = bm_values (ao_output a)
      \<or> (list_all reusable_item collected \<and> length collected \<le> m \<and> encoded enc collected \<le> n)"
    using output_encoded_len_Some [of enc _ n]
    by (auto simp: reconcile_footer_def Let_def abandon_output_def encoded_def split: option.splits if_splits)
  moreover have "list_all reusable_item (bm_values (ao_output a))" "encoded enc (bm_values (ao_output a)) \<le> n"
    using assms(1) by (auto simp: output_ok_def list_all_iff in_bm_values)
  moreover have "rb_response_id b \<noteq> []" using b(3) by (auto simp: response_id_of_def split: option.splits if_splits)
  ultimately show "baseline_ok enc m n b" using output_ok_length [OF assms(1)] b(4) by (auto simp: baseline_ok_def)
  show "ao_request a = Some (rb_request b)" "response_id_of event = Some (rb_response_id b)"
    using b \<open>a' = a\<close> by simp_all
qed

section \<open>The invariant\<close>

definition provenance :: "socket_env \<Rightarrow> nat \<Rightarrow> nat \<Rightarrow> ws_call list \<Rightarrow> websocket_state \<Rightarrow> bool" where
  "provenance env m n calls s \<longleftrightarrow> ws_max_output_items s = m \<and> ws_max_output_bytes s = n
     \<and> (\<forall>p r. ws_planned s = Some p \<and> po_request p = Some r \<longrightarrow> offered env calls r)
     \<and> (\<forall>a. ws_active s = Some a \<longrightarrow> output_ok (se_enc env) m n a \<and> (\<forall>r. ao_request a = Some r \<longrightarrow> offered env calls r))
     \<and> (\<forall>b. ws_baseline s = Some b \<longrightarrow> baseline_ok (se_enc env) m n b \<and> from_completion env calls b)"

text \<open>A step that gives up plans, operations and baselines, or keeps them.\<close>

definition shrinks_to :: "websocket_state \<Rightarrow> websocket_state \<Rightarrow> bool" where
  "shrinks_to s t \<longleftrightarrow> ws_max_output_items t = ws_max_output_items s \<and> ws_max_output_bytes t = ws_max_output_bytes s
     \<and> (ws_planned t = None \<or> ws_planned t = ws_planned s) \<and> (ws_active t = None \<or> ws_active t = ws_active s)
     \<and> (ws_baseline t = None \<or> ws_baseline t = ws_baseline s)"

lemma provenance_shrinks:
  assumes "provenance env m n calls s" and "shrinks_to s t" and "clears c \<Longrightarrow> ws_baseline t = None"
  shows "provenance env m n (calls @ [c]) t"
proof -
  have "\<not> clears c" if "ws_baseline t = Some b" for b using that assms(3) by auto
  with assms(1,2) show ?thesis
    unfolding provenance_def shrinks_to_def
    by (metis from_completion_append offered_append option.distinct(1))
qed

lemma shrinks_to_intros:
  "shrinks_to s (fail_operation kind s)"
  "shrinks_to s (fail_active kind s)"
  "shrinks_to s (reset_for_reconnect s)"
  "shrinks_to s (expire_baseline s)"
  "shrinks_to s (disable_automatic_reuse s)"
  "shrinks_to s (mark_rebuilt_reference b s)"
  "shrinks_to s (abandon_pending_operation s)"
  by (auto simp: shrinks_to_def fail_operation_def fail_active_def forget_setup_token_def reset_for_reconnect_def
      expire_baseline_def disable_automatic_reuse_def mark_rebuilt_reference_def abandon_pending_operation_def Let_def
      split: option.splits)

lemma provenance_plan:
  assumes "provenance env m n calls s"
  shows "provenance env m n (calls @ [Plan_Public request pending]) (snd (plan_public_create request pending s))"
proof -
  let ?c = "Plan_Public request pending" and ?s = "abandon_pending_operation s" and ?t = "snd (plan_public_create request pending s)"
  have p: "provenance env m n (calls @ [?c]) ?s"
    using assms shrinks_to_intros by (intro provenance_shrinks) auto
  obtain r where "ws_planned ?t = Some r" "\<forall>x. po_request r = Some x \<longrightarrow> snapshot_of request = Some x"
    by (auto simp: plan_public_create_def Let_def split_beta split: if_splits)
  moreover have "ws_active ?t = ws_active ?s" "ws_baseline ?t = None \<or> ws_baseline ?t = ws_baseline ?s"
      "ws_max_output_items ?t = ws_max_output_items ?s" "ws_max_output_bytes ?t = ws_max_output_bytes ?s"
    by (auto simp: plan_public_create_def Let_def split_beta)
  moreover have "offered env (calls @ [?c]) x" if "snapshot_of request = Some x" for x
    using that unfolding offered_def by (metis in_set_conv_decomp)
  ultimately show ?thesis using p unfolding provenance_def by (metis option.distinct(1) option.inject)
qed

lemma provenance_setup:
  assumes "provenance env m n calls s"
  shows "provenance env m n (calls @ [Plan_Setup request mode]) (snd (plan_hidden_setup (se_new_v5 env) request mode s))"
proof -
  let ?c = "Plan_Setup request mode"
  have p: "provenance env m n (calls @ [?c]) s"
    using assms by (rule provenance_shrinks) (auto simp: shrinks_to_def)
  show ?thesis
  proof (cases rule: plan_hidden_setup_cases [of "se_new_v5 env" request mode s])
    case refused
    with p show ?thesis by simp
  next
    case (planned frame snapshot)
    then have "offered env (calls @ [?c]) snapshot" unfolding offered_def by (metis in_set_conv_decomp)
    with p planned show ?thesis by (simp add: provenance_def)
  qed
qed

lemma provenance_activate:
  assumes "provenance env m n calls s"
  shows "provenance env m n (calls @ [Attempt kind]) (snd (activate kind s))"
proof -
  have p: "provenance env m n (calls @ [Attempt kind]) s"
    using assms by (rule provenance_shrinks) (auto simp: shrinks_to_def)
  show ?thesis
    by (cases rule: activate_cases [of kind s]) (use p in \<open>auto simp: provenance_def\<close>)
qed

section \<open>Server events\<close>

lemma observe_evidence_frame [simp]:
  "ao_output (snd (observe_evidence ext m event a)) = ao_output a"
  "ao_output_bytes (snd (observe_evidence ext m event a)) = ao_output_bytes a"
  "ao_request (snd (observe_evidence ext m event a)) = ao_request a"
  by (simp_all add: observe_evidence_def Let_def split: prod.splits sum.splits)

text \<open>The operation that is running, with what it may turn into a baseline.\<close>

definition carried :: "socket_env \<Rightarrow> nat \<Rightarrow> nat \<Rightarrow> ws_call list \<Rightarrow> active_operation \<Rightarrow> bool" where
  "carried env m n calls a \<longleftrightarrow> output_ok (se_enc env) m n a \<and> (\<forall>r. ao_request a = Some r \<longrightarrow> offered env calls r)"

lemma carried_evidence: "carried env m n calls a \<Longrightarrow> carried env m n calls (snd (observe_evidence ext m event a))"
  by (simp add: carried_def output_ok_def)

lemma abandon_output_request: "ao_request (abandon_output a) = ao_request a"
  by (simp add: abandon_output_def)

lemma store_output_request: "ao_request (store_output enc m n event item a) = ao_request a"
  by (simp add: store_output_def abandon_output_def Let_def split: option.splits)

lemma carried_observe_output:
  assumes "ws_active s = Some a" and "carried env m n calls a" and "n < 2 ^ 64"
    and "ws_max_output_items s = m" and "ws_max_output_bytes s = n"
  shows "\<exists>a'. observe_output_item ext (se_enc env) event s = s\<lparr>ws_active := Some a'\<rparr> \<and> carried env m n calls a'"
  using assms by (cases "jget event ''item''")
    (auto simp: observe_output_item_def carried_def store_output_request Let_def intro!: output_ok_store)

lemma complete_active_baseline:
  assumes "ws_active s = Some a" and "carried env m n calls a"
    and "ws_max_output_items s = m" and "ws_max_output_bytes s = n"
    and "ws_baseline (snd (complete_active ext (se_enc env) event s)) = Some b"
  shows "baseline_ok (se_enc env) m n b" and "offered env calls (rb_request b)" and "response_id_of event = Some (rb_response_id b)"
proof -
  obtain collected a' where r: "reconcile_footer (se_enc env) m n
      (populated (Option.bind (response_object event) (\<lambda>r. map_of r ''output''))) a = (collected, a')"
    by (cases "reconcile_footer (se_enc env) m n (populated (Option.bind (response_object event) (\<lambda>r. map_of r ''output''))) a")
  have "new_baseline (refuse_compaction ext event a') (response_id_of event) collected = Some b"
    using assms(1,3-5) r by (auto simp: complete_active_def fail_active_def Let_def split: sum.splits)
  note new = new_baseline_ok [OF _ r this]
  from assms(2) show "baseline_ok (se_enc env) m n b" "offered env calls (rb_request b)" "response_id_of event = Some (rb_response_id b)"
    using new by (auto simp: carried_def)
qed

lemma complete_active_frame:
  assumes "ws_active s = Some a"
  shows "ws_active (snd (complete_active ext enc event s)) = None"
    and "ws_planned (snd (complete_active ext enc event s)) \<in> {None, ws_planned s}"
    and "ws_max_output_items (snd (complete_active ext enc event s)) = ws_max_output_items s"
    and "ws_max_output_bytes (snd (complete_active ext enc event s)) = ws_max_output_bytes s"
  using assms by (auto simp: complete_active_def fail_active_def forget_setup_token_def Let_def split_beta split: sum.splits)

lemma provenance_active:
  "provenance env m n calls s \<Longrightarrow> carried env m n calls a \<Longrightarrow> provenance env m n calls (s\<lparr>ws_active := Some a\<rparr>)"
  by (auto simp: provenance_def carried_def)

lemma provenance_complete:
  assumes "provenance env m n (calls @ [Event event]) s" and "ws_active s = Some a" and "carried env m n calls a"
    and "type_of event \<in> {Some ''response.completed'', Some ''response.incomplete''}"
  shows "provenance env m n (calls @ [Event event]) (snd (complete_active ext (se_enc env) event s))"
proof -
  let ?t = "snd (complete_active ext (se_enc env) event s)"
  have limits: "ws_max_output_items s = m" "ws_max_output_bytes s = n" using assms(1) by (simp_all add: provenance_def)
  have "baseline_ok (se_enc env) m n b \<and> from_completion env (calls @ [Event event]) b" if "ws_baseline ?t = Some b" for b
    using complete_active_baseline [OF assms(2,3) limits that] assms(4) by (auto intro: from_completion_now)
  with assms(1) complete_active_frame [OF assms(2), of ext "se_enc env" event] show ?thesis
    unfolding provenance_def by (metis insert_iff empty_iff option.distinct(1))
qed

lemma provenance_dispatch:
  assumes "provenance env m n (calls @ [Event event]) s" and "ws_active s = Some a" and "carried env m n calls a" and "n < 2 ^ 64"
    and "type_of event = Some event_type"
  shows "provenance env m n (calls @ [Event event]) (snd (dispatch_event ext (se_enc env) kind event_type event s))"
proof -
  have limits: "ws_max_output_items s = m" "ws_max_output_bytes s = n" using assms(1) by (simp_all add: provenance_def)
  obtain a' where "observe_output_item ext (se_enc env) event s = s\<lparr>ws_active := Some a'\<rparr>" "carried env m n calls a'"
    using carried_observe_output [OF assms(2-4) limits] by blast
  then have "provenance env m n (calls @ [Event event]) (observe_output_item ext (se_enc env) event s)"
    using assms(1) by (auto intro!: provenance_active simp: carried_def offered_append)
  moreover have "provenance env m n (calls @ [Event event]) (fail_active kind s)"
    using assms(1) shrinks_to_intros(2) [of s kind] unfolding provenance_def shrinks_to_def by (metis option.distinct(1))
  ultimately show ?thesis using assms(1,5) provenance_complete [OF assms(1-3)]
    by (auto simp: dispatch_event_def)
qed

lemma learn_setup_token_simps [simp]:
  "ws_active (learn_setup_token header_ok kind event s) = ws_active s"
  "ws_planned (learn_setup_token header_ok kind event s) = ws_planned s"
  "ws_baseline (learn_setup_token header_ok kind event s) = ws_baseline s"
  "ws_max_output_items (learn_setup_token header_ok kind event s) = ws_max_output_items s"
  "ws_max_output_bytes (learn_setup_token header_ok kind event s) = ws_max_output_bytes s"
  by (simp_all add: learn_setup_token_def split: option.splits)

lemma provenance_event:
  assumes "provenance env m n calls s" and "n < 2 ^ 64"
  shows "provenance env m n (calls @ [Event event]) (snd (observe_server_event (se_ext env) (se_enc env) header_ok event s))"
proof -
  have p: "provenance env m n (calls @ [Event event]) s"
    using assms(1) by (rule provenance_shrinks) (auto simp: shrinks_to_def)
  show ?thesis
  proof (cases "ws_active s")
    case None
    with p show ?thesis by (simp add: observe_server_event_def)
  next
    case (Some a)
    let ?s = "set_phase (ao_kind a) ResponseObserved (learn_setup_token header_ok (ao_kind a) event s)"
    let ?a = "snd (observe_evidence (se_ext env) (ws_max_output_items ?s) event a)"
    have carried: "carried env m n calls a" and limits: "ws_max_output_items s = m"
      using assms(1) Some by (simp_all add: provenance_def carried_def)
    have ps: "provenance env m n (calls @ [Event event]) ?s" using p by (auto simp: provenance_def)
    have active: "provenance env m n (calls @ [Event event]) (?s\<lparr>ws_active := Some x\<rparr>)" if "carried env m n calls x" for x
      using ps that by (intro provenance_active) (auto simp: carried_def offered_append)
    have "provenance env m n (calls @ [Event event]) (fail_active (ao_kind a) ?s)"
      using ps shrinks_to_intros(2) [of ?s "ao_kind a"] unfolding provenance_def shrinks_to_def by (metis option.distinct(1))
    moreover have "provenance env m n (calls @ [Event event]) (?s\<lparr>ws_active := Some (a\<lparr>ao_reusable := False\<rparr>)\<rparr>)"
      using carried by (intro active) (simp add: carried_def)
    moreover have "carried env m n calls ?a" using carried limits carried_evidence by simp
    then have "provenance env m n (calls @ [Event event])
        (snd (dispatch_event (se_ext env) (se_enc env) (ao_kind a) t event (?s\<lparr>ws_active := Some ?a\<rparr>)))" if "type_of event = Some t" for t
      using that assms(2) by (intro provenance_dispatch [where a = ?a] active) simp_all
    ultimately show ?thesis using Some
      by (simp add: observe_server_event_def Let_def split_beta split: option.splits sum.splits)
  qed
qed

lemma provenance_apply:
  assumes "provenance env m n calls s" and "n < 2 ^ 64"
  shows "provenance env m n (calls @ [c]) (ws_apply env c s)"
proof (cases c)
  case Abandon
  with assms(1) show ?thesis
    by (auto simp: provenance_def abandon_cached_bodies_def abandon_output_request)
next
  case (Interrupt i)
  have p: "provenance env m n (calls @ [Interrupt i]) s"
    using assms(1) by (rule provenance_shrinks) (auto simp: shrinks_to_def)
  then show ?thesis
    by (auto simp: Interrupt request_interrupt_def provenance_def Let_def split_beta split: option.splits)
qed (use assms provenance_plan provenance_setup provenance_activate provenance_event shrinks_to_intros in
    \<open>auto intro!: provenance_shrinks simp: reset_for_reconnect_def expire_baseline_def\<close>)

lemma provenance_new: "provenance env m n [] (websocket_state_new m n caller profile)"
  by (simp add: provenance_def websocket_state_new_def)

lemma provenance_run:
  assumes "n < 2 ^ 64"
  shows "provenance env m n calls (ws_run env calls (websocket_state_new m n caller profile))"
  using provenance_new provenance_apply [OF _ assms]
  by (rule ws_run_invariant [where P = "provenance env m n"])

section \<open>Incremental requests\<close>





section \<open>Interrupts\<close>










section \<open>An example socket\<close>

definition demo_socket_env :: socket_env where
  "demo_socket_env = \<lparr>se_ext = demo_ext, se_enc = (\<lambda>v. [demo_encode v]), se_new_v5 = (\<lambda>_ name. name), se_header_ok = (\<lambda>_. True)\<rparr>"

definition demo_request :: "string list \<Rightarrow> json" where
  "demo_request xs = JObject [(''type'', JString ''response.create''), (''model'', JString ''m''), (''input'', JArray (map demo_item xs))]"

definition demo_completed :: json where
  "demo_completed = JObject [(''type'', JString ''response.completed''), (''response'', demo_response [''a''])]"

definition demo_calls :: "ws_call list" where
  "demo_calls = [Plan_Public (demo_request [''u'']) None, Attempt PublicCreate, Event demo_completed]"

definition demo_socket :: websocket_state where
  "demo_socket = ws_run demo_socket_env demo_calls (websocket_state_new 5 1000 Bare CodexSubscription1620)"

lemma demo_baseline:
  "map_option (\<lambda>b. (rb_response_id b, rb_output b, rs_input (rb_request b))) (ws_baseline demo_socket)
     = Some (''r'', [demo_item ''a''], [demo_item ''u''])"
  by code_simp







section \<open>Properties\<close>



text \<open>
  C33. On every socket, whatever the order of calls and events: no plan and no running operation
  coexist, the two phases say exactly which operation is planned and which one runs, and a setup
  token is held only once the setup has answered.
\<close>

theorem socket_phases_consistent: "phases_ok (ws_run env calls (websocket_state_new m n caller profile))"
  by (rule phases_ok_run) (rule phases_ok_new)

text \<open>
  The response kept for reuse always has a nonempty identifier and reusable output within the
  item and byte limits, and comes from a request planned and a response completed on this socket.
\<close>

theorem socket_baseline_within_budget:
  assumes "n < 2 ^ 64" and "ws_baseline (ws_run env calls (websocket_state_new m n caller profile)) = Some b"
  shows "rb_response_id b \<noteq> [] \<and> length (rb_output b) \<le> m \<and> encoded (se_enc env) (rb_output b) \<le> n
    \<and> list_all reusable_item (rb_output b) \<and> from_completion env calls b"
  using provenance_run [OF assms(1)] assms(2) by (auto simp: provenance_def baseline_ok_def)

theorem socket_baseline_within_budget_witness:
  "\<exists>b. ws_baseline demo_socket = Some b \<and> length (rb_output b) \<le> 5 \<and> encoded (se_enc demo_socket_env) (rb_output b) \<le> 1000
    \<and> from_completion demo_socket_env demo_calls b"
proof -
  obtain b where b: "ws_baseline demo_socket = Some b" using demo_baseline by (cases "ws_baseline demo_socket") auto
  from socket_baseline_within_budget [OF _ b [unfolded demo_socket_def]] b show ?thesis by auto
qed



end
