(* ===== verification/Lifecycle_Carriers.thy ===== *)
theory Lifecycle_Carriers
  imports Ledger_Types
begin

text \<open>
  The carrier tables (\<open>lifecycle_carriers.rs\<close> and the five tables of rules it includes): every place of
  a request, a response or a header that carries an identity, with its shape, its identifier domain
  and what the gateway does with it.  Constructors have the name of the source with the kind in
  front: \<open>DirRequest\<close> is \<open>CarrierDirection::Request\<close>.
\<close>

unbundle bit_operations_syntax

section \<open>Kinds of carriers\<close>

definition INSTALLATION_HEADER :: string where "INSTALLATION_HEADER = ''x-codex-installation-id''"
definition TURN_METADATA_HEADER :: string where "TURN_METADATA_HEADER = ''x-codex-turn-metadata''"
definition WINDOW_HEADER :: string where "WINDOW_HEADER = ''x-codex-window-id''"

datatype carrier_direction = DirRequest | DirResponse

datatype carrier_use = UseEvidence | UseProjection | UseWire | UseTurnMetadata | UseHeaderPolicy | UseOpaqueBoundary

datatype carrier_container =
  InTopLevel | InResponseObject | InItem | InCaller | InSafetyCheck | InClientMetadata | InIdentityMetadata
  | InItemPassthroughMetadata | InTurnMetadata | InHeaderTurnMetadata | InHeader

datatype carrier_shape =
  ShScalar | ShConversation | ShTypedItemId | ShOwnedResponseId | ShTerminalResponseId | ShWindow
  | ShSerializedTurnMetadata | ShItemObject | ShItemArray | ShResponseObject | ShIdentityMetadataObject
  | ShItemPassthroughMetadataObject | ShCallerObject | ShSafetyCheckArray | ShOpaque

datatype carrier_action =
  ActRelationshipProjection | ActReversibleWireId | ActOpaque | ActPublicStrip | ActGatewayRequestAlias

datatype request_wire_mapping = MapAllocate | MapRequireExisting | MapRequireProviderExisting | MapContextual

datatype relationship_carrier =
  RelInstallation | RelSession | RelResponsesConversation | RelThread | RelParentThread | RelForkedFromThread
  | RelTurn | RelRootTurn | RelParentTurn | RelWindow | RelRequestKind | RelSubagent | RelTurnStartedAt
  | RelItemTurn | RelClientRequest

definition ALLOW_EMPTY :: "16 word" where "ALLOW_EMPTY = push_bit 0 1"
definition SKIP_AFTER_HEADER_PROJECTION :: "16 word" where "SKIP_AFTER_HEADER_PROJECTION = push_bit 1 1"
definition HEADER_VISIBLE :: "16 word" where "HEADER_VISIBLE = push_bit 2 1"
definition NORMAL_REQUIRED :: "16 word" where "NORMAL_REQUIRED = push_bit 3 1"
definition PREWARM_REQUIRED_STRING :: "16 word" where "PREWARM_REQUIRED_STRING = push_bit 4 1"
definition PREWARM_REQUIRED_BOOL :: "16 word" where "PREWARM_REQUIRED_BOOL = push_bit 5 1"
definition REQUIRE_EXISTING_WIRE :: "16 word" where "REQUIRE_EXISTING_WIRE = push_bit 6 1"
definition REQUIRE_PROVIDER_EXISTING_WIRE :: "16 word" where "REQUIRE_PROVIDER_EXISTING_WIRE = push_bit 7 1"
definition CONTEXTUAL_WIRE :: "16 word" where "CONTEXTUAL_WIRE = push_bit 8 1"

record carrier_rule =
  cr_direction :: carrier_direction
  cr_use_case :: carrier_use
  cr_container :: carrier_container
  cr_name :: string
  cr_shape :: carrier_shape
  cr_domain :: "wire_id_domain option"
  cr_relationship :: "relationship_carrier option"
  cr_action :: carrier_action
  cr_priority :: "8 word"
  cr_flags :: "16 word"

definition has_flag :: "carrier_rule \<Rightarrow> 16 word \<Rightarrow> bool" where
  "has_flag r flag \<longleftrightarrow> cr_flags r AND flag \<noteq> 0"

definition allow_empty :: "carrier_rule \<Rightarrow> bool" where
  "allow_empty r = has_flag r ALLOW_EMPTY"

definition skip_after_header_projection :: "carrier_rule \<Rightarrow> bool" where
  "skip_after_header_projection r = has_flag r SKIP_AFTER_HEADER_PROJECTION"

definition header_visible :: "carrier_rule \<Rightarrow> bool" where
  "header_visible r = has_flag r HEADER_VISIBLE"

definition normal_required :: "carrier_rule \<Rightarrow> bool" where
  "normal_required r = has_flag r NORMAL_REQUIRED"

definition prewarm_required_string :: "carrier_rule \<Rightarrow> bool" where
  "prewarm_required_string r = has_flag r PREWARM_REQUIRED_STRING"

definition prewarm_required_bool :: "carrier_rule \<Rightarrow> bool" where
  "prewarm_required_bool r = has_flag r PREWARM_REQUIRED_BOOL"

definition rule_wire_mapping :: "carrier_rule \<Rightarrow> request_wire_mapping" where
  "rule_wire_mapping r =
     (if has_flag r CONTEXTUAL_WIRE then MapContextual
      else if has_flag r REQUIRE_PROVIDER_EXISTING_WIRE then MapRequireProviderExisting
      else if has_flag r REQUIRE_EXISTING_WIRE then MapRequireExisting
      else MapAllocate)"

section \<open>Constructors of rules\<close>

definition make_rule ::
    "carrier_direction \<Rightarrow> carrier_use \<Rightarrow> carrier_container \<Rightarrow> string \<Rightarrow> carrier_shape \<Rightarrow> wire_id_domain option
     \<Rightarrow> relationship_carrier option \<Rightarrow> carrier_action \<Rightarrow> 8 word \<Rightarrow> 16 word \<Rightarrow> carrier_rule" where
  "make_rule direction use_case container name shape domain relationship act priority flags =
     \<lparr>cr_direction = direction, cr_use_case = use_case, cr_container = container, cr_name = name,
      cr_shape = shape, cr_domain = domain, cr_relationship = relationship, cr_action = act,
      cr_priority = priority, cr_flags = flags\<rparr>"

definition wire_rule ::
    "carrier_direction \<Rightarrow> carrier_container \<Rightarrow> string \<Rightarrow> carrier_shape \<Rightarrow> wire_id_domain option \<Rightarrow> carrier_rule" where
  "wire_rule direction container name shape domain =
     make_rule direction UseWire container name shape domain None ActReversibleWireId 0 0"

definition wire_reference_rule ::
    "carrier_container \<Rightarrow> string \<Rightarrow> carrier_shape \<Rightarrow> wire_id_domain option \<Rightarrow> carrier_rule" where
  "wire_reference_rule container name shape domain =
     make_rule DirRequest UseWire container name shape domain None ActReversibleWireId 0 REQUIRE_EXISTING_WIRE"

definition wire_provider_reference_rule ::
    "carrier_container \<Rightarrow> string \<Rightarrow> carrier_shape \<Rightarrow> wire_id_domain option \<Rightarrow> carrier_rule" where
  "wire_provider_reference_rule container name shape domain =
     make_rule DirRequest UseWire container name shape domain None ActReversibleWireId 0
       REQUIRE_PROVIDER_EXISTING_WIRE"

definition wire_contextual_rule ::
    "carrier_container \<Rightarrow> string \<Rightarrow> carrier_shape \<Rightarrow> wire_id_domain option \<Rightarrow> carrier_rule" where
  "wire_contextual_rule container name shape domain =
     make_rule DirRequest UseWire container name shape domain None ActReversibleWireId 0 CONTEXTUAL_WIRE"

definition evidence_rule ::
    "carrier_container \<Rightarrow> string \<Rightarrow> carrier_shape \<Rightarrow> relationship_carrier \<Rightarrow> 8 word \<Rightarrow> 16 word \<Rightarrow> carrier_rule" where
  "evidence_rule container name shape relationship priority flags =
     make_rule DirRequest UseEvidence container name shape None (Some relationship) ActRelationshipProjection
       priority flags"

definition projection_rule ::
    "carrier_container \<Rightarrow> string \<Rightarrow> carrier_shape \<Rightarrow> relationship_carrier option \<Rightarrow> carrier_rule" where
  "projection_rule container name shape relationship =
     make_rule DirRequest UseProjection container name shape None relationship ActRelationshipProjection 0 0"

definition metadata_rule ::
    "string \<Rightarrow> relationship_carrier option \<Rightarrow> carrier_action \<Rightarrow> 16 word \<Rightarrow> carrier_rule" where
  "metadata_rule name relationship act flags =
     make_rule DirRequest UseTurnMetadata InTurnMetadata name ShScalar None relationship act 0 flags"

definition header_rule :: "string \<Rightarrow> wire_id_domain option \<Rightarrow> carrier_action \<Rightarrow> carrier_rule" where
  "header_rule name domain act =
     make_rule DirResponse UseHeaderPolicy InHeader name ShScalar domain None act 0 0"

definition opaque_rule :: "carrier_direction \<Rightarrow> carrier_container \<Rightarrow> string \<Rightarrow> carrier_rule" where
  "opaque_rule direction container name =
     make_rule direction UseOpaqueBoundary container name ShOpaque None None ActOpaque 0 0"

lemmas rule_makers = make_rule_def wire_rule_def wire_reference_rule_def wire_provider_reference_rule_def
  wire_contextual_rule_def evidence_rule_def projection_rule_def metadata_rule_def header_rule_def opaque_rule_def

section \<open>The tables\<close>

definition evidence_RULES :: "carrier_rule list" where
  "evidence_RULES =
     [
      evidence_rule InClientMetadata INSTALLATION_HEADER ShScalar RelInstallation 0 0,
      evidence_rule InTurnMetadata ''installation_id'' ShScalar RelInstallation 1 0,
      evidence_rule InHeader INSTALLATION_HEADER ShScalar RelInstallation 2 SKIP_AFTER_HEADER_PROJECTION,
      evidence_rule InHeaderTurnMetadata ''installation_id'' ShScalar RelInstallation 3 SKIP_AFTER_HEADER_PROJECTION,
      evidence_rule InClientMetadata ''thread_id'' ShScalar RelThread 0 0,
      evidence_rule InTurnMetadata ''thread_id'' ShScalar RelThread 1 0,
      evidence_rule InHeader ''thread-id'' ShScalar RelThread 2 SKIP_AFTER_HEADER_PROJECTION,
      evidence_rule InHeaderTurnMetadata ''thread_id'' ShScalar RelThread 3 SKIP_AFTER_HEADER_PROJECTION,
      evidence_rule InClientMetadata WINDOW_HEADER ShWindow RelWindow 0 0,
      evidence_rule InTurnMetadata ''window_id'' ShWindow RelWindow 1 0,
      evidence_rule InHeader WINDOW_HEADER ShWindow RelWindow 2 SKIP_AFTER_HEADER_PROJECTION,
      evidence_rule InHeaderTurnMetadata ''window_id'' ShWindow RelWindow 3 SKIP_AFTER_HEADER_PROJECTION,
      evidence_rule InClientMetadata ''session_id'' ShScalar RelSession 0 0,
      evidence_rule InTurnMetadata ''session_id'' ShScalar RelSession 1 0,
      evidence_rule InHeader ''session-id'' ShScalar RelSession 2 SKIP_AFTER_HEADER_PROJECTION,
      evidence_rule InHeaderTurnMetadata ''session_id'' ShScalar RelSession 3 SKIP_AFTER_HEADER_PROJECTION,
      evidence_rule InClientMetadata ''conversation_id'' ShScalar RelSession 4 0,
      evidence_rule InHeader ''conversation_id'' ShScalar RelSession 5 SKIP_AFTER_HEADER_PROJECTION,
      evidence_rule InTopLevel ''prompt_cache_key'' ShScalar RelSession 6 0,
      evidence_rule InHeader ''x-client-request-id'' ShScalar RelClientRequest 0 SKIP_AFTER_HEADER_PROJECTION,
      evidence_rule InTurnMetadata ''parent_thread_id'' ShScalar RelParentThread 0 0,
      evidence_rule InTurnMetadata ''x-codex-parent-thread-id'' ShScalar RelParentThread 1 0,
      evidence_rule InHeaderTurnMetadata ''parent_thread_id'' ShScalar RelParentThread 2 SKIP_AFTER_HEADER_PROJECTION,
      evidence_rule InHeader ''x-codex-parent-thread-id'' ShScalar RelParentThread 3 SKIP_AFTER_HEADER_PROJECTION,
      evidence_rule InClientMetadata ''x-codex-parent-thread-id'' ShScalar RelParentThread 4 0,
      evidence_rule InClientMetadata ''parent_thread_id'' ShScalar RelParentThread 5 0,
      evidence_rule InTurnMetadata ''forked_from_thread_id'' ShScalar RelForkedFromThread 0 0,
      evidence_rule InHeaderTurnMetadata ''forked_from_thread_id'' ShScalar RelForkedFromThread 1 SKIP_AFTER_HEADER_PROJECTION,
      evidence_rule InClientMetadata ''forked_from_thread_id'' ShScalar RelForkedFromThread 2 0,
      evidence_rule InTurnMetadata ''turn_id'' ShScalar RelTurn 0 ALLOW_EMPTY,
      evidence_rule InHeaderTurnMetadata ''turn_id'' ShScalar RelTurn 1 (ALLOW_EMPTY OR SKIP_AFTER_HEADER_PROJECTION),
      evidence_rule InClientMetadata ''turn_id'' ShScalar RelTurn 2 ALLOW_EMPTY,
      evidence_rule InTurnMetadata ''root_turn_id'' ShScalar RelRootTurn 0 0,
      evidence_rule InHeaderTurnMetadata ''root_turn_id'' ShScalar RelRootTurn 1 SKIP_AFTER_HEADER_PROJECTION,
      evidence_rule InClientMetadata ''root_turn_id'' ShScalar RelRootTurn 2 0,
      evidence_rule InTurnMetadata ''parent_turn_id'' ShScalar RelParentTurn 0 0,
      evidence_rule InHeaderTurnMetadata ''parent_turn_id'' ShScalar RelParentTurn 1 SKIP_AFTER_HEADER_PROJECTION,
      evidence_rule InClientMetadata ''parent_turn_id'' ShScalar RelParentTurn 2 0,
      evidence_rule InTurnMetadata ''request_kind'' ShScalar RelRequestKind 0 0,
      evidence_rule InHeaderTurnMetadata ''request_kind'' ShScalar RelRequestKind 1 SKIP_AFTER_HEADER_PROJECTION,
      evidence_rule InHeader ''x-openai-subagent'' ShScalar RelSubagent 0 0,
      evidence_rule InClientMetadata ''x-openai-subagent'' ShScalar RelSubagent 1 0,
      evidence_rule InTurnMetadata ''subagent_kind'' ShScalar RelSubagent 2 0,
      evidence_rule InTopLevel ''conversation'' ShConversation RelResponsesConversation 0 0,
      evidence_rule InItemPassthroughMetadata ''turn_id'' ShScalar RelItemTurn 0 0]"

definition projection_RULES :: "carrier_rule list" where
  "projection_RULES =
     [
      projection_rule InTopLevel ''prompt_cache_key'' ShScalar (Some RelSession),
      projection_rule InHeader ''session-id'' ShScalar (Some RelSession),
      projection_rule InHeader ''thread-id'' ShScalar (Some RelThread),
      projection_rule InHeader ''x-client-request-id'' ShScalar (Some RelThread),
      projection_rule InHeader WINDOW_HEADER ShWindow (Some RelWindow),
      projection_rule InHeader ''x-codex-parent-thread-id'' ShScalar (Some RelParentThread),
      projection_rule InHeader TURN_METADATA_HEADER ShSerializedTurnMetadata None,
      projection_rule InClientMetadata ''session_id'' ShScalar (Some RelSession),
      projection_rule InClientMetadata ''thread_id'' ShScalar (Some RelThread),
      projection_rule InClientMetadata INSTALLATION_HEADER ShScalar (Some RelInstallation),
      projection_rule InClientMetadata WINDOW_HEADER ShWindow (Some RelWindow),
      projection_rule InClientMetadata ''x-codex-parent-thread-id'' ShScalar (Some RelParentThread),
      projection_rule InClientMetadata ''parent_thread_id'' ShScalar (Some RelParentThread),
      projection_rule InClientMetadata ''forked_from_thread_id'' ShScalar (Some RelForkedFromThread),
      projection_rule InClientMetadata ''turn_id'' ShScalar (Some RelTurn),
      projection_rule InClientMetadata ''root_turn_id'' ShScalar (Some RelRootTurn),
      projection_rule InClientMetadata ''parent_turn_id'' ShScalar (Some RelParentTurn),
      projection_rule InClientMetadata TURN_METADATA_HEADER ShSerializedTurnMetadata None,
      metadata_rule ''installation_id'' (Some RelInstallation) ActRelationshipProjection (HEADER_VISIBLE OR NORMAL_REQUIRED OR PREWARM_REQUIRED_STRING),
      metadata_rule ''session_id'' (Some RelSession) ActRelationshipProjection (HEADER_VISIBLE OR NORMAL_REQUIRED OR PREWARM_REQUIRED_STRING),
      metadata_rule ''thread_id'' (Some RelThread) ActRelationshipProjection (HEADER_VISIBLE OR NORMAL_REQUIRED OR PREWARM_REQUIRED_STRING),
      metadata_rule ''agent_name'' None ActOpaque (HEADER_VISIBLE OR NORMAL_REQUIRED OR PREWARM_REQUIRED_STRING),
      metadata_rule ''turn_id'' (Some RelTurn) ActRelationshipProjection HEADER_VISIBLE,
      metadata_rule ''window_id'' (Some RelWindow) ActRelationshipProjection (HEADER_VISIBLE OR NORMAL_REQUIRED OR PREWARM_REQUIRED_STRING),
      metadata_rule ''window_number'' None ActOpaque HEADER_VISIBLE,
      metadata_rule ''context_window_id'' None ActOpaque HEADER_VISIBLE,
      metadata_rule ''request_kind'' (Some RelRequestKind) ActRelationshipProjection (HEADER_VISIBLE OR NORMAL_REQUIRED),
      metadata_rule ''forked_from_thread_id'' (Some RelForkedFromThread) ActRelationshipProjection HEADER_VISIBLE,
      metadata_rule ''forked_from_ordinal_exclusive'' None ActOpaque HEADER_VISIBLE,
      metadata_rule ''parent_thread_id'' (Some RelParentThread) ActRelationshipProjection HEADER_VISIBLE,
      metadata_rule ''parent_turn_id'' (Some RelParentTurn) ActRelationshipProjection HEADER_VISIBLE,
      metadata_rule ''root_turn_id'' (Some RelRootTurn) ActRelationshipProjection HEADER_VISIBLE,
      metadata_rule ''subagent_kind'' (Some RelSubagent) ActRelationshipProjection HEADER_VISIBLE,
      metadata_rule ''thread_source'' None ActOpaque HEADER_VISIBLE,
      metadata_rule ''turn_trigger'' None ActOpaque HEADER_VISIBLE,
      metadata_rule ''sandbox'' None ActOpaque (HEADER_VISIBLE OR PREWARM_REQUIRED_STRING),
      metadata_rule ''sandbox_mode'' None ActOpaque (HEADER_VISIBLE OR PREWARM_REQUIRED_STRING),
      metadata_rule ''auto_review_enabled'' None ActOpaque (HEADER_VISIBLE OR NORMAL_REQUIRED OR PREWARM_REQUIRED_BOOL),
      metadata_rule ''node_repl_auto_review_required'' None ActOpaque (HEADER_VISIBLE OR NORMAL_REQUIRED OR PREWARM_REQUIRED_BOOL),
      metadata_rule ''node_repl_disabled'' None ActOpaque (HEADER_VISIBLE OR NORMAL_REQUIRED OR PREWARM_REQUIRED_BOOL),
      metadata_rule ''workspaces'' None ActOpaque HEADER_VISIBLE,
      metadata_rule ''tool_namespaces_info'' None ActOpaque 0,
      metadata_rule ''turn_started_at_unix_ms'' (Some RelTurnStartedAt) ActRelationshipProjection (HEADER_VISIBLE OR NORMAL_REQUIRED),
      metadata_rule ''history_ingest_requested'' None ActOpaque HEADER_VISIBLE,
      metadata_rule ''analytics_enabled'' None ActOpaque HEADER_VISIBLE,
      metadata_rule ''compaction'' None ActOpaque HEADER_VISIBLE]"

definition request_wire_RULES :: "carrier_rule list" where
  "request_wire_RULES =
     [
      wire_provider_reference_rule InTopLevel ''previous_response_id'' ShScalar (Some Response),
      wire_provider_reference_rule InTopLevel ''response_id'' ShScalar (Some Response),
      wire_rule DirRequest InTopLevel ''stream_id'' ShScalar (Some Stream),
      wire_reference_rule InTopLevel ''item_id'' ShScalar (Some Item),
      wire_reference_rule InTopLevel ''output_item_id'' ShScalar (Some Item),
      wire_reference_rule InTopLevel ''call_id'' ShScalar (Some Call),
      wire_reference_rule InTopLevel ''approval_request_id'' ShScalar (Some Approval),
      wire_reference_rule InTopLevel ''approval_id'' ShScalar (Some Approval),
      wire_provider_reference_rule InTopLevel ''conversation'' ShConversation (Some Conversation),
      wire_rule DirRequest InTopLevel ''item'' ShItemObject None,
      wire_rule DirRequest InTopLevel ''items'' ShItemArray None,
      wire_rule DirRequest InTopLevel ''input'' ShItemArray None,
      wire_contextual_rule InItem ''id'' ShTypedItemId (Some Item),
      wire_reference_rule InItem ''item_id'' ShScalar (Some Item),
      wire_reference_rule InItem ''output_item_id'' ShScalar (Some Item),
      wire_contextual_rule InItem ''call_id'' ShScalar (Some Call),
      wire_reference_rule InItem ''approval_request_id'' ShScalar (Some Approval),
      wire_provider_reference_rule InItem ''response_id'' ShScalar (Some Response),
      wire_rule DirRequest InItem ''caller'' ShCallerObject None,
      wire_rule DirRequest InItem ''pending_safety_checks'' ShSafetyCheckArray None,
      wire_rule DirRequest InItem ''acknowledged_safety_checks'' ShSafetyCheckArray None,
      wire_reference_rule InCaller ''caller_id'' ShScalar (Some Item),
      wire_rule DirRequest InItem ''internal_chat_message_metadata_passthrough'' ShItemPassthroughMetadataObject None,
      wire_reference_rule InItemPassthroughMetadata ''cell_id'' ShScalar (Some Call),
      wire_reference_rule InSafetyCheck ''id'' ShScalar (Some Approval)]"

definition response_wire_RULES :: "carrier_rule list" where
  "response_wire_RULES =
     [
      wire_rule DirResponse InItemPassthroughMetadata ''cell_id'' ShScalar (Some Call),
      wire_rule DirResponse InTopLevel ''context_window_id'' ShScalar (Some ContextWindow),
      wire_rule DirResponse InClientMetadata ''context_window_id'' ShScalar (Some ContextWindow),
      wire_rule DirResponse InTurnMetadata ''context_window_id'' ShScalar (Some ContextWindow),
      wire_rule DirResponse InTopLevel ''previous_response_id'' ShScalar (Some Response),
      wire_rule DirResponse InTopLevel ''item_id'' ShScalar (Some Item),
      wire_rule DirResponse InTopLevel ''output_item_id'' ShScalar (Some Item),
      wire_rule DirResponse InTopLevel ''call_id'' ShScalar (Some Call),
      wire_rule DirResponse InTopLevel ''approval_request_id'' ShScalar (Some Approval),
      wire_rule DirResponse InTopLevel ''approval_id'' ShScalar (Some Approval),
      wire_rule DirResponse InTopLevel ''stream_id'' ShScalar (Some Stream),
      wire_rule DirResponse InTopLevel ''installation_id'' ShScalar (Some Installation),
      wire_rule DirResponse InTopLevel ''session_id'' ShScalar (Some Session),
      wire_rule DirResponse InTopLevel ''thread_id'' ShScalar (Some Thread),
      wire_rule DirResponse InTopLevel ''parent_thread_id'' ShScalar (Some Thread),
      wire_rule DirResponse InTopLevel ''forked_from_thread_id'' ShScalar (Some Thread),
      wire_rule DirResponse InTopLevel ''turn_id'' ShScalar (Some Turn),
      wire_rule DirResponse InTopLevel ''root_turn_id'' ShScalar (Some Turn),
      wire_rule DirResponse InTopLevel ''parent_turn_id'' ShScalar (Some Turn),
      wire_rule DirResponse InTopLevel ''response_id'' ShOwnedResponseId (Some Response),
      wire_rule DirResponse InTopLevel ''conversation'' ShConversation (Some Conversation),
      wire_rule DirResponse InTopLevel ''response'' ShResponseObject None,
      wire_rule DirResponse InTopLevel ''item'' ShItemObject None,
      wire_rule DirResponse InTopLevel ''output'' ShItemArray None,
      wire_rule DirResponse InTopLevel ''client_metadata'' ShIdentityMetadataObject None,
      wire_rule DirResponse InTopLevel ''id'' ShTerminalResponseId (Some Response),
      wire_rule DirResponse InResponseObject ''id'' ShOwnedResponseId (Some Response),
      wire_rule DirResponse InResponseObject ''previous_response_id'' ShScalar (Some Response),
      wire_rule DirResponse InResponseObject ''stream_id'' ShScalar (Some Stream),
      wire_rule DirResponse InResponseObject ''conversation'' ShConversation (Some Conversation),
      wire_rule DirResponse InResponseObject ''output'' ShItemArray None,
      wire_rule DirResponse InResponseObject ''client_metadata'' ShIdentityMetadataObject None,
      wire_rule DirResponse InItem ''id'' ShTypedItemId (Some Item),
      wire_rule DirResponse InItem ''item_id'' ShScalar (Some Item),
      wire_rule DirResponse InItem ''output_item_id'' ShScalar (Some Item),
      wire_rule DirResponse InItem ''call_id'' ShScalar (Some Call),
      wire_rule DirResponse InItem ''approval_request_id'' ShScalar (Some Approval),
      wire_rule DirResponse InItem ''approval_id'' ShScalar (Some Approval),
      wire_rule DirResponse InItem ''response_id'' ShOwnedResponseId (Some Response),
      wire_rule DirResponse InItem ''caller'' ShCallerObject None,
      wire_rule DirResponse InItem ''pending_safety_checks'' ShSafetyCheckArray None,
      wire_rule DirResponse InItem ''acknowledged_safety_checks'' ShSafetyCheckArray None,
      wire_rule DirResponse InItem ''internal_chat_message_metadata_passthrough'' ShItemPassthroughMetadataObject None,
      wire_rule DirResponse InCaller ''caller_id'' ShScalar (Some Item),
      wire_rule DirResponse InSafetyCheck ''id'' ShScalar (Some Approval),
      wire_rule DirResponse InIdentityMetadata INSTALLATION_HEADER ShScalar (Some Installation),
      wire_rule DirResponse InIdentityMetadata ''installation_id'' ShScalar (Some Installation),
      wire_rule DirResponse InIdentityMetadata ''session_id'' ShScalar (Some Session),
      wire_rule DirResponse InIdentityMetadata ''conversation_id'' ShScalar (Some Session),
      wire_rule DirResponse InIdentityMetadata ''thread_id'' ShScalar (Some Thread),
      wire_rule DirResponse InIdentityMetadata ''parent_thread_id'' ShScalar (Some Thread),
      wire_rule DirResponse InIdentityMetadata ''forked_from_thread_id'' ShScalar (Some Thread),
      wire_rule DirResponse InIdentityMetadata ''x-codex-parent-thread-id'' ShScalar (Some Thread),
      wire_rule DirResponse InIdentityMetadata ''turn_id'' ShScalar (Some Turn),
      wire_rule DirResponse InIdentityMetadata ''root_turn_id'' ShScalar (Some Turn),
      wire_rule DirResponse InIdentityMetadata ''parent_turn_id'' ShScalar (Some Turn),
      wire_rule DirResponse InIdentityMetadata ''window_id'' ShWindow (Some Thread),
      wire_rule DirResponse InIdentityMetadata WINDOW_HEADER ShWindow (Some Thread),
      wire_rule DirResponse InIdentityMetadata TURN_METADATA_HEADER ShSerializedTurnMetadata None]"

definition policy_RULES :: "carrier_rule list" where
  "policy_RULES =
     [
      header_rule ''content-type'' None ActOpaque,
      header_rule ''content-encoding'' None ActOpaque,
      header_rule ''cache-control'' None ActOpaque,
      header_rule ''retry-after'' None ActOpaque,
      header_rule ''retry-after-ms'' None ActOpaque,
      header_rule ''x-retry-metadata'' None ActOpaque,
      header_rule ''server-timing'' None ActOpaque,
      header_rule ''openai-model'' None ActOpaque,
      header_rule ''x-openai-model'' None ActOpaque,
      header_rule ''openai-processing-ms'' None ActOpaque,
      header_rule ''openai-version'' None ActOpaque,
      header_rule ''x-models-etag'' None ActOpaque,
      header_rule ''x-reasoning-included'' None ActOpaque,
      header_rule ''x-codex-turn-state'' None ActOpaque,
      header_rule ''x-codex-safety-buffering-enabled'' None ActOpaque,
      header_rule ''x-codex-safety-buffering-faster-model'' None ActOpaque,
      header_rule ''x-ratelimit-limit-requests'' None ActOpaque,
      header_rule ''x-ratelimit-remaining-requests'' None ActOpaque,
      header_rule ''x-ratelimit-reset-requests'' None ActOpaque,
      header_rule ''x-ratelimit-limit-tokens'' None ActOpaque,
      header_rule ''x-ratelimit-remaining-tokens'' None ActOpaque,
      header_rule ''x-ratelimit-reset-tokens'' None ActOpaque,
      header_rule ''x-request-id'' None ActGatewayRequestAlias,
      header_rule ''openai-request-id'' None ActGatewayRequestAlias,
      header_rule ''request-id'' None ActGatewayRequestAlias,
      header_rule INSTALLATION_HEADER (Some Installation) ActPublicStrip,
      header_rule TURN_METADATA_HEADER None ActPublicStrip,
      header_rule WINDOW_HEADER (Some Thread) ActPublicStrip,
      header_rule ''session-id'' (Some Session) ActPublicStrip,
      header_rule ''thread-id'' (Some Thread) ActPublicStrip,
      header_rule ''x-client-request-id'' (Some Thread) ActPublicStrip,
      header_rule ''x-codex-parent-thread-id'' (Some Thread) ActPublicStrip,
      header_rule ''session_id'' (Some Session) ActPublicStrip,
      header_rule ''conversation_id'' (Some Session) ActPublicStrip,
      header_rule ''x-openai-subagent'' None ActPublicStrip,
      opaque_rule DirRequest InTopLevel ''tools'',
      opaque_rule DirRequest InTopLevel ''metadata'',
      opaque_rule DirRequest InTopLevel ''text'',
      opaque_rule DirRequest InItem ''content'',
      opaque_rule DirRequest InItem ''arguments'',
      opaque_rule DirRequest InItem ''output'',
      opaque_rule DirRequest InItem ''encrypted_content'',
      opaque_rule DirResponse InTopLevel ''metadata'',
      opaque_rule DirResponse InItem ''content'',
      opaque_rule DirResponse InItem ''arguments'',
      opaque_rule DirResponse InItem ''output'',
      opaque_rule DirResponse InItem ''encrypted_content'']"

section \<open>Queries\<close>

definition all_rules :: "carrier_rule list" where
  "all_rules = evidence_RULES @ projection_RULES @ request_wire_RULES @ response_wire_RULES @ policy_RULES"

definition rules_for :: "carrier_direction \<Rightarrow> carrier_use \<Rightarrow> carrier_container \<Rightarrow> carrier_rule list" where
  "rules_for direction use_case container =
     filter (\<lambda>r. cr_direction r = direction \<and> cr_use_case r = use_case \<and> cr_container r = container) all_rules"

definition wire_rules :: "carrier_direction \<Rightarrow> carrier_container \<Rightarrow> carrier_rule list" where
  "wire_rules direction container = rules_for direction UseWire container"

fun contextual_mapping :: "string \<Rightarrow> string option \<Rightarrow> request_wire_mapping" where
  "contextual_mapping name item_type =
     (if name = ''id'' \<and> item_type = Some ''item_reference'' then MapRequireExisting
      else if name = ''id'' then MapAllocate
      else if name = ''call_id'' \<and> item_type \<in> Some ` {''function_call'', ''custom_tool_call'', ''computer_call'',
          ''local_shell_call'', ''shell_call'', ''apply_patch_call'', ''tool_search_call'', ''program''}
        then MapAllocate
      else MapRequireExisting)"

definition request_wire_mapping :: "carrier_rule \<Rightarrow> string option \<Rightarrow> request_wire_mapping" where
  "request_wire_mapping r item_type =
     (case rule_wire_mapping r of MapContextual \<Rightarrow> contextual_mapping (cr_name r) item_type | mapping \<Rightarrow> mapping)"

definition evidence_rules :: "relationship_carrier \<Rightarrow> carrier_rule list" where
  "evidence_rules relationship =
     filter (\<lambda>r. cr_use_case r = UseEvidence \<and> cr_relationship r = Some relationship) all_rules"

definition projection_rules :: "carrier_container \<Rightarrow> carrier_rule list" where
  "projection_rules container = rules_for DirRequest UseProjection container"

definition turn_metadata_rules :: "carrier_rule list" where
  "turn_metadata_rules = rules_for DirRequest UseTurnMetadata InTurnMetadata"

definition response_header_action :: "string \<Rightarrow> carrier_action" where
  "response_header_action name =
     (case find (\<lambda>r. eq_ignore_ascii_case (cr_name r) name) (rules_for DirResponse UseHeaderPolicy InHeader) of
        Some r \<Rightarrow> cr_action r | None \<Rightarrow> ActPublicStrip)"

section \<open>Wire rules\<close>

lemma not_wire_tables:
  "r \<in> set evidence_RULES \<union> set projection_RULES \<union> set policy_RULES \<Longrightarrow> cr_use_case r \<noteq> UseWire"
  by (auto simp: evidence_RULES_def projection_RULES_def policy_RULES_def rule_makers)

lemma wire_rules_eq [code]:
  "wire_rules DirRequest c = filter (\<lambda>r. cr_container r = c) request_wire_RULES" (is ?req)
  "wire_rules DirResponse c = filter (\<lambda>r. cr_container r = c) response_wire_RULES" (is ?resp)
proof -
  let ?P = "\<lambda>direction r. cr_direction r = direction \<and> cr_use_case r = UseWire \<and> cr_container r = c"
  have none: "filter (?P direction) evidence_RULES = []" "filter (?P direction) projection_RULES = []"
    "filter (?P direction) policy_RULES = []" for direction
    using not_wire_tables by (auto simp: filter_empty_conv)
  have req: "r \<in> set request_wire_RULES \<Longrightarrow> cr_direction r = DirRequest \<and> cr_use_case r = UseWire" for r
    by (auto simp: request_wire_RULES_def rule_makers)
  have resp: "r \<in> set response_wire_RULES \<Longrightarrow> cr_direction r = DirResponse \<and> cr_use_case r = UseWire" for r
    by (auto simp: response_wire_RULES_def rule_makers)
  have "filter (?P DirRequest) response_wire_RULES = []" "filter (?P DirResponse) request_wire_RULES = []"
    using req resp by (auto simp: filter_empty_conv)
  moreover have "filter (?P DirRequest) request_wire_RULES = filter (\<lambda>r. cr_container r = c) request_wire_RULES"
    "filter (?P DirResponse) response_wire_RULES = filter (\<lambda>r. cr_container r = c) response_wire_RULES"
    using req resp by (auto intro: filter_cong)
  ultimately show ?req ?resp
    using none by (simp_all add: wire_rules_def rules_for_def all_rules_def)
qed

end
