(* ===== verification/Response_Cache.thy ===== *)
theory Response_Cache
  imports Lifecycle_Carriers Lookup_Keys Ledger_Validation Json_Value
begin

text \<open>
  The bounded cache of identifier pairs in front of the ledger (\<open>response_id_cache.rs\<close>,
  \<open>response_delta_ids.rs\<close>, \<open>response_state_stamp.rs\<close>).  A budget shared by all caches is passed along
  with the cache that is used; hit and miss counters exist in tests only.
\<close>

section \<open>Stamps of the ledger file\<close>

text \<open>A point of time is a count of nanoseconds since the epoch; timestamps are seconds and nanoseconds.\<close>

definition SETTLE_TIME :: int where "SETTLE_TIME = 2 * 10 ^ 9"

definition settled :: "int \<times> int \<Rightarrow> int \<Rightarrow> bool" where
  "settled timestamp now \<longleftrightarrow> (case timestamp of (seconds, nanos) \<Rightarrow>
     0 \<le> seconds \<and> 0 \<le> nanos \<and> nanos < 2 ^ 32 \<and> nanos < 10 ^ 9
     \<and> (let changed = seconds * 10 ^ 9 + nanos in changed \<le> now \<and> SETTLE_TIME \<le> now - changed))"

record file_metadata =
  fm_is_file :: bool
  fm_mode :: "32 word"
  fm_len :: nat
  fm_dev :: nat
  fm_ino :: nat
  fm_mtime :: "int \<times> int"
  fm_ctime :: "int \<times> int"

record state_stamp =
  st_device :: nat
  st_inode :: nat
  st_bytes :: nat
  st_modified :: "int \<times> int"
  st_changed :: "int \<times> int"

datatype stat_result = StatFound file_metadata | StatNotFound | StatFailed

definition stamp_read :: "stat_result \<Rightarrow> int \<Rightarrow> ledger_error + state_stamp option" where
  "stamp_read stat now = (case stat of
     StatNotFound \<Rightarrow> Inr None
   | StatFailed \<Rightarrow> Inl (Msg ''checking response identity state'')
   | StatFound metadata \<Rightarrow>
       if \<not> fm_is_file metadata \<or> and (fm_mode metadata) 0xFFF \<noteq> 0x180
           \<or> MAX_REQUEST_STATE_BYTES < fm_len metadata then Inr None
       else if \<not> settled (fm_mtime metadata) now \<or> \<not> settled (fm_ctime metadata) now then Inr None
       else Inr (Some \<lparr>st_device = fm_dev metadata, st_inode = fm_ino metadata, st_bytes = fm_len metadata,
         st_modified = fm_mtime metadata, st_changed = fm_ctime metadata\<rparr>))"

section \<open>Identifiers of a flat delta event\<close>

record delta_id =
  di_field :: string
  di_domain :: wire_id_domain
  di_upstream :: string

definition eligible :: "json \<Rightarrow> bool" where
  "eligible event \<longleftrightarrow> type_of event \<in> Some ` {''response.output_text.delta'', ''response.refusal.delta'',
     ''response.reasoning_text.delta'', ''response.reasoning_summary_text.delta'', ''response.reasoning.delta''}"

fun inspect_rules :: "carrier_rule list \<Rightarrow> (string \<times> json) list \<Rightarrow> delta_id list \<Rightarrow> delta_id list option" where
  "inspect_rules [] object ids = Some ids"
| "inspect_rules (r # rs) object ids = (case map_of object (cr_name r) of
     None \<Rightarrow> inspect_rules rs object ids
   | Some v \<Rightarrow>
       if cr_shape r \<in> {ShScalar, ShTypedItemId, ShOwnedResponseId} then
         (case as_str v of
            None \<Rightarrow> inspect_rules rs object ids
          | Some raw \<Rightarrow> if raw = [] then inspect_rules rs object ids
              else if \<not> is_ok (validate_wire_id raw) then None
              else if length ids = 16 then None
              else (case cr_domain r of None \<Rightarrow> None
                | Some d \<Rightarrow> inspect_rules rs object
                    (ids @ [\<lparr>di_field = cr_name r, di_domain = d, di_upstream = raw\<rparr>])))
       else if cr_shape r = ShTerminalResponseId then inspect_rules rs object ids
       else None)"

definition delta_ids_inspect :: "json \<Rightarrow> delta_id list option" where
  "delta_ids_inspect event =
     (if \<not> eligible event then None
      else Option.bind (as_object event) (\<lambda>object. inspect_rules (wire_rules DirResponse InTopLevel) object []))"

section \<open>The budget\<close>

definition MAX_ENTRIES :: nat where "MAX_ENTRIES = 64"
definition MAX_ID_BYTES :: nat where "MAX_ID_BYTES = 16 * 1024"
definition STORE_BUDGET_BYTES :: nat where "STORE_BUDGET_BYTES = 2 * 1024 * 1024"

text \<open>\<open>usize\<close> has 64 bits; subtraction wraps around, as \<open>fetch_sub\<close> does.\<close>

definition usize_sub :: "nat \<Rightarrow> nat \<Rightarrow> nat" where
  "usize_sub a b = (if b \<le> a then a - b else a + 2 ^ 64 - b)"

definition usize_checked_add :: "nat \<Rightarrow> nat \<Rightarrow> nat option" where
  "usize_checked_add a b = (if a + b < 2 ^ 64 then Some (a + b) else None)"

record cache_budget =
  cb_used :: nat
  cb_maximum :: nat

definition budget_with_limit :: "nat \<Rightarrow> cache_budget" where
  "budget_with_limit maximum = \<lparr>cb_used = 0, cb_maximum = maximum\<rparr>"

definition budget_default :: cache_budget where
  "budget_default = budget_with_limit STORE_BUDGET_BYTES"

definition reserve :: "nat \<Rightarrow> cache_budget \<Rightarrow> bool \<times> cache_budget" where
  "reserve bytes budget = (case usize_checked_add (cb_used budget) bytes of
     Some used \<Rightarrow> if used \<le> cb_maximum budget then (True, budget\<lparr>cb_used := used\<rparr>) else (False, budget)
   | None \<Rightarrow> (False, budget))"

definition release :: "nat \<Rightarrow> cache_budget \<Rightarrow> cache_budget" where
  "release bytes budget = budget\<lparr>cb_used := usize_sub (cb_used budget) bytes\<rparr>"

section \<open>The cache\<close>

definition le_bytes :: "nat \<Rightarrow> nat \<Rightarrow> string" where
  "le_bytes k n = rev (be_bytes k n)"

definition identity_part :: "string \<Rightarrow> string" where
  "identity_part part = le_bytes 8 (length part mod 2 ^ 64) @ part"

definition cache_identity :: "externals \<Rightarrow> string \<Rightarrow> string \<Rightarrow> string \<Rightarrow> wire_id_owner option \<Rightarrow> string" where
  "cache_identity ext namespace account scope owner =
     sha256 ext (''response-id-cache-v1'' @ concat (map identity_part [namespace, account, scope])
       @ [char_of (if owner = None then 0 else 1 :: nat)]
       @ (case owner of None \<Rightarrow> []
          | Some owner \<Rightarrow> concat (map identity_part [wo_session_id owner, wo_thread_id owner])))"

record cache_epoch =
  ce_identity :: string
  ce_stamp :: state_stamp
  ce_day :: int

record id_pair =
  ip_field :: string
  ip_domain :: wire_id_domain
  ip_upstream :: string
  ip_downstream :: string

definition pair_bytes :: "id_pair \<Rightarrow> nat" where
  "pair_bytes p = length (ip_upstream p) + length (ip_downstream p) + 64"

record response_id_cache =
  rc_entries :: "id_pair option list"
  rc_next :: nat
  rc_id_bytes :: nat
  rc_epoch :: "cache_epoch option"

text \<open>\<open>base_bytes\<close> stands for \<open>BASE_BYTES\<close>, which depends on the size of the structure in memory.\<close>

definition cache_new :: "nat \<Rightarrow> cache_budget \<Rightarrow> response_id_cache option \<times> cache_budget" where
  "cache_new base_bytes budget = (case reserve base_bytes budget of
     (False, budget) \<Rightarrow> (None, budget)
   | (True, budget) \<Rightarrow> (Some \<lparr>rc_entries = replicate MAX_ENTRIES None, rc_next = 0, rc_id_bytes = 0, rc_epoch = None\<rparr>, budget))"

definition cache_clear :: "response_id_cache \<times> cache_budget \<Rightarrow> response_id_cache \<times> cache_budget" where
  "cache_clear = (\<lambda>(cache, budget).
     (\<lparr>rc_entries = replicate (length (rc_entries cache)) None, rc_next = 0, rc_id_bytes = 0, rc_epoch = None\<rparr>,
      release (rc_id_bytes cache) budget))"

definition cache_drop :: "nat \<Rightarrow> response_id_cache \<times> cache_budget \<Rightarrow> cache_budget" where
  "cache_drop base_bytes = (\<lambda>(cache, budget). release (base_bytes + rc_id_bytes cache) budget)"

definition pair_matches :: "delta_id \<Rightarrow> id_pair \<Rightarrow> bool" where
  "pair_matches field p \<longleftrightarrow> ip_field p = di_field field \<and> ip_domain p = di_domain field \<and> ip_upstream p = di_upstream field"

text \<open>\<open>entries.iter().flatten()\<close>.\<close>

definition cached_pairs :: "response_id_cache \<Rightarrow> id_pair list" where
  "cached_pairs cache = List.map_filter id (rc_entries cache)"

fun resolve_all :: "response_id_cache \<Rightarrow> delta_id list \<Rightarrow> (string \<times> string) list option" where
  "resolve_all cache [] = Some []"
| "resolve_all cache (field # ids) = (case find (pair_matches field) (cached_pairs cache) of
     None \<Rightarrow> None
   | Some p \<Rightarrow> map_option ((#) (di_field field, ip_downstream p)) (resolve_all cache ids))"

text \<open>Assignment to \<open>value[field]\<close>; a value that is neither an object nor null has no fields to assign.\<close>

definition index_assign :: "string \<Rightarrow> json \<Rightarrow> json \<Rightarrow> json" where
  "index_assign field x v = (case v of
     JObject members \<Rightarrow> JObject (obj_insert field x members) | JNull \<Rightarrow> JObject [(field, x)] | _ \<Rightarrow> v)"

definition cache_translate ::
    "string \<Rightarrow> state_stamp option \<Rightarrow> int \<Rightarrow> delta_id list \<Rightarrow> json \<Rightarrow> response_id_cache \<times> cache_budget
     \<Rightarrow> (bool \<times> json) \<times> response_id_cache \<times> cache_budget" where
  "cache_translate identity stamp day ids event = (\<lambda>(cache, budget).
     let epoch = map_option (\<lambda>stamp. \<lparr>ce_identity = identity, ce_stamp = stamp, ce_day = day\<rparr>) stamp in
     if epoch = None \<or> rc_epoch cache \<noteq> epoch then ((False, event), cache_clear (cache, budget))
     else (case resolve_all cache ids of
         None \<Rightarrow> ((False, event), (cache, budget))
       | Some replacements \<Rightarrow>
           ((True, foldl (\<lambda>v (field, replacement). index_assign field (JString replacement) v) event replacements),
            (cache, budget))))"

text \<open>
  Making room: \<open>while id_bytes + bytes > MAX_ID_BYTES || entries[next].is_some()\<close>.  Not returning is
  \<open>None\<close>.
\<close>

definition take_slot :: "response_id_cache \<times> cache_budget \<Rightarrow> response_id_cache \<times> cache_budget" where
  "take_slot = (\<lambda>(cache, budget). case rc_entries cache ! rc_next cache of
     None \<Rightarrow> (cache, budget)
   | Some removed \<Rightarrow>
       (cache\<lparr>rc_entries := (rc_entries cache)[rc_next cache := None],
          rc_id_bytes := usize_sub (rc_id_bytes cache) (pair_bytes removed)\<rparr>,
        release (pair_bytes removed) budget))"

definition advance_slot :: "response_id_cache \<Rightarrow> response_id_cache" where
  "advance_slot cache = cache\<lparr>rc_next := (rc_next cache + 1) mod MAX_ENTRIES\<rparr>"

definition make_room_step :: "nat \<Rightarrow> response_id_cache \<times> cache_budget \<Rightarrow> response_id_cache \<times> cache_budget" where
  "make_room_step bytes w = (case take_slot w of (cache, budget) \<Rightarrow>
     (if MAX_ID_BYTES < rc_id_bytes cache + bytes then advance_slot cache else cache, budget))"

definition needs_room :: "nat \<Rightarrow> response_id_cache \<times> cache_budget \<Rightarrow> bool" where
  "needs_room bytes = (\<lambda>(cache, _). MAX_ID_BYTES < rc_id_bytes cache + bytes \<or> rc_entries cache ! rc_next cache \<noteq> None)"

partial_function (option) make_room ::
    "nat \<Rightarrow> response_id_cache \<times> cache_budget \<Rightarrow> (response_id_cache \<times> cache_budget) option" where
  "make_room bytes w = (if needs_room bytes w then make_room bytes (make_room_step bytes w) else Some w)"

declare make_room.simps [code]

definition store_pair :: "id_pair \<Rightarrow> response_id_cache \<times> cache_budget \<Rightarrow> response_id_cache \<times> cache_budget" where
  "store_pair p = (\<lambda>(cache, budget). case reserve (pair_bytes p) budget of
     (False, budget) \<Rightarrow> (cache, budget)
   | (True, budget) \<Rightarrow> (advance_slot (cache\<lparr>rc_id_bytes := rc_id_bytes cache + pair_bytes p,
       rc_entries := (rc_entries cache)[rc_next cache := Some p]\<rparr>), budget))"

definition remember_field ::
    "json \<Rightarrow> delta_id \<Rightarrow> response_id_cache \<times> cache_budget \<Rightarrow> (response_id_cache \<times> cache_budget) option" where
  "remember_field translated field w = (case str_of (jget translated (di_field field)) of
     None \<Rightarrow> Some w
   | Some downstream \<Rightarrow>
       if \<not> is_ok (validate_wire_id downstream) then Some w
       else if list_ex (pair_matches field) (cached_pairs (fst w)) then Some w
       else
         let p = \<lparr>ip_field = di_field field, ip_domain = di_domain field, ip_upstream = di_upstream field,
           ip_downstream = downstream\<rparr> in
         if MAX_ID_BYTES < pair_bytes p then Some w
         else map_option (store_pair p) (make_room (pair_bytes p) w))"

fun remember_fields ::
    "json \<Rightarrow> delta_id list \<Rightarrow> response_id_cache \<times> cache_budget \<Rightarrow> (response_id_cache \<times> cache_budget) option" where
  "remember_fields translated [] w = Some w"
| "remember_fields translated (field # ids) w =
     Option.bind (remember_field translated field w) (remember_fields translated ids)"

definition cache_remember ::
    "string \<Rightarrow> state_stamp option \<Rightarrow> int \<Rightarrow> delta_id list \<Rightarrow> json \<Rightarrow> response_id_cache \<times> cache_budget
     \<Rightarrow> (response_id_cache \<times> cache_budget) option" where
  "cache_remember identity stamp day ids translated w = (case stamp of
     None \<Rightarrow> Some (cache_clear w)
   | Some stamp \<Rightarrow>
       let epoch = \<lparr>ce_identity = identity, ce_stamp = stamp, ce_day = day\<rparr>;
         w = (if rc_epoch (fst w) \<noteq> Some epoch
              then (case cache_clear w of (cache, budget) \<Rightarrow> (cache\<lparr>rc_epoch := Some epoch\<rparr>, budget)) else w)
       in remember_fields translated ids w)"

end
