(* ===== verification/Wire_Translation.thy ===== *)
theory Wire_Translation
  imports Wire_Ids Json_Value Lifecycle_Carriers
begin

text \<open>
  Rewriting the identifiers of an event or a request (\<open>response_wire_ids.rs\<close>, \<open>request_wire_ids.rs\<close>).
  The walk over the carrier tables is written over the operations it calls for one identifier, so
  that the same walk can be read on an alias table; \<open>translate_response_ids\<close> and
  \<open>translate_request_ids\<close> are the walks on the editor.  Objects are passed and returned where the source
  has a mutable reference.  Parsing and printing JSON text are parameters.
\<close>

type_synonym json_object = "(string \<times> json) list"

record json_codec =
  jc_from_str :: "string \<Rightarrow> ledger_error + json"
  jc_to_string :: "json_object \<Rightarrow> string"

section \<open>Loops\<close>

primrec afold :: "('x \<Rightarrow> 'b \<Rightarrow> ('s, 'e, 'b) action) \<Rightarrow> 'x list \<Rightarrow> 'b \<Rightarrow> ('s, 'e, 'b) action" where
  "afold f [] b = aret b"
| "afold f (x # xs) b = abind (f x b) (afold f xs)"

lemma afold_cong [fundef_cong]:
  assumes "xs = ys" and "\<And>x b. x \<in> set ys \<Longrightarrow> f x b = g x b"
  shows "afold f xs = afold g ys"
proof -
  have "(\<And>x b. x \<in> set ys \<Longrightarrow> f x b = g x b) \<Longrightarrow> afold f ys b = afold g ys b" for b
  proof (induction ys arbitrary: b)
    case (Cons y ys)
    from Cons.IH [OF Cons.prems] have "afold f ys = afold g ys" by (intro ext) simp
    with Cons.prems show ?case by simp
  qed simp
  with assms show ?thesis by blast
qed

text \<open>\<open>iter_mut().filter_map(Value::as_object_mut)\<close>: other values stay as they are.\<close>

primrec for_objects :: "(json_object \<Rightarrow> ('s, 'e, json_object) action) \<Rightarrow> json list \<Rightarrow> ('s, 'e, json list) action" where
  "for_objects f [] = aret []"
| "for_objects f (v # vs) =
     abind (case v of JObject obj \<Rightarrow> abind (f obj) (\<lambda>obj'. aret (JObject obj')) | _ \<Rightarrow> aret v) (\<lambda>v'.
     abind (for_objects f vs) (\<lambda>vs'. aret (v' # vs')))"

definition in_object ::
    "(json_object \<Rightarrow> ('s, 'e, json_object) action) \<Rightarrow> string \<Rightarrow> json_object \<Rightarrow> ('s, 'e, json_object) action" where
  "in_object f name obj = (case map_of obj name of
     Some (JObject inner) \<Rightarrow> abind (f inner) (\<lambda>inner'. aret (obj_insert name (JObject inner') obj))
   | _ \<Rightarrow> aret obj)"

definition in_array ::
    "(json_object \<Rightarrow> ('s, 'e, json_object) action) \<Rightarrow> string \<Rightarrow> json_object \<Rightarrow> ('s, 'e, json_object) action" where
  "in_array f name obj = (case map_of obj name of
     Some (JArray items) \<Rightarrow> abind (for_objects f items) (\<lambda>items'. aret (obj_insert name (JArray items') obj))
   | _ \<Rightarrow> aret obj)"

section \<open>Single fields\<close>

type_synonym 's id_operation = "wire_id_domain \<Rightarrow> string \<Rightarrow> ('s, ledger_error, string) action"

definition required_domain :: "carrier_rule \<Rightarrow> ledger_error + wire_id_domain" where
  "required_domain r = ok_or (cr_domain r) (Msg (''carrier '' @ cr_name r @ '' has no wire domain''))"

text \<open>A string member that is not empty is replaced by what the operation answers.\<close>

definition translate_text ::
    "(string \<Rightarrow> ('s, ledger_error, string) action) \<Rightarrow> string \<Rightarrow> json_object \<Rightarrow> ('s, ledger_error, json_object) action" where
  "translate_text f name obj = (case str_of (map_of obj name) of
     None \<Rightarrow> aret obj
   | Some raw \<Rightarrow> if raw = [] then aret obj
       else abind (f raw) (\<lambda>mapped. aret (obj_insert name (JString mapped) obj)))"

definition translate_named_field ::
    "'s id_operation \<Rightarrow> string \<Rightarrow> wire_id_domain \<Rightarrow> json_object \<Rightarrow> ('s, ledger_error, json_object) action" where
  "translate_named_field up name d obj = translate_text (up d) name obj"

definition translate_field :: "'s id_operation \<Rightarrow> carrier_rule \<Rightarrow> json_object \<Rightarrow> ('s, ledger_error, json_object) action" where
  "translate_field up r obj = abind (alift (required_domain r)) (\<lambda>d. translate_named_field up (cr_name r) d obj)"

definition translate_response_field ::
    "(string \<Rightarrow> ('s, ledger_error, string) action) \<Rightarrow> string \<Rightarrow> json_object \<Rightarrow> ('s, ledger_error, json_object) action" where
  "translate_response_field owned name obj = translate_text owned name obj"

definition translate_conversation ::
    "'s id_operation \<Rightarrow> carrier_rule \<Rightarrow> json_object \<Rightarrow> ('s, ledger_error, json_object) action" where
  "translate_conversation up r obj = abind (alift (required_domain r)) (\<lambda>d.
     case map_of obj (cr_name r) of
       Some (JString raw) \<Rightarrow> if raw = [] then aret obj
         else abind (up d raw) (\<lambda>mapped. aret (obj_insert (cr_name r) (JString mapped) obj))
     | Some (JObject inner) \<Rightarrow>
         abind (translate_named_field up ''id'' d inner)
           (\<lambda>inner'. aret (obj_insert (cr_name r) (JObject inner') obj))
     | _ \<Rightarrow> aret obj)"

text \<open>\<open>str::rsplit_once\<close>.\<close>

definition rsplit_once :: "char \<Rightarrow> string \<Rightarrow> (string \<times> string) option" where
  "rsplit_once c s = map_option (\<lambda>(a, b). (rev b, rev a)) (split_once c (rev s))"

definition window_parts :: "string \<Rightarrow> (string \<times> string) option" where
  "window_parts raw = (case rsplit_once CHR '':'' raw of
     Some (thread, suffix) \<Rightarrow>
       if thread = [] \<or> suffix = [] \<or> \<not> list_all is_ascii_digit suffix then None else Some (thread, suffix)
   | None \<Rightarrow> None)"

definition translate_window ::
    "'s id_operation \<Rightarrow> carrier_rule \<Rightarrow> json_object \<Rightarrow> ('s, ledger_error, json_object) action" where
  "translate_window up r obj = (case Option.bind (str_of (map_of obj (cr_name r))) window_parts of
     None \<Rightarrow> aret obj
   | Some (thread, suffix) \<Rightarrow> abind (up Thread thread)
       (\<lambda>thread'. aret (obj_insert (cr_name r) (JString (thread' @ '':'' @ suffix)) obj)))"

section \<open>Identity metadata\<close>

text \<open>
  Serialized turn metadata is parsed and rewritten with the same rules, so it may nest.  The first
  argument bounds the nesting; \<open>nesting_of\<close> is enough, because a text is longer than the texts in it.
\<close>

definition translate_serialized_turn_metadata ::
    "json_codec \<Rightarrow> (json_object \<Rightarrow> ('s, ledger_error, json_object) action) \<Rightarrow> carrier_rule \<Rightarrow> json_object
     \<Rightarrow> ('s, ledger_error, json_object) action" where
  "translate_serialized_turn_metadata codec nested r obj = (case str_of (map_of obj (cr_name r)) of
     None \<Rightarrow> aret obj
   | Some raw \<Rightarrow>
       abind (alift (jc_from_str codec raw)) (\<lambda>value_of.
       abind (alift (ok_or (as_object value_of) (Msg ''turn metadata is not an object''))) (\<lambda>inner.
       abind (nested inner) (\<lambda>inner'.
       aret (obj_insert (cr_name r) (JString (jc_to_string codec inner')) obj)))))"

definition unsupported :: "string \<Rightarrow> carrier_rule \<Rightarrow> ledger_error" where
  "unsupported what r = Msg (''unsupported '' @ what @ '' for '' @ cr_name r)"

definition identity_rule ::
    "json_codec \<Rightarrow> 's id_operation \<Rightarrow> (json_object \<Rightarrow> ('s, ledger_error, json_object) action) \<Rightarrow> carrier_rule
     \<Rightarrow> json_object \<Rightarrow> ('s, ledger_error, json_object) action" where
  "identity_rule codec up nested r obj = (case cr_shape r of
     ShScalar \<Rightarrow> translate_field up r obj
   | ShWindow \<Rightarrow> translate_window up r obj
   | ShSerializedTurnMetadata \<Rightarrow> translate_serialized_turn_metadata codec nested r obj
   | _ \<Rightarrow> afail (unsupported ''identity metadata shape'' r))"

primrec translate_identity_metadata ::
    "nat \<Rightarrow> json_codec \<Rightarrow> 's id_operation \<Rightarrow> json_object \<Rightarrow> ('s, ledger_error, json_object) action" where
  "translate_identity_metadata 0 codec up =
     afold (identity_rule codec up (\<lambda>_. afail (Msg ''turn metadata nests too deeply''))) (wire_rules DirResponse InIdentityMetadata)"
| "translate_identity_metadata (Suc n) codec up =
     afold (identity_rule codec up (translate_identity_metadata n codec up)) (wire_rules DirResponse InIdentityMetadata)"

section \<open>The walk over a response\<close>

text \<open>Containers nest along the tables only, never back into a container further out.\<close>

fun container_rank :: "carrier_container \<Rightarrow> nat" where
  "container_rank InTopLevel = 3"
| "container_rank InResponseObject = 2"
| "container_rank InItem = 1"
| "container_rank _ = 0"

fun child_container :: "carrier_shape \<Rightarrow> carrier_container option" where
  "child_container ShResponseObject = Some InResponseObject"
| "child_container ShItemObject = Some InItem"
| "child_container ShItemArray = Some InItem"
| "child_container ShItemPassthroughMetadataObject = Some InItemPassthroughMetadata"
| "child_container ShCallerObject = Some InCaller"
| "child_container ShSafetyCheckArray = Some InSafetyCheck"
| "child_container _ = None"

lemma edges_go_down:
  assumes "r \<in> set (wire_rules direction c)" and "child_container (cr_shape r) = Some k"
  shows "container_rank k < container_rank c"
proof -
  let ?ok = "\<lambda>r. case child_container (cr_shape r) of None \<Rightarrow> True | Some k \<Rightarrow> container_rank k < container_rank (cr_container r)"
  have "list_all ?ok request_wire_RULES" "list_all ?ok response_wire_RULES"
    by (simp_all add: request_wire_RULES_def response_wire_RULES_def rule_makers)
  then show ?thesis using assms by (cases direction) (auto simp: wire_rules_eq list_all_iff)
qed

lemmas edge_simps = edges_go_down [where k = InResponseObject, simplified] edges_go_down [where k = InItem, simplified]
  edges_go_down [where k = InCaller, simplified] edges_go_down [where k = InSafetyCheck, simplified]
  edges_go_down [where k = InItemPassthroughMetadata, simplified]

function (sequential) translate_response_container ::
    "nat \<Rightarrow> json_codec \<Rightarrow> 's id_operation \<Rightarrow> (string \<Rightarrow> ('s, ledger_error, string) action) \<Rightarrow> carrier_container \<Rightarrow> bool
     \<Rightarrow> json_object \<Rightarrow> ('s, ledger_error, json_object) action" where
  "translate_response_container n codec up owned c terminal_response =
     afold (\<lambda>r obj. case cr_shape r of
         ShScalar \<Rightarrow> translate_field up r obj
       | ShTypedItemId \<Rightarrow> translate_field up r obj
       | ShOwnedResponseId \<Rightarrow> translate_response_field owned (cr_name r) obj
       | ShTerminalResponseId \<Rightarrow> if terminal_response then translate_response_field owned (cr_name r) obj else aret obj
       | ShConversation \<Rightarrow> translate_conversation up r obj
       | ShResponseObject \<Rightarrow> in_object (translate_response_container n codec up owned InResponseObject False) (cr_name r) obj
       | ShItemObject \<Rightarrow> in_object (translate_response_container n codec up owned InItem False) (cr_name r) obj
       | ShItemArray \<Rightarrow> in_array (translate_response_container n codec up owned InItem False) (cr_name r) obj
       | ShIdentityMetadataObject \<Rightarrow> in_object (translate_identity_metadata n codec up) (cr_name r) obj
       | ShItemPassthroughMetadataObject \<Rightarrow> in_object (\<lambda>metadata.
           abind (translate_identity_metadata n codec up metadata)
             (translate_response_container n codec up owned InItemPassthroughMetadata False)) (cr_name r) obj
       | ShCallerObject \<Rightarrow> in_object (translate_response_container n codec up owned InCaller False) (cr_name r) obj
       | ShSafetyCheckArray \<Rightarrow> in_array (translate_response_container n codec up owned InSafetyCheck False) (cr_name r) obj
       | _ \<Rightarrow> afail (unsupported ''response carrier shape'' r))
     (wire_rules DirResponse c)"
  by pat_completeness auto
termination
  by (relation "measure (\<lambda>(_, _, _, _, c, _). container_rank c)") (auto intro: edge_simps)

text \<open>The longest text of a value: serialized metadata nests at most that deep.\<close>

fun nesting_of :: "json \<Rightarrow> nat" where
  "nesting_of (JString s) = length s"
| "nesting_of (JArray vs) = fold max (map nesting_of vs) 0"
| "nesting_of (JObject members) = fold max (map (\<lambda>(_, v). nesting_of v) members) 0"
| "nesting_of _ = 0"

definition is_terminal_response :: "json_object \<Rightarrow> bool" where
  "is_terminal_response obj \<longleftrightarrow> str_of (map_of obj ''type'') = None
     \<and> (str_of (map_of obj ''object'') = Some ''response'' \<or> obj_contains obj ''output'' \<or> obj_contains obj ''usage'')"

definition response_walk ::
    "nat \<Rightarrow> json_codec \<Rightarrow> 's id_operation \<Rightarrow> (string \<Rightarrow> ('s, ledger_error, string) action) \<Rightarrow> json
     \<Rightarrow> ('s, ledger_error, json) action" where
  "response_walk n codec up owned event = (case event of
     JObject obj \<Rightarrow>
       abind (translate_response_container n codec up owned InTopLevel (is_terminal_response obj) obj)
         (\<lambda>obj'. aret (JObject obj'))
   | _ \<Rightarrow> aret event)"

definition translate_response_ids :: "externals \<Rightarrow> json_codec \<Rightarrow> wire_id_owner option \<Rightarrow> json \<Rightarrow> json edit" where
  "translate_response_ids ext codec owner event =
     response_walk (nesting_of event) codec (wire_from_upstream ext) (\<lambda>raw. wire_from_upstream_response ext raw owner) event"

section \<open>The walk over a request\<close>

type_synonym 's ref_operation = "wire_id_domain \<Rightarrow> request_wire_mapping \<Rightarrow> string \<Rightarrow> ('s, ledger_error, string) action"

definition translate_id :: "externals \<Rightarrow> editor ref_operation" where
  "translate_id ext d mapping raw = (case mapping of
     MapAllocate \<Rightarrow> wire_from_downstream ext d raw
   | MapRequireExisting \<Rightarrow> required_wire_from_downstream ext d raw False
   | MapRequireProviderExisting \<Rightarrow> required_wire_from_downstream ext d raw True
   | MapContextual \<Rightarrow> afail (Msg (''contextual wire mapping was not resolved for '' @ domain_debug d)))"

text \<open>What an optional origin is sent as, if anything.\<close>

definition origin_mapping :: "externals \<Rightarrow> json \<Rightarrow> string option edit" where
  "origin_mapping ext raw = (case as_str raw of
     None \<Rightarrow> aret None
   | Some raw \<Rightarrow> if \<not> is_ok (validate_wire_id raw) then aret None
       else abind (existing_wire_from_downstream ext Call raw) (\<lambda>found. case found of
         Some mapped \<Rightarrow> aret (Some mapped)
       | None \<Rightarrow> abind (existing_wire_from_upstream ext Call raw) (\<lambda>known.
           aret (if known \<noteq> None then Some raw else None))))"

definition translate_optional_origin ::
    "(json \<Rightarrow> ('s, ledger_error, string option) action) \<Rightarrow> json_object \<Rightarrow> ('s, ledger_error, json_object) action" where
  "translate_optional_origin origin metadata = (case map_of metadata ''cell_id'' of
     None \<Rightarrow> aret metadata
   | Some raw \<Rightarrow> abind (origin raw) (\<lambda>mapped. aret (case mapped of
         Some mapped \<Rightarrow> obj_insert ''cell_id'' (JString mapped) metadata
       | None \<Rightarrow> obj_remove ''tool_calls_complete'' (obj_remove ''cell_id'' metadata))))"

definition translate_reference ::
    "'s ref_operation \<Rightarrow> carrier_rule \<Rightarrow> string option \<Rightarrow> string \<Rightarrow> ('s, ledger_error, string) action" where
  "translate_reference down r item_type raw =
     abind (alift (required_domain r)) (\<lambda>d. down d (request_wire_mapping r item_type) raw)"

definition translate_request_field ::
    "'s ref_operation \<Rightarrow> carrier_rule \<Rightarrow> string option \<Rightarrow> json_object \<Rightarrow> ('s, ledger_error, json_object) action" where
  "translate_request_field down r item_type obj =
     athen (alift (required_domain r)) (translate_text (translate_reference down r item_type) (cr_name r) obj)"

definition translate_request_conversation ::
    "'s ref_operation \<Rightarrow> carrier_rule \<Rightarrow> string option \<Rightarrow> json_object \<Rightarrow> ('s, ledger_error, json_object) action" where
  "translate_request_conversation down r item_type obj =
     translate_conversation (\<lambda>d. down d (request_wire_mapping r item_type)) r obj"

definition translate_typed_item_id ::
    "'s ref_operation \<Rightarrow> string set \<Rightarrow> carrier_rule \<Rightarrow> string option \<Rightarrow> json_object \<Rightarrow> ('s, ledger_error, json_object) action" where
  "translate_typed_item_id down generated r item_type obj = (case str_of (map_of obj (cr_name r)) of
     None \<Rightarrow> aret obj
   | Some raw \<Rightarrow> if raw = [] \<or> raw \<in> generated then aret obj
       else abind (translate_reference down r item_type raw) (\<lambda>mapped. aret (obj_insert (cr_name r) (JString mapped) obj)))"

function (sequential) translate_request_object ::
    "'s ref_operation \<Rightarrow> (json \<Rightarrow> ('s, ledger_error, string option) action) \<Rightarrow> string set \<Rightarrow> carrier_container
     \<Rightarrow> json_object \<Rightarrow> ('s, ledger_error, json_object) action" where
  "translate_request_object down origin generated c object =
     (let item_type = (if c = InItem then str_of (map_of object ''type'') else None) in
      afold (\<lambda>r obj. case cr_shape r of
         ShScalar \<Rightarrow> if c = InItemPassthroughMetadata then translate_optional_origin origin obj
           else translate_request_field down r item_type obj
       | ShConversation \<Rightarrow> translate_request_conversation down r item_type obj
       | ShTypedItemId \<Rightarrow> translate_typed_item_id down generated r item_type obj
       | ShItemObject \<Rightarrow> in_object (translate_request_object down origin generated InItem) (cr_name r) obj
       | ShItemArray \<Rightarrow> in_array (translate_request_object down origin generated InItem) (cr_name r) obj
       | ShCallerObject \<Rightarrow> in_object (translate_request_object down origin generated InCaller) (cr_name r) obj
       | ShItemPassthroughMetadataObject \<Rightarrow>
           in_object (translate_request_object down origin generated InItemPassthroughMetadata) (cr_name r) obj
       | ShSafetyCheckArray \<Rightarrow> in_array (translate_request_object down origin generated InSafetyCheck) (cr_name r) obj
       | _ \<Rightarrow> afail (unsupported ''request carrier shape'' r))
      (wire_rules DirRequest c) object)"
  by pat_completeness auto
termination
  by (relation "measure (\<lambda>(_, _, _, c, _). container_rank c)") (auto intro: edge_simps)

definition translate_request_ids :: "externals \<Rightarrow> string set \<Rightarrow> json_object \<Rightarrow> json_object edit" where
  "translate_request_ids ext generated object =
     translate_request_object (translate_id ext) (origin_mapping ext) generated InTopLevel object"

declare translate_response_container.simps [simp del] translate_request_object.simps [simp del]

end
