(* ===== verification/Wire_Shown.thy ===== *)
theory Wire_Shown
  imports Wire_Translation Alias_Table
begin

text \<open>
  The walks over carriers as lookups in an alias table.  The walk on the editor allocates, touches and
  protects entries as it goes; the same walk on the table the editor ends with, or on any later one,
  gives the same value.
\<close>

section \<open>Walks that only read a table\<close>

text \<open>
  The state of such a walk is the table, and the answers to come for the optional origins, whose
  mapping may depend on what the table held at that moment.
\<close>

type_synonym 'i table_reader = "('i \<Rightarrow> string \<Rightarrow> string option) \<times> string option list"

definition read_entry :: "'i \<Rightarrow> string \<Rightarrow> ('i table_reader, ledger_error, string) action" where
  "read_entry i x = (\<lambda>(T, ds). (ok_or (T i x) (Msg ''no alias''), (T, ds)))"

definition next_answer :: "json \<Rightarrow> ('i table_reader, ledger_error, string option) action" where
  "next_answer raw = (\<lambda>(T, ds). case ds of [] \<Rightarrow> (Inl (Msg ''no answer''), (T, ds)) | d # ds \<Rightarrow> (Inr d, (T, ds)))"

definition answer_of :: "('i table_reader, ledger_error, 'a) action \<Rightarrow> ('i \<Rightarrow> string \<Rightarrow> string option) \<Rightarrow> 'a option" where
  "answer_of m T = (case m (T, []) of (Inr a, _) \<Rightarrow> Some a | (Inl _, _) \<Rightarrow> None)"

section \<open>The contract\<close>

text \<open>
  \<open>act\<close> maps one identifier and may allocate; \<open>entry\<close> is the table of a state.  The law: once an
  identifier was mapped, every later table has that entry.
\<close>

locale id_mapping =
  fixes inv :: "'s \<Rightarrow> bool"
    and later :: "'s \<Rightarrow> 's \<Rightarrow> bool"
    and act :: "'i \<Rightarrow> string \<Rightarrow> ('s, ledger_error, string) action"
    and entry :: "'s \<Rightarrow> 'i \<Rightarrow> string \<Rightarrow> string option"
  assumes inv_later: "inv s \<Longrightarrow> later s t \<Longrightarrow> inv t"
    and later_refl: "later s s"
    and later_trans: "later s t \<Longrightarrow> later t u \<Longrightarrow> later s u"
    and act_later: "act i x s = (Inr y, t) \<Longrightarrow> later s t"
    and act_entry: "inv s \<Longrightarrow> act i x s = (Inr y, t) \<Longrightarrow> later t u \<Longrightarrow> entry u i x = Some y"
begin

definition simulated ::
    "string option set \<Rightarrow> ('s, ledger_error, 'a) action \<Rightarrow> ('i table_reader, ledger_error, 'a) action \<Rightarrow> bool" where
  "simulated W m n \<longleftrightarrow> (\<forall>s a t. inv s \<longrightarrow> m s = (Inr a, t) \<longrightarrow> later s t
     \<and> (\<exists>ds. set ds \<subseteq> W \<and> (\<forall>u ds'. later t u \<longrightarrow> n (entry u, ds @ ds') = (Inr a, (entry u, ds')))))"

lemma simulatedD:
  assumes "simulated W m n" and "inv s" and "m s = (Inr a, t)"
  obtains ds where "later s t" and "set ds \<subseteq> W"
    and "\<And>u ds'. later t u \<Longrightarrow> n (entry u, ds @ ds') = (Inr a, (entry u, ds'))"
  using assms unfolding simulated_def by meson

lemma simulatedI:
  assumes "\<And>s a t. inv s \<Longrightarrow> m s = (Inr a, t) \<Longrightarrow> later s t"
    and "\<And>s a t. inv s \<Longrightarrow> m s = (Inr a, t)
      \<Longrightarrow> \<exists>ds. set ds \<subseteq> W \<and> (\<forall>u ds'. later t u \<longrightarrow> n (entry u, ds @ ds') = (Inr a, (entry u, ds')))"
  shows "simulated W m n"
  using assms unfolding simulated_def by blast

lemma sim_pure [intro]:
  "simulated W (aret a) (aret a)" "simulated W (afail e) n" "simulated W (alift r) (alift r)"
  by (auto simp: simulated_def later_refl intro!: exI [of _ "[]"])

lemma sim_act [intro]: "simulated W (act i x) (read_entry i x)"
  by (rule simulatedI) (auto simp: read_entry_def act_entry intro: act_later exI [of _ "[]"])

lemma sim_reader:
  assumes "\<And>s y t. inv s \<Longrightarrow> m s = (Inr y, t) \<Longrightarrow> later s t \<and> (\<forall>u. later t u \<longrightarrow> entry u i x = Some y)"
  shows "simulated W m (read_entry i x)"
  by (rule simulatedI) (use assms in \<open>auto simp: read_entry_def intro!: exI [of _ "[]"]\<close>)

lemma sim_later: "simulated W m n \<Longrightarrow> inv s \<Longrightarrow> m s = (Inr a, t) \<Longrightarrow> later s t"
  by (blast elim: simulatedD)

lemma sim_answer:
  assumes "simulated {} m n" and "inv s" and "m s = (Inr a, t)" and "later t u"
  shows "answer_of n (entry u) = Some a"
proof -
  obtain ds where "set ds \<subseteq> {}" and run: "\<And>u ds'. later t u \<Longrightarrow> n (entry u, ds @ ds') = (Inr a, (entry u, ds'))"
    using simulatedD [OF assms(1-3)] by metis
  then have "n (entry u, []) = (Inr a, (entry u, []))" using run [OF assms(4), of "[]"] by simp
  then show ?thesis by (simp add: answer_of_def)
qed

lemma sim_bind [intro]:
  assumes "simulated W m n" and "\<And>a. simulated W (f a) (g a)"
  shows "simulated W (abind m f) (abind n g)"
proof -
  have "later s t \<and> (\<exists>ds. set ds \<subseteq> W \<and> (\<forall>u ds'. later t u \<longrightarrow> abind n g (entry u, ds @ ds') = (Inr b, (entry u, ds'))))"
    if "inv s" and run: "abind m f s = (Inr b, t)" for s b t
  proof -
    from run obtain a s1 where m: "m s = (Inr a, s1)" and f: "f a s1 = (Inr b, t)" by (auto simp: abind_Inr_iff)
    obtain ds where ds: "later s s1" "set ds \<subseteq> W"
      "\<And>u ds'. later s1 u \<Longrightarrow> n (entry u, ds @ ds') = (Inr a, (entry u, ds'))"
      using simulatedD [OF assms(1) \<open>inv s\<close> m] by metis
    obtain es where es: "later s1 t" "set es \<subseteq> W"
      "\<And>u ds'. later t u \<Longrightarrow> g a (entry u, es @ ds') = (Inr b, (entry u, ds'))"
      using simulatedD [OF assms(2) inv_later [OF \<open>inv s\<close> ds(1)] f] by metis
    have "abind n g (entry u, (ds @ es) @ ds') = (Inr b, (entry u, ds'))" if "later t u" for u ds'
      using ds(3) [OF later_trans [OF es(1) that], of "es @ ds'"] es(3) [OF that] by (simp add: abind_def)
    then show ?thesis using ds(1,2) es(1,2) by (intro conjI exI [of _ "ds @ es"]) (auto intro: later_trans)
  qed
  then show ?thesis unfolding simulated_def by blast
qed

lemma sim_then [intro]: "simulated W m n \<Longrightarrow> simulated W m' n' \<Longrightarrow> simulated W (athen m m') (athen n n')"
  unfolding athen_def by (rule sim_bind)

lemma sim_fold:
  "(\<And>x b. x \<in> set xs \<Longrightarrow> simulated W (f x b) (g x b)) \<Longrightarrow> simulated W (afold f xs b) (afold g xs b)"
proof (induction xs arbitrary: b)
  case (Cons x xs)
  then have "simulated W (afold f xs b') (afold g xs b')" for b' by simp
  with Cons.prems show ?case by (auto intro!: sim_bind)
qed auto

lemma sim_objects: "(\<And>obj. simulated W (f obj) (g obj)) \<Longrightarrow> simulated W (for_objects f vs) (for_objects g vs)"
  by (induction vs) (auto intro!: sim_bind split: json.split)

lemma sim_in:
  assumes "\<And>obj. simulated W (f obj) (g obj)"
  shows "simulated W (in_object f name obj) (in_object g name obj)"
    and "simulated W (in_array f name obj) (in_array g name obj)"
  using assms by (auto simp: in_object_def in_array_def intro!: sim_bind sim_objects split: json.split option.split)

lemma sim_text:
  "(\<And>raw. simulated W (f raw) (g raw)) \<Longrightarrow> simulated W (translate_text f name obj) (translate_text g name obj)"
  by (auto simp: translate_text_def intro!: sim_bind split: option.split)

lemma sim_fields:
  assumes "\<And>d raw. simulated W (up d raw) (up' d raw)"
  shows "simulated W (translate_named_field up name d obj) (translate_named_field up' name d obj)"
    and "simulated W (translate_field up r obj) (translate_field up' r obj)"
    and "simulated W (translate_conversation up r obj) (translate_conversation up' r obj)"
    and "simulated W (translate_window up r obj) (translate_window up' r obj)"
proof -
  show named: "simulated W (translate_named_field up name d obj) (translate_named_field up' name d obj)" for name d obj
    unfolding translate_named_field_def using assms by (rule sim_text)
  then show "simulated W (translate_field up r obj) (translate_field up' r obj)"
    by (auto simp: translate_field_def intro!: sim_bind)
  show "simulated W (translate_conversation up r obj) (translate_conversation up' r obj)"
    using assms named by (auto simp: translate_conversation_def intro!: sim_bind split: json.split option.split)
  show "simulated W (translate_window up r obj) (translate_window up' r obj)"
    using assms by (auto simp: translate_window_def intro!: sim_bind split: option.split)
qed

lemma sim_identity:
  assumes "\<And>d raw. simulated W (up d raw) (up' d raw)"
  shows "simulated W (translate_identity_metadata n codec up obj) (translate_identity_metadata n codec up' obj)"
proof -
  have one: "simulated W (identity_rule codec up nested r obj) (identity_rule codec up' nested' r obj)"
    if "\<And>obj. simulated W (nested obj) (nested' obj)" for nested nested' r obj
    using that sim_fields [of W up up', OF assms]
    by (auto simp: identity_rule_def translate_serialized_turn_metadata_def intro!: sim_bind
        split: carrier_shape.split option.split)
  show ?thesis
  proof (induction n arbitrary: obj)
    case 0
    have "simulated W (identity_rule codec up (\<lambda>_. afail (Msg ''turn metadata nests too deeply'')) r obj)
        (identity_rule codec up' (\<lambda>_. afail (Msg ''turn metadata nests too deeply'')) r obj)" for r obj
      by (rule one) (rule sim_pure)
    then show ?case unfolding translate_identity_metadata.simps by (rule sim_fold)
  next
    case (Suc n)
    have "simulated W (identity_rule codec up (translate_identity_metadata n codec up) r obj)
        (identity_rule codec up' (translate_identity_metadata n codec up') r obj)" for r obj
      by (rule one) (rule Suc)
    then show ?case unfolding translate_identity_metadata.simps by (rule sim_fold)
  qed
qed

lemma sim_response_container:
  assumes up: "\<And>d raw. simulated W (up d raw) (up' d raw)" and owned: "\<And>raw. simulated W (owned raw) (owned' raw)"
  shows "simulated W (translate_response_container n codec up owned c terminal obj)
    (translate_response_container n codec up' owned' c terminal obj)"
proof (induction "container_rank c" arbitrary: c terminal obj rule: less_induct)
  case less
  have child: "simulated W (translate_response_container n codec up owned k False obj)
      (translate_response_container n codec up' owned' k False obj)"
    if "r \<in> set (wire_rules DirResponse c)" and "child_container (cr_shape r) = Some k" for r k obj
    using less edges_go_down [OF that] by simp
  note parts = sim_fields [of W up up', OF up] sim_text [of W owned owned', OF owned] sim_identity [of W up up', OF up]
  show ?case
    unfolding translate_response_container.simps [of n codec up owned c]
      translate_response_container.simps [of n codec up' owned' c]
    by (rule sim_fold, cases rule: carrier_shape.exhaust)
      (auto simp: translate_response_field_def intro!: sim_in sim_bind parts child split: carrier_shape.split)
qed

lemma sim_response_walk:
  assumes "\<And>d raw. simulated W (up d raw) (up' d raw)" and "\<And>raw. simulated W (owned raw) (owned' raw)"
  shows "simulated W (response_walk n codec up owned event) (response_walk n codec up' owned' event)"
  using sim_response_container [of W up up' owned owned', OF assms]
  by (auto simp: response_walk_def intro!: sim_bind split: json.split)

lemma sim_request_object:
  assumes down: "\<And>d mapping raw. simulated W (down d mapping raw) (down' d mapping raw)"
    and origin: "\<And>raw. simulated W (origin raw) (origin' raw)"
  shows "simulated W (translate_request_object down origin generated c obj)
    (translate_request_object down' origin' generated c obj)"
proof (induction "container_rank c" arbitrary: c obj rule: less_induct)
  case less
  have child: "simulated W (translate_request_object down origin generated k obj)
      (translate_request_object down' origin' generated k obj)"
    if "r \<in> set (wire_rules DirRequest c)" and "child_container (cr_shape r) = Some k" for r k obj
    using less edges_go_down [OF that] by simp
  have ref: "simulated W (translate_reference down r kind raw) (translate_reference down' r kind raw)" for r kind raw
    using down by (auto simp: translate_reference_def intro!: sim_bind)
  have "simulated W (translate_request_field down r kind obj) (translate_request_field down' r kind obj)"
    "simulated W (translate_typed_item_id down generated r kind obj) (translate_typed_item_id down' generated r kind obj)"
    "simulated W (translate_request_conversation down r kind obj) (translate_request_conversation down' r kind obj)"
    "simulated W (translate_optional_origin origin obj) (translate_optional_origin origin' obj)" for r kind obj
    using ref origin down by (auto simp: translate_request_field_def translate_typed_item_id_def
        translate_request_conversation_def translate_optional_origin_def intro!: sim_bind sim_then sim_text sim_fields(3)
        split: option.split)
  note parts = this
  show ?case
    unfolding translate_request_object.simps [of down origin generated c]
      translate_request_object.simps [of down' origin' generated c] Let_def
    by (rule sim_fold, cases rule: carrier_shape.exhaust)
      (auto intro!: sim_in parts child split: carrier_shape.split)
qed

end

section \<open>The tables of the editor\<close>

text \<open>The alias shown for a provider identifier, and the provider identifier behind an alias.\<close>

definition shown :: "externals \<Rightarrow> editor \<Rightarrow> wire_id_domain \<Rightarrow> string \<Rightarrow> string option" where
  "shown ext ed d up =
     Option.bind (bm_get (wire_upstream_index (ed_scope ed)) (wire_upstream ext (ed_keys ed) d up)) (\<lambda>k.
     Option.bind (bm_get (wire_ids (ed_scope ed)) k) (\<lambda>e.
       if we_domain e = d \<and> we_upstream_id e = up then Some (we_downstream_id e) else None))"

definition behind :: "externals \<Rightarrow> editor \<Rightarrow> wire_id_domain \<Rightarrow> string \<Rightarrow> string option" where
  "behind ext ed d down = Option.bind (downstream_entry ext d down ed) (\<lambda>e.
     if downstream_matches d down e then Some (we_upstream_id e) else None)"

lemma behind_iff: "behind ext ed d down = Some up \<longleftrightarrow> holds_pair ext d down up ed"
  by (auto simp: behind_def holds_pair_def downstream_entry_def downstream_matches_def split: bind_splits)

lemma shown_of_pair:
  assumes "wire_inv ext ed" and "holds_pair ext d down up ed"
  shows "shown ext ed d up = Some down"
proof -
  let ?dl = "wire_downstream ext (ed_keys ed) d down"
  from assms(2) obtain e where e: "bm_get (wire_ids (ed_scope ed)) ?dl = Some e"
      "we_domain e = d" "we_downstream_id e = down" "we_upstream_id e = up"
    by (auto simp: holds_pair_def)
  from assms(1) e(1) have "we_upstream_lookup e = wire_upstream ext (ed_keys ed) (we_domain e) (we_upstream_id e)"
    unfolding wire_inv_def table_ok_def wire_coherent_def by blast
  moreover from assms(1) e(1) have "bm_get (wire_upstream_index (ed_scope ed)) (we_upstream_lookup e) = Some ?dl"
    unfolding wire_inv_def table_ok_def wire_index_ok_def by blast
  ultimately show ?thesis using e by (simp add: shown_def)
qed

text \<open>The two tables are inverse to each other.\<close>

lemma shown_iff_behind:
  assumes "wire_inv ext ed"
  shows "shown ext ed d up = Some down \<longleftrightarrow> behind ext ed d down = Some up"
proof
  assume "shown ext ed d up = Some down"
  then obtain k e where e: "bm_get (wire_ids (ed_scope ed)) k = Some e"
    "we_domain e = d" "we_upstream_id e = up" "we_downstream_id e = down"
    by (auto simp: shown_def split: bind_splits if_splits)
  from assms e(1) have "k = wire_downstream ext (ed_keys ed) (we_domain e) (we_downstream_id e)"
    unfolding wire_inv_def table_ok_def wire_coherent_def by blast
  with e show "behind ext ed d down = Some up" by (auto simp: behind_iff holds_pair_def)
qed (auto simp: behind_iff intro: shown_of_pair [OF assms])

lemma required_wire_pair:
  assumes "wire_inv ext ed" and run: "required_wire_from_downstream ext d down b ed = (Inr up, ed')"
  shows "holds_pair ext d down up ed'"
proof -
  from run obtain e where "downstream_entry ext d down ed = Some e" "downstream_matches d down e" "we_upstream_id e = up"
    by (auto simp: required_wire_from_downstream_def athen_Inr_iff abind_Inr_iff split: option.splits)
  then have "holds_pair ext d down up ed" by (auto simp: holds_pair_def downstream_entry_def downstream_matches_def)
  then show ?thesis
    using holds_pair_extends [OF okrelD [OF extends_required_wire_from_downstream run]] assms(1) by (simp add: wire_inv_def)
qed

section \<open>Both directions of the editor\<close>

interpretation up_walk: id_mapping "wire_inv ext" "edit_steps ext" "wire_from_upstream ext" "shown ext" for ext
proof
  show "wire_from_upstream ext d x s = (Inr y, t) \<Longrightarrow> edit_steps ext s t" for d x s y t
    by (blast intro: edit_step.intros)
  then show "wire_inv ext s \<Longrightarrow> wire_from_upstream ext d x s = (Inr y, t) \<Longrightarrow> edit_steps ext t u
      \<Longrightarrow> shown ext u d x = Some y" for d x s y t u
    by (meson holds_pair_steps shown_of_pair wire_from_upstream_pair wire_inv_steps)
qed (auto intro: wire_inv_steps)

interpretation down_walk: id_mapping "wire_inv ext" "edit_steps ext" "wire_from_downstream ext" "behind ext" for ext
proof
  show "wire_from_downstream ext d x s = (Inr y, t) \<Longrightarrow> edit_steps ext s t" for d x s y t
    by (blast intro: edit_step.intros)
  then show "wire_inv ext s \<Longrightarrow> wire_from_downstream ext d x s = (Inr y, t) \<Longrightarrow> edit_steps ext t u
      \<Longrightarrow> behind ext u d x = Some y" for d x s y t u
    by (meson behind_iff holds_pair_steps wire_from_downstream_pair wire_inv_steps)
qed (auto intro: wire_inv_steps)

lemma owned_simulated:
  "up_walk.simulated ext W (wire_from_upstream_response ext raw owner) (read_entry Response raw)"
proof (rule up_walk.sim_reader)
  fix s y t
  assume inv: "wire_inv ext s" and run: "wire_from_upstream_response ext raw owner s = (Inr y, t)"
  then obtain s1 where up: "wire_from_upstream ext Response raw s = (Inr y, s1)"
    and own: "(case owner of None \<Rightarrow> aret () | Some owner \<Rightarrow> set_response_owner ext raw owner) s1 = (Inr (), t)"
    by (auto simp: wire_from_upstream_response_def abind_Inr_iff athen_Inr_iff)
  have "holds_pair ext Response y raw s1" using inv up by (rule wire_from_upstream_pair)
  moreover have "extends ext s1 t"
    using own by (auto simp: extends_refl intro: okrelD [OF extends_set_response_owner] split: option.splits)
  moreover have "wire_inv ext s1" using up_walk.inv_later [OF inv up_walk.act_later [OF up]] .
  ultimately have held: "holds_pair ext Response y raw t" using holds_pair_extends by (simp add: wire_inv_def)
  have steps: "edit_steps ext s t" using run by (blast intro: edit_step.intros)
  moreover have "shown ext u Response raw = Some y" if "edit_steps ext t u" for u
    using held that inv steps by (meson holds_pair_steps shown_of_pair wire_inv_steps)
  ultimately show "edit_steps ext s t \<and> (\<forall>u. edit_steps ext t u \<longrightarrow> shown ext u Response raw = Some y)" by blast
qed

lemma reference_simulated:
  "down_walk.simulated ext W (translate_id ext d mapping raw) (read_entry d raw)"
proof (rule down_walk.sim_reader)
  fix s y t
  assume inv: "wire_inv ext s" and run: "translate_id ext d mapping raw s = (Inr y, t)"
  then have steps: "edit_steps ext s t" and held: "holds_pair ext d raw y t"
    by (auto simp: translate_id_def split: request_wire_mapping.splits
        intro: edit_step.intros wire_from_downstream_pair required_wire_pair)
  moreover have "behind ext u d raw = Some y" if "edit_steps ext t u" for u
    using held that inv steps by (meson behind_iff holds_pair_steps wire_inv_steps)
  ultimately show "edit_steps ext s t \<and> (\<forall>u. edit_steps ext t u \<longrightarrow> behind ext u d raw = Some y)" by blast
qed

lemma origin_simulated:
  "down_walk.simulated ext UNIV (origin_mapping ext raw) (next_answer raw)"
proof (rule down_walk.simulatedI)
  show "origin_mapping ext raw s = (Inr a, t) \<Longrightarrow> edit_steps ext s t" for s a t
    by (auto simp: origin_mapping_def abind_Inr_iff split: option.splits if_splits)
      (meson edit_step.intros(19,23) r_into_rtranclp rtranclp_trans)+
  show "\<exists>ds. set ds \<subseteq> UNIV \<and> (\<forall>u ds'. edit_steps ext t u
      \<longrightarrow> next_answer raw (behind ext u, ds @ ds') = (Inr a, (behind ext u, ds')))" for a :: "string option" and t
    by (intro exI [of _ "[a]"]) (simp add: next_answer_def)
qed

section \<open>What a client is shown\<close>

text \<open>The event with every carried identifier replaced by its alias in a table.\<close>

definition show_event :: "json_codec \<Rightarrow> (wire_id_domain \<Rightarrow> string \<Rightarrow> string option) \<Rightarrow> json \<Rightarrow> json option" where
  "show_event codec T event = answer_of (response_walk (nesting_of event) codec read_entry (read_entry Response) event) T"

lemma response_simulated:
  "up_walk.simulated ext W (translate_response_ids ext codec owner event)
     (response_walk (nesting_of event) codec read_entry (read_entry Response) event)"
  unfolding translate_response_ids_def
  by (intro up_walk.sim_response_walk up_walk.sim_act owned_simulated)

lemma request_simulated:
  "down_walk.simulated ext UNIV (translate_request_object (translate_id ext) (origin_mapping ext) generated c obj)
     (translate_request_object (\<lambda>d mapping. read_entry d) next_answer generated c obj)"
  by (intro down_walk.sim_request_object reference_simulated origin_simulated)

end
