(* ===== verification/Wire_Members.thy ===== *)
theory Wire_Members
  imports Wire_Shown
begin

text \<open>
  Every rule of a carrier table works on one member of its object.  A walk over rules with different
  names is then a family of independent members, which gives two facts: the bound on the nesting of
  serialized metadata is enough, and what happened to one member can be read off a whole walk.
\<close>

section \<open>Operations on one member\<close>

definition member_op ::
    "(json option \<Rightarrow> ('s, 'e, json option) action) \<Rightarrow> string \<Rightarrow> json_object \<Rightarrow> ('s, 'e, json_object) action" where
  "member_op F name obj =
     abind (F (map_of obj name)) (\<lambda>w. aret (case w of None \<Rightarrow> obj | Some v \<Rightarrow> obj_insert name v obj))"

lemma abind_assoc: "abind (abind m f) g = abind m (\<lambda>x. abind (f x) g)"
  by (auto simp: abind_def fun_eq_iff split: prod.split sum.split)

lemma abind_aret [simp]: "abind (aret a) f = f a"
  by (simp add: abind_def fun_eq_iff)

lemma abind_if: "abind (if b then m else n) f = (if b then abind m f else abind n f)"
  by simp

lemma member_op_bind:
  "abind (member_op F name obj) k
    = abind (F (map_of obj name)) (\<lambda>w. k (case w of None \<Rightarrow> obj | Some v \<Rightarrow> obj_insert name v obj))"
  by (simp add: member_op_def abind_assoc)

lemma members_cong:
  assumes "distinct (map name rs)" and "\<And>r. r \<in> set rs \<Longrightarrow> F r (map_of obj (name r)) = G r (map_of obj (name r))"
  shows "afold (\<lambda>r. member_op (F r) (name r)) rs obj = afold (\<lambda>r. member_op (G r) (name r)) rs obj"
  using assms
proof (induction rs arbitrary: obj)
  case (Cons r rs)
  have "afold (\<lambda>r. member_op (F r) (name r)) rs obj' = afold (\<lambda>r. member_op (G r) (name r)) rs obj'"
    if "obj' = (case w of None \<Rightarrow> obj | Some v \<Rightarrow> obj_insert (name r) v obj)" for w obj'
  proof (rule Cons.IH)
    fix r' assume "r' \<in> set rs"
    moreover from this Cons.prems(1) have "name r' \<noteq> name r" by (auto simp: image_iff)
    ultimately show "F r' (map_of obj' (name r')) = G r' (map_of obj' (name r'))"
      using Cons.prems(2) [of r'] that by (auto split: option.splits)
  qed (use Cons.prems in simp)
  then have "abind (F r (map_of obj (name r))) (\<lambda>w. afold (\<lambda>r. member_op (F r) (name r)) rs
        (case w of None \<Rightarrow> obj | Some v \<Rightarrow> obj_insert (name r) v obj))
      = abind (G r (map_of obj (name r))) (\<lambda>w. afold (\<lambda>r. member_op (G r) (name r)) rs
        (case w of None \<Rightarrow> obj | Some v \<Rightarrow> obj_insert (name r) v obj))"
    using Cons.prems(2) [of r] by simp
  then show ?case by (simp add: member_op_bind)
qed simp

text \<open>The run of one rule inside a successful walk.\<close>

lemma members_run:
  assumes "distinct (map name rs)" and "afold (\<lambda>r. member_op (F r) (name r)) rs obj s = (Inr obj', t)"
    and "P s" and "\<forall>r v s w t. P s \<longrightarrow> F r v s = (Inr w, t) \<longrightarrow> P t \<and> R s t" and "reflp R" and "transp R"
  shows "P t \<and> R s t \<and> (\<forall>k. k \<notin> name ` set rs \<longrightarrow> map_of obj' k = map_of obj k)
    \<and> (\<forall>r \<in> set rs. \<exists>s1 s2 w. P s1 \<and> R s s1 \<and> F r (map_of obj (name r)) s1 = (Inr w, s2) \<and> R s2 t
        \<and> map_of obj' (name r) = (case w of None \<Rightarrow> map_of obj (name r) | Some v \<Rightarrow> Some v))"
  using assms(1-3)
proof (induction rs arbitrary: obj s)
  case Nil
  then show ?case using assms(5) by (simp add: reflp_def)
next
  case (Cons r rs)
  let ?walk = "afold (\<lambda>r. member_op (F r) (name r)) rs"
  from Cons.prems(2) have "abind (member_op (F r) (name r) obj) ?walk s = (Inr obj', t)" by simp
  then obtain w s2 where first: "F r (map_of obj (name r)) s = (Inr w, s2)"
    and rest: "afold (\<lambda>r. member_op (F r) (name r)) rs (case w of None \<Rightarrow> obj | Some v \<Rightarrow> obj_insert (name r) v obj) s2
      = (Inr obj', t)" (is "afold _ rs ?obj1 s2 = _")
    unfolding member_op_def [of "F r"] by (auto simp: abind_Inr_iff)
  from Cons.prems(3) assms(4) first have step: "P s2" "R s s2" by blast+
  have IH: "P t \<and> R s2 t \<and> (\<forall>k. k \<notin> name ` set rs \<longrightarrow> map_of obj' k = map_of ?obj1 k)
    \<and> (\<forall>r \<in> set rs. \<exists>s1 s3 w. P s1 \<and> R s2 s1 \<and> F r (map_of ?obj1 (name r)) s1 = (Inr w, s3) \<and> R s3 t
        \<and> map_of obj' (name r) = (case w of None \<Rightarrow> map_of ?obj1 (name r) | Some v \<Rightarrow> Some v))"
    using Cons.IH [OF _ rest step(1)] Cons.prems(1) by simp
  have other: "map_of ?obj1 k = map_of obj k" if "k \<noteq> name r" for k using that by (cases w) auto
  have fresh: "name r \<notin> name ` set rs" and others: "r' \<in> set rs \<Longrightarrow> name r' \<noteq> name r" for r'
    using Cons.prems(1) by (auto simp: image_iff)
  have "\<exists>s1 s3 w. P s1 \<and> R s s1 \<and> F r' (map_of obj (name r')) s1 = (Inr w, s3) \<and> R s3 t
      \<and> map_of obj' (name r') = (case w of None \<Rightarrow> map_of obj (name r') | Some v \<Rightarrow> Some v)"
    if "r' \<in> set (r # rs)" for r'
  proof (cases "r' \<in> set rs")
    case True
    with IH others [OF True] other [OF others [OF True]] show ?thesis
      by (metis (no_types, lifting) transpD [OF assms(6)] step(2))
  next
    case False
    with that have "r' = r" by simp
    have "map_of obj' (name r) = (case w of None \<Rightarrow> map_of obj (name r) | Some v \<Rightarrow> Some v)"
      using IH fresh by (cases w) auto
    with \<open>r' = r\<close> first IH Cons.prems(3) reflpD [OF assms(5)] show ?thesis by blast
  qed
  with IH fresh other transpD [OF assms(6) step(2)] show ?case by auto
qed

text \<open>Rules without a member in the object are skipped, and an error is the error of one rule.\<close>

lemma members_skip:
  assumes "\<And>r. r \<in> set rs \<Longrightarrow> F r None = aret None"
  shows "afold (\<lambda>r. member_op (F r) (name r)) rs obj
    = afold (\<lambda>r. member_op (F r) (name r)) (filter (\<lambda>r. map_of obj (name r) \<noteq> None) rs) obj"
  using assms
proof (induction rs arbitrary: obj)
  case (Cons r rs)
  then have IH: "afold (\<lambda>r. member_op (F r) (name r)) rs obj
    = afold (\<lambda>r. member_op (F r) (name r)) (filter (\<lambda>r. map_of obj (name r) \<noteq> None) rs) obj" for obj by simp
  show ?case
  proof (cases "map_of obj (name r) = None")
    case False
    have "(\<lambda>r'. map_of (case w of None \<Rightarrow> obj | Some v \<Rightarrow> obj_insert (name r) v obj) (name r') \<noteq> None)
        = (\<lambda>r'. map_of obj (name r') \<noteq> None)" for w
      using False by (cases w) (auto simp: fun_eq_iff)
    then show ?thesis using False IH [of "case w of None \<Rightarrow> obj | Some v \<Rightarrow> obj_insert (name r) v obj" for w]
      by (simp add: member_op_bind)
  next
    case True
    then show ?thesis using IH [of obj] Cons.prems [of r] by (simp add: member_op_bind del: action_simps)
  qed
qed simp

lemma members_err:
  assumes "distinct (map name rs)" and "afold (\<lambda>r. member_op (F r) (name r)) rs obj s = (Inl e, t)"
  shows "\<exists>r \<in> set rs. \<exists>s1 t1. F r (map_of obj (name r)) s1 = (Inl e, t1)"
  using assms
proof (induction rs arbitrary: obj s)
  case (Cons r rs)
  let ?walk = "afold (\<lambda>r. member_op (F r) (name r)) rs"
  have run: "abind (F r (map_of obj (name r))) (\<lambda>w. ?walk (case w of None \<Rightarrow> obj | Some v \<Rightarrow> obj_insert (name r) v obj)) s
      = (Inl e, t)"
    using Cons.prems(2) by (simp add: member_op_bind)
  show ?case
  proof (cases "F r (map_of obj (name r)) s")
    case (Pair x s1)
    show ?thesis
    proof (cases x)
      case (Inl e')
      with Pair run show ?thesis by (auto simp: abind_def)
    next
      case (Inr w)
      with Pair run have rest: "?walk (case w of None \<Rightarrow> obj | Some v \<Rightarrow> obj_insert (name r) v obj) s1 = (Inl e, t)"
        by (simp add: abind_def)
      have "distinct (map name rs)" using Cons.prems(1) by simp
      from Cons.IH [OF this rest] obtain r' s2 t2 where r': "r' \<in> set rs"
        "F r' (map_of (case w of None \<Rightarrow> obj | Some v \<Rightarrow> obj_insert (name r) v obj) (name r')) s2 = (Inl e, t2)"
        by blast
      moreover have "name r' \<noteq> name r" using r'(1) Cons.prems(1) by (auto simp: image_iff)
      ultimately show ?thesis by (cases w) auto
    qed
  qed
qed simp

section \<open>The rules as operations on one member\<close>

definition text_member ::
    "(string \<Rightarrow> ('s, ledger_error, string) action) \<Rightarrow> json option \<Rightarrow> ('s, ledger_error, json option) action" where
  "text_member f v = (case str_of v of
     None \<Rightarrow> aret None
   | Some raw \<Rightarrow> if raw = [] then aret None else abind (f raw) (\<lambda>mapped. aret (Some (JString mapped))))"

definition object_member ::
    "(json_object \<Rightarrow> ('s, 'e, json_object) action) \<Rightarrow> json option \<Rightarrow> ('s, 'e, json option) action" where
  "object_member f v = (case v of
     Some (JObject inner) \<Rightarrow> abind (f inner) (\<lambda>inner'. aret (Some (JObject inner'))) | _ \<Rightarrow> aret None)"

definition array_member ::
    "(json_object \<Rightarrow> ('s, 'e, json_object) action) \<Rightarrow> json option \<Rightarrow> ('s, 'e, json option) action" where
  "array_member f v = (case v of
     Some (JArray items) \<Rightarrow> abind (for_objects f items) (\<lambda>items'. aret (Some (JArray items'))) | _ \<Rightarrow> aret None)"

lemma text_member_op: "translate_text f name obj = member_op (text_member f) name obj"
  by (auto simp: translate_text_def member_op_def text_member_def abind_assoc simp del: action_simps split: option.split)

lemma in_member_op:
  "in_object f name obj = member_op (object_member f) name obj"
  "in_array f name obj = member_op (array_member f) name obj"
  by (auto simp: in_object_def in_array_def object_member_def array_member_def member_op_def abind_assoc
      simp del: action_simps split: option.split json.split)

lemma domain_member_op:
  "abind (alift x) (\<lambda>d. member_op (F d) name obj) = member_op (\<lambda>v. abind (alift x) (\<lambda>d. F d v)) name obj"
  by (simp add: member_op_def abind_assoc)

text \<open>One rule of a response container, on its member.\<close>

definition response_member ::
    "nat \<Rightarrow> json_codec \<Rightarrow> 's id_operation \<Rightarrow> (string \<Rightarrow> ('s, ledger_error, string) action) \<Rightarrow> bool \<Rightarrow> carrier_rule
     \<Rightarrow> json option \<Rightarrow> ('s, ledger_error, json option) action" where
  "response_member n codec up owned terminal_response r v = (case cr_shape r of
     ShScalar \<Rightarrow> abind (alift (required_domain r)) (\<lambda>d. text_member (up d) v)
   | ShTypedItemId \<Rightarrow> abind (alift (required_domain r)) (\<lambda>d. text_member (up d) v)
   | ShOwnedResponseId \<Rightarrow> text_member owned v
   | ShTerminalResponseId \<Rightarrow> if terminal_response then text_member owned v else aret None
   | ShConversation \<Rightarrow> abind (alift (required_domain r)) (\<lambda>d. case v of
       Some (JObject inner) \<Rightarrow> object_member (translate_named_field up ''id'' d) v
     | _ \<Rightarrow> text_member (up d) v)
   | ShResponseObject \<Rightarrow> object_member (translate_response_container n codec up owned InResponseObject False) v
   | ShItemObject \<Rightarrow> object_member (translate_response_container n codec up owned InItem False) v
   | ShItemArray \<Rightarrow> array_member (translate_response_container n codec up owned InItem False) v
   | ShIdentityMetadataObject \<Rightarrow> object_member (translate_identity_metadata n codec up) v
   | ShItemPassthroughMetadataObject \<Rightarrow> object_member (\<lambda>metadata.
       abind (translate_identity_metadata n codec up metadata)
         (translate_response_container n codec up owned InItemPassthroughMetadata False)) v
   | ShCallerObject \<Rightarrow> object_member (translate_response_container n codec up owned InCaller False) v
   | ShSafetyCheckArray \<Rightarrow> array_member (translate_response_container n codec up owned InSafetyCheck False) v
   | _ \<Rightarrow> afail (unsupported ''response carrier shape'' r))"

lemma member_op_trivial:
  "member_op (\<lambda>v. aret None) name obj = aret obj"
  "member_op (\<lambda>v. afail e) name obj = afail e"
  by (simp_all add: member_op_def abind_def fun_eq_iff)

lemma conversation_member_op:
  "translate_conversation up r obj = member_op (\<lambda>v. abind (alift (required_domain r)) (\<lambda>d. case v of
       Some (JObject inner) \<Rightarrow> object_member (translate_named_field up ''id'' d) v
     | _ \<Rightarrow> text_member (up d) v)) (cr_name r) obj"
proof -
  have "(case map_of obj (cr_name r) of
       Some (JString raw) \<Rightarrow> if raw = [] then aret obj
         else abind (up d raw) (\<lambda>mapped. aret (obj_insert (cr_name r) (JString mapped) obj))
     | Some (JObject inner) \<Rightarrow>
         abind (translate_named_field up ''id'' d inner) (\<lambda>inner'. aret (obj_insert (cr_name r) (JObject inner') obj))
     | _ \<Rightarrow> aret obj) = member_op (\<lambda>v. case v of
       Some (JObject inner) \<Rightarrow> object_member (translate_named_field up ''id'' d) v
     | _ \<Rightarrow> text_member (up d) v) (cr_name r) obj" for d
    by (auto simp: member_op_def object_member_def text_member_def str_of_def abind_assoc simp del: action_simps
        split: option.split json.split)
  then show ?thesis by (simp add: translate_conversation_def domain_member_op [symmetric])
qed

lemma container_members:
  "translate_response_container n codec up owned c terminal =
     afold (\<lambda>r. member_op (response_member n codec up owned terminal r) (cr_name r)) (wire_rules DirResponse c)"
  unfolding translate_response_container.simps [of n codec up owned c terminal]
  by (rule afold_cong [OF refl])
    (auto simp: response_member_def [abs_def] translate_field_def translate_named_field_def translate_response_field_def
      conversation_member_op text_member_op in_member_op domain_member_op member_op_trivial
      split: carrier_shape.split)

lemma container_names_distinct: "distinct (map cr_name (wire_rules direction c))"
proof (cases direction)
  case DirRequest
  then show ?thesis
    by (cases c) (simp_all add: wire_rules_eq request_wire_RULES_def rule_makers)
next
  case DirResponse
  then show ?thesis
    by (cases c) (simp_all add: wire_rules_eq response_wire_RULES_def rule_makers TURN_METADATA_HEADER_def WINDOW_HEADER_def
        INSTALLATION_HEADER_def)
qed

section \<open>Nested metadata\<close>

text \<open>A parsed text contains only shorter texts, since every string in it stands between quotes.\<close>

definition texts_shrink :: "json_codec \<Rightarrow> bool" where
  "texts_shrink codec \<longleftrightarrow> (\<forall>s v. jc_from_str codec s = Inr v \<longrightarrow> nesting_of v < length s)"

lemma fold_max_ge: "(x :: nat) \<in> set xs \<union> {z} \<Longrightarrow> x \<le> fold max xs z"
  unfolding Max.set_eq_fold [symmetric] by (rule Max_ge) auto

lemma nesting_of_member: "map_of members k = Some v \<Longrightarrow> nesting_of v \<le> nesting_of (JObject members)"
  using fold_max_ge [of "nesting_of v" "map (\<lambda>(_, v). nesting_of v) members" 0] by (force dest: map_of_SomeD)

lemma nesting_of_element: "v \<in> set vs \<Longrightarrow> nesting_of v \<le> nesting_of (JArray vs)"
  using fold_max_ge [of "nesting_of v" "map nesting_of vs" 0] by simp

definition nested_metadata :: "nat \<Rightarrow> json_codec \<Rightarrow> 's id_operation \<Rightarrow> json_object \<Rightarrow> ('s, ledger_error, json_object) action" where
  "nested_metadata n codec up = (case n of 0 \<Rightarrow> (\<lambda>_. afail (Msg ''turn metadata nests too deeply''))
     | Suc k \<Rightarrow> translate_identity_metadata k codec up)"

definition identity_member ::
    "json_codec \<Rightarrow> 's id_operation \<Rightarrow> (json_object \<Rightarrow> ('s, ledger_error, json_object) action) \<Rightarrow> carrier_rule
     \<Rightarrow> json option \<Rightarrow> ('s, ledger_error, json option) action" where
  "identity_member codec up nested r v = (case cr_shape r of
     ShScalar \<Rightarrow> abind (alift (required_domain r)) (\<lambda>d. text_member (up d) v)
   | ShWindow \<Rightarrow> (case Option.bind (str_of v) window_parts of
       None \<Rightarrow> aret None
     | Some (thread, suffix) \<Rightarrow> abind (up Thread thread) (\<lambda>thread'. aret (Some (JString (thread' @ '':'' @ suffix)))))
   | ShSerializedTurnMetadata \<Rightarrow> (case str_of v of
       None \<Rightarrow> aret None
     | Some raw \<Rightarrow>
         abind (alift (jc_from_str codec raw)) (\<lambda>value_of.
         abind (alift (ok_or (as_object value_of) (Msg ''turn metadata is not an object''))) (\<lambda>inner.
         abind (nested inner) (\<lambda>inner'. aret (Some (JString (jc_to_string codec inner')))))))
   | _ \<Rightarrow> afail (unsupported ''identity metadata shape'' r))"

lemma identity_members:
  "translate_identity_metadata n codec up =
     afold (\<lambda>r. member_op (identity_member codec up (nested_metadata n codec up) r) (cr_name r))
       (wire_rules DirResponse InIdentityMetadata)"
proof -
  have "identity_rule codec up nested r obj = member_op (identity_member codec up nested r) (cr_name r) obj" for nested r obj
  proof -
    have window: "translate_window up r obj = member_op (\<lambda>v. case Option.bind (str_of v) window_parts of
         None \<Rightarrow> aret None
       | Some (thread, suffix) \<Rightarrow> abind (up Thread thread) (\<lambda>thread'. aret (Some (JString (thread' @ '':'' @ suffix)))))
       (cr_name r) obj"
      by (auto simp: translate_window_def member_op_def abind_assoc simp del: action_simps split: option.split)
    show ?thesis
      by (auto simp: identity_rule_def identity_member_def [abs_def] translate_field_def translate_named_field_def window
          text_member_op domain_member_op member_op_trivial split: carrier_shape.split)
        (auto simp: translate_serialized_turn_metadata_def member_op_def abind_assoc simp del: action_simps
          split: option.split)
  qed
  then show ?thesis by (cases n) (auto simp: nested_metadata_def intro!: afold_cong)
qed

lemma serialized_name:
  assumes "r \<in> set (wire_rules DirResponse InIdentityMetadata)" and "cr_shape r = ShSerializedTurnMetadata"
  shows "cr_name r = TURN_METADATA_HEADER"
  using assms by (auto simp: wire_rules_eq response_wire_RULES_def rule_makers)

lemma identity_nesting:
  assumes "texts_shrink codec"
    and "\<And>raw. str_of (map_of obj TURN_METADATA_HEADER) = Some raw \<Longrightarrow> length raw \<le> n \<and> length raw \<le> m"
  shows "translate_identity_metadata n codec up obj = translate_identity_metadata m codec up obj"
  using assms(2)
proof (induction n arbitrary: m obj rule: less_induct)
  case (less n)
  show ?case unfolding identity_members [of n] identity_members [of m]
  proof (rule members_cong [OF container_names_distinct])
    fix r assume r: "r \<in> set (wire_rules DirResponse InIdentityMetadata)"
    let ?v = "map_of obj (cr_name r)"
    show "identity_member codec up (nested_metadata n codec up) r ?v = identity_member codec up (nested_metadata m codec up) r ?v"
    proof (cases "cr_shape r = ShSerializedTurnMetadata")
      case True
      have "nested_metadata n codec up inner = nested_metadata m codec up inner"
        if raw: "str_of ?v = Some raw" and p: "jc_from_str codec raw = Inr w" and inner: "as_object w = Some inner" for raw w inner
      proof -
        have len: "length raw \<le> n" "length raw \<le> m" using less.prems raw serialized_name [OF r True] by auto
        have w: "nesting_of w < length raw" using assms(1) p by (simp add: texts_shrink_def)
        then obtain n' m' where nm: "n = Suc n'" "m = Suc m'" using len by (cases n; cases m) auto
        have short: "length s \<le> n' \<and> length s \<le> m'" if "str_of (map_of inner TURN_METADATA_HEADER) = Some s" for s
        proof -
          from that obtain v where v: "map_of inner TURN_METADATA_HEADER = Some v" "v = JString s"
            by (auto simp: str_of_def split: bind_splits elim: as_str.elims)
          then have "length s \<le> nesting_of (JObject inner)" using nesting_of_member [OF v(1)] by simp
          moreover have "w = JObject inner" using inner by (cases w) auto
          ultimately show ?thesis using w len nm by simp
        qed
        show ?thesis using less.IH [of n' inner m'] short nm by (simp add: nested_metadata_def)
      qed
      then show ?thesis using True
        by (auto simp: identity_member_def abind_def fun_eq_iff ok_or_def split: option.split sum.split)
    qed (auto simp: identity_member_def split: carrier_shape.split)
  qed
qed

lemma for_objects_cong:
  "(\<And>obj. JObject obj \<in> set vs \<Longrightarrow> f obj = g obj) \<Longrightarrow> for_objects f vs = for_objects g vs"
  by (induction vs) (auto split: json.split)

lemma object_member_cong: "(\<And>inner. v = Some (JObject inner) \<Longrightarrow> f inner = g inner) \<Longrightarrow> object_member f v = object_member g v"
  by (auto simp: object_member_def split: option.split json.split)

lemma array_member_cong:
  "(\<And>vs obj. v = Some (JArray vs) \<Longrightarrow> JObject obj \<in> set vs \<Longrightarrow> f obj = g obj) \<Longrightarrow> array_member f v = array_member g v"
  using for_objects_cong [of _ f g] by (auto simp: array_member_def split: option.split json.split)

lemma metadata_nesting:
  assumes "texts_shrink codec" and "nesting_of (JObject obj) \<le> n" and "nesting_of (JObject obj) \<le> m"
  shows "translate_identity_metadata n codec up obj = translate_identity_metadata m codec up obj"
proof (rule identity_nesting [OF assms(1)])
  fix raw assume "str_of (map_of obj TURN_METADATA_HEADER) = Some raw"
  then have "map_of obj TURN_METADATA_HEADER = Some (JString raw)"
    by (auto simp: str_of_def split: bind_splits elim: as_str.elims)
  from nesting_of_member [OF this] show "length raw \<le> n \<and> length raw \<le> m" using assms(2,3) by simp
qed

text \<open>
  The passthrough metadata is walked twice, the second time over members that no rule of the first
  walk names and that hold no nested metadata.
\<close>

lemma passthrough_ignores_nesting:
  "translate_response_container n codec up owned InItemPassthroughMetadata False
     = translate_response_container m codec up owned InItemPassthroughMetadata False"
  unfolding container_members [of n] container_members [of m]
  by (rule afold_cong [OF refl]) (auto simp: wire_rules_eq response_wire_RULES_def rule_makers response_member_def [abs_def])

lemma container_nesting:
  assumes "texts_shrink codec" and "nesting_of (JObject obj) \<le> n" and "nesting_of (JObject obj) \<le> m"
  shows "translate_response_container n codec up owned c terminal obj
    = translate_response_container m codec up owned c terminal obj"
  using assms(2,3)
proof (induction "container_rank c" arbitrary: c terminal obj rule: less_induct)
  case less
  show ?case unfolding container_members [of n] container_members [of m]
  proof (rule members_cong [OF container_names_distinct])
    fix r assume r: "r \<in> set (wire_rules DirResponse c)"
    let ?v = "map_of obj (cr_name r)"
    have small: "nesting_of (JObject inner) \<le> n \<and> nesting_of (JObject inner) \<le> m"
      if "?v = Some (JObject inner) \<or> (?v = Some (JArray vs) \<and> JObject inner \<in> set vs)" for inner vs
      using that less.prems nesting_of_member [of obj "cr_name r"] nesting_of_element [of "JObject inner" vs]
      by (meson le_trans)
    have child: "translate_response_container n codec up owned k False inner = translate_response_container m codec up owned k False inner"
      if "child_container (cr_shape r) = Some k" "?v = Some (JObject inner) \<or> (?v = Some (JArray vs) \<and> JObject inner \<in> set vs)"
      for k inner vs
      using less.hyps [OF edges_go_down [OF r that(1)]] small [OF that(2)] by blast
    have "object_member (translate_response_container n codec up owned k False) ?v
        = object_member (translate_response_container m codec up owned k False) ?v"
      "array_member (translate_response_container n codec up owned k False) ?v
        = array_member (translate_response_container m codec up owned k False) ?v"
      if "child_container (cr_shape r) = Some k" for k
      using child [OF that] by (auto intro!: object_member_cong array_member_cong)
    moreover have meta: "translate_identity_metadata n codec up inner = translate_identity_metadata m codec up inner"
      if "?v = Some (JObject inner)" for inner
      using metadata_nesting [OF assms(1)] small that by blast
    then have "object_member (translate_identity_metadata n codec up) ?v = object_member (translate_identity_metadata m codec up) ?v"
      "object_member (\<lambda>metadata. abind (translate_identity_metadata n codec up metadata) k) ?v
        = object_member (\<lambda>metadata. abind (translate_identity_metadata m codec up metadata) k) ?v" for k
      by (auto intro!: object_member_cong)
    ultimately show "response_member n codec up owned terminal r ?v = response_member m codec up owned terminal r ?v"
      by (cases "cr_shape r") (simp_all add: response_member_def passthrough_ignores_nesting [of n _ _ _ m])
  qed
qed

text \<open>The bound \<open>nesting_of\<close> is enough: any larger one gives the same run.\<close>

lemma response_nesting:
  assumes "texts_shrink codec" and "nesting_of event \<le> n"
  shows "response_walk n codec up owned event = response_walk (nesting_of event) codec up owned event"
proof (cases event)
  case (JObject obj)
  with assms have "translate_response_container n codec up owned InTopLevel terminal obj
      = translate_response_container (nesting_of event) codec up owned InTopLevel terminal obj" for terminal
    by (intro container_nesting) simp_all
  then show ?thesis using JObject by (simp add: response_walk_def)
qed (simp_all add: response_walk_def)

end
