(* ===== verification/Wire_Echo.thy ===== *)
theory Wire_Echo
  imports Wire_Members Ledger_Protocols
begin

text \<open>
  What the translations of events and requests promise together: an event is shown through a bijective
  alias table, and an item the client sends back carries the identifiers the provider gave it.
\<close>

section \<open>One rule of a request\<close>

definition request_member ::
    "'s ref_operation \<Rightarrow> (json \<Rightarrow> ('s, ledger_error, string option) action) \<Rightarrow> string set \<Rightarrow> string option \<Rightarrow> carrier_rule
     \<Rightarrow> json option \<Rightarrow> ('s, ledger_error, json option) action" where
  "request_member down origin generated item_type r v = (case cr_shape r of
     ShScalar \<Rightarrow> athen (alift (required_domain r)) (text_member (translate_reference down r item_type) v)
   | ShConversation \<Rightarrow> abind (alift (required_domain r)) (\<lambda>d. case v of
       Some (JObject inner) \<Rightarrow>
         object_member (translate_named_field (\<lambda>d. down d (request_wire_mapping r item_type)) ''id'' d) v
     | _ \<Rightarrow> text_member (down d (request_wire_mapping r item_type)) v)
   | ShTypedItemId \<Rightarrow> if \<exists>raw \<in> generated. str_of v = Some raw then aret None
       else text_member (translate_reference down r item_type) v
   | ShItemObject \<Rightarrow> object_member (translate_request_object down origin generated InItem) v
   | ShItemArray \<Rightarrow> array_member (translate_request_object down origin generated InItem) v
   | ShCallerObject \<Rightarrow> object_member (translate_request_object down origin generated InCaller) v
   | ShItemPassthroughMetadataObject \<Rightarrow>
       object_member (translate_request_object down origin generated InItemPassthroughMetadata) v
   | ShSafetyCheckArray \<Rightarrow> array_member (translate_request_object down origin generated InSafetyCheck) v
   | _ \<Rightarrow> afail (unsupported ''request carrier shape'' r))"

lemma typed_member_op:
  "translate_typed_item_id down generated r item_type obj = member_op (\<lambda>v. if \<exists>raw \<in> generated. str_of v = Some raw then aret None
     else text_member (translate_reference down r item_type) v) (cr_name r) obj"
  by (auto simp: translate_typed_item_id_def member_op_def text_member_def abind_assoc simp del: action_simps split: option.split)

lemma athen_member_op: "athen (alift x) (member_op F name obj) = member_op (\<lambda>v. athen (alift x) (F v)) name obj"
  by (simp add: athen_def domain_member_op)

lemma request_members:
  assumes "c \<noteq> InItemPassthroughMetadata"
  shows "translate_request_object down origin generated c obj =
     afold (\<lambda>r. member_op (request_member down origin generated (if c = InItem then str_of (map_of obj ''type'') else None) r)
       (cr_name r)) (wire_rules DirRequest c) obj"
proof -
  have "(case cr_shape r of
         ShScalar \<Rightarrow> if c = InItemPassthroughMetadata then translate_optional_origin origin obj
           else translate_request_field down r item_type obj
       | ShConversation \<Rightarrow> translate_request_conversation down r item_type obj
       | ShTypedItemId \<Rightarrow> translate_typed_item_id down generated r item_type obj
       | ShItemObject \<Rightarrow> in_object (translate_request_object down origin generated InItem) (cr_name r) obj
       | ShItemArray \<Rightarrow> in_array (translate_request_object down origin generated InItem) (cr_name r) obj
       | ShCallerObject \<Rightarrow> in_object (translate_request_object down origin generated InCaller) (cr_name r) obj
       | ShItemPassthroughMetadataObject \<Rightarrow>
           in_object (translate_request_object down origin generated InItemPassthroughMetadata) (cr_name r) obj
       | ShSafetyCheckArray \<Rightarrow> in_array (translate_request_object down origin generated InSafetyCheck) (cr_name r) obj
       | _ \<Rightarrow> afail (unsupported ''request carrier shape'' r))
     = member_op (request_member down origin generated item_type r) (cr_name r) obj" for r item_type obj
    using assms
    by (auto simp: request_member_def [abs_def] translate_request_field_def translate_request_conversation_def
        conversation_member_op text_member_op in_member_op typed_member_op athen_member_op member_op_trivial
        split: carrier_shape.split)
  then show ?thesis
    unfolding translate_request_object.simps [of down origin generated c] Let_def by simp
qed

section \<open>Every rule is simulated\<close>

context id_mapping
begin

lemma sim_kinds:
  "(\<And>raw. simulated W (f raw) (g raw)) \<Longrightarrow> simulated W (text_member f v) (text_member g v)"
  "(\<And>obj. simulated W (h obj) (k obj)) \<Longrightarrow> simulated W (object_member h v) (object_member k v)"
  "(\<And>obj. simulated W (h obj) (k obj)) \<Longrightarrow> simulated W (array_member h v) (array_member k v)"
  by (auto simp: text_member_def object_member_def array_member_def intro!: sim_bind sim_objects
      split: option.split json.split)

lemma sim_response_member:
  assumes up: "\<And>d raw. simulated W (up d raw) (up' d raw)" and owned: "\<And>raw. simulated W (owned raw) (owned' raw)"
  shows "simulated W (response_member n codec up owned terminal r v) (response_member n codec up' owned' terminal r v)"
  by (cases "cr_shape r")
    (auto simp: response_member_def intro!: sim_bind sim_kinds up owned sim_fields(1) sim_identity
      sim_response_container [of W up up' owned owned'] split: option.split json.split)

lemma sim_request_member:
  assumes down: "\<And>d mapping raw. simulated W (down d mapping raw) (down' d mapping raw)"
    and origin: "\<And>raw. simulated W (origin raw) (origin' raw)"
  shows "simulated W (request_member down origin generated kind r v) (request_member down' origin' generated kind r v)"
  by (cases "cr_shape r")
    (auto simp: request_member_def translate_reference_def intro!: sim_bind sim_then sim_kinds down sim_fields(1)
      sim_request_object [of W down down' origin origin'] origin split: option.split json.split)

end

lemma response_member_steps:
  assumes "wire_inv ext s"
    and "response_member n codec (wire_from_upstream ext) (\<lambda>raw. wire_from_upstream_response ext raw owner) terminal r v s = (Inr w, t)"
  shows "wire_inv ext t \<and> edit_steps ext s t"
  using up_walk.sim_later [OF up_walk.sim_response_member [OF up_walk.sim_act owned_simulated] assms] assms(1)
  by (blast intro: wire_inv_steps)

lemma request_member_steps:
  assumes "wire_inv ext s"
    and "request_member (translate_id ext) (origin_mapping ext) generated kind r v s = (Inr w, t)"
  shows "wire_inv ext t \<and> edit_steps ext s t"
  using down_walk.sim_later [OF down_walk.sim_request_member [OF reference_simulated origin_simulated] assms] assms(1)
  by (blast intro: wire_inv_steps)

section \<open>Reading a run\<close>

abbreviation show_container :: "externals \<Rightarrow> nat \<Rightarrow> json_codec \<Rightarrow> wire_id_owner option \<Rightarrow> carrier_container \<Rightarrow> bool \<Rightarrow> json_object \<Rightarrow> json_object edit" where
  "show_container ext n codec owner \<equiv>
     translate_response_container n codec (wire_from_upstream ext) (\<lambda>raw. wire_from_upstream_response ext raw owner)"

abbreviation send_container :: "externals \<Rightarrow> string set \<Rightarrow> carrier_container \<Rightarrow> json_object \<Rightarrow> json_object edit" where
  "send_container ext \<equiv> translate_request_object (translate_id ext) (origin_mapping ext)"

lemma shown_member:
  assumes "wire_inv ext s" and "show_container ext n codec owner c terminal obj s = (Inr obj', t)"
    and "r \<in> set (wire_rules DirResponse c)"
  obtains s1 s2 w where "wire_inv ext s1" and "edit_steps ext s s1"
    and "response_member n codec (wire_from_upstream ext) (\<lambda>raw. wire_from_upstream_response ext raw owner) terminal r
      (map_of obj (cr_name r)) s1 = (Inr w, s2)"
    and "edit_steps ext s2 t"
    and "map_of obj' (cr_name r) = (case w of None \<Rightarrow> map_of obj (cr_name r) | Some v \<Rightarrow> Some v)"
proof -
  have "\<forall>r v s w t. wire_inv ext s \<longrightarrow> response_member n codec (wire_from_upstream ext)
      (\<lambda>raw. wire_from_upstream_response ext raw owner) terminal r v s = (Inr w, t) \<longrightarrow> wire_inv ext t \<and> edit_steps ext s t"
    using response_member_steps by blast
  note run = members_run [OF container_names_distinct assms(2) [unfolded container_members] assms(1) this
      reflp_on_rtranclp transp_rtranclp]
  show thesis using run assms(3) that by blast
qed

lemma sent_member:
  assumes "wire_inv ext s" and "send_container ext generated c obj s = (Inr obj', t)"
    and "r \<in> set (wire_rules DirRequest c)" and "c \<noteq> InItemPassthroughMetadata"
  obtains s1 s2 w kind where "wire_inv ext s1" and "edit_steps ext s s1"
    and "request_member (translate_id ext) (origin_mapping ext) generated kind r (map_of obj (cr_name r)) s1 = (Inr w, s2)"
    and "edit_steps ext s2 t"
    and "map_of obj' (cr_name r) = (case w of None \<Rightarrow> map_of obj (cr_name r) | Some v \<Rightarrow> Some v)"
proof -
  have "\<forall>r v s w t. wire_inv ext s \<longrightarrow> request_member (translate_id ext) (origin_mapping ext) generated kind r v s = (Inr w, t)
      \<longrightarrow> wire_inv ext t \<and> edit_steps ext s t" for kind
    using request_member_steps by blast
  note run = members_run [OF container_names_distinct assms(2) [unfolded request_members [OF assms(4)]] assms(1) this
      reflp_on_rtranclp transp_rtranclp]
  show thesis using run assms(3) that by blast
qed

text \<open>The rules that both tables have for an item.\<close>

definition echo_fields :: "(string \<times> wire_id_domain) list" where
  "echo_fields = [(''id'', Item), (''item_id'', Item), (''output_item_id'', Item), (''call_id'', Call),
     (''approval_request_id'', Approval), (''response_id'', Response)]"

lemma echo_rules:
  assumes "(name, d) \<in> set echo_fields"
  obtains r r' where "r \<in> set (wire_rules DirResponse InItem)" "cr_name r = name" "cr_domain r = Some d"
      "cr_shape r = (if d = Response then ShOwnedResponseId else if name = ''id'' then ShTypedItemId else ShScalar)"
    and "r' \<in> set (wire_rules DirRequest InItem)" "cr_name r' = name" "cr_domain r' = Some d"
      "cr_shape r' = (if name = ''id'' then ShTypedItemId else ShScalar)"
proof -
  have "\<exists>r \<in> set (wire_rules DirResponse InItem). cr_name r = name \<and> cr_domain r = Some d
      \<and> cr_shape r = (if d = Response then ShOwnedResponseId else if name = ''id'' then ShTypedItemId else ShScalar)"
    using assms by (auto simp: echo_fields_def wire_rules_eq response_wire_RULES_def rule_makers)
  moreover have "\<exists>r' \<in> set (wire_rules DirRequest InItem). cr_name r' = name \<and> cr_domain r' = Some d
      \<and> cr_shape r' = (if name = ''id'' then ShTypedItemId else ShScalar)"
    using assms by (auto simp: echo_fields_def wire_rules_eq request_wire_RULES_def rule_makers)
  ultimately show thesis using that by blast
qed

lemma text_member_Inr:
  assumes "text_member f v s = (Inr w, t)"
  shows "(\<exists>raw mapped. v = Some (JString raw) \<and> raw \<noteq> [] \<and> f raw s = (Inr mapped, t) \<and> w = Some (JString mapped))
    \<or> ((\<forall>raw. v = Some (JString raw) \<longrightarrow> raw = []) \<and> w = None \<and> t = s)"
proof (cases "str_of v")
  case None
  then have "\<forall>raw. v \<noteq> Some (JString raw)" by (auto simp: str_of_def)
  with None assms show ?thesis by (auto simp: text_member_def)
next
  case (Some raw)
  then have "v = Some (JString raw)" by (auto simp: str_of_def split: bind_splits elim: as_str.elims)
  with Some assms show ?thesis by (auto simp: text_member_def abind_Inr_iff split: if_splits)
qed

lemma owned_pair:
  assumes "wire_inv ext s" and "wire_from_upstream_response ext raw owner s = (Inr y, t)"
  shows "holds_pair ext Response y raw t"
proof -
  obtain ds where "\<And>u ds'. edit_steps ext t u \<Longrightarrow> read_entry Response raw (shown ext u, ds @ ds') = (Inr y, (shown ext u, ds'))"
    and later: "edit_steps ext s t"
    using up_walk.simulatedD [OF owned_simulated [of ext UNIV] assms] by metis
  then have "shown ext t Response raw = Some y" by (auto simp: read_entry_def)
  then show ?thesis using shown_iff_behind behind_iff wire_inv_steps [OF later assms(1)] by blast
qed

lemma shown_field:
  assumes inv: "wire_inv ext s" and run: "show_container ext n codec owner InItem False it s = (Inr it', t)"
    and field: "(name, d) \<in> set echo_fields"
  shows "(\<exists>raw down. map_of it name = Some (JString raw) \<and> map_of it' name = Some (JString down) \<and> holds_pair ext d down raw t)
    \<or> ((\<forall>raw. map_of it name = Some (JString raw) \<longrightarrow> raw = []) \<and> map_of it' name = map_of it name)"
proof -
  obtain r where r: "r \<in> set (wire_rules DirResponse InItem)" "cr_name r = name" "cr_domain r = Some d"
    "cr_shape r = (if d = Response then ShOwnedResponseId else if name = ''id'' then ShTypedItemId else ShScalar)"
    using echo_rules [OF field] by metis
  obtain s1 s2 w where s1: "wire_inv ext s1" "edit_steps ext s2 t"
    and m: "response_member n codec (wire_from_upstream ext) (\<lambda>raw. wire_from_upstream_response ext raw owner) False r
      (map_of it name) s1 = (Inr w, s2)"
    and out: "map_of it' name = (case w of None \<Rightarrow> map_of it name | Some v \<Rightarrow> Some v)"
    using shown_member [OF inv run r(1)] r(2) by metis
  define f where "f = (if d = Response then (\<lambda>raw. wire_from_upstream_response ext raw owner) else wire_from_upstream ext d)"
  have "text_member f (map_of it name) s1 = (Inr w, s2)"
    using m r by (auto simp: response_member_def f_def required_domain_def abind_Inr_iff split: if_splits)
  note cases = text_member_Inr [OF this]
  have "holds_pair ext d down raw t" if "f raw s1 = (Inr down, s2)" for raw down
  proof -
    have "holds_pair ext d down raw s2"
      using that s1(1) owned_pair wire_from_upstream_pair by (auto simp: f_def split: if_splits)
    moreover have "wire_inv ext s2" using response_member_steps [OF s1(1) m] by simp
    ultimately show ?thesis using holds_pair_steps s1(2) by blast
  qed
  with cases out show ?thesis by fastforce
qed

lemma sent_field:
  assumes inv: "wire_inv ext s" and run: "send_container ext generated InItem it s = (Inr it', t)"
    and field: "(name, d) \<in> set echo_fields"
  shows "(\<exists>down up. map_of it name = Some (JString down) \<and> map_of it' name = Some (JString up) \<and> holds_pair ext d down up t)
    \<or> ((\<forall>down. map_of it name = Some (JString down) \<longrightarrow> down = [] \<or> name = ''id'' \<and> down \<in> generated)
      \<and> map_of it' name = map_of it name)"
proof -
  obtain r where r: "r \<in> set (wire_rules DirRequest InItem)" "cr_name r = name" "cr_domain r = Some d"
    "cr_shape r = (if name = ''id'' then ShTypedItemId else ShScalar)"
    using echo_rules [OF field] by metis
  obtain s1 s2 w kind where s1: "wire_inv ext s1" "edit_steps ext s2 t"
    and m: "request_member (translate_id ext) (origin_mapping ext) generated kind r (map_of it name) s1 = (Inr w, s2)"
    and out: "map_of it' name = (case w of None \<Rightarrow> map_of it name | Some v \<Rightarrow> Some v)"
    using sent_member [OF inv run r(1)] r(2) by (metis carrier_container.distinct)
  have keep: "wire_inv ext s2" using request_member_steps [OF s1(1) m] by simp
  show ?thesis
  proof (cases "name = ''id'' \<and> (\<exists>raw \<in> generated. str_of (map_of it name) = Some raw)")
    case True
    then have "w = None" using m r by (auto simp: request_member_def)
    with True out show ?thesis by (auto simp: str_of_def)
  next
    case False
    then have "text_member (translate_reference (translate_id ext) r kind) (map_of it name) s1 = (Inr w, s2)"
      using m r by (auto simp: request_member_def required_domain_def athen_Inr_iff split: if_splits)
    note cases = text_member_Inr [OF this]
    have "holds_pair ext d down up t" if "translate_reference (translate_id ext) r kind down s1 = (Inr up, s2)" for down up
    proof -
      have "translate_id ext d (request_wire_mapping r kind) down s1 = (Inr up, s2)"
        using that r(3) by (auto simp: translate_reference_def required_domain_def abind_Inr_iff)
      then have "holds_pair ext d down up s2"
        using s1(1) by (auto simp: translate_id_def split: request_wire_mapping.splits
            intro: wire_from_downstream_pair required_wire_pair)
      then show ?thesis using holds_pair_steps [OF s1(2) keep] by blast
    qed
    with cases out show ?thesis by fastforce
  qed
qed

end
