(* ===== verification/Wire_Correct.thy ===== *)
theory Wire_Correct
  imports Wire_Echo
begin

text \<open>
  The properties of the identifier translation: events are shown through a bijective alias table, items
  sent back regain the provider's identifiers, and the bound on nested metadata is enough.
\<close>

section \<open>Items in arrays\<close>


section \<open>Following an item\<close>




section \<open>Errors\<close>

text \<open>What a walk can fail with: the operations on identifiers, and texts that are no JSON object.\<close>

definition errors_of :: "('s, 'e, 'a) action \<Rightarrow> 'e set" where
  "errors_of m = {e. \<exists>s t. m s = (Inl e, t)}"

definition walk_errors :: "json_codec \<Rightarrow> 's id_operation \<Rightarrow> (string \<Rightarrow> ('s, ledger_error, string) action) \<Rightarrow> ledger_error set" where
  "walk_errors codec up owned = (\<Union>d x. errors_of (up d x)) \<union> (\<Union>x. errors_of (owned x))
     \<union> {e. \<exists>raw. jc_from_str codec raw = Inl e} \<union> {Msg ''turn metadata is not an object''}"

definition fails_in :: "'e set \<Rightarrow> ('s, 'e, 'a) action \<Rightarrow> bool" where
  "fails_in E m \<longleftrightarrow> errors_of m \<subseteq> E"

lemma fails_pure [simp]: "fails_in E (aret a)" "fails_in E (afail e) \<longleftrightarrow> e \<in> E"
    "fails_in E (alift r) \<longleftrightarrow> (\<forall>e. r = Inl e \<longrightarrow> e \<in> E)"
  by (auto simp: fails_in_def errors_of_def)

lemma errors_bind:
  assumes "fails_in E m" and "\<And>a. fails_in E (f a)"
  shows "fails_in E (abind m f)"
proof -
  have "e \<in> E" if "abind m f s = (Inl e, t)" for s e t
  proof (cases "m s")
    case (Pair r s')
    show ?thesis
    proof (cases r)
      case (Inl e')
      with Pair that have "m s = (Inl e, t)" by (simp add: abind_def)
      with assms(1) show ?thesis by (auto simp: fails_in_def errors_of_def)
    next
      case (Inr a)
      with Pair that have "f a s' = (Inl e, t)" by (simp add: abind_def)
      with assms(2) [of a] show ?thesis by (auto simp: fails_in_def errors_of_def)
    qed
  qed
  then show ?thesis by (auto simp: fails_in_def errors_of_def)
qed

lemma errors_objects: "(\<And>obj. JObject obj \<in> set vs \<Longrightarrow> fails_in E (f obj)) \<Longrightarrow> fails_in E (for_objects f vs)"
  by (induction vs) (auto intro!: errors_bind split: json.split)

lemma errors_kinds:
  "(\<And>raw. fails_in E (f raw)) \<Longrightarrow> fails_in E (text_member f v)"
  "(\<And>inner. v = Some (JObject inner) \<Longrightarrow> fails_in E (h inner)) \<Longrightarrow> fails_in E (object_member h v)"
  "(\<And>vs obj. v = Some (JArray vs) \<Longrightarrow> JObject obj \<in> set vs \<Longrightarrow> fails_in E (h obj)) \<Longrightarrow> fails_in E (array_member h v)"
  by (auto simp: text_member_def object_member_def array_member_def intro!: errors_bind errors_objects
      split: option.split json.split)

lemma errors_members:
  assumes "distinct (map name rs)" and "\<And>r. r \<in> set rs \<Longrightarrow> fails_in E (F r (map_of obj (name r)))"
  shows "fails_in E (afold (\<lambda>r. member_op (F r) (name r)) rs obj)"
  unfolding fails_in_def
proof
  fix e assume "e \<in> errors_of (afold (\<lambda>r. member_op (F r) (name r)) rs obj)"
  then obtain s t where "afold (\<lambda>r. member_op (F r) (name r)) rs obj s = (Inl e, t)" by (auto simp: errors_of_def)
  from members_err [OF assms(1) this] assms(2) show "e \<in> E" by (fastforce simp: fails_in_def errors_of_def)
qed

text \<open>The tables are well typed: every rule has a shape its walk knows, and a domain where it needs one.\<close>

fun needs_domain :: "carrier_shape \<Rightarrow> bool" where
  "needs_domain ShScalar = True"
| "needs_domain ShTypedItemId = True"
| "needs_domain ShConversation = True"
| "needs_domain _ = False"

lemma response_rules_typed:
  assumes "r \<in> set (wire_rules DirResponse c)"
  shows "needs_domain (cr_shape r) \<Longrightarrow> \<exists>d. cr_domain r = Some d"
    and "c = InIdentityMetadata \<Longrightarrow> cr_shape r \<in> {ShScalar, ShWindow, ShSerializedTurnMetadata}"
    and "c \<noteq> InIdentityMetadata \<Longrightarrow> cr_shape r \<notin> {ShWindow, ShSerializedTurnMetadata, ShOpaque}"
proof -
  let ?ok = "\<lambda>r. (needs_domain (cr_shape r) \<longrightarrow> cr_domain r \<noteq> None)
    \<and> (if cr_container r = InIdentityMetadata then cr_shape r \<in> {ShScalar, ShWindow, ShSerializedTurnMetadata}
       else cr_shape r \<notin> {ShWindow, ShSerializedTurnMetadata, ShOpaque})"
  have "list_all ?ok response_wire_RULES" by (simp add: response_wire_RULES_def rule_makers)
  then have "?ok r" and "cr_container r = c" using assms by (auto simp: wire_rules_eq list_all_iff)
  then show "needs_domain (cr_shape r) \<Longrightarrow> \<exists>d. cr_domain r = Some d"
    and "c = InIdentityMetadata \<Longrightarrow> cr_shape r \<in> {ShScalar, ShWindow, ShSerializedTurnMetadata}"
    and "c \<noteq> InIdentityMetadata \<Longrightarrow> cr_shape r \<notin> {ShWindow, ShSerializedTurnMetadata, ShOpaque}"
    by (auto split: if_splits)
qed

lemma walk_errors_intros:
  "fails_in (walk_errors codec up owned) (up d x)" "fails_in (walk_errors codec up owned) (owned x)"
  "Msg ''turn metadata is not an object'' \<in> walk_errors codec up owned"
  "jc_from_str codec raw = Inl e \<Longrightarrow> e \<in> walk_errors codec up owned"
  by (auto simp: walk_errors_def fails_in_def)

lemma identity_errors:
  assumes "texts_shrink codec" and "nesting_of (JObject obj) \<le> n"
  shows "fails_in (walk_errors codec up owned) (translate_identity_metadata n codec up obj)"
  using assms(2)
proof (induction n arbitrary: obj rule: less_induct)
  case (less n)
  have up: "fails_in (walk_errors codec up owned) (up d x)" for d x by (rule walk_errors_intros)
  show ?case unfolding identity_members
  proof (rule errors_members [OF container_names_distinct])
    fix r assume r: "r \<in> set (wire_rules DirResponse InIdentityMetadata)"
    let ?v = "map_of obj (cr_name r)"
    have nested: "fails_in (walk_errors codec up owned) (nested_metadata n codec up inner)"
      if raw: "str_of ?v = Some raw" and p: "jc_from_str codec raw = Inr (JObject inner)" for raw inner
    proof -
      from raw have "?v = Some (JString raw)" by (auto simp: str_of_def split: bind_splits elim: as_str.elims)
      from nesting_of_member [OF this] less.prems have "length raw \<le> n" by simp
      moreover have "nesting_of (JObject inner) < length raw" using assms(1) p by (simp add: texts_shrink_def del: nesting_of.simps)
      ultimately obtain k where "n = Suc k" "nesting_of (JObject inner) \<le> k" by (cases n) (auto simp del: nesting_of.simps)
      then show ?thesis using less.IH [of k inner] by (simp add: nested_metadata_def)
    qed
    have "fails_in (walk_errors codec up owned) (case str_of ?v of None \<Rightarrow> aret None
       | Some raw \<Rightarrow> abind (alift (jc_from_str codec raw)) (\<lambda>value_of.
           abind (alift (ok_or (as_object value_of) (Msg ''turn metadata is not an object''))) (\<lambda>inner.
           abind (nested_metadata n codec up inner) (\<lambda>inner'. aret (Some (JString (jc_to_string codec inner')))))))"
    proof (cases "str_of ?v")
      case (Some raw)
      show ?thesis
      proof (cases "jc_from_str codec raw")
        case (Inr w)
        then show ?thesis using Some nested [OF Some] by (cases w) (auto simp: abind_alift walk_errors_intros simp del: action_simps intro!: errors_bind)
      qed (auto simp: Some abind_alift walk_errors_intros simp del: action_simps)
    qed simp
    moreover obtain d where "cr_shape r = ShScalar \<Longrightarrow> cr_domain r = Some d" using response_rules_typed(1) [OF r] by fastforce
    ultimately show "fails_in (walk_errors codec up owned) (identity_member codec up (nested_metadata n codec up) r ?v)"
      using response_rules_typed(2) [OF r] up
      by (auto simp: identity_member_def required_domain_def abind_alift intro!: errors_kinds errors_bind split: option.split)
  qed
qed

lemma passthrough_errors:
  "fails_in (walk_errors codec up owned) (translate_response_container n codec up owned InItemPassthroughMetadata False obj)"
  unfolding container_members
  by (rule errors_members [OF container_names_distinct])
    (auto simp: wire_rules_eq response_wire_RULES_def rule_makers response_member_def required_domain_def abind_alift
      intro!: errors_kinds walk_errors_intros)

lemma container_errors:
  assumes "texts_shrink codec" and "nesting_of (JObject obj) \<le> n" and "c \<noteq> InIdentityMetadata"
  shows "fails_in (walk_errors codec up owned) (translate_response_container n codec up owned c terminal obj)"
  using assms(2,3)
proof (induction "container_rank c" arbitrary: c terminal obj rule: less_induct)
  case less
  have id: "fails_in (walk_errors codec up owned) (up d x)" "fails_in (walk_errors codec up owned) (owned x)" for d x by (rule walk_errors_intros)+
  show ?case unfolding container_members
  proof (rule errors_members [OF container_names_distinct])
    fix r assume r: "r \<in> set (wire_rules DirResponse c)"
    let ?v = "map_of obj (cr_name r)"
    have small: "nesting_of (JObject inner) \<le> n"
      if "?v = Some (JObject inner) \<or> (?v = Some (JArray vs) \<and> JObject inner \<in> set vs)" for inner vs
      using that less.prems(1) nesting_of_member [of obj "cr_name r"] nesting_of_element [of "JObject inner" vs]
      by (meson le_trans)
    have child: "fails_in (walk_errors codec up owned) (translate_response_container n codec up owned k False inner)"
      if "child_container (cr_shape r) = Some k" "?v = Some (JObject inner) \<or> (?v = Some (JArray vs) \<and> JObject inner \<in> set vs)"
      for k inner vs
    proof -
      have "k \<noteq> InIdentityMetadata" using that(1) by (cases "cr_shape r") auto
      then show ?thesis using less.hyps [OF edges_go_down [OF r that(1)]] small [OF that(2)] by blast
    qed
    have "fails_in (walk_errors codec up owned) (object_member (translate_response_container n codec up owned k False) ?v)"
      "fails_in (walk_errors codec up owned) (array_member (translate_response_container n codec up owned k False) ?v)"
      if "child_container (cr_shape r) = Some k" for k
      using child [OF that] by (blast intro: errors_kinds)+
    moreover have meta: "fails_in (walk_errors codec up owned) (translate_identity_metadata n codec up inner)"
      if "?v = Some (JObject inner)" for inner
      using identity_errors [OF assms(1)] small that by blast
    then have "fails_in (walk_errors codec up owned) (object_member (translate_identity_metadata n codec up) ?v)"
      "fails_in (walk_errors codec up owned) (object_member (\<lambda>metadata. abind (translate_identity_metadata n codec up metadata)
          (translate_response_container n codec up owned InItemPassthroughMetadata False)) ?v)"
      by (auto intro!: errors_kinds errors_bind passthrough_errors)
    moreover have "fails_in (walk_errors codec up owned) (text_member (up d) ?v)"
      "fails_in (walk_errors codec up owned) (text_member owned ?v)"
      "fails_in (walk_errors codec up owned) (object_member (translate_named_field up ''id'' d) ?v)" for d
      using id by (auto simp: translate_named_field_def translate_text_def intro!: errors_kinds errors_bind split: option.split)
    moreover obtain d where "needs_domain (cr_shape r) \<Longrightarrow> cr_domain r = Some d" using response_rules_typed(1) [OF r] by fastforce
    ultimately show "fails_in (walk_errors codec up owned) (response_member n codec up owned terminal r ?v)"
      using response_rules_typed(3) [OF r less.prems(2)]
      by (cases "cr_shape r") (auto simp: response_member_def required_domain_def abind_alift split: option.split json.split)
  qed
qed

section \<open>Demonstration\<close>

definition demo_codec :: json_codec where
  "demo_codec = \<lparr>jc_from_str = (\<lambda>s. if s = ''{}'' then Inr (JObject []) else Inl (Msg ''invalid JSON'')),
     jc_to_string = (\<lambda>_. ''{}'')\<rparr>"


text \<open>Rules without a member do nothing, so that a walk over a small object takes few steps.\<close>

lemma response_member_None:
  assumes "r \<in> set (wire_rules DirResponse c)" and "c \<noteq> InIdentityMetadata"
  shows "response_member n codec up owned terminal r None = aret None"
proof -
  obtain d where "needs_domain (cr_shape r) \<Longrightarrow> cr_domain r = Some d" using response_rules_typed(1) [OF assms(1)] by fastforce
  with response_rules_typed(3) [OF assms] show ?thesis
    by (cases "cr_shape r") (auto simp: response_member_def required_domain_def abind_alift text_member_def object_member_def
        array_member_def str_of_def simp del: action_simps)
qed

lemma sparse_response:
  assumes "c \<noteq> InIdentityMetadata"
  shows "translate_response_container n codec up owned c terminal obj =
    afold (\<lambda>r. member_op (response_member n codec up owned terminal r) (cr_name r))
      (filter (\<lambda>r. map_of obj (cr_name r) \<noteq> None) (wire_rules DirResponse c)) obj"
  unfolding container_members using assms by (intro members_skip response_member_None)







section \<open>The properties\<close>





text \<open>
  C38.  The carrier tables are well typed.  Translating an event fails only with an error of an
  identifier operation or of a serialized turn metadata that is no JSON object: no rule has a shape
  the walk does not know or lacks a domain it needs, and nesting never runs out of its bound.
\<close>

theorem translation_cannot_go_wrong:
  assumes "texts_shrink codec" and "translate_response_ids ext codec response_owner event ed = (Inl e, ed')"
  shows "(\<exists>d x s. fst (wire_from_upstream ext d x s) = Inl e)
    \<or> (\<exists>x s. fst (wire_from_upstream_response ext x response_owner s) = Inl e)
    \<or> (\<exists>raw. jc_from_str codec raw = Inl e) \<or> e = Msg ''turn metadata is not an object''"
proof -
  let ?owned = "\<lambda>raw. wire_from_upstream_response ext raw response_owner"
  obtain obj where event: "event = JObject obj"
    using assms(2) by (cases event) (auto simp: translate_response_ids_def response_walk_def)
  have "fails_in (walk_errors codec (wire_from_upstream ext) ?owned)
      (translate_response_container (nesting_of event) codec (wire_from_upstream ext) ?owned InTopLevel
        (is_terminal_response obj) obj)"
    by (rule container_errors [OF assms(1)]) (simp_all add: event)
  moreover have "e \<in> errors_of (translate_response_container (nesting_of event) codec (wire_from_upstream ext) ?owned InTopLevel
        (is_terminal_response obj) obj)"
    using assms(2) event by (auto simp: translate_response_ids_def response_walk_def errors_of_def abind_def
        split: prod.splits sum.splits)
  ultimately have "e \<in> walk_errors codec (wire_from_upstream ext) ?owned" by (auto simp: fails_in_def)
  then show ?thesis unfolding walk_errors_def errors_of_def by simp (metis fst_conv)
qed

theorem translation_cannot_go_wrong_witness:
  "let e = Msg ''invalid JSON'' in
    (\<exists>d x s. fst (wire_from_upstream demo_edit_ext d x s) = Inl e)
    \<or> (\<exists>x s. fst (wire_from_upstream_response demo_edit_ext x None s) = Inl e)
    \<or> (\<exists>raw. jc_from_str demo_codec raw = Inl e) \<or> e = Msg ''turn metadata is not an object''"
proof -
  have shrink: "texts_shrink demo_codec" by (simp add: texts_shrink_def demo_codec_def)
  let ?event = "JObject [(''client_metadata'', JObject [(TURN_METADATA_HEADER, JString ''x'')])]"
  have "translate_response_ids demo_edit_ext demo_codec None ?event demo_sent = (Inl (Msg ''invalid JSON''), demo_sent)"
    by (simp add: translate_response_ids_def response_walk_def is_terminal_response_def str_of_def obj_contains_def
        sparse_response [of InTopLevel] wire_rules_eq response_wire_RULES_def rule_makers member_op_def response_member_def
        object_member_def identity_members identity_member_def TURN_METADATA_HEADER_def WINDOW_HEADER_def INSTALLATION_HEADER_def
        required_domain_def text_member_def demo_codec_def abind_def)
  from translation_cannot_go_wrong [OF shrink this] show ?thesis by simp
qed

section \<open>Context windows of echoed metadata\<close>

text \<open>
  The response table names the context window of client metadata and of turn metadata, but both are
  walked with the rules of identity metadata, which do not: the alias sent upstream stays in place.
\<close>

lemma context_window_rules_unused:
  "wire_rule DirResponse InClientMetadata ''context_window_id'' ShScalar (Some ContextWindow) \<in> set all_rules
    \<and> wire_rule DirResponse InTurnMetadata ''context_window_id'' ShScalar (Some ContextWindow) \<in> set all_rules
    \<and> (translate_identity_metadata n codec up obj s = (Inr obj', t)
        \<longrightarrow> map_of obj' ''context_window_id'' = map_of obj ''context_window_id'')"
proof -
  have "map_of obj' ''context_window_id'' = map_of obj ''context_window_id''"
    if "translate_identity_metadata n codec up obj s = (Inr obj', t)"
  proof -
    have "''context_window_id'' \<notin> cr_name ` set (wire_rules DirResponse InIdentityMetadata)"
      by (simp add: wire_rules_eq response_wire_RULES_def rule_makers TURN_METADATA_HEADER_def WINDOW_HEADER_def
          INSTALLATION_HEADER_def)
    then show ?thesis
      using members_run [OF container_names_distinct that [unfolded identity_members], of "\<lambda>_. True" "\<lambda>_ _. True"]
      by (simp add: reflp_def transp_def)
  qed
  then show ?thesis by (auto simp: all_rules_def response_wire_RULES_def)
qed

end
