(* ===== verification/Cache_Correct.thy ===== *)
theory Cache_Correct
  imports Response_Cache Wire_Correct
begin

text \<open>
  The cache of identifier pairs returns, stays within its bounds, and a hit gives what the full
  translation would give.
\<close>

section \<open>Sizes\<close>

definition slot_bytes :: "id_pair option \<Rightarrow> nat" where
  "slot_bytes e = (case e of None \<Rightarrow> 0 | Some p \<Rightarrow> pair_bytes p)"

definition cache_ok :: "response_id_cache \<Rightarrow> bool" where
  "cache_ok cache \<longleftrightarrow> length (rc_entries cache) = MAX_ENTRIES \<and> rc_next cache < MAX_ENTRIES
     \<and> rc_id_bytes cache = sum_list (map slot_bytes (rc_entries cache)) \<and> rc_id_bytes cache \<le> MAX_ID_BYTES"

text \<open>\<open>others\<close> is what the rest of the program has reserved of the budget.\<close>

definition world_ok :: "nat \<Rightarrow> nat \<Rightarrow> response_id_cache \<times> cache_budget \<Rightarrow> bool" where
  "world_ok others maximum = (\<lambda>(cache, budget). cache_ok cache \<and> cb_used budget = others + rc_id_bytes cache
     \<and> cb_used budget \<le> maximum \<and> cb_maximum budget = maximum)"

lemma set_cached_pairs: "set (cached_pairs cache) = {p. Some p \<in> set (rc_entries cache)}"
  by (force simp: cached_pairs_def List.map_filter_def image_iff)

lemma slot_bytes_simps [simp]: "slot_bytes None = 0" "slot_bytes (Some p) = pair_bytes p"
  by (simp_all add: slot_bytes_def)

lemma slot_le_sum: "i < length es \<Longrightarrow> slot_bytes (es ! i) \<le> sum_list (map slot_bytes es)"
  by (simp add: member_le_sum_list)

lemma sum_slot_update:
  "i < length es \<Longrightarrow> sum_list (map slot_bytes (es[i := e])) + slot_bytes (es ! i) = sum_list (map slot_bytes es) + slot_bytes e"
  using slot_le_sum [of i es] by (simp add: map_update sum_list_update)

lemma world_ok_clear:
  assumes "world_ok others maximum w"
  shows "world_ok others maximum (cache_clear w)"
proof -
  obtain cache budget where w: "w = (cache, budget)" by (cases w)
  have "sum_list (map slot_bytes (replicate n None)) = 0" for n by (induction n) auto
  then show ?thesis using assms
    by (auto simp: w world_ok_def cache_ok_def cache_clear_def release_def usize_sub_def MAX_ENTRIES_def)
qed

lemma world_ok_step:
  assumes "world_ok others maximum w"
  shows "world_ok others maximum (make_room_step bytes w)"
    and "set (cached_pairs (fst (make_room_step bytes w))) \<subseteq> set (cached_pairs (fst w))"
    and "rc_epoch (fst (make_room_step bytes w)) = rc_epoch (fst w)"
proof -
  obtain cache budget where w: "w = (cache, budget)" by (cases w)
  have next_slot: "world_ok others maximum (c, b) \<Longrightarrow> world_ok others maximum (advance_slot c, b)" for c b
    by (auto simp: world_ok_def cache_ok_def advance_slot_def MAX_ENTRIES_def)
  have take: "world_ok others maximum (take_slot w)"
  proof (cases "rc_entries cache ! rc_next cache")
    case None
    with assms show ?thesis by (simp add: w take_slot_def)
  next
    case (Some p)
    have i: "rc_next cache < length (rc_entries cache)" using assms by (simp add: w world_ok_def cache_ok_def)
    have "pair_bytes p \<le> rc_id_bytes cache"
      using assms slot_le_sum [OF i] Some by (simp add: w world_ok_def cache_ok_def)
    with sum_slot_update [OF i, of None] Some assms show ?thesis
      by (auto simp: w world_ok_def cache_ok_def take_slot_def release_def usize_sub_def)
  qed
  then show "world_ok others maximum (make_room_step bytes w)"
    using next_slot by (auto simp: make_room_step_def split: prod.splits)
  show "set (cached_pairs (fst (make_room_step bytes w))) \<subseteq> set (cached_pairs (fst w))"
    "rc_epoch (fst (make_room_step bytes w)) = rc_epoch (fst w)"
    by (auto simp: w make_room_step_def take_slot_def advance_slot_def set_cached_pairs
        split: option.splits prod.splits dest!: set_update_subset_insert [THEN subsetD])
qed

section \<open>Making room ends\<close>

definition occupied :: "response_id_cache \<Rightarrow> nat" where
  "occupied cache = length (filter (\<lambda>e. e \<noteq> None) (rc_entries cache))"

lemma filter_update_less:
  "i < length es \<Longrightarrow> es ! i \<noteq> None \<Longrightarrow> length (filter (\<lambda>e. e \<noteq> None) (es[i := None])) < length (filter (\<lambda>e. e \<noteq> None) es)"
proof (induction es arbitrary: i)
  case (Cons e es)
  then show ?case by (cases i) auto
qed simp

lemma make_room_returns:
  assumes "world_ok others maximum w" and "bytes \<le> MAX_ID_BYTES"
  shows "\<exists>w'. make_room bytes w = Some w' \<and> \<not> needs_room bytes w' \<and> world_ok others maximum w'
    \<and> set (cached_pairs (fst w')) \<subseteq> set (cached_pairs (fst w)) \<and> rc_epoch (fst w') = rc_epoch (fst w)"
  using assms(1)
proof (induction "occupied (fst w)" arbitrary: w rule: less_induct)
  case outer: less
  let ?found = "\<lambda>w k. rc_entries (fst w) ! ((rc_next (fst w) + k) mod MAX_ENTRIES) \<noteq> None"
  let ?done = "\<lambda>w w'. make_room bytes w = Some w' \<and> \<not> needs_room bytes w' \<and> world_ok others maximum w'
    \<and> set (cached_pairs (fst w')) \<subseteq> set (cached_pairs (fst w)) \<and> rc_epoch (fst w') = rc_epoch (fst w)"
  have stop: "\<exists>w'. ?done v w'" if "\<not> needs_room bytes v" "world_ok others maximum v" for v
    using that by (subst make_room.simps) simp
  have continue: "\<exists>w'. ?done v w'" if "needs_room bytes v" "world_ok others maximum v" "\<exists>w'. ?done (make_room_step bytes v) w'" for v
    using that world_ok_step [OF that(2), of bytes] by (subst make_room.simps) auto
  have evict: "\<exists>w'. ?done v w'"
    if ok: "world_ok others maximum v" and found: "?found v k" and count: "occupied (fst v) \<le> occupied (fst w)" for v k
    using that
  proof (induction k arbitrary: v)
    case 0
    obtain cache budget where v: "v = (cache, budget)" by (cases v)
    have i: "rc_next cache < length (rc_entries cache)" "rc_next cache < MAX_ENTRIES"
      using 0(1) by (auto simp: v world_ok_def cache_ok_def)
    with 0(2) have some: "rc_entries cache ! rc_next cache \<noteq> None" by (simp add: v)
    have "occupied (fst (make_room_step bytes v)) < occupied cache"
      using filter_update_less [OF i(1) some] some
      by (auto simp: v make_room_step_def take_slot_def advance_slot_def occupied_def split: option.splits)
    then have "\<exists>w'. ?done (make_room_step bytes v) w'"
      using outer.hyps [OF _ world_ok_step(1) [OF 0(1)]] 0(3) by (simp add: v)
    moreover have "needs_room bytes v" using some by (simp add: v needs_room_def)
    ultimately show ?case using continue 0(1) by blast
  next
    case (Suc k)
    obtain cache budget where v: "v = (cache, budget)" by (cases v)
    show ?case
    proof (cases "needs_room bytes v \<and> rc_entries cache ! rc_next cache = None")
      case True
      then have step: "make_room_step bytes v = (advance_slot cache, budget)"
        by (auto simp: v make_room_step_def take_slot_def needs_room_def)
      have "?found (make_room_step bytes v) k"
        using Suc.prems(2) unfolding step by (simp add: v advance_slot_def mod_simps)
      moreover have "occupied (fst (make_room_step bytes v)) \<le> occupied (fst w)"
        using Suc.prems(3) unfolding step by (simp add: v advance_slot_def occupied_def)
      ultimately have "\<exists>w'. ?done (make_room_step bytes v) w'"
        using Suc.IH [OF world_ok_step(1) [OF Suc.prems(1)]] by blast
      then show ?thesis using continue True Suc.prems(1) by blast
    next
      case False
      show ?thesis
      proof (cases "needs_room bytes v")
        case True
        with False have some: "rc_entries cache ! rc_next cache \<noteq> None" by simp
        have i: "rc_next cache < length (rc_entries cache)" using Suc.prems(1) by (auto simp: v world_ok_def cache_ok_def)
        have "occupied (fst (make_room_step bytes v)) < occupied cache"
          using filter_update_less [OF i some] some
          by (auto simp: v make_room_step_def take_slot_def advance_slot_def occupied_def split: option.splits)
        then have "\<exists>w'. ?done (make_room_step bytes v) w'"
          using outer.hyps [OF _ world_ok_step(1) [OF Suc.prems(1)]] Suc.prems(3) by (simp add: v)
        then show ?thesis using continue True Suc.prems(1) by blast
      qed (use stop Suc.prems(1) in blast)
    qed
  qed
  show ?case
  proof (cases "\<exists>k. ?found w k")
    case True
    then show ?thesis using evict outer.prems by blast
  next
    case False
    obtain cache budget where w: "w = (cache, budget)" by (cases w)
    have len: "length (rc_entries cache) = MAX_ENTRIES" "rc_next cache < MAX_ENTRIES"
      using outer.prems by (auto simp: w world_ok_def cache_ok_def)
    have none: "rc_entries cache ! j = None" if "j < MAX_ENTRIES" for j
    proof -
      have "(rc_next cache + (MAX_ENTRIES - rc_next cache + j)) mod MAX_ENTRIES = j" using that len by simp
      with False show ?thesis by (metis fst_conv w)
    qed
    then have "map slot_bytes (rc_entries cache) = replicate MAX_ENTRIES 0"
      using len by (intro nth_equalityI) auto
    then have "rc_id_bytes cache = 0" using outer.prems by (simp add: w world_ok_def cache_ok_def)
    with none len assms(2) have "\<not> needs_room bytes w" by (simp add: w needs_room_def)
    then show ?thesis using stop outer.prems by blast
  qed
qed

section \<open>Remembering\<close>

definition backed :: "(wire_id_domain \<Rightarrow> string \<Rightarrow> string option) \<Rightarrow> response_id_cache \<Rightarrow> bool" where
  "backed T cache \<longleftrightarrow> (\<forall>p \<in> set (cached_pairs cache). T (ip_domain p) (ip_upstream p) = Some (ip_downstream p))"

lemma store_pair_ok:
  assumes "world_ok others maximum w" and "\<not> needs_room (pair_bytes p) w"
  shows "world_ok others maximum (store_pair p w)"
    and "set (cached_pairs (fst (store_pair p w))) \<subseteq> insert p (set (cached_pairs (fst w)))"
    and "rc_epoch (fst (store_pair p w)) = rc_epoch (fst w)"
proof -
  obtain cache budget where w: "w = (cache, budget)" by (cases w)
  have i: "rc_next cache < length (rc_entries cache)" and free: "rc_entries cache ! rc_next cache = None"
    and room: "rc_id_bytes cache + pair_bytes p \<le> MAX_ID_BYTES"
    using assms by (auto simp: w world_ok_def cache_ok_def needs_room_def)
  show "world_ok others maximum (store_pair p w)"
    using assms(1) sum_slot_update [OF i, of "Some p"] free room
    by (auto simp: w store_pair_def reserve_def usize_checked_add_def world_ok_def cache_ok_def advance_slot_def MAX_ENTRIES_def
        split: option.splits if_splits)
  show "set (cached_pairs (fst (store_pair p w))) \<subseteq> insert p (set (cached_pairs (fst w)))"
    "rc_epoch (fst (store_pair p w)) = rc_epoch (fst w)"
    by (auto simp: w store_pair_def reserve_def advance_slot_def set_cached_pairs
        split: option.splits if_splits dest!: set_update_subset_insert [THEN subsetD])
qed

lemma remember_field_ok:
  assumes "world_ok others maximum w"
  shows "\<exists>w'. remember_field translated f w = Some w' \<and> world_ok others maximum w' \<and> rc_epoch (fst w') = rc_epoch (fst w)
    \<and> (backed T (fst w) \<longrightarrow> (\<forall>y. jget translated (di_field f) = Some (JString y) \<longrightarrow> T (di_domain f) (di_upstream f) = Some y)
        \<longrightarrow> backed T (fst w'))"
proof (cases "\<exists>y. jget translated (di_field f) = Some (JString y) \<and> is_ok (validate_wire_id y)
    \<and> \<not> list_ex (pair_matches f) (cached_pairs (fst w)) \<and> length (di_upstream f) + length y + 64 \<le> MAX_ID_BYTES")
  case True
  then obtain y where y: "jget translated (di_field f) = Some (JString y)" "is_ok (validate_wire_id y)"
    "\<not> list_ex (pair_matches f) (cached_pairs (fst w))" "length (di_upstream f) + length y + 64 \<le> MAX_ID_BYTES" by blast
  define p where "p = \<lparr>ip_field = di_field f, ip_domain = di_domain f, ip_upstream = di_upstream f, ip_downstream = y\<rparr>"
  have bytes: "pair_bytes p \<le> MAX_ID_BYTES" using y(4) by (simp add: p_def pair_bytes_def)
  obtain v where v: "make_room (pair_bytes p) w = Some v" "\<not> needs_room (pair_bytes p) v" "world_ok others maximum v"
    "set (cached_pairs (fst v)) \<subseteq> set (cached_pairs (fst w))" "rc_epoch (fst v) = rc_epoch (fst w)"
    using make_room_returns [OF assms bytes] by blast
  have "remember_field translated f w = Some (store_pair p v)"
    using y bytes v(1) by (simp add: remember_field_def str_of_def Let_def p_def [symmetric])
  moreover have "backed T (fst (store_pair p v))" if "backed T (fst w)" "T (di_domain f) (di_upstream f) = Some y"
  proof -
    have "T (ip_domain p) (ip_upstream p) = Some (ip_downstream p)" using that(2) by (simp add: p_def)
    then show ?thesis using that(1) store_pair_ok(2) [OF v(3,2)] v(4) unfolding backed_def by blast
  qed
  ultimately show ?thesis using y(1) store_pair_ok(1,3) [OF v(3,2)] v(5) by auto
next
  case False
  have "remember_field translated f w = Some w"
  proof (cases "str_of (jget translated (di_field f))")
    case (Some y)
    then have "jget translated (di_field f) = Some (JString y)" by (auto simp: str_of_def split: bind_splits elim: as_str.elims)
    with False Some show ?thesis by (auto simp: remember_field_def Let_def pair_bytes_def)
  qed (simp add: remember_field_def)
  with assms show ?thesis by simp
qed

lemma remember_fields_ok:
  assumes "world_ok others maximum w"
  shows "\<exists>w'. remember_fields translated ids w = Some w' \<and> world_ok others maximum w' \<and> rc_epoch (fst w') = rc_epoch (fst w)
    \<and> (backed T (fst w) \<longrightarrow> (\<forall>f \<in> set ids. \<forall>y. jget translated (di_field f) = Some (JString y)
          \<longrightarrow> T (di_domain f) (di_upstream f) = Some y) \<longrightarrow> backed T (fst w'))"
  using assms
proof (induction ids arbitrary: w)
  case (Cons f ids)
  obtain v where v: "remember_field translated f w = Some v" "world_ok others maximum v" "rc_epoch (fst v) = rc_epoch (fst w)"
    "backed T (fst w) \<longrightarrow> (\<forall>y. jget translated (di_field f) = Some (JString y) \<longrightarrow> T (di_domain f) (di_upstream f) = Some y)
        \<longrightarrow> backed T (fst v)"
    using remember_field_ok [OF Cons.prems, of translated f T] by blast
  from Cons.IH [OF v(2)] v show ?case by auto
qed simp

section \<open>Flat delta events\<close>

text \<open>What a table answers for the identifiers of a delta event.\<close>

fun table_answers :: "(wire_id_domain \<Rightarrow> string \<Rightarrow> string option) \<Rightarrow> delta_id list \<Rightarrow> (string \<times> string) list option" where
  "table_answers T [] = Some []"
| "table_answers T (f # ids) = (case T (di_domain f) (di_upstream f) of
     None \<Rightarrow> None | Some y \<Rightarrow> map_option ((#) (di_field f, y)) (table_answers T ids))"

lemma resolve_all_backed:
  assumes "backed T cache" and "resolve_all cache ids = Some answers"
  shows "table_answers T ids = Some answers"
  using assms(2)
proof (induction ids arbitrary: answers)
  case (Cons f ids)
  then obtain p rest where p: "find (pair_matches f) (cached_pairs cache) = Some p" "resolve_all cache ids = Some rest"
    and answers: "answers = (di_field f, ip_downstream p) # rest"
    by (auto split: option.splits)
  from p(1) have "p \<in> set (cached_pairs cache)" "pair_matches f p" by (auto simp: find_Some_iff)
  then have "T (di_domain f) (di_upstream f) = Some (ip_downstream p)" using assms(1) by (auto simp: backed_def pair_matches_def)
  with Cons.IH [OF p(2)] answers show ?case by simp
qed simp

lemma table_answers_member:
  assumes "table_answers T ids = Some answers" and "f \<in> set ids"
  obtains y where "T (di_domain f) (di_upstream f) = Some y" "(di_field f, y) \<in> set answers"
  using assms by (induction ids arbitrary: answers thesis) (auto split: option.splits, metis)

abbreviation flat_walk ::
    "nat \<Rightarrow> json_codec \<Rightarrow> carrier_rule list \<Rightarrow> json_object \<Rightarrow> (wire_id_domain table_reader, ledger_error, json_object) action" where
  "flat_walk n codec rs \<equiv>
     afold (\<lambda>r. member_op (response_member n codec read_entry (read_entry Response) False r) (cr_name r)) rs"

definition assign_all :: "json_object \<Rightarrow> (string \<times> string) list \<Rightarrow> json_object" where
  "assign_all = foldl (\<lambda>obj (name, y). obj_insert name (JString y) obj)"

lemma top_rules:
  assumes "r \<in> set (wire_rules DirResponse InTopLevel)"
  shows "cr_shape r = ShOwnedResponseId \<Longrightarrow> cr_domain r = Some Response"
proof -
  have "list_all (\<lambda>r. cr_shape r = ShOwnedResponseId \<longrightarrow> cr_domain r = Some Response) response_wire_RULES"
    by (simp add: response_wire_RULES_def rule_makers)
  then show "cr_shape r = ShOwnedResponseId \<Longrightarrow> cr_domain r = Some Response"
    using assms by (auto simp: wire_rules_eq list_all_iff)
qed

text \<open>One rule of the table on a member it admits: skipped, or looked up.\<close>

lemma flat_rule:
  assumes r: "r \<in> set (wire_rules DirResponse InTopLevel)" and run: "inspect_rules (r # rs) object acc = Some found"
  shows "(inspect_rules rs object acc = Some found
        \<and> response_member n codec read_entry (read_entry Response) False r (map_of object (cr_name r)) = aret None)
    \<or> (\<exists>d raw. inspect_rules rs object (acc @ [\<lparr>di_field = cr_name r, di_domain = d, di_upstream = raw\<rparr>]) = Some found
        \<and> response_member n codec read_entry (read_entry Response) False r (map_of object (cr_name r))
            = abind (read_entry d raw) (\<lambda>y. aret (Some (JString y))))"
proof (cases "map_of object (cr_name r)")
  case None
  with run show ?thesis by (simp add: response_member_None [OF r])
next
  case (Some v)
  show ?thesis
  proof (cases "cr_shape r \<in> {ShScalar, ShTypedItemId, ShOwnedResponseId}")
    case True
    then obtain d where d: "cr_domain r = Some d" "cr_shape r = ShOwnedResponseId \<Longrightarrow> d = Response"
      using response_rules_typed(1) [OF r] top_rules [OF r] by fastforce
    have m: "response_member n codec read_entry (read_entry Response) False r (Some v) = text_member (read_entry d) (Some v)"
      using True d by (auto simp: response_member_def required_domain_def abind_alift)
    show ?thesis
    proof (cases v)
      case (JString raw)
      with run Some True d(1) m show ?thesis
        by (cases "raw = []") (auto simp: text_member_def str_of_def simp del: action_simps split: if_splits)
    qed (use run Some True m in \<open>auto simp: text_member_def str_of_def simp del: action_simps\<close>)
  next
    case False
    with run Some show ?thesis by (auto simp: response_member_def simp del: action_simps split: if_splits)
  qed
qed

lemma flat_rules:
  assumes "set rs \<subseteq> set (wire_rules DirResponse InTopLevel)" and "distinct (map cr_name rs)"
    and "inspect_rules rs object acc = Some found"
    and "\<And>r. r \<in> set rs \<Longrightarrow> map_of obj (cr_name r) = map_of object (cr_name r)"
  shows "\<exists>ids. found = acc @ ids
    \<and> (case table_answers T ids of
         Some answers \<Rightarrow> flat_walk n codec rs obj (T, ds) = (Inr (assign_all obj answers), (T, ds))
       | None \<Rightarrow> \<exists>e. flat_walk n codec rs obj (T, ds) = (Inl e, (T, ds)))"
  using assms
proof (induction rs arbitrary: acc obj)
  case Nil
  then show ?case by (auto simp: assign_all_def)
next
  case (Cons r rs)
  let ?m = "response_member n codec read_entry (read_entry Response) False r (map_of obj (cr_name r))"
  have r: "r \<in> set (wire_rules DirResponse InTopLevel)" and same: "map_of obj (cr_name r) = map_of object (cr_name r)"
    using Cons.prems(1,4) by auto
  have rest: "set rs \<subseteq> set (wire_rules DirResponse InTopLevel)" "distinct (map cr_name rs)" using Cons.prems(1,2) by auto
  have fresh: "cr_name r' \<noteq> cr_name r" if "r' \<in> set rs" for r' using Cons.prems(2) that by (auto simp: image_iff)
  from flat_rule [OF r Cons.prems(3), of n codec] show ?case unfolding same [symmetric]
  proof (elim disjE exE conjE)
    assume found: "inspect_rules rs object acc = Some found" and m: "?m = aret None"
    have "flat_walk n codec (r # rs) obj = abind ?m
        (\<lambda>w. flat_walk n codec rs (case w of None \<Rightarrow> obj | Some v \<Rightarrow> obj_insert (cr_name r) v obj))"
      by (simp add: member_op_bind)
    then have skip: "flat_walk n codec (r # rs) obj = flat_walk n codec rs obj" unfolding m abind_aret by simp
    show ?thesis unfolding skip by (rule Cons.IH [OF rest found]) (use Cons.prems(4) in simp)
  next
    fix d raw
    let ?f = "\<lparr>di_field = cr_name r, di_domain = d, di_upstream = raw\<rparr>"
    assume found: "inspect_rules rs object (acc @ [?f]) = Some found"
      and m: "?m = abind (read_entry d raw) (\<lambda>y. aret (Some (JString y)))"
    have IH: "\<exists>ids. found = (acc @ [?f]) @ ids
      \<and> (case table_answers T ids of
         Some answers \<Rightarrow> flat_walk n codec rs (obj_insert (cr_name r) (JString y) obj) (T, ds)
           = (Inr (assign_all (obj_insert (cr_name r) (JString y) obj) answers), (T, ds))
       | None \<Rightarrow> \<exists>e. flat_walk n codec rs (obj_insert (cr_name r) (JString y) obj) (T, ds) = (Inl e, (T, ds)))" for y
      by (rule Cons.IH [OF rest found]) (use Cons.prems(4) fresh in auto)
    show ?thesis
    proof (cases "T d raw")
      case None
      from IH obtain ids where "found = (acc @ [?f]) @ ids" by blast
      then show ?thesis using None
        by (intro exI [of _ "?f # ids"]) (simp add: member_op_bind m abind_def read_entry_def)
    next
      case (Some y)
      from IH [of y] obtain ids where ids: "found = (acc @ [?f]) @ ids"
        "case table_answers T ids of
           Some answers \<Rightarrow> flat_walk n codec rs (obj_insert (cr_name r) (JString y) obj) (T, ds)
             = (Inr (assign_all (obj_insert (cr_name r) (JString y) obj) answers), (T, ds))
         | None \<Rightarrow> \<exists>e. flat_walk n codec rs (obj_insert (cr_name r) (JString y) obj) (T, ds) = (Inl e, (T, ds))" by blast
      then show ?thesis using Some
        by (intro exI [of _ "?f # ids"])
          (auto simp: member_op_bind m abind_def read_entry_def assign_all_def split: option.splits)
    qed
  qed
qed

lemma assign_all_json:
  "foldl (\<lambda>v (name, y). index_assign name (JString y) v) (JObject obj) answers = JObject (assign_all obj answers)"
  by (induction answers arbitrary: obj) (auto simp: assign_all_def index_assign_def)

text \<open>For a delta event the full walk is the assignment of the answers.\<close>

lemma flat_show:
  assumes "delta_ids_inspect event = Some ids"
  shows "show_event codec T event
    = map_option (foldl (\<lambda>v (name, y). index_assign name (JString y) v) event) (table_answers T ids)"
proof -
  from assms obtain object where event: "event = JObject object" "eligible event"
    and found: "inspect_rules (wire_rules DirResponse InTopLevel) object [] = Some ids"
    by (cases event) (auto simp: delta_ids_inspect_def split: if_splits)
  have terminal: "\<not> is_terminal_response object"
    using event by (auto simp: is_terminal_response_def eligible_def type_of_def jget_def str_of_def)
  have "case table_answers T ids of
      Some answers \<Rightarrow> flat_walk (nesting_of event) codec (wire_rules DirResponse InTopLevel) object (T, [])
        = (Inr (assign_all object answers), (T, []))
    | None \<Rightarrow> \<exists>e. flat_walk (nesting_of event) codec (wire_rules DirResponse InTopLevel) object (T, []) = (Inl e, (T, []))"
    using flat_rules [OF subset_refl container_names_distinct found refl, where T = T and n = "nesting_of event" and ds = "[]"]
    by auto
  then show ?thesis using terminal
    by (auto simp: show_event_def answer_of_def response_walk_def event(1) container_members abind_def assign_all_json
        simp del: nesting_of.simps split: option.splits)
qed

lemma assign_all_get:
  "distinct (map fst answers) \<Longrightarrow> (name, y) \<in> set answers \<Longrightarrow> map_of (assign_all obj answers) name = Some (JString y)"
proof (induction answers arbitrary: obj)
  case (Cons a answers)
  have other: "name' \<notin> fst ` set answers \<Longrightarrow> map_of (assign_all obj answers) name' = map_of obj name'" for obj name'
    by (induction answers arbitrary: obj) (auto simp: assign_all_def)
  obtain n z where a: "a = (n, z)" by (cases a)
  have step: "assign_all obj (a # answers) = assign_all (obj_insert n (JString z) obj) answers"
    by (simp add: assign_all_def a)
  show ?case
  proof (cases "(name, y) \<in> set answers")
    case True
    then show ?thesis using Cons step by simp
  next
    case False
    then have "n = name" "z = y" using Cons.prems(2) a by auto
    moreover have "name \<notin> fst ` set answers" using Cons.prems(1) a \<open>n = name\<close> by simp
    ultimately show ?thesis using step other by simp
  qed
qed simp

lemma inspect_names:
  "inspect_rules rs object acc = Some found \<Longrightarrow> distinct (map cr_name rs) \<Longrightarrow> distinct (map di_field acc)
    \<Longrightarrow> set (map di_field acc) \<inter> set (map cr_name rs) = {} \<Longrightarrow> distinct (map di_field found)"
proof (induction rs arbitrary: acc)
  case (Cons r rs)
  from Cons.prems(1) have "inspect_rules rs object acc = Some found
      \<or> (\<exists>d raw. inspect_rules rs object (acc @ [\<lparr>di_field = cr_name r, di_domain = d, di_upstream = raw\<rparr>]) = Some found)"
    by (auto split: option.splits if_splits)
  then show ?case
  proof (elim disjE exE)
    assume "inspect_rules rs object acc = Some found"
    then show ?thesis using Cons.IH [of acc] Cons.prems(2-4) by auto
  next
    fix d raw assume "inspect_rules rs object (acc @ [\<lparr>di_field = cr_name r, di_domain = d, di_upstream = raw\<rparr>]) = Some found"
    from Cons.IH [OF this] show ?thesis using Cons.prems(2-4) by (auto simp: image_iff)
  qed
qed simp

lemma table_answers_names: "table_answers T ids = Some answers \<Longrightarrow> map fst answers = map di_field ids"
  by (induction ids arbitrary: answers) (auto split: option.splits)

text \<open>What a full translation shows for the identifiers of a delta event is in its table.\<close>

lemma shown_delta:
  assumes "delta_ids_inspect event = Some ids" and "show_event codec T event = Some translated" and "f \<in> set ids"
    and "jget translated (di_field f) = Some (JString y)"
  shows "T (di_domain f) (di_upstream f) = Some y"
proof -
  from assms(1) obtain object where event: "event = JObject object"
    and found: "inspect_rules (wire_rules DirResponse InTopLevel) object [] = Some ids"
    by (cases event) (auto simp: delta_ids_inspect_def split: if_splits)
  obtain answers where answers: "table_answers T ids = Some answers" and t: "translated = JObject (assign_all object answers)"
    using assms(2) unfolding flat_show [OF assms(1)] by (auto simp: event assign_all_json)
  obtain z where z: "T (di_domain f) (di_upstream f) = Some z" "(di_field f, z) \<in> set answers"
    using table_answers_member [OF answers assms(3)] by blast
  have "distinct (map di_field ids)" by (rule inspect_names [OF found container_names_distinct]) auto
  then have "map_of (assign_all object answers) (di_field f) = Some (JString z)"
    using assign_all_get z(2) table_answers_names [OF answers] by metis
  with assms(4) t z(1) show ?thesis by (simp add: jget_def)
qed

section \<open>Sequences of calls\<close>

text \<open>
  The calls of \<open>translate_response_locked\<close>: the cache is asked before, and told after, a translation,
  and only for events with cacheable identifiers.
\<close>

datatype cache_call =
  AskCache string "state_stamp option" int json
  | TellCache string "state_stamp option" int json json

definition cache_apply :: "cache_call \<Rightarrow> response_id_cache \<times> cache_budget \<Rightarrow> (response_id_cache \<times> cache_budget) option" where
  "cache_apply call w = (case call of
     AskCache identity stamp day event \<Rightarrow> (case delta_ids_inspect event of
       None \<Rightarrow> Some w | Some ids \<Rightarrow> Some (snd (cache_translate identity stamp day ids event w)))
   | TellCache identity stamp day event translated \<Rightarrow> (case delta_ids_inspect event of
       None \<Rightarrow> Some w | Some ids \<Rightarrow> cache_remember identity stamp day ids translated w))"

fun cache_run :: "cache_call list \<Rightarrow> response_id_cache \<times> cache_budget \<Rightarrow> (response_id_cache \<times> cache_budget) option" where
  "cache_run [] w = Some w"
| "cache_run (call # calls) w = Option.bind (cache_apply call w) (cache_run calls)"

text \<open>
  Under one stamp of the ledger file, identity and day, the alias table is one table, and what the
  cache is told is the translation through it.
\<close>

definition told_truth :: "json_codec \<Rightarrow> (cache_epoch \<Rightarrow> wire_id_domain \<Rightarrow> string \<Rightarrow> string option) \<Rightarrow> cache_call \<Rightarrow> bool" where
  "told_truth codec tables call \<longleftrightarrow> (case call of
     TellCache identity (Some stamp) day event translated \<Rightarrow>
       show_event codec (tables \<lparr>ce_identity = identity, ce_stamp = stamp, ce_day = day\<rparr>) event = Some translated
   | _ \<Rightarrow> True)"

definition truthful :: "(cache_epoch \<Rightarrow> wire_id_domain \<Rightarrow> string \<Rightarrow> string option) \<Rightarrow> response_id_cache \<Rightarrow> bool" where
  "truthful tables cache \<longleftrightarrow> (case rc_epoch cache of None \<Rightarrow> cached_pairs cache = [] | Some epoch \<Rightarrow> backed (tables epoch) cache)"

lemma clear_empty: "cached_pairs (fst (cache_clear w)) = []" "rc_epoch (fst (cache_clear w)) = None"
proof -
  have "List.map_filter id (replicate n None) = ([] :: id_pair list)" for n
    by (induction n) auto
  then show "cached_pairs (fst (cache_clear w)) = []" by (cases w) (simp add: cache_clear_def cached_pairs_def)
qed (cases w, simp add: cache_clear_def)

lemma cache_apply_ok:
  assumes "world_ok others maximum w" and "truthful tables (fst w)" and "told_truth codec tables call"
  shows "\<exists>w'. cache_apply call w = Some w' \<and> world_ok others maximum w' \<and> truthful tables (fst w')"
proof -
  have cleared: "world_ok others maximum (cache_clear w) \<and> truthful tables (fst (cache_clear w))"
    using world_ok_clear [OF assms(1)] clear_empty by (simp add: truthful_def)
  show ?thesis
  proof (cases call)
    case (AskCache identity stamp day event)
    have "snd (cache_translate identity stamp day ids event w) \<in> {w, cache_clear w}" for ids
      by (cases w) (auto simp: cache_translate_def Let_def split: option.splits)
    then have "cache_apply call w \<in> {Some w, Some (cache_clear w)}"
      using AskCache by (cases "delta_ids_inspect event") (auto simp: cache_apply_def)
    then show ?thesis using assms(1,2) cleared by (metis insertE singletonD)
  next
    case (TellCache identity stamp day event translated)
    show ?thesis
    proof (cases "delta_ids_inspect event")
      case (Some ids)
      note inspected = Some
      show ?thesis
      proof (cases stamp)
        case None
        then have "cache_apply call w = Some (cache_clear w)"
          using TellCache inspected by (simp add: cache_apply_def cache_remember_def)
        then show ?thesis using cleared by blast
      next
        case (Some st)
        define epoch where "epoch = \<lparr>ce_identity = identity, ce_stamp = st, ce_day = day\<rparr>"
        define v where "v = (if rc_epoch (fst w) \<noteq> Some epoch
            then (case cache_clear w of (cache, budget) \<Rightarrow> (cache\<lparr>rc_epoch := Some epoch\<rparr>, budget)) else w)"
        have v: "world_ok others maximum v" "rc_epoch (fst v) = Some epoch" "backed (tables epoch) (fst v)"
          using assms(1,2) cleared clear_empty [of w]
          by (auto simp: v_def world_ok_def cache_ok_def truthful_def backed_def cached_pairs_def split: prod.splits)
        have "show_event codec (tables epoch) event = Some translated"
          using assms(3) TellCache Some by (simp add: told_truth_def epoch_def)
        then have "\<forall>f \<in> set ids. \<forall>y. jget translated (di_field f) = Some (JString y)
            \<longrightarrow> tables epoch (di_domain f) (di_upstream f) = Some y"
          using shown_delta [OF inspected] by blast
        then obtain w' where w': "remember_fields translated ids v = Some w'" "world_ok others maximum w'"
          "rc_epoch (fst w') = Some epoch" and "backed (tables epoch) (fst w')"
          using remember_fields_ok [OF v(1), of translated ids "tables epoch"] v(2,3) by metis
        moreover have "cache_apply call w = remember_fields translated ids v"
          using TellCache inspected Some by (simp add: cache_apply_def cache_remember_def Let_def v_def epoch_def)
        ultimately show ?thesis using w' by (simp add: truthful_def)
      qed
    qed (use TellCache assms(1,2) in \<open>simp add: cache_apply_def\<close>)
  qed
qed

lemma cache_run_ok:
  assumes "world_ok others maximum w" and "truthful tables (fst w)" and "list_all (told_truth codec tables) calls"
  shows "\<exists>w'. cache_run calls w = Some w' \<and> world_ok others maximum w' \<and> truthful tables (fst w')"
  using assms
proof (induction calls arbitrary: w)
  case (Cons call calls)
  then obtain v where "cache_apply call w = Some v" "world_ok others maximum v" "truthful tables (fst v)"
    using cache_apply_ok by fastforce
  with Cons.IH Cons.prems(3) show ?case by auto
qed simp

lemma cache_new_ok:
  assumes "cache_new base_bytes budget = (Some cache, budget')"
  shows "world_ok (cb_used budget + base_bytes) (cb_maximum budget) (cache, budget')" and "truthful tables cache"
proof -
  have "sum_list (map slot_bytes (replicate n None)) = 0" for n by (induction n) auto
  then show "world_ok (cb_used budget + base_bytes) (cb_maximum budget) (cache, budget')"
    using assms by (auto simp: cache_new_def reserve_def usize_checked_add_def world_ok_def cache_ok_def MAX_ENTRIES_def
        split: option.splits if_splits bool.splits)
  have "List.map_filter id (replicate n None) = ([] :: id_pair list)" for n
    by (induction n) auto
  then show "truthful tables cache"
    using assms by (auto simp: cache_new_def truthful_def cached_pairs_def split: prod.splits bool.splits)
qed

text \<open>
  C39.  The identifier cache.  Whatever sequence of questions and answers follows, the loop that makes
  room for an answer ends, the cache holds at most 16 KiB, its share of the budget is exactly what it
  holds and the budget is never exceeded.  A hit rewrites the event exactly as the full translation
  through the alias table of the same ledger stamp, identity and day would.
\<close>

theorem cache_hits_equal_translation:
  assumes "cache_new base_bytes budget = (Some cache, budget')" and "list_all (told_truth codec tables) calls"
  shows "\<exists>cache2 budget2. cache_run calls (cache, budget') = Some (cache2, budget2)
    \<and> rc_id_bytes cache2 = sum_list (map slot_bytes (rc_entries cache2)) \<and> rc_id_bytes cache2 \<le> MAX_ID_BYTES
    \<and> cb_used budget2 = cb_used budget + base_bytes + rc_id_bytes cache2 \<and> cb_used budget2 \<le> cb_maximum budget
    \<and> (\<forall>identity stamp day event ids event' w. delta_ids_inspect event = Some ids
        \<and> cache_translate identity (Some stamp) day ids event (cache2, budget2) = ((True, event'), w)
        \<longrightarrow> show_event codec (tables \<lparr>ce_identity = identity, ce_stamp = stamp, ce_day = day\<rparr>) event = Some event')"
proof -
  obtain cache2 budget2 where run: "cache_run calls (cache, budget') = Some (cache2, budget2)"
    and ok: "world_ok (cb_used budget + base_bytes) (cb_maximum budget) (cache2, budget2)" and true: "truthful tables cache2"
    using cache_run_ok [OF cache_new_ok(1) [OF assms(1)] _ assms(2)] cache_new_ok(2) [OF assms(1)] by force
  have "show_event codec (tables \<lparr>ce_identity = identity, ce_stamp = stamp, ce_day = day\<rparr>) event = Some event'"
    if ids: "delta_ids_inspect event = Some ids"
      and hit: "cache_translate identity (Some stamp) day ids event (cache2, budget2) = ((True, event'), w)"
    for identity stamp day event ids event' w
  proof -
    from hit obtain answers where "rc_epoch cache2 = Some \<lparr>ce_identity = identity, ce_stamp = stamp, ce_day = day\<rparr>"
      and r: "resolve_all cache2 ids = Some answers"
      and e: "event' = foldl (\<lambda>v (name, y). index_assign name (JString y) v) event answers"
      by (auto simp: cache_translate_def Let_def split: option.splits if_splits)
    then have "backed (tables \<lparr>ce_identity = identity, ce_stamp = stamp, ce_day = day\<rparr>) cache2"
      using true by (simp add: truthful_def)
    from resolve_all_backed [OF this r] show ?thesis unfolding flat_show [OF ids] by (simp add: e)
  qed
  then show ?thesis using run ok by (auto simp: world_ok_def cache_ok_def)
qed

section \<open>Demonstration\<close>

definition demo_delta :: "string \<Rightarrow> json" where
  "demo_delta x = JObject [(''type'', JString ''response.output_text.delta''), (''item_id'', JString x)]"

definition demo_stamp :: state_stamp where
  "demo_stamp = \<lparr>st_device = 1, st_inode = 2, st_bytes = 3, st_modified = (4, 0), st_changed = (4, 0)\<rparr>"

definition demo_tables :: "cache_epoch \<Rightarrow> wire_id_domain \<Rightarrow> string \<Rightarrow> string option" where
  "demo_tables epoch d x = (if d = Item \<and> x = ''msg_9'' then Some ''msg_7n'' else None)"

definition demo_calls :: "cache_call list" where
  "demo_calls = [TellCache ''me'' (Some demo_stamp) 7 (demo_delta ''msg_9'') (demo_delta ''msg_7n'')]"

lemma demo_inspect: "delta_ids_inspect (demo_delta ''msg_9'') = Some [\<lparr>di_field = ''item_id'', di_domain = Item, di_upstream = ''msg_9''\<rparr>]"
  by (simp add: delta_ids_inspect_def eligible_def type_of_def jget_def str_of_def demo_delta_def wire_rules_eq
      response_wire_RULES_def rule_makers demo_valid_ids)

lemma demo_truth: "list_all (told_truth codec demo_tables) demo_calls"
  by (simp add: demo_calls_def told_truth_def flat_show [OF demo_inspect] demo_tables_def)
    (simp add: demo_delta_def index_assign_def)

theorem cache_hits_equal_translation_witness:
  "\<exists>cache2 budget2. cache_run demo_calls
      (\<lparr>rc_entries = replicate 64 None, rc_next = 0, rc_id_bytes = 0, rc_epoch = None\<rparr>, \<lparr>cb_used = 4096, cb_maximum = STORE_BUDGET_BYTES\<rparr>)
      = Some (cache2, budget2)
    \<and> rc_id_bytes cache2 \<le> MAX_ID_BYTES \<and> cb_used budget2 = 4096 + rc_id_bytes cache2"
proof -
  have "cache_new 4096 budget_default
      = (Some \<lparr>rc_entries = replicate 64 None, rc_next = 0, rc_id_bytes = 0, rc_epoch = None\<rparr>,
         \<lparr>cb_used = 4096, cb_maximum = STORE_BUDGET_BYTES\<rparr>)"
    by (simp add: cache_new_def budget_default_def budget_with_limit_def reserve_def usize_checked_add_def STORE_BUDGET_BYTES_def
        MAX_ENTRIES_def)
  from cache_hits_equal_translation [OF this demo_truth [of demo_codec]] obtain cache2 budget2 where
    "cache_run demo_calls (\<lparr>rc_entries = replicate 64 None, rc_next = 0, rc_id_bytes = 0, rc_epoch = None\<rparr>,
      \<lparr>cb_used = 4096, cb_maximum = STORE_BUDGET_BYTES\<rparr>) = Some (cache2, budget2)"
    "rc_id_bytes cache2 \<le> MAX_ID_BYTES" "cb_used budget2 = cb_used budget_default + 4096 + rc_id_bytes cache2"
    by blast
  then show ?thesis by (intro exI [of _ cache2] exI [of _ budget2]) (simp add: budget_default_def budget_with_limit_def)
qed

end
