(* ===== verification/Sse_Reader.thy ===== *)
theory Sse_Reader
  imports Json_Value
begin

text \<open>
  Server-sent events: the class of an event (\<open>sse_progress.rs\<close>) and the bounded reader with its
  deadlines (\<open>response_sse_reader.rs\<close>).  Parsing JSON text is a parameter, which keeps repeated members
  in their order, as a streaming deserializer sees them.  Diagnostics are left out.
\<close>

section \<open>Classes of events\<close>

datatype sse_class =
  ClsStatus | ClsText | ClsReasoning | ClsTool | ClsMedia | ClsItem | ClsTerminal | ClsEmpty | ClsOther | ClsInvalid

fun is_output :: "sse_class \<Rightarrow> bool" where
  "is_output ClsText = True"
| "is_output ClsReasoning = True"
| "is_output ClsTool = True"
| "is_output ClsMedia = True"
| "is_output ClsItem = True"
| "is_output _ = False"

record sse_item =
  si_kind :: string
  si_status :: string

record sse_part =
  sp_text :: bool
  sp_refusal :: bool

record sse_fields =
  sf_kind :: string
  sf_delta :: bool
  sf_text :: bool
  sf_refusal :: bool
  sf_arguments :: bool
  sf_input :: bool
  sf_code :: bool
  sf_image :: bool
  sf_item :: sse_item
  sf_part :: sse_part

definition item_default :: sse_item where "item_default = \<lparr>si_kind = [], si_status = []\<rparr>"
definition part_default :: sse_part where "part_default = \<lparr>sp_text = False, sp_refusal = False\<rparr>"
definition fields_default :: sse_fields where
  "fields_default = \<lparr>sf_kind = [], sf_delta = False, sf_text = False, sf_refusal = False, sf_arguments = False,
     sf_input = False, sf_code = False, sf_image = False, sf_item = item_default, sf_part = part_default\<rparr>"

text \<open>A field of another type than the observed one has its default.\<close>

definition short_text :: "json \<Rightarrow> string" where
  "short_text v = (case v of JString s \<Rightarrow> if length s \<le> 128 then s else [] | _ \<Rightarrow> [])"

definition text_presence :: "json \<Rightarrow> bool" where
  "text_presence v = (case v of JString s \<Rightarrow> s \<noteq> [] | _ \<Rightarrow> False)"

definition to_ascii_lowercase :: "string \<Rightarrow> string" where
  "to_ascii_lowercase = map u8_to_ascii_lower"

definition item_field :: "string \<times> json \<Rightarrow> sse_item \<Rightarrow> sse_item" where
  "item_field = (\<lambda>(key, v) out. let key = to_ascii_lowercase key in
     if key = ''type'' then out\<lparr>si_kind := short_text v\<rparr>
     else if key = ''status'' then out\<lparr>si_status := short_text v\<rparr> else out)"

definition part_field :: "string \<times> json \<Rightarrow> sse_part \<Rightarrow> sse_part" where
  "part_field = (\<lambda>(key, v) out. let key = to_ascii_lowercase key in
     if key = ''text'' then out\<lparr>sp_text := text_presence v\<rparr>
     else if key = ''refusal'' then out\<lparr>sp_refusal := text_presence v\<rparr> else out)"

definition item_of :: "json \<Rightarrow> sse_item" where
  "item_of v = (case v of JObject members \<Rightarrow> fold item_field members item_default | _ \<Rightarrow> item_default)"

definition part_of :: "json \<Rightarrow> sse_part" where
  "part_of v = (case v of JObject members \<Rightarrow> fold part_field members part_default | _ \<Rightarrow> part_default)"

definition event_field :: "string \<times> json \<Rightarrow> sse_fields \<Rightarrow> sse_fields" where
  "event_field = (\<lambda>(key, v) out. let key = to_ascii_lowercase key in
     if key = ''type'' then out\<lparr>sf_kind := short_text v\<rparr>
     else if key = ''delta'' then out\<lparr>sf_delta := text_presence v\<rparr>
     else if key = ''text'' then out\<lparr>sf_text := text_presence v\<rparr>
     else if key = ''refusal'' then out\<lparr>sf_refusal := text_presence v\<rparr>
     else if key = ''arguments'' then out\<lparr>sf_arguments := text_presence v\<rparr>
     else if key = ''input'' then out\<lparr>sf_input := text_presence v\<rparr>
     else if key = ''code'' then out\<lparr>sf_code := text_presence v\<rparr>
     else if key = ''partial_image_b64'' then out\<lparr>sf_image := text_presence v\<rparr>
     else if key = ''item'' then out\<lparr>sf_item := item_of v\<rparr>
     else if key = ''part'' then out\<lparr>sf_part := part_of v\<rparr>
     else out)"

definition event_fields :: "json \<Rightarrow> sse_fields option" where
  "event_fields v = map_option (\<lambda>members. fold event_field members fields_default) (as_object v)"

definition STATUS_KINDS :: "string list" where
  "STATUS_KINDS = [''error'', ''response.created'', ''response.in_progress'', ''response.queued'', ''response.metadata'',
     ''codex.response.metadata'', ''responsesapi.websocket_timing'', ''ping'', ''heartbeat'', ''keepalive'',
     ''response.output_item.added'', ''response.web_search_call.in_progress'', ''response.web_search_call.searching'',
     ''response.file_search_call.in_progress'', ''response.file_search_call.searching'',
     ''response.code_interpreter_call.in_progress'', ''response.code_interpreter_call.interpreting'',
     ''response.image_generation_call.in_progress'', ''response.image_generation_call.generating'']"

definition payload :: "sse_class \<Rightarrow> bool \<Rightarrow> sse_class" where
  "payload class present = (if present then class else ClsEmpty)"

definition classify_item :: "sse_item \<Rightarrow> sse_class" where
  "classify_item i =
     (if si_kind i = [] \<or> si_status i \<in> {''in_progress'', ''incomplete'', ''queued'', ''searching'', ''generating'', ''interpreting''}
        then ClsEmpty
      else if si_kind i = ''reasoning'' then ClsReasoning
      else if si_kind i \<in> {''function_call'', ''custom_tool_call'', ''local_shell_call'', ''shell_call'', ''code_interpreter_call'',
          ''web_search_call'', ''file_search_call'', ''tool_search_call''} then ClsTool
      else if si_kind i = ''image_generation_call'' then ClsMedia
      else ClsItem)"

definition classify_fields :: "sse_fields \<Rightarrow> sse_class" where
  "classify_fields event = (let kind = sf_kind event in
     if kind \<in> {''response.completed'', ''response.failed'', ''response.incomplete''} then ClsTerminal
     else if kind \<in> set STATUS_KINDS then ClsStatus
     else if kind \<in> {''response.output_text.delta'', ''response.refusal.delta''} then payload ClsText (sf_delta event)
     else if kind = ''response.output_text.done'' then payload ClsText (sf_text event)
     else if kind = ''response.refusal.done'' then payload ClsText (sf_refusal event)
     else if kind \<in> {''response.reasoning_text.delta'', ''response.reasoning_summary_text.delta'', ''response.reasoning.delta''}
       then payload ClsReasoning (sf_delta event)
     else if kind \<in> {''response.reasoning_text.done'', ''response.reasoning_summary_text.done''}
       then payload ClsReasoning (sf_text event)
     else if kind \<in> {''response.function_call_arguments.delta'', ''response.custom_tool_call_input.delta'',
         ''response.code_interpreter_call_code.delta''} then payload ClsTool (sf_delta event)
     else if kind = ''response.function_call_arguments.done'' then payload ClsTool (sf_arguments event)
     else if kind = ''response.custom_tool_call_input.done'' then payload ClsTool (sf_input event)
     else if kind = ''response.code_interpreter_call_code.done'' then payload ClsTool (sf_code event)
     else if kind \<in> {''response.audio.delta'', ''response.output_audio.delta''} then payload ClsMedia (sf_delta event)
     else if kind = ''response.image_generation_call.partial_image'' then payload ClsMedia (sf_image event)
     else if kind \<in> {''response.content_part.added'', ''response.content_part.done''}
       then payload ClsText (sp_text (sf_part event) \<or> sp_refusal (sf_part event))
     else if kind \<in> {''response.reasoning_summary_part.added'', ''response.reasoning_summary_part.done''}
       then payload ClsReasoning (sp_text (sf_part event))
     else if kind = ''response.output_item.done'' then classify_item (sf_item event)
     else ClsOther)"

definition classify :: "(string \<Rightarrow> json option) \<Rightarrow> string \<Rightarrow> sse_class" where
  "classify from_slice data = (case Option.bind (from_slice data) event_fields of
     None \<Rightarrow> ClsInvalid | Some event \<Rightarrow> classify_fields event)"

section \<open>Text of an event\<close>

text \<open>\<open>str::from_utf8\<close>: the well-formed byte sequences of UTF-8.\<close>

definition in_range :: "nat \<Rightarrow> nat \<Rightarrow> char \<Rightarrow> bool" where
  "in_range a b c \<longleftrightarrow> a \<le> of_char c \<and> of_char c \<le> b"

fun utf8_valid :: "string \<Rightarrow> bool" where
  "utf8_valid [] = True"
| "utf8_valid (a # s) =
     (if in_range 0 0x7F a then utf8_valid s
      else if in_range 0xC2 0xDF a then (case s of b # s' \<Rightarrow> in_range 0x80 0xBF b \<and> utf8_valid s' | _ \<Rightarrow> False)
      else if in_range 0xE0 0xEF a then (case s of b # c # s' \<Rightarrow>
          in_range (if of_char a = (0xE0 :: nat) then 0xA0 else 0x80) (if of_char a = (0xED :: nat) then 0x9F else 0xBF) b
          \<and> in_range 0x80 0xBF c \<and> utf8_valid s' | _ \<Rightarrow> False)
      else if in_range 0xF0 0xF4 a then (case s of b # c # d # s' \<Rightarrow>
          in_range (if of_char a = (0xF0 :: nat) then 0x90 else 0x80) (if of_char a = (0xF4 :: nat) then 0x8F else 0xBF) b
          \<and> in_range 0x80 0xBF c \<and> in_range 0x80 0xBF d \<and> utf8_valid s' | _ \<Rightarrow> False)
      else False)"

text \<open>\<open>str::trim\<close> removes characters with the property \<open>White_Space\<close>, here by their UTF-8 bytes.\<close>

definition WHITE_SPACE :: "string list" where
  "WHITE_SPACE = map (\<lambda>n. [char_of (n :: nat)]) ([9..<14] @ [32])
     @ [[CHR 0xC2, CHR 0x85], [CHR 0xC2, CHR 0xA0], [CHR 0xE1, CHR 0x9A, CHR 0x80]]
     @ map (\<lambda>n. [CHR 0xE2, CHR 0x80, char_of (n :: nat)]) ([0x80..<0x8B] @ [0xA8, 0xA9, 0xAF])
     @ [[CHR 0xE2, CHR 0x81, CHR 0x9F], [CHR 0xE3, CHR 0x80, CHR 0x80]]"

lemma strip_shorter: "w \<noteq> [] \<Longrightarrow> strip_prefix w s \<noteq> None \<Longrightarrow> length (drop (length w) s) < length s"
  by (cases s) (auto simp: strip_prefix_def split: if_splits)

function trim_start_of :: "string list \<Rightarrow> string \<Rightarrow> string" where
  "trim_start_of white s = (case find (\<lambda>w. w \<noteq> [] \<and> strip_prefix w s \<noteq> None) white of
     None \<Rightarrow> s | Some w \<Rightarrow> trim_start_of white (drop (length w) s))"
  by pat_completeness auto
termination
  by (relation "measure (\<lambda>(_, s). length s)") (auto simp: find_Some_iff simp del: length_drop intro!: strip_shorter)

definition trim :: "string \<Rightarrow> string" where
  "trim s = rev (trim_start_of (map rev WHITE_SPACE) (rev (trim_start_of WHITE_SPACE s)))"

fun split_lines :: "string \<Rightarrow> string \<Rightarrow> string list" where
  "split_lines line [] = [line]"
| "split_lines line (c # s) =
     (if c = CHR 0x0D \<or> c = CHR 0x0A then line # split_lines [] s else split_lines (line @ [c]) s)"

definition data_line :: "string \<Rightarrow> string option" where
  "data_line line =
     (let line = (if line \<noteq> [] \<and> last line = CHR 0x0D then butlast line else line)
      in map_option (\<lambda>v. case strip_prefix '' '' v of Some v' \<Rightarrow> v' | None \<Rightarrow> v) (strip_prefix ''data:'' line))"

fun join_lines :: "string list \<Rightarrow> string" where
  "join_lines [] = []"
| "join_lines [line] = line"
| "join_lines (line # rest) = line @ [CHR 0x0A] @ join_lines rest"

definition data_payload :: "string \<Rightarrow> string option" where
  "data_payload text = (case List.map_filter data_line (split_lines [] text) of
     [] \<Rightarrow> None | parts \<Rightarrow> Some (join_lines parts))"

section \<open>The reader\<close>

text \<open>Points of time are natural numbers, in milliseconds from the start; a deadline is reached when the clock is not before it.\<close>

record sse_timeouts =
  to_idle :: nat
  to_output_idle :: nat
  to_terminal_tail :: nat

definition timeouts_default :: sse_timeouts where
  "timeouts_default = \<lparr>to_idle = 300000, to_output_idle = 300000, to_terminal_tail = 1000\<rparr>"

datatype sse_read_error = ErrUpstream | ErrEventTooLarge | ErrIdleTimeout | ErrFirstOutputTimeout | ErrOutputIdleTimeout

record sse_reader =
  sr_open :: bool
  sr_buffer :: string
  sr_pending :: string
  sr_maximum :: nat
  sr_event_bytes :: nat
  sr_line_length :: nat
  sr_line_cr :: bool
  sr_stream_start :: bool
  sr_timeouts :: sse_timeouts
  sr_idle_deadline :: nat
  sr_output_deadline :: nat
  sr_has_output :: bool
  sr_terminal_deadline :: "nat option"

definition reader_with_timeouts :: "nat \<Rightarrow> nat \<Rightarrow> sse_timeouts \<Rightarrow> sse_reader" where
  "reader_with_timeouts now maximum timeouts =
     \<lparr>sr_open = True, sr_buffer = [], sr_pending = [], sr_maximum = maximum, sr_event_bytes = 0, sr_line_length = 0,
      sr_line_cr = False, sr_stream_start = True, sr_timeouts = timeouts, sr_idle_deadline = now + to_idle timeouts,
      sr_output_deadline = now + to_output_idle timeouts, sr_has_output = False, sr_terminal_deadline = None\<rparr>"

definition reader_close :: "sse_reader \<Rightarrow> sse_reader" where
  "reader_close r = r\<lparr>sr_open := False, sr_buffer := [], sr_pending := []\<rparr>"

definition reader_deadline :: "sse_reader \<Rightarrow> nat" where
  "reader_deadline r = (case sr_terminal_deadline r of
     Some d \<Rightarrow> d | None \<Rightarrow> min (sr_idle_deadline r) (sr_output_deadline r))"

text \<open>The class of an event with data, and what it does to the deadlines.\<close>

definition event_class :: "(string \<Rightarrow> json option) \<Rightarrow> string \<Rightarrow> sse_class option" where
  "event_class from_slice event =
     (if \<not> utf8_valid event then None
      else Option.bind (data_payload event) (\<lambda>data.
        if trim data = [] \<or> trim data = ''[DONE]'' then None else Some (classify from_slice data)))"

definition take_event :: "(string \<Rightarrow> json option) \<Rightarrow> nat \<Rightarrow> sse_reader \<Rightarrow> string \<times> sse_reader" where
  "take_event from_slice now r =
     (let event = sr_buffer r; r = r\<lparr>sr_event_bytes := 0, sr_buffer := []\<rparr> in
      (event, case event_class from_slice event of
         None \<Rightarrow> r
       | Some class \<Rightarrow>
           let r = r\<lparr>sr_idle_deadline := now + to_idle (sr_timeouts r)\<rparr>;
             r = (if is_output class then r\<lparr>sr_has_output := True, sr_output_deadline := now + to_output_idle (sr_timeouts r)\<rparr> else r)
           in if sr_terminal_deadline r = None \<and> class = ClsTerminal
              then r\<lparr>sr_terminal_deadline := Some (now + to_terminal_tail (sr_timeouts r))\<rparr> else r))"

text \<open>One byte of an event; the flag says that it completes the event.\<close>

definition BOM :: string where "BOM = [CHR 0xEF, CHR 0xBB, CHR 0xBF]"

definition scan_byte :: "char \<Rightarrow> sse_reader \<Rightarrow> bool \<times> sse_reader" where
  "scan_byte byte r =
     (if sr_line_cr r \<and> byte = CHR 0x0A then (False, r\<lparr>sr_line_cr := False\<rparr>)
      else
        let r = r\<lparr>sr_line_cr := (byte = CHR 0x0D)\<rparr> in
        if byte = CHR 0x0D \<or> byte = CHR 0x0A
        then (sr_line_length r = 0, r\<lparr>sr_buffer := sr_buffer r @ [CHR 0x0A], sr_line_length := 0\<rparr>)
        else
          let r = r\<lparr>sr_buffer := sr_buffer r @ [byte], sr_line_length := min 2 (min 255 (sr_line_length r + 1))\<rparr> in
          (False,
           if sr_stream_start r \<and> length (sr_buffer r) = 3 then
             let r = r\<lparr>sr_stream_start := False\<rparr> in
             if sr_buffer r = BOM then r\<lparr>sr_buffer := [], sr_line_length := 0\<rparr> else r
           else r))"

fun scan_bytes :: "string \<Rightarrow> nat \<Rightarrow> sse_reader \<Rightarrow> (nat \<times> bool) \<times> sse_reader" where
  "scan_bytes [] taken r = ((taken, False), r)"
| "scan_bytes (byte # bytes) taken r = (case scan_byte byte r of
     (True, r') \<Rightarrow> ((taken + 1, True), r')
   | (False, r') \<Rightarrow> scan_bytes bytes (taken + 1) r')"

text \<open>
  What awaiting the upstream can give; \<open>Elapsed\<close> is a timeout of the wait, for a deadline or a report.
  Readings of the clock are numbered, so that the loop reads it at its head and when it takes an
  event.  \<open>None\<close> is a reader that still waits.
\<close>

datatype sse_poll = Data string | ReadError | Eof | Elapsed

record sse_input =
  in_ticks :: nat
  in_polls :: "sse_poll list"

definition expire :: "nat \<Rightarrow> sse_reader \<Rightarrow> sse_read_error option \<times> sse_reader" where
  "expire now r =
     (if sr_open r \<and> reader_deadline r \<le> now then
        if sr_terminal_deadline r \<noteq> None then (None, r\<lparr>sr_open := False\<rparr>)
        else (Some (if sr_output_deadline r < sr_idle_deadline r
                    then (if sr_has_output r then ErrOutputIdleTimeout else ErrFirstOutputTimeout)
                    else ErrIdleTimeout), reader_close r)
      else (None, r))"

definition available_bytes :: "sse_reader \<Rightarrow> nat" where
  "available_bytes r = min (sr_maximum r - sr_event_bytes r) (length (sr_pending r))"

definition consume_pending :: "sse_reader \<Rightarrow> bool \<times> sse_reader" where
  "consume_pending r = (case scan_bytes (take (available_bytes r) (sr_pending r)) 0 r of
     ((taken, complete), r') \<Rightarrow>
       (complete, r'\<lparr>sr_event_bytes := sr_event_bytes r' + taken, sr_pending := drop taken (sr_pending r')\<rparr>))"

definition finish_event :: "(string \<Rightarrow> json option) \<Rightarrow> (nat \<Rightarrow> nat) \<Rightarrow> sse_input \<Rightarrow> sse_reader
    \<Rightarrow> (sse_read_error + string option) \<times> sse_input \<times> sse_reader" where
  "finish_event from_slice clock inp r = (case take_event from_slice (clock (in_ticks inp)) r of
     (event, r') \<Rightarrow> (Inr (Some event), inp\<lparr>in_ticks := in_ticks inp + 1\<rparr>, r'))"

lemma scan_taken: "fst (scan_bytes bytes n r) = (m, b) \<Longrightarrow> n \<le> m \<and> (bytes \<noteq> [] \<longrightarrow> n < m)"
proof (induction bytes arbitrary: n r)
  case (Cons byte bytes)
  then show ?case by (cases "scan_byte byte r") (fastforce split: bool.splits)
qed simp

lemma scan_pending: "sr_pending (snd (scan_byte byte r)) = sr_pending r" "sr_pending (snd (scan_bytes bytes n r)) = sr_pending r"
proof -
  show one: "sr_pending (snd (scan_byte byte r)) = sr_pending r" for byte r by (simp add: scan_byte_def Let_def)
  show "sr_pending (snd (scan_bytes bytes n r)) = sr_pending r"
  proof (induction bytes arbitrary: n r)
    case (Cons byte bytes)
    then show ?case using one [of byte r] by (cases "scan_byte byte r") (auto split: bool.splits)
  qed simp
qed

lemma consume_shrinks:
  assumes "consume_pending r = (complete, r')" and "available_bytes r \<noteq> 0"
  shows "length (sr_pending r') < length (sr_pending r)"
proof -
  obtain taken b s where s: "scan_bytes (take (available_bytes r) (sr_pending r)) 0 r = ((taken, b), s)"
    by (metis prod.collapse)
  have "sr_pending r \<noteq> []" "take (available_bytes r) (sr_pending r) \<noteq> []" using assms(2) by (auto simp: available_bytes_def)
  moreover have "0 < taken" using scan_taken [of "take (available_bytes r) (sr_pending r)" 0 r taken b] s calculation(2) by simp
  moreover have "sr_pending s = sr_pending r" using scan_pending(2) [of "take (available_bytes r) (sr_pending r)" 0 r] s by simp
  ultimately show ?thesis using assms(1) s by (auto simp: consume_pending_def)
qed

function (sequential) next_event ::
    "(string \<Rightarrow> json option) \<Rightarrow> (nat \<Rightarrow> nat) \<Rightarrow> sse_input \<Rightarrow> sse_reader
     \<Rightarrow> ((sse_read_error + string option) \<times> sse_input \<times> sse_reader) option" where
  "next_event from_slice clock inp reader =
     (let now = clock (in_ticks inp); inp = inp\<lparr>in_ticks := in_ticks inp + 1\<rparr> in
      case expire now reader of
        (Some e, r) \<Rightarrow> Some (Inl e, inp, r)
      | (None, r) \<Rightarrow>
          if sr_pending r \<noteq> [] then
            if available_bytes r = 0 then Some (Inl ErrEventTooLarge, inp, reader_close r)
            else (case consume_pending r of
                (True, r) \<Rightarrow> Some (finish_event from_slice clock inp (r\<lparr>sr_stream_start := False\<rparr>))
              | (False, r) \<Rightarrow> next_event from_slice clock inp r)
          else if \<not> sr_open r then
            Some (if sr_buffer r \<noteq> [] then finish_event from_slice clock inp r else (Inr None, inp, r))
          else (case in_polls inp of
              [] \<Rightarrow> None
            | poll # polls \<Rightarrow>
                let inp = inp\<lparr>in_polls := polls\<rparr> in
                case poll of
                  Data bytes \<Rightarrow> next_event from_slice clock inp (r\<lparr>sr_pending := bytes\<rparr>)
                | ReadError \<Rightarrow> Some (Inl ErrUpstream, inp, reader_close r)
                | Eof \<Rightarrow> next_event from_slice clock inp (r\<lparr>sr_open := False\<rparr>)
                | Elapsed \<Rightarrow> next_event from_slice clock inp r))"
  by pat_completeness auto
termination
  by (relation "inv_image (less_than <*lex*> less_than) (\<lambda>(_, _, inp, r). (length (in_polls inp), length (sr_pending r)))")
    (auto simp: expire_def split: if_splits dest!: consume_shrinks [OF sym])

declare next_event.simps [simp del]

end
