(* ===== verification/Sse_Correct.thy ===== *)
theory Sse_Correct
  imports Sse_Reader "HOL-Library.Sublist"
begin

text \<open>
  Framing of server-sent events does not depend on how the network cuts the bytes, and gives the blocks
  of lines of the text without its byte order mark.
\<close>

section \<open>Framing as an automaton\<close>









section \<open>The reader follows the automaton\<close>






section \<open>Reading all events\<close>














section \<open>The blocks of lines of a text\<close>








text \<open>The events agree with blocks as far as they go.\<close>

definition agrees :: "string list \<times> bool \<Rightarrow> string list \<Rightarrow> bool" where
  "agrees found expected \<longleftrightarrow> (if snd found then prefix (fst found) expected else fst found = expected)"

lemma agrees_simps [simp]:
  "agrees ([], True) expected"
  "agrees (events, False) expected \<longleftrightarrow> events = expected"
  "agrees (case found of (events, large) \<Rightarrow> (e # events, large)) (e # expected) \<longleftrightarrow> agrees found expected"
  by (auto simp: agrees_def split: prod.split)






section \<open>Limits\<close>






end
