(* ===== verification/Identity_Resolution.thy ===== *)
theory Identity_Resolution
  imports Editor_Honest Json_Value Subscription_Aliases
begin

text \<open>
  Resolving the session, thread and turn of a request from the evidence it carries
  (\<open>request_state_resolution_threads.rs\<close>, \<open>request_state_resolution_turn.rs\<close>, the turn of an item in
  \<open>request_state_resolution_items.rs\<close>), and copies of turns from imported history
  (\<open>subscription_history_import.rs\<close>, \<open>subscription_classifier_history.rs\<close>).  Every resolver is an action
  on the editor.
\<close>

section \<open>Evidence\<close>

record item_identity_evidence =
  ie_item_id :: "string option"
  ie_turn_id :: "string option"
  ie_had_create_time :: bool
  ie_is_turn_input :: bool

record identity_evidence =
  ev_installation :: "string option"
  ev_conversation :: "string option"
  ev_responses_conversation :: "string option"
  ev_thread :: "string option"
  ev_parent_thread :: "string option"
  ev_forked_from_thread :: "string option"
  ev_explicit_thread_lineage :: bool
  ev_turn :: "string option"
  ev_root_turn :: "string option"
  ev_parent_turn :: "string option"
  ev_turn_started_at_unix_ms :: "int option"
  ev_items :: "item_identity_evidence list"
  ev_new_turn_input :: bool
  ev_window_number :: "u64 option"
  ev_request_kind :: string
  ev_classifier :: bool
  ev_reviewer :: bool

definition is_prewarm :: "identity_evidence \<Rightarrow> bool" where
  "is_prewarm ev \<longleftrightarrow> ev_request_kind ev = ''prewarm''"

definition is_memory :: "identity_evidence \<Rightarrow> bool" where
  "is_memory ev \<longleftrightarrow> ev_request_kind ev = ''memory''"

definition ed_lookup :: "externals \<Rightarrow> editor \<Rightarrow> string \<Rightarrow> string \<Rightarrow> string" where
  "ed_lookup ext ed kind raw = identity_key ext (ed_keys ed) kind raw"

definition derived_lookup :: "externals \<Rightarrow> editor \<Rightarrow> string \<Rightarrow> string list \<Rightarrow> string" where
  "derived_lookup ext ed kind components = derived_key ext (ed_keys ed) kind components"

section \<open>Sessions and threads\<close>

text \<open>\<open>let Some(..) = a? && let Some(..) = b\<close>: the first answer, or the rest.\<close>

definition or_else_try :: "'a option edit \<Rightarrow> 'a edit \<Rightarrow> 'a edit" where
  "or_else_try first rest = abind first (\<lambda>found. case found of Some a \<Rightarrow> aret a | None \<Rightarrow> rest)"

definition projected_by :: "externals \<Rightarrow> wire_id_domain \<Rightarrow> string \<Rightarrow> (string \<Rightarrow> (string \<times> 'a) option edit) \<Rightarrow> 'a option edit" where
  "projected_by ext d raw by_id =
     abind (existing_wire_from_downstream ext d raw) (\<lambda>projected. case projected of
       None \<Rightarrow> aret None
     | Some projected \<Rightarrow> abind (by_id projected) (\<lambda>found. aret (map_option snd found)))"

definition resolve_conversation :: "externals \<Rightarrow> string \<Rightarrow> conversation_assignment edit" where
  "resolve_conversation ext raw =
     or_else_try (abind (conversation_by_id raw) (\<lambda>found. aret (map_option snd found)))
    (or_else_try (projected_by ext Session raw conversation_by_id)
    (abind (aget (\<lambda>ed. ed_lookup ext ed ''conversation'' raw)) (\<lambda>key.
     abind (existing_wire_from_downstream ext Session raw) (\<lambda>session.
     abind (existing_wire_from_downstream ext Thread raw) (\<lambda>thread.
     let reserved = option_or session thread in
     athen (case reserved of
         None \<Rightarrow> aret ()
       | Some x \<Rightarrow> abind (child_thread_by_id x) (\<lambda>child. aensure (child = None) (Msg ''root thread was an owning child'')))
     (conversation_with_id ext key reserved))))))"

definition resolve_existing_child :: "externals \<Rightarrow> string \<Rightarrow> thread_assignment option edit" where
  "resolve_existing_child ext raw =
     abind (child_thread_by_id raw) (\<lambda>found. case found of
       Some (_, assignment) \<Rightarrow> aret (Some assignment)
     | None \<Rightarrow> projected_by ext Thread raw child_thread_by_id)"

definition resolve_thread_reference :: "externals \<Rightarrow> string \<Rightarrow> string \<Rightarrow> string edit" where
  "resolve_thread_reference ext raw session_id =
     (if raw = session_id then aret session_id
      else abind (resolve_existing_child ext raw) (\<lambda>found. case found of
        Some existing \<Rightarrow>
          athen (aensure (ta_session_id existing = session_id) (Msg ''thread reference crosses sessions''))
          (aret (ta_id existing))
      | None \<Rightarrow>
          abind (existing_wire_from_downstream ext Session raw) (\<lambda>root. case root of
            Some root \<Rightarrow> athen (aensure (root = session_id) (Msg ''thread reference crosses sessions'')) (aret root)
          | None \<Rightarrow>
              abind (aget (\<lambda>ed. ed_lookup ext ed ''thread'' raw)) (\<lambda>key.
              abind (existing_child_thread key) (\<lambda>existing. case existing of
                Some existing \<Rightarrow>
                  athen (aensure (ta_session_id existing = session_id) (Msg ''thread reference crosses sessions''))
                  (aret (ta_id existing))
              | None \<Rightarrow>
                  abind (existing_wire_from_downstream ext Thread raw) (\<lambda>reserved.
                  abind (child_thread_with_id ext key session_id (Some session_id) reserved) (\<lambda>thread.
                  aret (ta_id thread))))))))"

definition known_thread :: "string \<Rightarrow> bool edit" where
  "known_thread raw = abind (conversation_by_id raw) (\<lambda>c. if c \<noteq> None then aret True
     else abind (child_thread_by_id raw) (\<lambda>t. aret (t \<noteq> None)))"

definition resolve_fork_reference :: "externals \<Rightarrow> string \<Rightarrow> string edit" where
  "resolve_fork_reference ext raw =
     abind (known_thread raw) (\<lambda>known. if known then aret raw
     else or_else_try (existing_wire_from_downstream ext Thread raw)
       (or_else_try (existing_wire_from_downstream ext Session raw)
       (abind (draw_v7 ext) (\<lambda>x.
        athen (bind_wire_pair ext Thread raw x) (aret x)))))"

type_synonym resolved_thread = "string \<times> string option \<times> string option \<times> u64"

definition atraverse :: "('a \<Rightarrow> 'b edit) \<Rightarrow> 'a option \<Rightarrow> 'b option edit" where
  "atraverse f x = (case x of None \<Rightarrow> aret None | Some a \<Rightarrow> abind (f a) (\<lambda>b. aret (Some b)))"

text \<open>Without explicit lineage: the thread that owns the previous response, or the root thread.\<close>

definition implicit_thread :: "string \<Rightarrow> wire_id_owner option \<Rightarrow> string option \<Rightarrow> resolved_thread edit" where
  "implicit_thread session_id previous_owner forked =
     (case previous_owner of
        Some owner \<Rightarrow>
          if wo_thread_id owner \<noteq> session_id then
            abind (child_thread_by_id (wo_thread_id owner)) (\<lambda>found.
            abind (alift (ok_or found (Msg ''previous response thread is missing''))) (\<lambda>(_, thread).
            athen (aensure (ta_session_id thread = session_id) (Msg ''previous response thread crosses sessions''))
            (aret (ta_id thread, ta_parent_thread_id thread, forked, ta_window_number thread))))
          else
            abind (aget (\<lambda>ed. window_number ed session_id)) (\<lambda>window.
            abind (alift (ok_or window (Msg ''root conversation window is missing''))) (\<lambda>window.
            aret (session_id, None, forked, window)))
      | None \<Rightarrow>
          abind (aget (\<lambda>ed. window_number ed session_id)) (\<lambda>window.
          abind (alift (ok_or window (Msg ''root conversation window is missing''))) (\<lambda>window.
          aret (session_id, None, forked, window))))"

definition lineage_parent :: "externals \<Rightarrow> identity_evidence \<Rightarrow> string \<Rightarrow> string edit" where
  "lineage_parent ext ev session_id = (case ev_parent_thread ev of
     Some raw \<Rightarrow> if ev_conversation ev = Some raw then aret session_id else resolve_thread_reference ext raw session_id
   | None \<Rightarrow> aret session_id)"

definition lineage_child :: "externals \<Rightarrow> identity_evidence \<Rightarrow> string \<Rightarrow> string \<Rightarrow> thread_assignment edit" where
  "lineage_child ext ev session_id parent = (case ev_thread ev of
     Some raw \<Rightarrow>
       abind (resolve_existing_child ext raw) (\<lambda>found. case found of
         Some child \<Rightarrow>
           athen (aensure (ta_session_id child = session_id \<and> ta_parent_thread_id child = Some parent)
             (Msg ''child thread relationship changed''))
           (aret child)
       | None \<Rightarrow>
           abind (aget (\<lambda>ed. ed_lookup ext ed ''thread'' raw)) (\<lambda>key.
           abind (existing_wire_from_downstream ext Thread raw) (\<lambda>reserved.
           athen (case reserved of
               None \<Rightarrow> aret ()
             | Some x \<Rightarrow> abind (conversation_by_id x) (\<lambda>root.
                 aensure (root = None) (Msg ''child thread was an independent root'')))
           (child_thread_with_id ext key session_id (Some parent) reserved))))
   | None \<Rightarrow>
       abind (aget (\<lambda>ed. derived_lookup ext ed ''thread-fallback'' [session_id, parent, ev_request_kind ev])) (\<lambda>key.
       child_thread ext key session_id (Some parent)))"

definition resolve_thread :: "externals \<Rightarrow> identity_evidence \<Rightarrow> string \<Rightarrow> wire_id_owner option \<Rightarrow> resolved_thread edit" where
  "resolve_thread ext ev session_id previous_owner =
     abind (atraverse (resolve_fork_reference ext) (ev_forked_from_thread ev)) (\<lambda>forked.
     if \<not> ev_explicit_thread_lineage ev then implicit_thread session_id previous_owner forked
     else
       abind (lineage_parent ext ev session_id) (\<lambda>parent.
       abind (lineage_child ext ev session_id parent) (\<lambda>child.
       aret (ta_id child, Some parent, forked, ta_window_number child))))"

section \<open>Turns\<close>

definition turn_key_for_raw :: "externals \<Rightarrow> string \<Rightarrow> string edit" where
  "turn_key_for_raw ext raw =
     abind (turn_by_id raw) (\<lambda>found. case found of
       Some (key, _) \<Rightarrow> aret key
     | None \<Rightarrow>
         abind (existing_wire_from_downstream ext Turn raw) (\<lambda>projected.
         abind (case projected of None \<Rightarrow> aret None | Some p \<Rightarrow> turn_by_id p) (\<lambda>found. case found of
           Some (key, _) \<Rightarrow> aret key
         | None \<Rightarrow> aget (\<lambda>ed. ed_lookup ext ed ''turn'' raw))))"

record resolved_turn =
  rt_turn_id :: "string option"
  rt_root_turn_id :: "string option"
  rt_parent_turn_id :: "string option"
  rt_started_at_unix_ms :: "int option"

definition resolved :: "turn_assignment \<Rightarrow> resolved_turn" where
  "resolved turn = \<lparr>rt_turn_id = Some (ua_id turn), rt_root_turn_id = Some (ua_root_turn_id turn),
     rt_parent_turn_id = ua_parent_turn_id turn, rt_started_at_unix_ms = Some (ua_started_at_unix_ms turn)\<rparr>"

definition admit_turn ::
    "externals \<Rightarrow> identity_evidence \<Rightarrow> string \<Rightarrow> string \<Rightarrow> string option \<Rightarrow> string option \<Rightarrow> string option \<Rightarrow> turn_assignment edit" where
  "admit_turn ext ev key thread root parent reserved =
     (if ev_classifier ev then classifier_turn_with_id ext key thread root parent reserved
      else turn_with_id ext key thread root parent reserved)"

definition child_lineage :: "identity_evidence \<Rightarrow> bool" where
  "child_lineage ev \<longleftrightarrow> ev_parent_turn ev \<noteq> None \<or> ev_explicit_thread_lineage ev \<and> ev_root_turn ev \<noteq> None"

definition inherited_root :: "externals \<Rightarrow> identity_evidence \<Rightarrow> string option edit" where
  "inherited_root ext ev =
     (if (ev_classifier ev \<or> ev_reviewer ev) \<and> ev_root_turn ev = None then
        (case ev_parent_turn ev of
           None \<Rightarrow> aret None
         | Some parent \<Rightarrow> abind (turn_key_for_raw ext parent) (\<lambda>key.
             abind (existing_turn key) (\<lambda>turn. aret (map_option ua_root_turn_id turn))))
      else aret None)"

definition resolve_root ::
    "externals \<Rightarrow> string \<Rightarrow> string \<Rightarrow> string \<Rightarrow> string option \<Rightarrow> turn_assignment edit" where
  "resolve_root ext root_key thread_id session_id root_alias =
     abind (existing_turn root_key) (\<lambda>found. case found of
       Some known \<Rightarrow>
         abind (aget (\<lambda>ed. thread_is_ancestor ed (ua_thread_id known) thread_id)) (\<lambda>ancestor.
         athen (aensure (ua_id known = ua_root_turn_id known \<and> ua_parent_turn_id known = None \<and> ancestor)
           (Msg ''root turn belongs to another lineage''))
         (aret known))
     | None \<Rightarrow> turn_with_id ext root_key session_id None None root_alias)"

definition resolve_parent ::
    "externals \<Rightarrow> string \<Rightarrow> turn_assignment \<Rightarrow> string \<Rightarrow> string \<Rightarrow> string edit" where
  "resolve_parent ext root_key root session_id raw =
     abind (turn_key_for_raw ext raw) (\<lambda>key.
     if key = root_key then aret (ua_id root)
     else abind (existing_turn key) (\<lambda>found. case found of
       Some existing \<Rightarrow>
         athen (aensure (ua_root_turn_id existing = ua_id root) (Msg ''parent turn crosses roots''))
         (aret (ua_id existing))
     | None \<Rightarrow>
         abind (existing_wire_from_downstream ext Turn raw) (\<lambda>alias.
         abind (turn_with_id ext key session_id (Some (ua_id root)) (Some (ua_id root)) alias) (\<lambda>turn.
         aret (ua_id turn)))))"

definition resolve_turn ::
    "externals \<Rightarrow> identity_evidence \<Rightarrow> string \<Rightarrow> string \<Rightarrow> string \<Rightarrow> string option \<Rightarrow> resolved_turn edit" where
  "resolve_turn ext ev turn_key thread_id session_id reserved_turn =
     (if is_memory ev \<and> ev_turn ev = None then
        aret \<lparr>rt_turn_id = None, rt_root_turn_id = None, rt_parent_turn_id = None, rt_started_at_unix_ms = None\<rparr>
      else if is_prewarm ev then
        aret \<lparr>rt_turn_id = Some [], rt_root_turn_id = None, rt_parent_turn_id = None, rt_started_at_unix_ms = None\<rparr>
      else if \<not> child_lineage ev then
        abind (admit_turn ext ev turn_key thread_id None None reserved_turn) (\<lambda>turn. aret (resolved turn))
      else
        abind (inherited_root ext ev) (\<lambda>inherited.
        let root_raw = (case option_or (option_or (ev_root_turn ev) inherited) (ev_parent_turn ev) of
              Some raw \<Rightarrow> raw | None \<Rightarrow> turn_key) in
        abind (turn_key_for_raw ext root_raw) (\<lambda>root_key.
        abind (existing_wire_from_downstream ext Turn root_raw) (\<lambda>root_alias.
        if turn_key = root_key then
          athen (aensure (ev_parent_turn ev = None) (Msg ''self-rooted turn has a parent''))
          (abind (admit_turn ext ev turn_key thread_id None None reserved_turn) (\<lambda>turn. aret (resolved turn)))
        else
          abind (resolve_root ext root_key thread_id session_id root_alias) (\<lambda>root.
          abind (atraverse (resolve_parent ext root_key root session_id) (ev_parent_turn ev)) (\<lambda>parent.
          abind (admit_turn ext ev turn_key thread_id (Some (ua_id root)) parent reserved_turn) (\<lambda>turn.
          aret (resolved turn))))))))"

section \<open>Imported history\<close>

text \<open>What the checks below read of the plan of a context and of its baseline.\<close>

record history_baseline =
  hb_completed :: bool
  hb_history :: "json list option"
  hb_request_kind :: string
  hb_session_id :: string
  hb_parent_thread_id :: "string option"
  hb_lineage_turns :: "string list"

record history_import =
  hi_allow :: bool
  hi_scope :: string
  hi_previous :: "string option"
  hi_checkpoint :: bool
  hi_baseline :: "history_baseline option"
  hi_contexts :: "context_inner option" \<comment> \<open>after expiry; \<open>None\<close> is a poisoned lock\<close>

text \<open>What the checks read of the identity resolved so far.\<close>

record item_target =
  it_session_id :: string
  it_thread_id :: string
  it_parent_thread_id :: "string option"
  it_forked_from_thread_id :: "string option"
  it_turn_id :: "string option"
  it_request_kind :: string

text \<open>
  The walk up from the thread and then from the fork source, over a common set of visited threads.  The
  first argument bounds the number of parents followed from one root; the number of child threads is
  enough, because only child threads have parents and none is visited twice.
\<close>

primrec import_walk ::
    "nat \<Rightarrow> externals \<Rightarrow> turn_assignment \<Rightarrow> string set \<Rightarrow> string \<Rightarrow> (string option \<times> string set) edit" where
  "import_walk 0 ext source visited thread = afail (Msg ''import walk exhausted'')"
| "import_walk (Suc n) ext source visited thread =
     (if thread \<in> visited then aret (None, visited)
      else abind (aget (\<lambda>ed. derived_lookup ext ed ''imported-history-turn'' [thread, ua_id source])) (\<lambda>candidate.
        abind (existing_turn candidate) (\<lambda>found. case found of
          Some imported \<Rightarrow>
            athen (aensure (ua_thread_id imported = thread) (Msg ''imported turn owner changed''))
           (athen (preserve_inventory_origin candidate source)
            (aret (Some (ua_id imported), insert thread visited)))
        | None \<Rightarrow>
            abind (child_thread_by_id thread) (\<lambda>child.
            case Option.bind child (\<lambda>(_, entry). ta_parent_thread_id entry) of
              None \<Rightarrow> aret (None, insert thread visited)
            | Some parent \<Rightarrow> import_walk n ext source (insert thread visited) parent))))"

fun import_roots ::
    "externals \<Rightarrow> turn_assignment \<Rightarrow> string set \<Rightarrow> string list \<Rightarrow> string option edit" where
  "import_roots ext source visited [] = aret None"
| "import_roots ext source visited (root # roots) =
     abind (aget (\<lambda>ed. bm_len (child_threads (ed_scope ed)) + 1)) (\<lambda>n.
     abind (import_walk n ext source visited root) (\<lambda>(found, visited). case found of
       Some x \<Rightarrow> aret (Some x)
     | None \<Rightarrow> import_roots ext source visited roots))"

definition session_in_use :: "context_inner \<Rightarrow> string \<Rightarrow> string \<Rightarrow> bool" where
  "session_in_use inner scope session \<longleftrightarrow>
     (\<exists>r \<in> set (scope_records inner scope). cr_session_id r = session \<and> cr_has_history r)
     \<or> (\<exists>r \<in> set (active_records inner scope). cr_session_id r = session)
     \<or> (scope, session) \<in> set (ci_reservations inner)"

definition resolve_turn_for_thread ::
    "externals \<Rightarrow> history_import \<Rightarrow> turn_assignment \<Rightarrow> string \<Rightarrow> string option \<Rightarrow> string option edit" where
  "resolve_turn_for_thread ext import source thread forked =
     abind (aget (\<lambda>ed. derived_lookup ext ed ''imported-history-turn'' [thread, ua_id source])) (\<lambda>key.
     abind (import_roots ext source {} (thread # (case forked of None \<Rightarrow> [] | Some f \<Rightarrow> [f]))) (\<lambda>found.
     case found of
       Some x \<Rightarrow> aret (Some x)
     | None \<Rightarrow>
         if \<not> hi_allow import then aret None
         else
           abind (child_thread_by_id (ua_thread_id source)) (\<lambda>owner.
           let session = (case owner of Some (_, t) \<Rightarrow> ta_session_id t | None \<Rightarrow> ua_thread_id source) in
           abind (alift (ok_or (hi_contexts import) (Msg ''context store poisoned''))) (\<lambda>inner.
           if session_in_use inner (hi_scope import) session then aret None
           else
             abind (turn_with_id ext key thread None None None) (\<lambda>imported.
             athen (preserve_inventory_origin key source)
            (athen (wire_from_upstream ext Turn (ua_id imported))
             (aret (Some (ua_id imported)))))))))"

definition import_resolve_turn ::
    "externals \<Rightarrow> history_import \<Rightarrow> turn_assignment \<Rightarrow> item_target \<Rightarrow> string option edit" where
  "import_resolve_turn ext import source target =
     resolve_turn_for_thread ext import source (it_thread_id target) (it_forked_from_thread_id target)"

definition classifier_history_source_allowed :: "history_import \<Rightarrow> editor \<Rightarrow> string \<Rightarrow> item_target \<Rightarrow> bool" where
  "classifier_history_source_allowed import ed turn target =
     (case (it_parent_thread_id target, hi_baseline import) of
        (Some source, Some base) \<Rightarrow>
          it_request_kind target = ''guardian_classifier'' \<and> hi_previous import = None \<and> \<not> hi_checkpoint import
          \<and> hb_completed base \<and> (case hb_history base of None \<Rightarrow> False | Some h \<Rightarrow> 0 < length h)
          \<and> hb_request_kind base = ''guardian_classifier'' \<and> hb_session_id base = it_session_id target
          \<and> hb_parent_thread_id base = Some source \<and> turn \<in> set (hb_lineage_turns base)
          \<and> classifier_history_origin ed turn (it_session_id target) source
      | _ \<Rightarrow> False)"

definition META :: string where "META = ''internal_chat_message_metadata_passthrough''"

definition saved_turn :: "history_import \<Rightarrow> nat \<Rightarrow> string option" where
  "saved_turn import index =
     Option.bind (hi_baseline import) (\<lambda>base. Option.bind (hb_history base) (\<lambda>history.
     if index < length history
     then Option.bind (Option.bind (jget (history ! index) META) (\<lambda>metadata. jget metadata ''turn_id'')) as_str else None))"

definition classifier_history_item_allowed ::
    "externals \<Rightarrow> history_import \<Rightarrow> string \<Rightarrow> item_target \<Rightarrow> nat option \<Rightarrow> bool edit" where
  "classifier_history_item_allowed ext import turn target index =
     abind (aget (\<lambda>ed. classifier_history_source_allowed import ed turn target)) (\<lambda>allowed.
     case (if allowed then Option.bind index (saved_turn import) else None) of
       None \<Rightarrow> aret False
     | Some raw \<Rightarrow>
         if raw = turn then aret True
         else abind (existing_wire_from_downstream ext Turn raw) (\<lambda>mapped. aret (mapped = Some turn)))"

section \<open>The turn of an item\<close>

definition project_item_turn ::
    "externals \<Rightarrow> string option \<Rightarrow> string option \<Rightarrow> item_target \<Rightarrow> history_import option \<Rightarrow> nat option \<Rightarrow> string option edit" where
  "project_item_turn ext raw current_raw target import index =
     (if it_request_kind target = ''memory'' then aret raw
      else case raw of
        None \<Rightarrow> aret (it_turn_id target)
      | Some r \<Rightarrow>
          if raw = current_raw then aret (it_turn_id target)
          else
            abind (turn_key_for_raw ext r) (\<lambda>key.
            abind (existing_turn key) (\<lambda>found. case found of
              Some existing \<Rightarrow>
                abind (aget (\<lambda>ed. history_thread_allowed ed (ua_thread_id existing) (it_thread_id target) (it_forked_from_thread_id target)))
                  (\<lambda>related.
                abind (case import of
                    Some im \<Rightarrow> if related then aret True else classifier_history_item_allowed ext im (ua_id existing) target index
                  | None \<Rightarrow> aret related) (\<lambda>allowed.
                abind (case import of
                    Some im \<Rightarrow> if allowed then aret None else import_resolve_turn ext im existing target
                  | None \<Rightarrow> aret None) (\<lambda>imported.
                case imported of
                  Some x \<Rightarrow> aret (Some x)
                | None \<Rightarrow>
                    athen (aensure allowed (Msg ''historical turn belongs to an unrelated thread''))
                   (athen (bind_wire_pair ext Turn r (ua_id existing))
                    (aret (Some (ua_id existing)))))))
            | None \<Rightarrow>
                athen (aensure (it_request_kind target \<noteq> ''guardian_classifier'')
                  (Msg ''classifier historical turn lacks scoped completion evidence''))
               (abind (or_else_try (existing_wire_from_downstream ext Turn r) (draw_v7 ext)) (\<lambda>projected.
                athen (bind_wire_pair ext Turn r projected)
                (aret (Some projected)))))))"

end
