(* ===== verification/Request_Resolution.thy ===== *)
theory Request_Resolution
  imports Identity_Resolution Output_Lifecycle
begin

text \<open>
  Resolving the identity of a request (\<open>request_state_resolution.rs\<close>): its installation, conversation, thread, turn,
  window and pending compaction, and the turns and identifiers of its input items
  (\<open>request_state_resolution_items.rs\<close>).  Which turn a request without one continues is chosen in
  \<open>subscription_turn.rs\<close>; what starts a turn is in \<open>agent_message.rs\<close>.
\<close>

section \<open>Agent messages\<close>

text \<open>Only whether a message can be read and its first text matter here.\<close>

definition agent_part_ok :: "json \<Rightarrow> bool" where
  "agent_part_ok part = (case type_of part of
     Some k \<Rightarrow> if k = ''input_text'' then str_of (jget part ''text'') \<noteq> None
       else if k = ''encrypted_content'' then str_of (jget part ''encrypted_content'') \<noteq> None
       else False
   | None \<Rightarrow> False)"

record agent_message =
  am_author :: string
  am_recipient :: string
  am_content :: "json list"

definition agent_message_read :: "json \<Rightarrow> agent_message option" where
  "agent_message_read item =
     (if type_of item \<noteq> Some ''agent_message'' then None
      else Option.bind (str_of (jget item ''author'')) (\<lambda>author.
        Option.bind (str_of (jget item ''recipient'')) (\<lambda>recipient.
        Option.bind (Option.bind (jget item ''content'') as_array) (\<lambda>content.
        if list_all agent_part_ok content
        then Some \<lparr>am_author = author, am_recipient = recipient, am_content = content\<rparr> else None))))"

definition first_text :: "agent_message \<Rightarrow> string option" where
  "first_text self = (case am_content self of
     [] \<Rightarrow> None
   | first # _ \<Rightarrow> if type_of first = Some ''input_text'' then str_of (jget first ''text'') else None)"

definition NEW_TASK :: string where "NEW_TASK = ''Message Type: NEW_TASK'' @ [CHR 0x0A]"

definition new_task :: "agent_message \<Rightarrow> bool" where
  "new_task self \<longleftrightarrow> is_some_and (first_text self) (\<lambda>text. starts_with text NEW_TASK)"

definition starts_turn :: "json \<Rightarrow> bool" where
  "starts_turn item \<longleftrightarrow> str_of (jget item ''role'') = Some ''user''
     \<or> is_some_and (agent_message_read item) new_task"

section \<open>The turn a request continues\<close>

definition model_output :: "json \<Rightarrow> bool" where
  "model_output item = (case type_of item of
     Some k \<Rightarrow> if k = ''message'' then str_of (jget item ''role'') = Some ''assistant''
       else k \<in> {''function_call'', ''custom_tool_call'', ''local_shell_call'', ''web_search_call'',
         ''image_generation_call'', ''tool_search_call'', ''compaction''}
   | None \<Rightarrow> False)"

definition known_turn :: "externals \<Rightarrow> string \<Rightarrow> turn_assignment option edit" where
  "known_turn ext raw =
     abind (turn_by_id raw) (\<lambda>found. case found of
       Some (_, turn) \<Rightarrow> aret (Some turn)
     | None \<Rightarrow>
         abind (existing_wire_from_downstream ext Turn raw) (\<lambda>mapped. case mapped of
           Some mapped \<Rightarrow> abind (turn_by_id mapped) (\<lambda>found. aret (map_option snd found))
         | None \<Rightarrow> abind (aget (\<lambda>ed. ed_lookup ext ed ''turn'' raw)) existing_turn))"

text \<open>What the choice of the turn reads of the plan, besides \<open>history_import\<close>.\<close>

record history_plan =
  hp_import :: history_import
  hp_starts_new_turn :: bool
  hp_new_turn_input :: bool
  hp_turn :: "string option"
  hp_identity_baseline :: "(string \<times> string option) option" \<comment> \<open>thread and turn\<close>
  hp_association :: "(string \<times> string option) option" \<comment> \<open>thread and turn\<close>
  hp_input :: "json list"

text \<open>Code outside the repository: \<open>serde_json\<close> and \<open>uuid\<close>.\<close>

record codecs =
  to_vec :: "json \<Rightarrow> string"
  from_str :: "string \<Rightarrow> json option"
  as_bytes :: "string \<Rightarrow> string"
  new_v5 :: "string \<Rightarrow> string"
  from_micros :: "int \<Rightarrow> string option"

definition tool_result :: "json \<Rightarrow> bool" where
  "tool_result item \<longleftrightarrow>
     type_of item \<in> {Some ''function_call_output'', Some ''custom_tool_call_output'', Some ''tool_search_output''}"

text \<open>The turn that produced the call a tool result answers; \<open>earlier\<close> is the input before it, last item first.\<close>

definition invocation_turn :: "json \<Rightarrow> json list \<Rightarrow> string option" where
  "invocation_turn result earlier =
     (if \<not> tool_result result then None
      else Option.bind (str_of (jget result ''call_id'')) (\<lambda>call_id.
        Option.bind (List.find (\<lambda>call. model_output call \<and> str_of (jget call ''call_id'') = Some call_id) earlier) (\<lambda>call.
        str_of (pointer call [META, ''turn_id'']))))"

definition execution_turn ::
    "externals \<Rightarrow> history_import \<Rightarrow> string \<Rightarrow> string option \<Rightarrow> turn_assignment \<Rightarrow> string option edit" where
  "execution_turn ext import thread forked source =
     (if ua_thread_id source = thread then aret (Some (ua_id source))
      else abind (resolve_turn_for_thread ext import source thread forked) (\<lambda>turn. case turn of
        None \<Rightarrow> aret None
      | Some t \<Rightarrow> abind (turn_by_id t) (\<lambda>owner.
          aret (if is_some_and owner (\<lambda>(_, owner). ua_thread_id owner = thread) then Some t else None))))"

text \<open>The loop over the trailing results, the input given last item first.\<close>

fun trailing_turn ::
    "externals \<Rightarrow> history_import \<Rightarrow> string \<Rightarrow> string option \<Rightarrow> json list \<Rightarrow> string option \<Rightarrow> string option edit" where
  "trailing_turn ext import thread forked [] selected = aret selected"
| "trailing_turn ext import thread forked (result # earlier) selected =
     (if model_output result \<or> starts_turn result then aret selected
      else case invocation_turn result earlier of
        None \<Rightarrow> trailing_turn ext import thread forked earlier selected
      | Some raw \<Rightarrow>
          abind (known_turn ext raw) (\<lambda>source. case source of
            None \<Rightarrow> trailing_turn ext import thread forked earlier selected
          | Some source \<Rightarrow>
              abind (execution_turn ext import thread forked source) (\<lambda>turn. case turn of
                None \<Rightarrow> trailing_turn ext import thread forked earlier selected
              | Some t \<Rightarrow>
                  athen (aensure (is_none_or selected (\<lambda>previous. previous = t)) (Msg ''tool continuation spans execution turns''))
                  (trailing_turn ext import thread forked earlier (Some t)))))"

definition fresh_turn :: "externals \<Rightarrow> string option edit" where
  "fresh_turn ext = abind (draw_v7 ext) (\<lambda>x. aret (Some x))"

definition associated_turn :: "history_plan \<Rightarrow> string \<Rightarrow> string option" where
  "associated_turn plan thread = Option.bind (hp_association plan) (\<lambda>(source, turn).
     if source = thread then Option.bind turn (\<lambda>t. if t \<noteq> [] then Some t else None) else None)"

definition continued_turn :: "externals \<Rightarrow> history_plan \<Rightarrow> string \<Rightarrow> string option \<Rightarrow> string option edit" where
  "continued_turn ext plan thread forked =
     (case associated_turn plan thread of
        Some turn \<Rightarrow> aret (Some turn)
      | None \<Rightarrow>
          abind (trailing_turn ext (hp_import plan) thread forked (rev (hp_input plan)) None) (\<lambda>selected.
          abind (aget (\<lambda>ed. option_or selected (current_turn_id ed thread))) (\<lambda>turn.
          case turn of Some t \<Rightarrow> aret (Some t) | None \<Rightarrow> fresh_turn ext)))"

definition current_turn ::
    "externals \<Rightarrow> codecs \<Rightarrow> history_plan \<Rightarrow> identity_evidence \<Rightarrow> string \<Rightarrow> string option \<Rightarrow> string option edit" where
  "current_turn ext cd plan ev thread forked =
     (case ev_turn ev of
        Some turn \<Rightarrow> aret (Some turn)
      | None \<Rightarrow>
          if is_memory ev then aret None
          else if hp_starts_new_turn plan
            \<or> hp_new_turn_input plan \<and> is_some_and (hp_identity_baseline plan) (\<lambda>(base, _). base \<noteq> thread)
          then fresh_turn ext
          else (case hp_identity_baseline plan of
              Some (base_thread, base_turn) \<Rightarrow>
                if base_thread = thread then
                  (case hp_turn plan of Some turn \<Rightarrow> aret (Some turn) | None \<Rightarrow> continued_turn ext plan thread forked)
                else
                  let source = (case option_or (hi_previous (hp_import plan)) base_turn of Some s \<Rightarrow> s | None \<Rightarrow> base_thread) in
                  abind (aget (\<lambda>ed. derived_lookup ext ed ''child-continuation-turn'' [thread, source])) (\<lambda>key.
                  aret (Some (new_v5 cd key)))
            | None \<Rightarrow> continued_turn ext plan thread forked))"

section \<open>Anchors\<close>

text \<open>An object without its identifier and its metadata, as text.\<close>

definition item_anchor :: "codecs \<Rightarrow> (string \<times> json) list \<Rightarrow> string" where
  "item_anchor cd item = to_vec cd (JObject (obj_remove META (obj_remove ''id'' item)))"

definition previous_response :: "(string \<times> json) list \<Rightarrow> string option" where
  "previous_response object =
     Option.bind (str_of (map_of object ''previous_response_id'')) (\<lambda>value. if value \<noteq> [] then Some value else None)"

definition input_items :: "(string \<times> json) list \<Rightarrow> json list option" where
  "input_items object = Option.bind (map_of object ''input'') as_array"

definition latest_turn_input_anchor :: "codecs \<Rightarrow> (string \<times> json) list \<Rightarrow> string option" where
  "latest_turn_input_anchor cd object =
     Option.bind (input_items object) (\<lambda>items.
     Option.bind (List.find starts_turn (rev items)) (\<lambda>item.
     map_option (item_anchor cd) (as_object item)))"

definition fresh_anchor :: "externals \<Rightarrow> codecs \<Rightarrow> string edit" where
  "fresh_anchor ext cd = abind (draw_v7 ext) (\<lambda>x. aret (as_bytes cd x))"

definition turn_anchor :: "externals \<Rightarrow> codecs \<Rightarrow> (string \<times> json) list \<Rightarrow> identity_evidence \<Rightarrow> string edit" where
  "turn_anchor ext cd object ev =
     (case Option.bind (List.find ie_is_turn_input (rev (ev_items ev))) ie_item_id of
        Some x \<Rightarrow> aret x
      | None \<Rightarrow> (case previous_response object of
          Some previous \<Rightarrow> aret (previous @ (case latest_turn_input_anchor cd object of Some user \<Rightarrow> user | None \<Rightarrow> []))
        | None \<Rightarrow> fresh_anchor ext cd))"

definition operation_anchor ::
    "externals \<Rightarrow> codecs \<Rightarrow> (string \<times> json) list \<Rightarrow> identity_evidence \<Rightarrow> bool \<Rightarrow> string \<Rightarrow> string edit" where
  "operation_anchor ext cd object ev has_explicit_turn turn_key =
     (if has_explicit_turn then aret turn_key
      else (case find_map ie_item_id (rev (ev_items ev)) of
          Some x \<Rightarrow> aret x
        | None \<Rightarrow> (case previous_response object of
            Some previous \<Rightarrow> aret previous
          | None \<Rightarrow> fresh_anchor ext cd)))"

definition requires_compaction_item :: "codecs \<Rightarrow> (string \<times> json) list \<Rightarrow> bool" where
  "requires_compaction_item cd object =
     (let turn = Option.bind (str_of (Option.bind (map_of object ''client_metadata'')
            (\<lambda>metadata. jget metadata ''x-codex-turn-metadata''))) (from_str cd);
          local = str_of (Option.bind turn (\<lambda>t. pointer t [''compaction'', ''implementation''])) = Some ''responses''
      in \<not> local \<or> is_some_and (input_items object) (list_ex (\<lambda>item. type_of item = Some ''compaction_trigger'')))"

section \<open>The identity of a request\<close>

record resolved_identity =
  ri_installation_id :: string
  ri_session_id :: string
  ri_thread_id :: string
  ri_parent_thread_id :: "string option"
  ri_forked_from_thread_id :: "string option"
  ri_turn_id :: "string option"
  ri_root_turn_id :: "string option"
  ri_parent_turn_id :: "string option"
  ri_window_number :: u64
  ri_request_kind :: string
  ri_turn_started_at_unix_ms :: "int option"

definition target_of :: "resolved_identity \<Rightarrow> item_target" where
  "target_of i = \<lparr>it_session_id = ri_session_id i, it_thread_id = ri_thread_id i, it_parent_thread_id = ri_parent_thread_id i,
     it_forked_from_thread_id = ri_forked_from_thread_id i, it_turn_id = ri_turn_id i, it_request_kind = ri_request_kind i\<rparr>"

definition resolve_installation :: "externals \<Rightarrow> fingerprint_mode \<Rightarrow> identity_evidence \<Rightarrow> string edit" where
  "resolve_installation ext mode ev =
     abind (aget (\<lambda>ed. case ev_installation ev of
         Some raw \<Rightarrow> ed_lookup ext ed ''installation'' raw
       | None \<Rightarrow> derived_lookup ext ed ''installation-absent'' [''absent''])) (\<lambda>lookup.
     abind (installation_id ext mode (if mode = Off then Some lookup else None)) (\<lambda>installation.
     athen (case ev_installation ev of
         Some raw \<Rightarrow> bind_wire_pair ext Installation raw installation
       | None \<Rightarrow> aret ())
     (aret installation)))"

definition previous_response_owner :: "externals \<Rightarrow> (string \<times> json) list \<Rightarrow> wire_id_owner option edit" where
  "previous_response_owner ext object = atraverse (required_response_owner_from_downstream ext) (previous_response object)"

text \<open>The conversation, and whether the owner of the previous response chose it.\<close>

definition select_conversation ::
    "externals \<Rightarrow> codecs \<Rightarrow> identity_evidence \<Rightarrow> wire_id_owner option \<Rightarrow> (conversation_assignment \<times> bool) edit" where
  "select_conversation ext cd ev previous_owner =
     (case ev_conversation ev of
        Some raw \<Rightarrow> abind (resolve_conversation ext raw) (\<lambda>c. aret (c, False))
      | None \<Rightarrow> (case previous_owner of
          Some owner \<Rightarrow>
            abind (conversation_by_id (wo_session_id owner)) (\<lambda>found.
            abind (alift (ok_or found (Msg ''previous response session is missing''))) (\<lambda>(_, c). aret (c, True)))
        | None \<Rightarrow> (case ev_responses_conversation ev of
            Some raw \<Rightarrow>
              athen (required_wire_from_downstream ext Conversation raw True)
             (abind (aget (\<lambda>ed. ed_lookup ext ed ''responses-conversation'' raw)) (\<lambda>key.
              abind (conversation_with_id ext key None) (\<lambda>c. aret (c, False))))
          | None \<Rightarrow>
              abind (fresh_anchor ext cd) (\<lambda>anchor.
              abind (aget (\<lambda>ed. derived_lookup ext ed ''conversation-fallback'' [anchor])) (\<lambda>key.
              abind (conversation_with_id ext key None) (\<lambda>c. aret (c, False)))))))"

definition bind_evidence :: "externals \<Rightarrow> wire_id_domain \<Rightarrow> string option \<Rightarrow> string option \<Rightarrow> unit edit" where
  "bind_evidence ext d raw projected = (case raw of
     Some r \<Rightarrow> (case projected of Some p \<Rightarrow> bind_wire_pair ext d r p | None \<Rightarrow> aret ())
   | None \<Rightarrow> aret ())"

definition current_turn_raw ::
    "externals \<Rightarrow> codecs \<Rightarrow> history_plan option \<Rightarrow> identity_evidence \<Rightarrow> string \<Rightarrow> string option \<Rightarrow> string option edit" where
  "current_turn_raw ext cd import ev thread forked =
     (if is_prewarm ev then aret None
      else case import of
        Some plan \<Rightarrow> current_turn ext cd plan ev thread forked
      | None \<Rightarrow> aret (option_or (Option.bind (ev_turn ev) (\<lambda>t. if t \<noteq> [] then Some t else None))
          (find_map ie_turn_id (rev (ev_items ev)))))"

definition resolve_turn_key ::
    "externals \<Rightarrow> codecs \<Rightarrow> (string \<times> json) list \<Rightarrow> identity_evidence \<Rightarrow> string \<Rightarrow> string option \<Rightarrow> string edit" where
  "resolve_turn_key ext cd object ev thread raw =
     (case raw of
        Some raw \<Rightarrow> turn_key_for_raw ext raw
      | None \<Rightarrow>
          abind (aget (\<lambda>ed. if ev_new_turn_input ev then None else current_turn_id ed thread)) (\<lambda>current. case current of
            Some current \<Rightarrow> turn_key_for_raw ext current
          | None \<Rightarrow>
              abind (turn_anchor ext cd object ev) (\<lambda>anchor.
              aget (\<lambda>ed. derived_lookup ext ed ''turn-fallback'' [thread, anchor]))))"

text \<open>The caller's own start time replaces the one of the ledger.\<close>

definition observe_start :: "identity_evidence \<Rightarrow> string \<Rightarrow> resolved_turn \<Rightarrow> resolved_turn edit" where
  "observe_start ev turn_key turn =
     (if \<not> is_memory ev \<and> rt_started_at_unix_ms turn \<noteq> None then
        (case ev_turn_started_at_unix_ms ev of
           Some start \<Rightarrow> athen (observe_turn_started_at turn_key start) (aret (turn\<lparr>rt_started_at_unix_ms := Some start\<rparr>))
         | None \<Rightarrow> aret turn)
      else aret turn)"

definition advance_current_turn :: "identity_evidence \<Rightarrow> string \<Rightarrow> resolved_turn \<Rightarrow> unit edit" where
  "advance_current_turn ev thread turn =
     (if ev_classifier ev then aret ()
      else case rt_turn_id turn of
        Some t \<Rightarrow> if t = [] then aret () else set_current_turn thread t
      | None \<Rightarrow> aret ())"

definition open_compaction ::
    "externals \<Rightarrow> codecs \<Rightarrow> (string \<times> json) list \<Rightarrow> identity_evidence \<Rightarrow> string \<Rightarrow> bool \<Rightarrow> string \<Rightarrow> pending_compaction option edit" where
  "open_compaction ext cd object ev thread explicit turn_key =
     (if ev_request_kind ev = ''compaction'' then
        abind (operation_anchor ext cd object ev explicit turn_key) (\<lambda>marker.
        abind (aget (\<lambda>ed. derived_lookup ext ed ''compaction'' [thread, marker])) (\<lambda>marker_key.
        abind (begin_compaction marker_key thread) (\<lambda>target.
        aret (Some \<lparr>pc_marker_key = marker_key, pc_thread_id = thread, pc_target_window = target,
          pc_requires_compaction_item = requires_compaction_item cd object\<rparr>))))
      else aret None)"

definition observe_window :: "identity_evidence \<Rightarrow> string \<Rightarrow> unit edit" where
  "observe_window ev thread = (case ev_window_number ev of
     Some window \<Rightarrow> if ev_request_kind ev \<noteq> ''compaction''
       then athen (observe_window_number thread window) (aret ()) else aret ()
   | None \<Rightarrow> aret ())"

text \<open>The first part of \<open>resolve_and_project\<close>: everything up to the identity.\<close>

definition resolve_identity ::
    "externals \<Rightarrow> codecs \<Rightarrow> fingerprint_mode \<Rightarrow> identity_evidence \<Rightarrow> (string \<times> json) list \<Rightarrow> history_plan option
      \<Rightarrow> (resolved_identity \<times> pending_compaction option \<times> string option) edit" where
  "resolve_identity ext cd mode ev object import =
     abind (resolve_installation ext mode ev) (\<lambda>installation.
     abind (previous_response_owner ext object) (\<lambda>previous_owner.
     abind (select_conversation ext cd ev previous_owner) (\<lambda>(conversation, from_previous).
     athen (bind_evidence ext Session (ev_conversation ev) (Some (ca_id conversation)))
    (abind (resolve_thread ext ev (ca_id conversation) (if from_previous then previous_owner else None))
       (\<lambda>(thread, parent_thread, forked, stored_window).
     abind (current_turn_raw ext cd import ev thread forked) (\<lambda>raw.
     abind (resolve_turn_key ext cd object ev thread raw) (\<lambda>turn_key.
     abind (atraverse (existing_wire_from_downstream ext Turn) raw) (\<lambda>reserved.
     abind (resolve_turn ext ev turn_key thread (ca_id conversation) (Option.bind reserved id)) (\<lambda>turn.
     abind (observe_start ev turn_key turn) (\<lambda>turn.
     athen (bind_evidence ext Turn raw (rt_turn_id turn))
    (athen (advance_current_turn ev thread turn)
    (athen (bind_evidence ext Thread (ev_thread ev) (Some thread))
    (athen (bind_evidence ext Thread (ev_parent_thread ev) parent_thread)
    (athen (bind_evidence ext Thread (ev_forked_from_thread ev) forked)
    (athen (bind_evidence ext Turn (ev_root_turn ev) (rt_root_turn_id turn))
    (athen (bind_evidence ext Turn (ev_parent_turn ev) (rt_parent_turn_id turn))
    (athen (observe_window ev thread)
    (abind (open_compaction ext cd object ev thread (raw \<noteq> None) turn_key) (\<lambda>pending.
     aret (\<lparr>ri_installation_id = installation, ri_session_id = ca_id conversation, ri_thread_id = thread,
         ri_parent_thread_id = parent_thread, ri_forked_from_thread_id = forked, ri_turn_id = rt_turn_id turn,
         ri_root_turn_id = rt_root_turn_id turn, ri_parent_turn_id = rt_parent_turn_id turn,
         ri_window_number = (case pending of
             Some p \<Rightarrow> committed_base p
           | None \<Rightarrow> (case ev_window_number ev of Some w \<Rightarrow> w | None \<Rightarrow> stored_window)),
         ri_request_kind = ev_request_kind ev, ri_turn_started_at_unix_ms = rt_started_at_unix_ms turn\<rparr>,
       pending, raw))))))))))))))))))))"

section \<open>Input items\<close>

type_synonym item_object = "(string \<times> json) list"

definition set_item_turn :: "string option \<Rightarrow> bool \<Rightarrow> item_object \<Rightarrow> item_object" where
  "set_item_turn turn memory item =
     (let metadata = (case Option.bind (map_of item META) as_object of Some m \<Rightarrow> m | None \<Rightarrow> []);
          metadata = (if memory then obj_remove ''turn_id'' metadata
            else obj_insert ''turn_id'' (JString (case turn of Some t \<Rightarrow> t | None \<Rightarrow> [])) metadata)
      in obj_insert META (JObject metadata) item)"

definition set_create_time :: "codecs \<Rightarrow> int \<Rightarrow> item_object \<Rightarrow> item_object edit" where
  "set_create_time cd micros item =
     abind (alift (ok_or (from_micros cd micros) (Msg ''invalid generated item create time''))) (\<lambda>number.
     abind (alift (ok_or (Option.bind (map_of item META) as_object) (Msg ''item metadata is missing''))) (\<lambda>metadata.
     aret (obj_insert META (JObject (obj_insert ''create_time'' (JNumber number) metadata)) item)))"

definition adds_create_time :: "item_object \<Rightarrow> bool" where
  "adds_create_time object = (case str_of (map_of object ''type'') of
     Some k \<Rightarrow> if k = ''message''
       then str_of (map_of object ''role'') \<in> {Some ''user'', Some ''system'', Some ''developer''}
       else k \<in> {''agent_message'', ''function_call_output'', ''custom_tool_call_output'', ''tool_search_output''}
   | None \<Rightarrow> False)"

definition item_id_prefix :: "string \<Rightarrow> string option" where
  "item_id_prefix kind = map_of
     [(''additional_tools'', ''at''), (''message'', ''msg''), (''agent_message'', ''amsg''), (''reasoning'', ''rs''),
      (''local_shell_call'', ''lsh''), (''function_call'', ''fc''), (''tool_search_call'', ''tsc''),
      (''function_call_output'', ''fco''), (''custom_tool_call'', ''ctc''), (''custom_tool_call_output'', ''ctco''),
      (''tool_search_output'', ''tso''), (''web_search_call'', ''ws''), (''image_generation_call'', ''ig''),
      (''compaction'', ''cmp''), (''context_compaction'', ''cmp'')] kind"

text \<open>The evidence about an item: the one at its place when the identifiers agree, or the first with its identifier.\<close>

definition evidence_for :: "item_identity_evidence list \<Rightarrow> nat \<Rightarrow> nat \<Rightarrow> string option \<Rightarrow> item_identity_evidence option" where
  "evidence_for items prefix index temporary_id =
     (case (if prefix \<le> index \<and> index - prefix < length items then Some (items ! (index - prefix)) else None) of
        Some e \<Rightarrow> if ie_item_id e = None \<or> ie_item_id e = temporary_id then Some e
          else Option.bind temporary_id (\<lambda>x. List.find (\<lambda>e. ie_item_id e = Some x) items)
      | None \<Rightarrow> Option.bind temporary_id (\<lambda>x. List.find (\<lambda>e. ie_item_id e = Some x) items))"

definition item_turn_evidence :: "item_identity_evidence list \<Rightarrow> item_identity_evidence option \<Rightarrow> item_object \<Rightarrow> string option" where
  "item_turn_evidence items raw item =
     option_or (Option.bind raw ie_turn_id)
       (Option.bind (str_of (Option.bind (map_of item META) (\<lambda>m. jget m ''turn_id'')))
         (\<lambda>t. if Some t \<in> ie_turn_id ` set items then Some t else None))"

definition place_turn :: "identity_evidence \<Rightarrow> string option \<Rightarrow> item_object \<Rightarrow> item_object" where
  "place_turn ev turn item =
     (if ev_classifier ev then
        (case Option.bind (map_of item META) as_object of
           Some metadata \<Rightarrow> (case turn of
               Some t \<Rightarrow> if obj_contains metadata ''turn_id''
                 then obj_insert META (JObject (obj_insert ''turn_id'' (JString t) metadata)) item else item
             | None \<Rightarrow> item)
         | None \<Rightarrow> item)
      else if str_of (map_of item ''type'') \<noteq> Some ''additional_tools'' \<or> obj_contains item META
      then set_item_turn turn (is_memory ev) item
      else item)"

definition owned_turn :: "string option \<Rightarrow> string option edit" where
  "owned_turn turn = (case turn of
     Some t \<Rightarrow> if t = [] then aret None else abind (turn_by_id t) (\<lambda>found. aret (if found = None then None else Some t))
   | None \<Rightarrow> aret None)"

text \<open>The generated identifier and creation time of an item that needs one.\<close>

definition generate_for ::
    "externals \<Rightarrow> codecs \<Rightarrow> identity_evidence \<Rightarrow> string \<Rightarrow> string option \<Rightarrow> nat \<Rightarrow> bool \<Rightarrow> bool \<Rightarrow> item_object
      \<Rightarrow> (item_object \<times> string set) edit" where
  "generate_for ext cd ev thread turn index is_synthesized add_create_time item =
     abind (aget (\<lambda>ed. derived_lookup ext ed ''generated-item''
       [thread, case turn of Some t \<Rightarrow> t | None \<Rightarrow> [], be_bytes 8 (index mod 2 ^ 64), item_anchor cd item])) (\<lambda>key.
     let prefix = (case Option.bind (str_of (map_of item ''type'')) item_id_prefix of Some p \<Rightarrow> p | None \<Rightarrow> ''item'') in
     abind (owned_turn turn) (\<lambda>owned.
     abind (generated_item ext key prefix owned add_create_time) (\<lambda>assignment.
     let (item, generated) =
       (if \<not> is_synthesized then (item, {})
        else if ev_classifier ev then (obj_insert ''id'' (JString (ia_id assignment)) item, {ia_id assignment})
        else (obj_remove ''id'' item, {})) in
     abind (case ia_create_time_micros assignment of
         Some micros \<Rightarrow> if add_create_time then set_create_time cd micros item else aret item
       | None \<Rightarrow> aret item) (\<lambda>item.
     aret (item, generated)))))"

definition project_input_item ::
    "externals \<Rightarrow> codecs \<Rightarrow> identity_evidence \<Rightarrow> string set \<Rightarrow> resolved_identity \<Rightarrow> string option \<Rightarrow> history_import option
      \<Rightarrow> nat \<Rightarrow> nat \<Rightarrow> item_object \<Rightarrow> (item_object \<times> string set) edit" where
  "project_input_item ext cd ev synthesized i current_raw import prefix index item =
     (let temporary_id = str_of (map_of item ''id'');
          raw = evidence_for (ev_items ev) prefix index temporary_id in
      abind (project_item_turn ext (item_turn_evidence (ev_items ev) raw item) current_raw (target_of i) import
          (if prefix \<le> index then Some (index - prefix) else None)) (\<lambda>turn.
      let item = place_turn ev turn item;
          is_synthesized = is_some_and temporary_id (\<lambda>x. x \<in> synthesized);
          add_create_time = (\<not> ev_classifier ev \<and> adds_create_time item \<and> is_none_or raw (\<lambda>r. \<not> ie_had_create_time r)) in
      if is_synthesized \<or> add_create_time
      then generate_for ext cd ev (ri_thread_id i) turn index is_synthesized add_create_time item
      else aret (item, {})))"

fun project_input ::
    "externals \<Rightarrow> codecs \<Rightarrow> identity_evidence \<Rightarrow> string set \<Rightarrow> resolved_identity \<Rightarrow> string option \<Rightarrow> history_import option
      \<Rightarrow> nat \<Rightarrow> nat \<Rightarrow> json list \<Rightarrow> (json list \<times> string set) edit" where
  "project_input ext cd ev synthesized i current_raw import prefix index [] = aret ([], {})"
| "project_input ext cd ev synthesized i current_raw import prefix index (v # vs) =
     (case v of
        JObject item \<Rightarrow>
          if str_of (map_of item ''type'') = Some ''configuration_update''
          then abind (project_input ext cd ev synthesized i current_raw import prefix (index + 1) vs) (\<lambda>(vs, generated).
            aret (v # vs, generated))
          else
            abind (project_input_item ext cd ev synthesized i current_raw import prefix index item) (\<lambda>(item, generated).
            abind (project_input ext cd ev synthesized i current_raw import prefix (index + 1) vs) (\<lambda>(vs, later).
            aret (JObject item # vs, generated \<union> later)))
      | _ \<Rightarrow> abind (project_input ext cd ev synthesized i current_raw import prefix (index + 1) vs) (\<lambda>(vs, generated).
          aret (v # vs, generated)))"

definition project_items ::
    "externals \<Rightarrow> codecs \<Rightarrow> item_object \<Rightarrow> identity_evidence \<Rightarrow> string list \<Rightarrow> resolved_identity \<Rightarrow> string option
      \<Rightarrow> history_import option \<Rightarrow> (item_object \<times> string set) edit" where
  "project_items ext cd object ev synthesized i current_raw import =
     (case input_items object of
        None \<Rightarrow> aret (object, {})
      | Some items \<Rightarrow>
          abind (project_input ext cd ev (set synthesized) i current_raw import (length items - length (ev_items ev)) 0 items)
            (\<lambda>(items, generated). aret (obj_insert ''input'' (JArray items) object, generated)))"

end
