(* ===== verification/Editor_Lineage.thy ===== *)
theory Editor_Lineage
  imports Editor_Honest
begin

text \<open>
  What never changes once it is stored: the session and the parent of a thread, the thread, the root and
  the parent of a turn, the identity of a conversation.  Every operation of the editor keeps them.
\<close>

definition child_core :: "child_thread_entry \<Rightarrow> string \<times> string \<times> string option" where
  "child_core e = (ct_id e, ct_session_id e, ct_parent_thread_id e)"

definition turn_core :: "turn_entry \<Rightarrow> string \<times> string \<times> string \<times> string option" where
  "turn_core e = (te_id e, te_thread_id e, te_root_turn_id e, te_parent_turn_id e)"

definition lineage_grows :: "scope_state \<Rightarrow> scope_state \<Rightarrow> bool" where
  "lineage_grows s s' \<longleftrightarrow>
     (\<forall>k c. map_option conv_id (bm_get (conversations s) k) = Some c \<longrightarrow> map_option conv_id (bm_get (conversations s') k) = Some c)
     \<and> (\<forall>k c. map_option child_core (bm_get (child_threads s) k) = Some c \<longrightarrow> map_option child_core (bm_get (child_threads s') k) = Some c)
     \<and> (\<forall>k c. map_option turn_core (bm_get (turns s) k) = Some c \<longrightarrow> map_option turn_core (bm_get (turns s') k) = Some c)"

definition keeps_lineage :: "editor \<Rightarrow> editor \<Rightarrow> bool" where
  "keeps_lineage ed ed' \<longleftrightarrow> (editor_ok ed \<longrightarrow> editor_ok ed' \<and> lineage_grows (ed_scope ed) (ed_scope ed'))"

lemma lineage_grows_refl [simp]: "lineage_grows s s"
  by (simp add: lineage_grows_def)

lemma lineage_grows_trans: "lineage_grows a b \<Longrightarrow> lineage_grows b c \<Longrightarrow> lineage_grows a c"
  unfolding lineage_grows_def by meson

lemma keeps_lineage_refl: "keeps_lineage ed ed"
  by (simp add: keeps_lineage_def)

lemma keeps_lineage_trans: "keeps_lineage a b \<Longrightarrow> keeps_lineage b c \<Longrightarrow> keeps_lineage a c"
  unfolding keeps_lineage_def using lineage_grows_trans by blast

lemma editor_ok_mark [simp]: "editor_ok (mark_changed b ed) = editor_ok ed"
  by (simp add: editor_ok_def mark_changed_def)

lemma keeps_frame [simp]: "keeps_lineage ed (mark_changed b ed)" "keeps_lineage ed (ed\<lparr>ed_draws := n\<rparr>)"
  by (simp_all add: keeps_lineage_def) (simp add: editor_ok_def)

lemma keeps_update:
  assumes "lineage_grows (ed_scope ed) (f (ed_scope ed))"
  shows "keeps_lineage ed (ed_update_scope f ed)"
  using assms by (auto simp: keeps_lineage_def ed_scope_update) (auto simp: editor_ok_def ed_update_scope_def)

lemma lineage_frame [simp]:
  "lineage_grows s (scoped_installations_update a s)" "lineage_grows s (generated_items_update b s)"
  "lineage_grows s (compaction_markers_update c s)" "lineage_grows s (wire_ids_update d s)"
  "lineage_grows s (wire_ids_update d (wire_upstream_index_update e s))"
  by (simp_all add: lineage_grows_def)

lemma lineage_in_place [simp]:
  "(\<And>e. conv_id (f1 e) = conv_id e) \<Longrightarrow> lineage_grows s (conversations_update (bm_update key f1) s)"
  "(\<And>e. conv_id (f1 e) = conv_id e) \<Longrightarrow> lineage_grows s (conversations_update (update_first P f1) s)"
  "(\<And>e. child_core (f2 e) = child_core e) \<Longrightarrow> lineage_grows s (child_threads_update (bm_update key f2) s)"
  "(\<And>e. child_core (f2 e) = child_core e) \<Longrightarrow> lineage_grows s (child_threads_update (update_first Q f2) s)"
  "(\<And>e. turn_core (f3 e) = turn_core e) \<Longrightarrow> lineage_grows s (turns_update (bm_update key f3) s)"
  by (simp_all add: lineage_grows_def map_update_get update_first_get del: bm_get_update)

lemma core_updates [simp]:
  "child_core (e\<lparr>ct_last_seen_day := d\<rparr>) = child_core e" "child_core (e\<lparr>ct_current_turn_id := t\<rparr>) = child_core e"
  "child_core (e\<lparr>ct_window_number := w\<rparr>) = child_core e"
  "turn_core (u\<lparr>te_last_seen_day := d\<rparr>) = turn_core u" "turn_core (u\<lparr>te_started_at_unix_ms := x\<rparr>) = turn_core u"
  "turn_core (u\<lparr>te_classifier := b\<rparr>) = turn_core u" "turn_core (u\<lparr>te_inventory_source_thread_id := i\<rparr>) = turn_core u"
  by (simp_all add: child_core_def turn_core_def)

lemma keeps_draws: "draws_only m \<Longrightarrow> okrel keeps_lineage m"
  unfolding okrel_def by (auto elim: draws_only_run)

lemma keeps_entry_or_insert:
  assumes "draws_only build"
    and "\<And>ed e. bm_get (field (ed_scope ed)) key = None \<Longrightarrow> keeps_lineage ed (ed_update_scope (field_update (bm_insert key e)) ed)"
  shows "okrel keeps_lineage (entry_or_insert field field_update key build)"
  unfolding okrel_def
proof (intro allI impI)
  fix ed e ed' assume run: "entry_or_insert field field_update key build ed = (Inr e, ed')"
  show "keeps_lineage ed ed'"
    using entry_or_insert_Inr [OF run assms(1)]
  proof (elim disjE conjE exE)
    fix n
    assume none: "bm_get (field (ed_scope ed)) key = None"
      and ed': "ed' = ed_update_scope (field_update (bm_insert key e)) (ed\<lparr>ed_draws := n\<rparr>)"
    have "keeps_lineage (ed\<lparr>ed_draws := n\<rparr>) ed'" unfolding ed' by (rule assms(2)) (simp add: none)
    then show ?thesis using keeps_lineage_trans [OF keeps_frame(2)] by blast
  qed (simp add: keeps_lineage_refl)
qed

lemma keeps_insert:
  "bm_get (conversations (ed_scope ed)) key = None \<Longrightarrow> keeps_lineage ed (ed_update_scope (conversations_update (bm_insert key e1)) ed)"
  "bm_get (child_threads (ed_scope ed)) key = None \<Longrightarrow> keeps_lineage ed (ed_update_scope (child_threads_update (bm_insert key e2)) ed)"
  "bm_get (turns (ed_scope ed)) key = None \<Longrightarrow> keeps_lineage ed (ed_update_scope (turns_update (bm_insert key e3)) ed)"
  "keeps_lineage ed (ed_update_scope (scoped_installations_update g) ed)"
  "keeps_lineage ed (ed_update_scope (generated_items_update h) ed)"
  "keeps_lineage ed (ed_update_scope (compaction_markers_update i) ed)"
  by (rule keeps_update; auto simp: lineage_grows_def)+

lemma keeps_protect: "(\<And>S p. pk_scopes (field S p) = pk_scopes p) \<Longrightarrow> keeps_lineage ed (protect_key field key ed)"
  by (simp add: keeps_lineage_def) (simp add: editor_ok_def protect_key_def)

lemma keeps_bind:
  "okrel keeps_lineage m \<Longrightarrow> (\<And>a. okrel keeps_lineage (f a)) \<Longrightarrow> okrel keeps_lineage (abind m f)"
  "okrel keeps_lineage m \<Longrightarrow> okrel keeps_lineage n \<Longrightarrow> okrel keeps_lineage (athen m n)"
  by (rule okrel_abind okrel_athen; use keeps_lineage_trans in blast)+

lemmas lineage_rules =
  okrel_basic [where R = keeps_lineage, OF keeps_lineage_refl] keeps_bind
  okrel_prod okrel_option okrel_if okrel_amodify keeps_frame(1) keeps_protect keeps_entry_or_insert
  draws_only_intros draws_only_abind keeps_insert keeps_update

lemma keeps_installation_id: "okrel keeps_lineage (installation_id ext mode key)"
  unfolding installation_id_def Let_def by (intro lineage_rules) auto

lemma keeps_conversation_with_id: "okrel keeps_lineage (conversation_with_id ext key reserved)"
  unfolding conversation_with_id_def Let_def by (intro lineage_rules) auto

lemma keeps_child_thread_with_id: "okrel keeps_lineage (child_thread_with_id ext key session parent reserved)"
  unfolding child_thread_with_id_def Let_def by (intro lineage_rules) auto

lemma keeps_existing_child_thread: "okrel keeps_lineage (existing_child_thread key)"
  unfolding existing_child_thread_def Let_def by (intro lineage_rules) auto

lemma keeps_generated_item: "okrel keeps_lineage (generated_item ext key prefix turn add)"
  unfolding generated_item_def Let_def by (intro lineage_rules) auto

lemma keeps_turn_with_id: "okrel keeps_lineage (turn_with_id ext key thread root parent reserved)"
  unfolding turn_with_id_def Let_def by (intro lineage_rules) auto

lemma keeps_observe_turn_started_at: "okrel keeps_lineage (observe_turn_started_at key value)"
  unfolding observe_turn_started_at_def by (intro lineage_rules) auto

lemma keeps_existing_turn: "okrel keeps_lineage (existing_turn key)"
  unfolding existing_turn_def Let_def by (intro lineage_rules) auto

lemma keeps_preserve_inventory_origin: "okrel keeps_lineage (preserve_inventory_origin key source)"
  unfolding preserve_inventory_origin_def Let_def by (intro lineage_rules) auto

lemma keeps_set_current_turn: "okrel keeps_lineage (set_current_turn thread turn)"
  unfolding set_current_turn_def Let_def by (intro lineage_rules) auto

lemma keeps_conversation_by_id: "okrel keeps_lineage (conversation_by_id x)"
  unfolding conversation_by_id_def Let_def by (intro lineage_rules) auto

lemma keeps_child_thread_by_id: "okrel keeps_lineage (child_thread_by_id x)"
  unfolding child_thread_by_id_def by (intro lineage_rules keeps_existing_child_thread)

lemma keeps_turn_by_id: "okrel keeps_lineage (turn_by_id x)"
  unfolding turn_by_id_def by (intro lineage_rules keeps_existing_turn)

lemma keeps_set_window_number: "okrel keeps_lineage (set_window_number thread window)"
  unfolding set_window_number_def Let_def by (intro lineage_rules) auto

lemma keeps_observe_window_number: "okrel keeps_lineage (observe_window_number thread window)"
  unfolding observe_window_number_def by (intro lineage_rules keeps_set_window_number)

lemma keeps_touch_marker: "okrel keeps_lineage (touch_marker key marker)"
  unfolding touch_marker_def Let_def by (intro lineage_rules) auto

lemma keeps_begin_compaction: "okrel keeps_lineage (begin_compaction key thread)"
  unfolding begin_compaction_def by (intro lineage_rules keeps_touch_marker) auto

lemma keeps_commit_compaction: "okrel keeps_lineage (commit_compaction key thread target)"
  unfolding commit_compaction_def by (intro lineage_rules keeps_set_window_number keeps_touch_marker)

lemma keeps_classifier_turn_with_id: "okrel keeps_lineage (classifier_turn_with_id ext key thread root parent reserved)"
  unfolding classifier_turn_with_id_def known_classifier_turn_def
  by (intro lineage_rules keeps_child_thread_by_id keeps_turn_by_id keeps_turn_with_id keeps_existing_turn) auto

lemma keeps_touch_wire: "okrel keeps_lineage (touch_wire key)"
  unfolding touch_wire_def Let_def by (intro lineage_rules) auto

lemma keeps_insert_wire_pair: "okrel keeps_lineage (insert_wire_pair ext d origin down up)"
  unfolding insert_wire_pair_def by (intro lineage_rules) auto

lemma keeps_touch_downstream: "okrel keeps_lineage (touch_downstream ext d x)"
  unfolding touch_downstream_def by (intro lineage_rules keeps_touch_wire)

lemma keeps_unique_wire_alias: "okrel keeps_lineage (unique_wire_alias ext d source downstream)"
  unfolding unique_wire_alias_def by (rule keeps_draws [OF draws_only_unique_rounds])

lemmas lineage_wire_rules = lineage_rules keeps_touch_downstream keeps_touch_wire keeps_insert_wire_pair keeps_unique_wire_alias

lemma keeps_is_public_wire_alias: "okrel keeps_lineage (is_public_wire_alias ext d x)"
  unfolding is_public_wire_alias_def Let_def by (intro lineage_wire_rules)

lemma keeps_existing_wire_from_downstream: "okrel keeps_lineage (existing_wire_from_downstream ext d x)"
  unfolding existing_wire_from_downstream_def by (intro lineage_wire_rules)

lemma keeps_required_wire_from_downstream: "okrel keeps_lineage (required_wire_from_downstream ext d x b)"
  unfolding required_wire_from_downstream_def by (intro lineage_wire_rules)

lemma keeps_bind_wire_pair: "okrel keeps_lineage (bind_wire_pair ext d x y)"
  unfolding bind_wire_pair_def by (intro lineage_wire_rules)

lemma keeps_wire_from_downstream: "okrel keeps_lineage (wire_from_downstream ext d x)"
  unfolding wire_from_downstream_def by (intro lineage_wire_rules)

lemma keeps_existing_wire_from_upstream: "okrel keeps_lineage (existing_wire_from_upstream ext d x)"
  unfolding existing_wire_from_upstream_def by (intro lineage_wire_rules)

lemma keeps_wire_from_upstream: "okrel keeps_lineage (wire_from_upstream ext d x)"
  unfolding wire_from_upstream_def by (intro lineage_wire_rules)

lemma keeps_protect_owner: "okrel keeps_lineage (protect_owner owner)"
  unfolding protect_owner_def by (intro lineage_rules keeps_conversation_by_id keeps_child_thread_by_id)

lemma keeps_wire_from_upstream_response: "okrel keeps_lineage (wire_from_upstream_response ext x owner)"
  unfolding wire_from_upstream_response_def set_response_owner_def
  by (intro lineage_rules keeps_wire_from_upstream keeps_protect_owner) auto

lemma keeps_required_response_owner: "okrel keeps_lineage (required_response_owner_from_downstream ext x)"
  unfolding required_response_owner_from_downstream_def
  by (intro lineage_rules keeps_touch_downstream keeps_protect_owner)

lemma keeps_record_content_origin: "okrel keeps_lineage (record_content_origin ext d raw alias)"
proof -
  have "keeps_lineage ed (ed\<lparr>ed_content_wire_origins := m\<rparr>)" for ed m
    by (simp add: keeps_lineage_def lineage_grows_def editor_ok_def ed_scope_def)
  then show ?thesis
    unfolding record_content_origin_def by (intro lineage_rules keeps_existing_wire_from_downstream)
qed

lemma edit_step_lineage: "edit_step ext ed ed' \<Longrightarrow> keeps_lineage ed ed'"
  by (induction rule: edit_step.induct)
    (erule okrelD [OF keeps_installation_id] okrelD [OF keeps_conversation_with_id]
      okrelD [OF keeps_child_thread_with_id] okrelD [OF keeps_existing_child_thread]
      okrelD [OF keeps_generated_item] okrelD [OF keeps_turn_with_id]
      okrelD [OF keeps_observe_turn_started_at] okrelD [OF keeps_existing_turn]
      okrelD [OF keeps_set_current_turn] okrelD [OF keeps_conversation_by_id]
      okrelD [OF keeps_child_thread_by_id] okrelD [OF keeps_turn_by_id]
      okrelD [OF keeps_set_window_number] okrelD [OF keeps_observe_window_number]
      okrelD [OF keeps_begin_compaction] okrelD [OF keeps_commit_compaction]
      okrelD [OF keeps_classifier_turn_with_id] okrelD [OF keeps_is_public_wire_alias]
      okrelD [OF keeps_existing_wire_from_downstream] okrelD [OF keeps_required_wire_from_downstream]
      okrelD [OF keeps_bind_wire_pair] okrelD [OF keeps_wire_from_downstream]
      okrelD [OF keeps_existing_wire_from_upstream] okrelD [OF keeps_wire_from_upstream]
      okrelD [OF keeps_wire_from_upstream_response] okrelD [OF keeps_required_response_owner]
      okrelD [OF keeps_record_content_origin] okrelD [OF keeps_draws [OF draws_only_intros(3)]]
      okrelD [OF keeps_preserve_inventory_origin])+

lemma edit_steps_lineage: "edit_steps ext ed ed' \<Longrightarrow> keeps_lineage ed ed'"
  by (induction rule: rtranclp_induct) (auto intro: keeps_lineage_refl keeps_lineage_trans dest: edit_step_lineage)

section \<open>Lookups\<close>

text \<open>Operations that only look things up leave these facts exactly as they are.\<close>

definition same_lineage :: "editor \<Rightarrow> editor \<Rightarrow> bool" where
  "same_lineage ed ed' \<longleftrightarrow> (editor_ok ed \<longrightarrow> editor_ok ed'
     \<and> bm_map (\<lambda>_. conv_id) (conversations (ed_scope ed')) = bm_map (\<lambda>_. conv_id) (conversations (ed_scope ed))
     \<and> bm_map (\<lambda>_. child_core) (child_threads (ed_scope ed')) = bm_map (\<lambda>_. child_core) (child_threads (ed_scope ed))
     \<and> bm_map (\<lambda>_. turn_core) (turns (ed_scope ed')) = bm_map (\<lambda>_. turn_core) (turns (ed_scope ed)))"

lemma same_lineage_refl: "same_lineage ed ed"
  by (simp add: same_lineage_def)

lemma same_lineage_trans: "same_lineage a b \<Longrightarrow> same_lineage b c \<Longrightarrow> same_lineage a c"
  by (simp add: same_lineage_def)

lemma bm_map_in_place:
  assumes "\<And>v. core (f v) = core v"
  shows "bm_map (\<lambda>_. core) (bm_update k f m) = bm_map (\<lambda>_. core) m"
  by (rule bm_ext) (auto simp: option.map_comp comp_def assms)

lemma same_frame [simp]: "same_lineage ed (mark_changed b ed)" "same_lineage ed (ed\<lparr>ed_draws := n\<rparr>)"
  by (simp_all add: same_lineage_def) (simp add: editor_ok_def)

lemma same_protect: "(\<And>S p. pk_scopes (field S p) = pk_scopes p) \<Longrightarrow> same_lineage ed (protect_key field key ed)"
  by (simp add: same_lineage_def) (simp add: editor_ok_def protect_key_def)

lemma same_update:
  assumes "bm_map (\<lambda>_. conv_id) (conversations (f (ed_scope ed))) = bm_map (\<lambda>_. conv_id) (conversations (ed_scope ed))"
    and "bm_map (\<lambda>_. child_core) (child_threads (f (ed_scope ed))) = bm_map (\<lambda>_. child_core) (child_threads (ed_scope ed))"
    and "bm_map (\<lambda>_. turn_core) (turns (f (ed_scope ed))) = bm_map (\<lambda>_. turn_core) (turns (ed_scope ed))"
  shows "same_lineage ed (ed_update_scope f ed)"
  using assms by (auto simp: same_lineage_def ed_scope_update) (auto simp: editor_ok_def ed_update_scope_def)

lemma same_bind:
  "okrel same_lineage m \<Longrightarrow> (\<And>a. okrel same_lineage (f a)) \<Longrightarrow> okrel same_lineage (abind m f)"
  "okrel same_lineage m \<Longrightarrow> okrel same_lineage n \<Longrightarrow> okrel same_lineage (athen m n)"
  by (rule okrel_abind okrel_athen; use same_lineage_trans in blast)+

lemmas same_rules = okrel_basic [where R = same_lineage, OF same_lineage_refl] same_bind
  okrel_prod okrel_option okrel_if okrel_amodify same_frame(1) same_protect same_update

lemma same_existing_child_thread: "okrel same_lineage (existing_child_thread key)"
  unfolding existing_child_thread_def Let_def by (intro same_rules) (auto simp: bm_map_in_place)

lemma same_existing_turn: "okrel same_lineage (existing_turn key)"
  unfolding existing_turn_def Let_def by (intro same_rules) (auto simp: bm_map_in_place)

lemma same_conversation_by_id: "okrel same_lineage (conversation_by_id x)"
  unfolding conversation_by_id_def Let_def by (intro same_rules) (auto simp: bm_map_in_place)

lemma same_child_thread_by_id: "okrel same_lineage (child_thread_by_id x)"
  unfolding child_thread_by_id_def by (intro same_rules same_existing_child_thread)

lemma same_turn_by_id: "okrel same_lineage (turn_by_id x)"
  unfolding turn_by_id_def by (intro same_rules same_existing_turn)

lemma same_touch_wire: "okrel same_lineage (touch_wire key)"
  unfolding touch_wire_def Let_def by (intro same_rules) auto

lemma same_touch_downstream: "okrel same_lineage (touch_downstream ext d x)"
  unfolding touch_downstream_def by (intro same_rules same_touch_wire)

lemma same_existing_wire_from_downstream: "okrel same_lineage (existing_wire_from_downstream ext d x)"
  unfolding existing_wire_from_downstream_def by (intro same_rules same_touch_downstream)

lemma same_bind_wire_pair: "okrel same_lineage (bind_wire_pair ext d x y)"
  unfolding bind_wire_pair_def insert_wire_pair_def by (intro same_rules same_touch_downstream same_touch_wire) auto

lemma same_draw: "okrel same_lineage (draw_v7 ext)"
  by (auto simp: okrel_def draw_v7_def)

lemma same_preserve_inventory_origin: "okrel same_lineage (preserve_inventory_origin key source)"
  unfolding preserve_inventory_origin_def Let_def by (intro same_rules) (auto simp: bm_map_in_place)

lemmas same_lookups = same_existing_child_thread same_existing_turn same_conversation_by_id same_child_thread_by_id
  same_turn_by_id same_existing_wire_from_downstream same_bind_wire_pair same_draw same_preserve_inventory_origin

lemma bm_map_get: "bm_map (\<lambda>_. core) m = bm_map (\<lambda>_. core) m' \<Longrightarrow> map_option core (bm_get m k) = map_option core (bm_get m' k)"
  by (metis bm_get_map)

lemma same_keeps: "same_lineage ed ed' \<Longrightarrow> keeps_lineage ed ed'"
  unfolding same_lineage_def keeps_lineage_def lineage_grows_def by (metis bm_map_get)

lemma find_core:
  fixes m :: "('k::linorder, 'v) btree_map"
  assumes "bm_map (\<lambda>_. core) m = bm_map (\<lambda>_. core) m'"
  shows "map_option core (List.find (\<lambda>v. P (core v)) (bm_values m)) = map_option core (List.find (\<lambda>v. P (core v)) (bm_values m'))"
proof -
  have vals: "map core (bm_values n) = map snd (bm_entries (bm_map (\<lambda>_. core) n))" for n :: "('k, 'v) btree_map"
    by (simp add: bm_values_def comp_def case_prod_beta)
  have same: "map core (bm_values m) = map core (bm_values m')" unfolding vals assms ..
  have "map_option core (List.find (\<lambda>v. P (core v)) xs) = List.find P (map core xs)" for xs
    by (induction xs) auto
  then show ?thesis by (simp add: same)
qed

lemma same_parent:
  assumes "bm_map (\<lambda>_. child_core) (child_threads s) = bm_map (\<lambda>_. child_core) (child_threads s')"
  shows "Option.bind (find_child s x) ct_parent_thread_id = Option.bind (find_child s' x) ct_parent_thread_id"
proof -
  have "Option.bind (find_child s x) ct_parent_thread_id = Option.bind (map_option child_core (find_child s x)) (snd \<circ> snd)" for s
    by (cases "find_child s x") (simp_all add: child_core_def)
  moreover have "map_option child_core (find_child s x) = map_option child_core (find_child s' x)"
    using find_core [OF assms, of "\<lambda>c. fst c = x"] by (simp add: find_child_def child_core_def)
  ultimately show ?thesis by simp
qed

lemma same_ancestors:
  assumes "bm_map (\<lambda>_. child_core) (child_threads s) = bm_map (\<lambda>_. child_core) (child_threads s')"
  shows "ancestor_loop s a visited x = ancestor_loop s' a visited x"
  using assms
proof (induction s a visited x rule: ancestor_loop.induct)
  case (1 s a visited x)
  show ?case using 1 same_parent [OF 1(2), of x]
    by (subst (1 2) ancestor_loop.simps) (auto split: option.split)
qed

lemma same_thread_is_ancestor:
  "same_lineage ed ed' \<Longrightarrow> editor_ok ed \<Longrightarrow> thread_is_ancestor ed' a x = thread_is_ancestor ed a x"
  unfolding thread_is_ancestor_def same_lineage_def by (metis same_ancestors)

lemma same_history_allowed:
  "same_lineage ed ed' \<Longrightarrow> editor_ok ed \<Longrightarrow> history_thread_allowed ed' a x f = history_thread_allowed ed a x f"
  by (simp add: history_thread_allowed_def same_thread_is_ancestor)

end
