(* ===== verification/Resolution_Correct.thy ===== *)
theory Resolution_Correct
  imports Identity_Resolution Editor_Lineage Ledger_Protocols
begin

text \<open>
  What resolution promises: a request is served on a thread of its own session, its turn hangs off a root
  that it may use, and no item of its input is attributed to a turn of an unrelated thread.
\<close>

section \<open>Resolvers are edits\<close>

lemma steps_bind:
  "okrel (edit_steps ext) m \<Longrightarrow> (\<And>a. okrel (edit_steps ext) (f a)) \<Longrightarrow> okrel (edit_steps ext) (abind m f)"
  "okrel (edit_steps ext) m \<Longrightarrow> okrel (edit_steps ext) n \<Longrightarrow> okrel (edit_steps ext) (athen m n)"
  by (rule okrel_abind okrel_athen; use rtranclp_trans in fast)+

lemma steps_op: "(\<And>s a t. m s = (Inr a, t) \<Longrightarrow> edit_step ext s t) \<Longrightarrow> okrel (edit_steps ext) m"
  by (auto simp: okrel_def)

lemma step_ops:
  "okrel (edit_steps ext) (conversation_with_id ext key reserved)"
  "okrel (edit_steps ext) (child_thread_with_id ext key session parent reserved)"
  "okrel (edit_steps ext) (existing_child_thread key)"
  "okrel (edit_steps ext) (turn_with_id ext key thread root parent reserved)"
  "okrel (edit_steps ext) (existing_turn key)"
  "okrel (edit_steps ext) (conversation_by_id x)"
  "okrel (edit_steps ext) (child_thread_by_id x)"
  "okrel (edit_steps ext) (turn_by_id x)"
  "okrel (edit_steps ext) (classifier_turn_with_id ext key thread root parent reserved)"
  "okrel (edit_steps ext) (existing_wire_from_downstream ext d x)"
  "okrel (edit_steps ext) (bind_wire_pair ext d x y)"
  "okrel (edit_steps ext) (wire_from_upstream ext d x)"
  "okrel (edit_steps ext) (draw_v7 ext)"
  "okrel (edit_steps ext) (preserve_inventory_origin key source)"
  by (rule steps_op, erule edit_step.intros)+

lemmas step_rules = okrel_basic [where R = "edit_steps ext" for ext, OF rtranclp.rtrancl_refl] steps_bind
  okrel_prod okrel_option okrel_if step_ops

lemma resolvers_edit:
  "okrel (edit_steps ext) (resolve_conversation ext raw)"
  "okrel (edit_steps ext) (resolve_existing_child ext raw)"
  "okrel (edit_steps ext) (turn_key_for_raw ext raw)"
  unfolding resolve_conversation_def resolve_existing_child_def turn_key_for_raw_def or_else_try_def projected_by_def Let_def
  by (intro step_rules)+

lemma resolve_thread_edits: "okrel (edit_steps ext) (resolve_thread ext ev session_id owner)"
  unfolding resolve_thread_def atraverse_def resolve_fork_reference_def known_thread_def or_else_try_def implicit_thread_def
    lineage_parent_def lineage_child_def resolve_thread_reference_def child_thread_def
  by (intro step_rules resolvers_edit)

lemma resolve_turn_edits: "okrel (edit_steps ext) (resolve_turn ext ev key thread session_id reserved)"
  unfolding resolve_turn_def Let_def inherited_root_def resolve_root_def atraverse_def resolve_parent_def admit_turn_def
  by (intro step_rules resolvers_edit)

lemma import_walk_edits: "okrel (edit_steps ext) (import_walk n ext source visited thread)"
proof (induction n arbitrary: visited thread)
  case (Suc n)
  then show ?case unfolding import_walk.simps by (intro step_rules) auto
qed (simp add: okrel_def)

lemma import_roots_edits: "okrel (edit_steps ext) (import_roots ext source visited roots)"
proof (induction roots arbitrary: visited)
  case (Cons root roots)
  then show ?case unfolding import_roots.simps by (intro step_rules import_walk_edits) auto
qed (simp add: okrel_def)

lemma project_item_turn_edits: "okrel (edit_steps ext) (project_item_turn ext raw current target import index)"
  unfolding project_item_turn_def classifier_history_item_allowed_def import_resolve_turn_def resolve_turn_for_thread_def
    or_else_try_def Let_def
  by (intro step_rules resolvers_edit import_roots_edits)

section \<open>Threads\<close>

text \<open>A stored child thread with its session and parent.\<close>

definition stored_child :: "editor \<Rightarrow> string \<Rightarrow> string \<Rightarrow> string option \<Rightarrow> bool" where
  "stored_child ed thread session parent \<longleftrightarrow>
     (\<exists>k. map_option child_core (bm_get (child_threads (ed_scope ed)) k) = Some (thread, session, parent))"

definition within :: "editor \<Rightarrow> string \<Rightarrow> string \<Rightarrow> bool" where
  "within ed session thread \<longleftrightarrow> thread = session \<or> (\<exists>parent. stored_child ed thread session parent)"

lemma stored_child_keeps: "keeps_lineage ed ed' \<Longrightarrow> editor_ok ed \<Longrightarrow> stored_child ed t s p \<Longrightarrow> stored_child ed' t s p"
  unfolding keeps_lineage_def lineage_grows_def stored_child_def by blast

lemma within_keeps: "keeps_lineage ed ed' \<Longrightarrow> editor_ok ed \<Longrightarrow> within ed s t \<Longrightarrow> within ed' s t"
  unfolding within_def using stored_child_keeps by blast

lemma stored_child_same: "same_lineage ed ed' \<Longrightarrow> editor_ok ed \<Longrightarrow> stored_child ed' t s p = stored_child ed t s p"
  unfolding same_lineage_def stored_child_def by (metis bm_map_get)

definition assigned :: "editor \<Rightarrow> thread_assignment \<Rightarrow> bool" where
  "assigned ed a \<longleftrightarrow> stored_child ed (ta_id a) (ta_session_id a) (ta_parent_thread_id a)"

lemma existing_child_thread_assigned:
  assumes "existing_child_thread key ed = (Inr (Some a), ed')" and "editor_ok ed"
  shows "assigned ed' a"
proof -
  obtain e where e: "bm_get (child_threads (ed_scope ed)) key = Some e" "a = thread_of e"
    using assms(1) by (auto simp: existing_child_thread_def run_simps split: option.splits)
  then have "assigned ed a" by (auto simp: assigned_def stored_child_def child_core_def thread_of_def intro!: exI [of _ key])
  then show ?thesis using stored_child_same [OF okrelD [OF same_existing_child_thread assms(1)] assms(2)] by (simp add: assigned_def)
qed

lemma child_thread_by_id_assigned:
  assumes "child_thread_by_id x ed = (Inr (Some (key, a)), ed')" and "editor_ok ed"
  shows "assigned ed' a \<and> ta_id a = x"
proof -
  have k: "bm_find_key (\<lambda>e. ct_id e = x) (child_threads (ed_scope ed)) = Some key"
    and run: "existing_child_thread key ed = (Inr (Some a), ed')"
    using assms(1) by (auto simp: child_thread_by_id_def run_simps split: option.splits)
  obtain e where "bm_get (child_threads (ed_scope ed)) key = Some e" "a = thread_of e"
    using run by (auto simp: existing_child_thread_def run_simps split: option.splits)
  then have "ta_id a = x" using bm_find_key_Some [OF k] by (auto simp: thread_of_def)
  then show ?thesis using existing_child_thread_assigned [OF run assms(2)] by blast
qed

lemma child_thread_with_id_assigned:
  assumes "child_thread_with_id ext key session parent reserved ed = (Inr a, ed')" and "editor_ok ed"
  shows "assigned ed' a \<and> ta_session_id a = session \<and> ta_parent_thread_id a = parent"
proof -
  have "map_option child_core (bm_get (child_threads (ed_scope ed')) key) = Some (ta_id a, ta_session_id a, ta_parent_thread_id a)
      \<and> ta_session_id a = session \<and> ta_parent_thread_id a = parent"
    using assms by (auto simp: child_thread_with_id_def run_simps ed_scope_update thread_of_def child_core_def dest!: entry_run)
  then show ?thesis by (auto simp: assigned_def stored_child_def)
qed

lemma steps_ok: "edit_steps ext ed ed' \<Longrightarrow> editor_ok ed \<Longrightarrow> editor_ok ed'"
  using edit_steps_lineage by (simp add: keeps_lineage_def)

lemma resolve_existing_child_assigned:
  assumes "resolve_existing_child ext raw ed = (Inr (Some a), ed')" and "editor_ok ed"
  shows "assigned ed' a"
proof -
  obtain found ed1 where one: "child_thread_by_id raw ed = (Inr found, ed1)"
    using assms(1) by (auto simp: resolve_existing_child_def run_simps)
  show ?thesis
  proof (cases found)
    case (Some pair)
    then show ?thesis using assms one child_thread_by_id_assigned [of raw ed "fst pair" a ed1]
      by (cases pair) (auto simp: resolve_existing_child_def run_simps)
  next
    case None
    obtain ed2 p k where two: "existing_wire_from_downstream ext Thread raw ed1 = (Inr (Some p), ed2)"
      and three: "child_thread_by_id p ed2 = (Inr (Some (k, a)), ed')"
      using assms(1) one None by (auto simp: resolve_existing_child_def projected_by_def run_simps split: option.splits)
    have "edit_steps ext ed ed2"
      using okrelD [OF step_ops(7) one] okrelD [OF step_ops(10) two] by (rule rtranclp_trans)
    then show ?thesis using child_thread_by_id_assigned [OF three] steps_ok assms(2) by blast
  qed
qed

lemma assigned_within: "assigned ed a \<Longrightarrow> ta_session_id a = session \<Longrightarrow> within ed session (ta_id a)"
  by (auto simp: assigned_def within_def)

lemma resolve_thread_reference_within:
  assumes "resolve_thread_reference ext raw session ed = (Inr x, ed')" and ok: "editor_ok ed"
  shows "within ed' session x"
proof (cases "raw = session")
  case True
  then show ?thesis using assms(1) by (simp add: resolve_thread_reference_def within_def)
next
  case False
  obtain found ed1 where one: "resolve_existing_child ext raw ed = (Inr found, ed1)"
    using assms(1) False by (auto simp: resolve_thread_reference_def run_simps)
  have s1: "edit_steps ext ed ed1" using okrelD [OF resolvers_edit(2) one] .
  show ?thesis
  proof (cases found)
    case (Some a)
    then show ?thesis using assms(1) False one resolve_existing_child_assigned [of ext raw ed a ed1] ok
      by (auto simp: resolve_thread_reference_def run_simps intro: assigned_within)
  next
    case None
    obtain root ed2 where two: "existing_wire_from_downstream ext Session raw ed1 = (Inr root, ed2)"
      using assms(1) False one None by (auto simp: resolve_thread_reference_def run_simps)
    have s2: "edit_steps ext ed ed2" using s1 okrelD [OF step_ops(10) two] by (rule rtranclp_trans)
    show ?thesis
    proof (cases root)
      case (Some r)
      then show ?thesis using assms(1) False one None two by (auto simp: resolve_thread_reference_def run_simps within_def)
    next
      case none: None
      let ?key = "ed_lookup ext ed2 ''thread'' raw"
      obtain existing ed3 where three: "existing_child_thread ?key ed2 = (Inr existing, ed3)"
        using assms(1) False one None two none by (auto simp: resolve_thread_reference_def run_simps)
      have s3: "edit_steps ext ed ed3" using s2 okrelD [OF step_ops(3) three] by (rule rtranclp_trans)
      show ?thesis
      proof (cases existing)
        case (Some a)
        then show ?thesis
          using assms(1) False one None two none three existing_child_thread_assigned [of ?key ed2 a ed3] steps_ok [OF s2 ok]
          by (auto simp: resolve_thread_reference_def run_simps intro: assigned_within)
      next
        case empty: None
        obtain reserved ed4 a where four: "existing_wire_from_downstream ext Thread raw ed3 = (Inr reserved, ed4)"
          and five: "child_thread_with_id ext ?key session (Some session) reserved ed4 = (Inr a, ed')" and x: "x = ta_id a"
          using assms(1) False one None two none three empty by (auto simp: resolve_thread_reference_def run_simps)
        have "edit_steps ext ed ed4" using s3 okrelD [OF step_ops(10) four] by (rule rtranclp_trans)
        then show ?thesis using child_thread_with_id_assigned [OF five] steps_ok ok x assigned_within by blast
      qed
    qed
  qed
qed

lemma lineage_parent_within:
  assumes "lineage_parent ext ev session ed = (Inr p, ed')" and "editor_ok ed"
  shows "within ed' session p"
  using assms resolve_thread_reference_within [of ext _ session ed p ed']
  by (auto simp: lineage_parent_def within_def split: option.splits if_splits)

lemma lineage_child_stored:
  assumes "lineage_child ext ev session parent ed = (Inr a, ed')" and ok: "editor_ok ed"
  shows "stored_child ed' (ta_id a) session (Some parent)"
proof (cases "ev_thread ev")
  case None
  then have "child_thread_with_id ext (derived_lookup ext ed ''thread-fallback'' [session, parent, ev_request_kind ev])
      session (Some parent) None ed = (Inr a, ed')"
    using assms(1) by (auto simp: lineage_child_def child_thread_def run_simps)
  from child_thread_with_id_assigned [OF this ok] show ?thesis by (auto simp: assigned_def)
next
  case (Some raw)
  obtain found ed1 where one: "resolve_existing_child ext raw ed = (Inr found, ed1)"
    using assms(1) Some by (auto simp: lineage_child_def run_simps)
  have s1: "edit_steps ext ed ed1" using okrelD [OF resolvers_edit(2) one] .
  show ?thesis
  proof (cases found)
    case (Some b)
    then show ?thesis using assms(1) one \<open>ev_thread ev = Some raw\<close> resolve_existing_child_assigned [of ext raw ed b ed1] ok
      by (auto simp: lineage_child_def run_simps assigned_def)
  next
    case None
    then obtain reserved ed2 ed3 where two: "existing_wire_from_downstream ext Thread raw ed1 = (Inr reserved, ed2)"
      and three: "(case reserved of None \<Rightarrow> aret () | Some x \<Rightarrow> abind (conversation_by_id x) (\<lambda>root.
         aensure (root = None) (Msg ''child thread was an independent root''))) ed2 = (Inr (), ed3)"
      and four: "child_thread_with_id ext (ed_lookup ext ed1 ''thread'' raw) session (Some parent) reserved ed3 = (Inr a, ed')"
      using assms(1) one \<open>ev_thread ev = Some raw\<close> by (auto simp: lineage_child_def run_simps)
    have "okrel (edit_steps ext) (case reserved of None \<Rightarrow> aret () | Some x \<Rightarrow> abind (conversation_by_id x) (\<lambda>root.
         aensure (root = None) (Msg ''child thread was an independent root'')))"
      by (intro step_rules)
    from okrelD [OF this three] have "edit_steps ext ed ed3"
      using s1 okrelD [OF step_ops(10) two] by (meson rtranclp_trans)
    then show ?thesis using child_thread_with_id_assigned [OF four] steps_ok ok by (auto simp: assigned_def)
  qed
qed

lemma implicit_thread_stored:
  assumes "implicit_thread session owner forked ed = (Inr (t, p, f, w), ed')" and "editor_ok ed"
  shows "t = session \<and> p = None \<or> stored_child ed' t session p"
proof (cases "\<exists>o'. owner = Some o' \<and> wo_thread_id o' \<noteq> session")
  case True
  then obtain o' k a where "owner = Some o'" "child_thread_by_id (wo_thread_id o') ed = (Inr (Some (k, a)), ed')"
    "t = ta_id a" "p = ta_parent_thread_id a" "ta_session_id a = session"
    using assms(1) by (auto simp: implicit_thread_def run_simps)
  then show ?thesis using child_thread_by_id_assigned [of "wo_thread_id o'" ed k a ed'] assms(2) by (auto simp: assigned_def)
next
  case False
  then show ?thesis using assms(1) by (auto simp: implicit_thread_def run_simps split: option.splits)
qed

lemma resolve_thread_stored:
  assumes "resolve_thread ext ev session owner ed = (Inr (t, p, f, w), ed')" and ok: "editor_ok ed"
  shows "(t = session \<and> p = None \<or> stored_child ed' t session p)
    \<and> (ev_explicit_thread_lineage ev \<longrightarrow> stored_child ed' t session p \<and> (\<exists>q. p = Some q \<and> within ed' session q))"
proof -
  obtain forked ed1 where one: "atraverse (resolve_fork_reference ext) (ev_forked_from_thread ev) ed = (Inr forked, ed1)"
    using assms(1) by (auto simp: resolve_thread_def run_simps)
  have fork: "okrel (edit_steps ext) (atraverse (resolve_fork_reference ext) (ev_forked_from_thread ev))"
    unfolding atraverse_def resolve_fork_reference_def known_thread_def or_else_try_def by (intro step_rules)
  have ok1: "editor_ok ed1" using steps_ok [OF okrelD [OF fork one] ok] .
  show ?thesis
  proof (cases "ev_explicit_thread_lineage ev")
    case False
    then show ?thesis using assms(1) one implicit_thread_stored [OF _ ok1] by (auto simp: resolve_thread_def run_simps)
  next
    case True
    then obtain q ed2 a where two: "lineage_parent ext ev session ed1 = (Inr q, ed2)"
      and three: "lineage_child ext ev session q ed2 = (Inr a, ed')" and r: "t = ta_id a" "p = Some q"
      using assms(1) one by (auto simp: resolve_thread_def run_simps)
    have runs: "okrel (edit_steps ext) (lineage_parent ext ev session)" "okrel (edit_steps ext) (lineage_child ext ev session q)"
      unfolding lineage_parent_def resolve_thread_reference_def lineage_child_def child_thread_def
      by (intro step_rules resolvers_edit)+
    have ok2: "editor_ok ed2" using steps_ok [OF okrelD [OF runs(1) two] ok1] .
    have keep: "keeps_lineage ed2 ed'" using edit_steps_lineage [OF okrelD [OF runs(2) three]] .
    have "within ed' session q" using within_keeps [OF keep ok2 lineage_parent_within [OF two ok1]] .
    then show ?thesis using lineage_child_stored [OF three ok2] r by auto
  qed
qed

section \<open>Turns\<close>

definition stored_turn :: "editor \<Rightarrow> string \<Rightarrow> string \<Rightarrow> string \<Rightarrow> string \<Rightarrow> string option \<Rightarrow> bool" where
  "stored_turn ed key turn thread root parent \<longleftrightarrow>
     map_option turn_core (bm_get (turns (ed_scope ed)) key) = Some (turn, thread, root, parent)"

definition assigned_turn :: "editor \<Rightarrow> string \<Rightarrow> turn_assignment \<Rightarrow> bool" where
  "assigned_turn ed key a \<longleftrightarrow> stored_turn ed key (ua_id a) (ua_thread_id a) (ua_root_turn_id a) (ua_parent_turn_id a)"

lemma stored_turn_keeps: "keeps_lineage ed ed' \<Longrightarrow> editor_ok ed \<Longrightarrow> stored_turn ed k t h r p \<Longrightarrow> stored_turn ed' k t h r p"
  unfolding keeps_lineage_def lineage_grows_def stored_turn_def by blast

lemma stored_turn_same: "same_lineage ed ed' \<Longrightarrow> editor_ok ed \<Longrightarrow> stored_turn ed' k t h r p = stored_turn ed k t h r p"
  unfolding same_lineage_def stored_turn_def by (metis bm_map_get)

lemma existing_turn_assigned:
  assumes "existing_turn key ed = (Inr found, ed')" and "editor_ok ed"
  shows "case found of Some a \<Rightarrow> assigned_turn ed key a \<and> assigned_turn ed' key a
    | None \<Rightarrow> bm_get (turns (ed_scope ed)) key = None \<and> ed' = ed"
proof (cases found)
  case (Some a)
  obtain e where "bm_get (turns (ed_scope ed)) key = Some e" "a = turn_of e"
    using assms(1) Some by (auto simp: existing_turn_def run_simps split: option.splits)
  then have "assigned_turn ed key a" by (auto simp: assigned_turn_def stored_turn_def turn_core_def turn_of_def)
  then show ?thesis
    using Some stored_turn_same [OF okrelD [OF same_existing_turn assms(1)] assms(2)] by (simp add: assigned_turn_def)
qed (use assms(1) in \<open>auto simp: existing_turn_def run_simps split: option.splits\<close>)

lemma turn_with_id_entry:
  assumes "turn_with_id ext key thread root parent reserved ed = (Inr a, ed')"
  obtains e ed1 b day where "a = turn_of e" and "te_thread_id e = thread" and "te_parent_turn_id e = parent"
    and "\<forall>r. root = Some r \<longrightarrow> te_root_turn_id e = r"
    and "bm_get (turns (ed_scope ed)) key = Some e \<and> ed1 = ed
      \<or> bm_get (turns (ed_scope ed)) key = None \<and> te_root_turn_id e = (case root of Some r \<Rightarrow> r | None \<Rightarrow> te_id e)
        \<and> (\<exists>n. ed1 = ed_update_scope (turns_update (bm_insert key e)) (ed\<lparr>ed_draws := n\<rparr>))"
    and "ed' = protect_key pk_turns_update key (mark_changed b
      (ed_update_scope (turns_update (bm_update key (\<lambda>e. e\<lparr>te_last_seen_day := day\<rparr>))) ed1))"
proof -
  let ?build = "abind (reserved_or_draw ext reserved) (\<lambda>x. aret \<lparr>te_id = x, te_thread_id = thread,
          te_inventory_source_thread_id = None, te_classifier = False,
          te_root_turn_id = (case root of Some r \<Rightarrow> r | None \<Rightarrow> x),
          te_parent_turn_id = parent, te_started_at_unix_ms = ed_now_unix_ms ed, te_last_seen_day = ed_day ed\<rparr>)"
  obtain e ed1 b day where run: "entry_or_insert turns turns_update key ?build ed = (Inr e, ed1)"
    and e: "a = turn_of e" "te_thread_id e = thread" "te_parent_turn_id e = parent" "is_none_or root (\<lambda>r. te_root_turn_id e = r)"
    and ed': "ed' = protect_key pk_turns_update key (mark_changed b
      (ed_update_scope (turns_update (bm_update key (\<lambda>e. e\<lparr>te_last_seen_day := day\<rparr>))) ed1))"
    using assms by (auto simp: turn_with_id_def run_simps)
  have "draws_only ?build" by (intro draws_only_intros draws_only_abind)
  note cases = entry_or_insert_Inr [OF run this]
  have fresh: "te_root_turn_id e = (case root of Some r \<Rightarrow> r | None \<Rightarrow> te_id e)" if built: "?build ed = (Inr e, ed2)" for ed2
  proof -
    obtain x where "e = \<lparr>te_id = x, te_thread_id = thread, te_inventory_source_thread_id = None, te_classifier = False,
          te_root_turn_id = (case root of Some r \<Rightarrow> r | None \<Rightarrow> x),
          te_parent_turn_id = parent, te_started_at_unix_ms = ed_now_unix_ms ed, te_last_seen_day = ed_day ed\<rparr>"
      using built unfolding abind_Inr_iff by auto
    then show ?thesis by (cases root) simp_all
  qed
  show thesis
  proof (rule that [OF e(1-3) _ _ ed'])
    show "\<forall>r. root = Some r \<longrightarrow> te_root_turn_id e = r" using e(4) by (simp add: is_none_or_def split: option.splits)
    show "bm_get (turns (ed_scope ed)) key = Some e \<and> ed1 = ed
      \<or> bm_get (turns (ed_scope ed)) key = None \<and> te_root_turn_id e = (case root of Some r \<Rightarrow> r | None \<Rightarrow> te_id e)
        \<and> (\<exists>n. ed1 = ed_update_scope (turns_update (bm_insert key e)) (ed\<lparr>ed_draws := n\<rparr>))"
      using cases fresh by blast
  qed
qed

lemma turn_with_id_assigned:
  assumes "turn_with_id ext key thread root parent reserved ed = (Inr a, ed')" and ok: "editor_ok ed"
  shows "assigned_turn ed' key a" and "ua_thread_id a = thread" and "ua_parent_turn_id a = parent"
    and "root = Some r \<Longrightarrow> ua_root_turn_id a = r"
    and "bm_get (turns (ed_scope ed)) key = None \<Longrightarrow> root = None \<Longrightarrow> ua_root_turn_id a = ua_id a"
    and "child_threads (ed_scope ed') = child_threads (ed_scope ed)"
proof -
  obtain e ed1 b day where e: "a = turn_of e" "te_thread_id e = thread" "te_parent_turn_id e = parent"
      "\<forall>r. root = Some r \<longrightarrow> te_root_turn_id e = r"
    and ed1: "bm_get (turns (ed_scope ed)) key = Some e \<and> ed1 = ed
      \<or> bm_get (turns (ed_scope ed)) key = None \<and> te_root_turn_id e = (case root of Some r \<Rightarrow> r | None \<Rightarrow> te_id e)
        \<and> (\<exists>n. ed1 = ed_update_scope (turns_update (bm_insert key e)) (ed\<lparr>ed_draws := n\<rparr>))"
    and ed': "ed' = protect_key pk_turns_update key (mark_changed b
      (ed_update_scope (turns_update (bm_update key (\<lambda>e. e\<lparr>te_last_seen_day := day\<rparr>))) ed1))"
    by (rule turn_with_id_entry [OF assms(1)]) (rule that; assumption)
  have okn: "editor_ok (ed\<lparr>ed_draws := n\<rparr>)" for n using ok by (simp add: editor_ok_def)
  have ok1: "editor_ok ed1" "bm_get (turns (ed_scope ed1)) key = Some e" "child_threads (ed_scope ed1) = child_threads (ed_scope ed)"
    using ed1 ok ed_scope_update [OF okn] steps_ok by (auto simp: editor_ok_def ed_update_scope_def)
  show "assigned_turn ed' key a" "child_threads (ed_scope ed') = child_threads (ed_scope ed)"
    using ok1 unfolding ed' by (simp_all add: ed_scope_update assigned_turn_def stored_turn_def e(1) turn_of_def turn_core_def)
  show "ua_thread_id a = thread" "ua_parent_turn_id a = parent" "root = Some r \<Longrightarrow> ua_root_turn_id a = r"
    "bm_get (turns (ed_scope ed)) key = None \<Longrightarrow> root = None \<Longrightarrow> ua_root_turn_id a = ua_id a"
    using e ed1 by (auto simp: turn_of_def)
qed

text \<open>What admitting a turn for a request answers, for ordinary and for classifier requests.\<close>

definition admitted :: "string option \<Rightarrow> string option \<Rightarrow> turn_assignment \<Rightarrow> bool" where
  "admitted root parent a \<longleftrightarrow> ua_parent_turn_id a = parent \<and> (\<forall>r. root = Some r \<longrightarrow> ua_root_turn_id a = r)"

lemma turn_with_id_admitted:
  assumes "turn_with_id ext key thread root parent reserved ed = (Inr a, ed')" and ok: "editor_ok ed"
  shows "assigned_turn ed' key a \<and> admitted root parent a \<and> ua_thread_id a = thread
    \<and> (root = None \<longrightarrow> ua_root_turn_id a = ua_id a \<or> bm_get (turns (ed_scope ed)) key \<noteq> None)"
  using turn_with_id_assigned [OF assms] by (auto simp: admitted_def)

lemma classifier_turn_admitted:
  assumes "classifier_turn_with_id ext key thread root parent reserved ed = (Inr a, ed')" and ok: "editor_ok ed"
  shows "assigned_turn ed' key a \<and> admitted root parent a
    \<and> (root = None \<longrightarrow> ua_root_turn_id a = ua_id a \<or> bm_get (turns (ed_scope ed)) key \<noteq> None)"
proof -
  have same_check: "okrel same_lineage (case parent of None \<Rightarrow> aret ()
       | Some parent \<Rightarrow> abind (turn_by_id parent) (\<lambda>found.
           abind (alift (ok_or found (Msg ''classifier parent is missing''))) (\<lambda>(_, parent).
           aensure (ua_thread_id parent = source) (Msg ''classifier parent source changed''))))" for source
    by (intro same_rules same_lookups)
  obtain k lease source ed1 ed2 where one: "child_thread_by_id thread ed = (Inr (Some (k, lease)), ed1)"
    and two: "(case parent of None \<Rightarrow> aret ()
       | Some parent \<Rightarrow> abind (turn_by_id parent) (\<lambda>found.
           abind (alift (ok_or found (Msg ''classifier parent is missing''))) (\<lambda>(_, parent).
           aensure (ua_thread_id parent = source) (Msg ''classifier parent source changed'')))) ed1 = (Inr (), ed2)"
    and rest: "(if is_some_and (bm_get (turns (ed_scope ed2)) key) te_classifier
        then known_classifier_turn key lease source root parent reserved
        else abind (turn_with_id ext key thread root parent reserved) (\<lambda>turn.
         athen (amodify (ed_update_scope (turns_update (bm_update key (\<lambda>e. e\<lparr>te_classifier := True\<rparr>)))))
        (athen (amodify (mark_changed True)) (aret turn)))) ed2 = (Inr a, ed')"
    using assms(1) by (auto simp: classifier_turn_with_id_def run_simps)
  have same: "same_lineage ed ed2"
    using okrelD [OF same_child_thread_by_id one] okrelD [OF same_check two] by (rule same_lineage_trans)
  have ok2: "editor_ok ed2" using same ok by (simp add: same_lineage_def)
  have fresh: "bm_get (turns (ed_scope ed)) key = None \<longleftrightarrow> bm_get (turns (ed_scope ed2)) key = None"
    using same ok unfolding same_lineage_def by (metis bm_map_get option.map_disc_iff)
  show ?thesis
  proof (cases "is_some_and (bm_get (turns (ed_scope ed2)) key) te_classifier")
    case True
    obtain ed3 k' owner where three: "existing_turn key ed2 = (Inr (Some a), ed3)"
      and four: "child_thread_by_id (ua_thread_id a) ed3 = (Inr (Some (k', owner)), ed')"
      and e: "ua_root_turn_id a = (case root of Some r \<Rightarrow> r | None \<Rightarrow> ua_id a)" "ua_parent_turn_id a = parent"
      using rest True by (auto simp: known_classifier_turn_def run_simps)
    have "assigned_turn ed3 key a" using existing_turn_assigned [OF three ok2] by simp
    moreover have "editor_ok ed3" using okrelD [OF same_existing_turn three] ok2 by (simp add: same_lineage_def)
    ultimately have "assigned_turn ed' key a"
      using stored_turn_same [OF okrelD [OF same_child_thread_by_id four]] by (simp add: assigned_turn_def)
    then show ?thesis using e by (auto simp: admitted_def)
  next
    case False
    obtain ed3 where three: "turn_with_id ext key thread root parent reserved ed2 = (Inr a, ed3)"
      and ed': "ed' = mark_changed True (ed_update_scope (turns_update (bm_update key (\<lambda>e. e\<lparr>te_classifier := True\<rparr>))) ed3)"
      using rest False by (auto simp: run_simps)
    have "same_lineage ed3 (ed_update_scope (turns_update (bm_update key (\<lambda>e. e\<lparr>te_classifier := True\<rparr>))) ed3)"
      by (rule same_update) (auto simp: bm_map_in_place turn_core_def)
    then have "same_lineage ed3 ed'" unfolding ed' using same_lineage_trans same_frame(1) by blast
    moreover have "editor_ok ed3" using steps_ok [OF okrelD [OF step_ops(4) three] ok2] .
    ultimately show ?thesis
      using turn_with_id_admitted [OF three ok2] stored_turn_same fresh by (auto simp: assigned_turn_def)
  qed
qed

lemma admit_turn_admitted:
  assumes "admit_turn ext ev key thread root parent reserved ed = (Inr a, ed')" and ok: "editor_ok ed"
  shows "assigned_turn ed' key a \<and> admitted root parent a \<and> (ev_classifier ev \<or> ua_thread_id a = thread)
    \<and> (root = None \<longrightarrow> ua_root_turn_id a = ua_id a \<or> bm_get (turns (ed_scope ed)) key \<noteq> None)"
proof (cases "ev_classifier ev")
  case True
  then show ?thesis using assms classifier_turn_admitted by (fastforce simp: admit_turn_def)
next
  case False
  then show ?thesis using assms turn_with_id_admitted by (fastforce simp: admit_turn_def)
qed

text \<open>A root turn a request of a thread may use: its own root, on the session or above the thread.\<close>

definition usable_root :: "editor \<Rightarrow> editor \<Rightarrow> string \<Rightarrow> string \<Rightarrow> string \<Rightarrow> bool" where
  "usable_root before ed session thread root \<longleftrightarrow>
     (\<exists>k h. stored_turn ed k root h root None \<and> (h = session \<or> thread_is_ancestor before h thread))"

lemma resolve_root_usable:
  assumes "resolve_root ext root_key thread session root_alias ed = (Inr r, ed')" and ok: "editor_ok ed"
  shows "usable_root ed ed' session thread (ua_id r)"
proof -
  obtain found ed1 where one: "existing_turn root_key ed = (Inr found, ed1)"
    using assms(1) by (auto simp: resolve_root_def run_simps)
  have same: "same_lineage ed ed1" using okrelD [OF same_existing_turn one] .
  note known = existing_turn_assigned [OF one ok]
  show ?thesis
  proof (cases found)
    case (Some a)
    then have "r = a" "ed' = ed1" "ua_id a = ua_root_turn_id a" "ua_parent_turn_id a = None" "thread_is_ancestor ed1 (ua_thread_id a) thread"
      using assms(1) one by (auto simp: resolve_root_def run_simps)
    then show ?thesis using known Some same_thread_is_ancestor [OF same ok]
      by (auto simp: usable_root_def assigned_turn_def)
  next
    case None
    then have run: "turn_with_id ext root_key session None None root_alias ed = (Inr r, ed')" and new: "bm_get (turns (ed_scope ed)) root_key = None"
      using assms(1) one known by (auto simp: resolve_root_def run_simps)
    from turn_with_id_admitted [OF run ok] new have "stored_turn ed' root_key (ua_id r) session (ua_id r) None"
      by (auto simp: assigned_turn_def admitted_def)
    then show ?thesis by (auto simp: usable_root_def)
  qed
qed

lemma usable_root_keeps: "keeps_lineage ed ed' \<Longrightarrow> editor_ok ed \<Longrightarrow> usable_root b ed s t r \<Longrightarrow> usable_root b ed' s t r"
  unfolding usable_root_def using stored_turn_keeps by blast

lemma usable_root_before: "same_lineage b b' \<Longrightarrow> editor_ok b \<Longrightarrow> usable_root b' ed s t r = usable_root b ed s t r"
  by (simp add: usable_root_def same_thread_is_ancestor)

text \<open>A parent turn shares the root, or is the root.\<close>

definition shares_root :: "editor \<Rightarrow> string \<Rightarrow> string \<Rightarrow> bool" where
  "shares_root ed root parent \<longleftrightarrow> parent = root \<or> (\<exists>k h q. stored_turn ed k parent h root q)"

lemma shares_root_keeps: "keeps_lineage ed ed' \<Longrightarrow> editor_ok ed \<Longrightarrow> shares_root ed r p \<Longrightarrow> shares_root ed' r p"
  unfolding shares_root_def using stored_turn_keeps by blast

lemma resolve_parent_shares:
  assumes "resolve_parent ext root_key root session raw ed = (Inr p, ed')" and ok: "editor_ok ed"
  shows "shares_root ed' (ua_id root) p"
proof -
  obtain key ed1 where one: "turn_key_for_raw ext raw ed = (Inr key, ed1)"
    using assms(1) by (auto simp: resolve_parent_def run_simps)
  have ok1: "editor_ok ed1" using steps_ok [OF okrelD [OF resolvers_edit(3) one] ok] .
  show ?thesis
  proof (cases "key = root_key")
    case True
    then show ?thesis using assms(1) one by (auto simp: resolve_parent_def run_simps shares_root_def)
  next
    case False
    obtain found ed2 where two: "existing_turn key ed1 = (Inr found, ed2)"
      using assms(1) one False by (auto simp: resolve_parent_def run_simps)
    note known = existing_turn_assigned [OF two ok1]
    show ?thesis
    proof (cases found)
      case (Some a)
      then show ?thesis using assms(1) one False two known
        by (auto simp: resolve_parent_def run_simps shares_root_def assigned_turn_def)
    next
      case None
      obtain al ed3 a where three: "existing_wire_from_downstream ext Turn raw ed2 = (Inr al, ed3)"
        and four: "turn_with_id ext key session (Some (ua_id root)) (Some (ua_id root)) al ed3 = (Inr a, ed')" and "p = ua_id a"
        using assms(1) one False two None by (auto simp: resolve_parent_def run_simps)
      moreover have "editor_ok ed3" using steps_ok [OF okrelD [OF step_ops(10) three]] known None ok1 by simp
      ultimately show ?thesis using turn_with_id_admitted [OF four]
        by (auto simp: shares_root_def assigned_turn_def admitted_def)
    qed
  qed
qed

lemma same_resolvers:
  "okrel same_lineage (turn_key_for_raw ext raw)"
  "okrel same_lineage (inherited_root ext ev)"
  unfolding inherited_root_def turn_key_for_raw_def by (intro same_rules same_lookups)+

text \<open>What the answer says of the turn: a stored turn with a root and a parent it may use.\<close>

definition turn_placed :: "editor \<Rightarrow> editor \<Rightarrow> identity_evidence \<Rightarrow> string \<Rightarrow> string \<Rightarrow> string \<Rightarrow> resolved_turn \<Rightarrow> bool" where
  "turn_placed before ed ev key thread session rt \<longleftrightarrow>
     (\<exists>turn h root. rt_turn_id rt = Some turn \<and> rt_root_turn_id rt = Some root
        \<and> stored_turn ed key turn h root (rt_parent_turn_id rt) \<and> (ev_classifier ev \<or> h = thread)
        \<and> (root = turn \<or> bm_get (turns (ed_scope before)) key \<noteq> None \<or> usable_root before ed session thread root)
        \<and> (\<forall>p. rt_parent_turn_id rt = Some p \<longrightarrow> shares_root ed root p))"

lemma admitted_alone_placed:
  assumes "admit_turn ext ev key thread None None reserved ed = (Inr a, ed')" and "editor_ok ed" and "same_lineage before ed"
    and "editor_ok before"
  shows "turn_placed before ed' ev key thread session (resolved a)"
proof -
  have "bm_get (turns (ed_scope before)) key = None \<longleftrightarrow> bm_get (turns (ed_scope ed)) key = None"
    using assms(3,4) unfolding same_lineage_def by (metis bm_map_get option.map_disc_iff)
  then show ?thesis using admit_turn_admitted [OF assms(1,2)]
    by (auto simp: turn_placed_def resolved_def assigned_turn_def admitted_def)
qed

lemma rooted_turn_placed:
  assumes one: "resolve_root ext root_key thread session root_alias ed = (Inr root, ed1)"
    and two: "atraverse (resolve_parent ext root_key root session) raw_parent ed1 = (Inr parent, ed2)"
    and three: "admit_turn ext ev key thread (Some (ua_id root)) parent reserved ed2 = (Inr a, ed3)" and ok: "editor_ok ed"
    and before: "same_lineage before ed" "editor_ok before"
  shows "turn_placed before ed3 ev key thread session (resolved a)"
proof -
  have runs: "okrel (edit_steps ext) (resolve_root ext root_key thread session root_alias)"
      "okrel (edit_steps ext) (atraverse (resolve_parent ext root_key root session) raw_parent)"
      "okrel (edit_steps ext) (admit_turn ext ev key thread (Some (ua_id root)) parent reserved)"
    unfolding resolve_root_def atraverse_def resolve_parent_def admit_turn_def by (intro step_rules resolvers_edit)+
  note s1 = okrelD [OF runs(1) one] and s2 = okrelD [OF runs(2) two] and s3 = okrelD [OF runs(3) three]
  have ok1: "editor_ok ed1" using steps_ok [OF s1 ok] .
  have ok2: "editor_ok ed2" using steps_ok [OF s2 ok1] .
  note k3 = edit_steps_lineage [OF s3] and k2 = edit_steps_lineage [OF s2]
  have "usable_root ed ed3 session thread (ua_id root)"
    using usable_root_keeps [OF k3 ok2 usable_root_keeps [OF k2 ok1 resolve_root_usable [OF one ok]]] .
  then have root: "usable_root before ed3 session thread (ua_id root)" using usable_root_before [OF before] by simp
  have "shares_root ed2 (ua_id root) p" if "parent = Some p" for p
    using two that resolve_parent_shares [OF _ ok1, of ext root_key root session _ p ed2]
    by (auto simp: atraverse_def run_simps split: option.splits)
  then have "shares_root ed3 (ua_id root) p" if "parent = Some p" for p using that shares_root_keeps [OF k3 ok2] by blast
  with root show ?thesis using admit_turn_admitted [OF three ok2]
    by (auto simp: turn_placed_def resolved_def assigned_turn_def admitted_def)
qed

lemma resolve_turn_placed:
  assumes run: "resolve_turn ext ev key thread session reserved ed = (Inr rt, ed')" and ok: "editor_ok ed"
    and kind: "\<not> is_prewarm ev" "\<not> (is_memory ev \<and> ev_turn ev = None)"
  shows "turn_placed ed ed' ev key thread session rt"
proof (cases "child_lineage ev")
  case False
  then obtain a where "admit_turn ext ev key thread None None reserved ed = (Inr a, ed')" "rt = resolved a"
    using run kind by (auto simp: resolve_turn_def run_simps)
  then show ?thesis using admitted_alone_placed [OF _ ok same_lineage_refl ok] by blast
next
  case True
  obtain inherited ed1 where one: "inherited_root ext ev ed = (Inr inherited, ed1)"
    using run kind True by (auto simp: resolve_turn_def run_simps)
  define raw where "raw = (case option_or (option_or (ev_root_turn ev) inherited) (ev_parent_turn ev) of Some raw \<Rightarrow> raw | None \<Rightarrow> key)"
  obtain root_key ed2 root_alias ed3 where two: "turn_key_for_raw ext raw ed1 = (Inr root_key, ed2)"
    and three: "existing_wire_from_downstream ext Turn raw ed2 = (Inr root_alias, ed3)"
    using run kind True one by (auto simp: resolve_turn_def run_simps Let_def raw_def)
  have same: "same_lineage ed ed3"
    using okrelD [OF same_resolvers(2) one] okrelD [OF same_resolvers(1) two]
      okrelD [OF same_existing_wire_from_downstream three] same_lineage_trans by blast
  have ok3: "editor_ok ed3" using same ok by (simp add: same_lineage_def)
  show ?thesis
  proof (cases "key = root_key")
    case True
    then obtain a where "admit_turn ext ev key thread None None reserved ed3 = (Inr a, ed')" "rt = resolved a"
      using run kind \<open>child_lineage ev\<close> one two three by (auto simp: resolve_turn_def run_simps Let_def raw_def)
    then show ?thesis using admitted_alone_placed [OF _ ok3 same ok] by blast
  next
    case False
    then obtain root ed4 parent ed5 a where "resolve_root ext root_key thread session root_alias ed3 = (Inr root, ed4)"
      "atraverse (resolve_parent ext root_key root session) (ev_parent_turn ev) ed4 = (Inr parent, ed5)"
      "admit_turn ext ev key thread (Some (ua_id root)) parent reserved ed5 = (Inr a, ed')" "rt = resolved a"
      using run kind \<open>child_lineage ev\<close> one two three by (auto simp: resolve_turn_def run_simps Let_def raw_def)
    then show ?thesis using rooted_turn_placed [OF _ _ _ ok3 same ok] by blast
  qed
qed

end
