(* ===== verification/Item_Attribution.thy ===== *)
theory Item_Attribution
  imports Resolution_Correct
begin

text \<open>
  Which turn an item of the input is attributed to: the search for an imported copy of a turn always ends,
  and no answer names a turn of a thread unrelated to the request.
\<close>

section \<open>The search for an imported copy\<close>

definition child_ids :: "editor \<Rightarrow> string set" where
  "child_ids ed = ct_id ` set (bm_values (child_threads (ed_scope ed)))"

lemma child_ids_same:
  assumes "same_lineage ed ed'" and "editor_ok ed"
  shows "child_ids ed' = child_ids ed"
proof -
  have "ct_id ` set (bm_values m) = fst ` snd ` set (bm_entries (bm_map (\<lambda>_. child_core) m))" for m :: "(string, child_thread_entry) btree_map"
    by (simp add: bm_values_def image_image child_core_def case_prod_beta)
  note ids = this
  have "bm_map (\<lambda>_. child_core) (child_threads (ed_scope ed')) = bm_map (\<lambda>_. child_core) (child_threads (ed_scope ed))"
    using assms by (simp add: same_lineage_def)
  then show ?thesis unfolding child_ids_def ids by (rule arg_cong)
qed

lemma same_editor_ok: "same_lineage ed ed' \<Longrightarrow> editor_ok ed \<Longrightarrow> editor_ok ed'"
  by (simp add: same_lineage_def)

lemma child_thread_by_id_parent:
  assumes "child_thread_by_id x ed = (Inr found, ed')"
  shows "Option.bind found (\<lambda>(_, a). ta_parent_thread_id a) = Option.bind (find_child (ed_scope ed) x) ct_parent_thread_id"
proof (cases "bm_find_key (\<lambda>e. ct_id e = x) (child_threads (ed_scope ed))")
  case None
  then have "find_child (ed_scope ed) x = None" by (simp add: bm_find_key_None find_child_def find_None_iff2 find_None_iff)
  with None assms show ?thesis by (auto simp: child_thread_by_id_def run_simps)
next
  case (Some key)
  have "List.find P (map snd xs) = map_option snd (List.find (\<lambda>(_, v). P v) xs)" for P and xs :: "(string \<times> child_thread_entry) list"
    by (induction xs) auto
  note find_values = this
  obtain e where e: "List.find (\<lambda>(_, v). ct_id v = x) (bm_entries (child_threads (ed_scope ed))) = Some (key, e)"
    using Some by (auto simp: bm_find_key_def)
  then have "bm_get (child_threads (ed_scope ed)) key = Some e" "find_child (ed_scope ed) x = Some e"
    by (auto simp: bm_get_iff find_child_def bm_values_def find_values dest!: find_eq_Some_D)
  then show ?thesis using assms Some
    by (auto simp: child_thread_by_id_def existing_child_thread_def run_simps thread_of_def split: option.splits)
qed

lemma import_walk_same: "okrel same_lineage (import_walk n ext source visited thread)"
proof (induction n arbitrary: visited thread)
  case (Suc n)
  then show ?case unfolding import_walk.simps by (intro same_rules same_lookups) auto
qed (simp add: okrel_def)

lemma import_roots_same: "okrel same_lineage (import_roots ext source visited roots)"
proof (induction roots arbitrary: visited)
  case (Cons root roots)
  then show ?case unfolding import_roots.simps by (intro same_rules import_walk_same) auto
qed (simp add: okrel_def same_lineage_refl)

text \<open>The answer of a walk is a stored turn of a thread above its start.\<close>

definition copy_on :: "editor \<Rightarrow> editor \<Rightarrow> string \<Rightarrow> string \<Rightarrow> bool" where
  "copy_on before ed start turn \<longleftrightarrow> (\<exists>k h r p. stored_turn ed k turn h r p \<and> thread_is_ancestor before h start)"

lemma copy_on_before: "same_lineage b b' \<Longrightarrow> editor_ok b \<Longrightarrow> copy_on b' ed s t = copy_on b ed s t"
  by (simp add: copy_on_def same_thread_is_ancestor)

lemma copy_on_parent:
  assumes "Option.bind (find_child (ed_scope b) start) ct_parent_thread_id = Some parent" and "copy_on b ed parent t"
  shows "copy_on b ed start t"
proof -
  have "thread_is_ancestor b h parent \<Longrightarrow> thread_is_ancestor b h start" for h
    using assms(1) ancestor_loop_reaches [of h "{}"] converse_rtranclp_into_rtranclp [of "parent_thread (ed_scope b)" start parent h]
    by (simp add: thread_is_ancestor_def parent_thread_def)
  then show ?thesis using assms(2) by (auto simp: copy_on_def)
qed

lemma thread_is_ancestor_self [simp]: "thread_is_ancestor ed t t"
  by (simp add: thread_is_ancestor_def ancestor_loop.simps)

lemma import_walk_copy:
  assumes "import_walk n ext source visited thread ed = (Inr (Some x, seen), ed')" and "editor_ok ed"
  shows "copy_on ed ed' thread x"
  using assms
proof (induction n arbitrary: visited thread ed)
  case (Suc n)
  let ?key = "derived_lookup ext ed ''imported-history-turn'' [thread, ua_id source]"
  obtain found ed1 where new: "thread \<notin> visited" and one: "existing_turn ?key ed = (Inr found, ed1)"
    using Suc.prems(1) by (auto simp: run_simps split: if_splits)
  have s1: "same_lineage ed ed1" using okrelD [OF same_existing_turn one] .
  note ok1 = same_editor_ok [OF s1 Suc.prems(2)]
  show ?case
  proof (cases found)
    case (Some a)
    then have "preserve_inventory_origin ?key source ed1 = (Inr (), ed')" and a: "x = ua_id a" "ua_thread_id a = thread"
      using Suc.prems(1) new one by (auto simp: run_simps)
    then have "assigned_turn ed' ?key a"
      using existing_turn_assigned [OF one Suc.prems(2)] Some stored_turn_same [OF okrelD [OF same_preserve_inventory_origin] ok1]
      by (simp add: assigned_turn_def)
    then have "stored_turn ed' ?key x thread (ua_root_turn_id a) (ua_parent_turn_id a)" using a by (simp add: assigned_turn_def)
    then show ?thesis unfolding copy_on_def using thread_is_ancestor_self by blast
  next
    case None
    obtain child ed2 parent where two: "child_thread_by_id thread ed1 = (Inr child, ed2)"
      and p: "Option.bind child (\<lambda>(_, a). ta_parent_thread_id a) = Some parent"
      and walk: "import_walk n ext source (insert thread visited) parent ed2 = (Inr (Some x, seen), ed')"
      using Suc.prems(1) new one None by (auto simp: run_simps split: option.splits)
    have s2: "same_lineage ed ed2" using same_lineage_trans [OF s1 okrelD [OF same_child_thread_by_id two]] .
    have "copy_on ed1 ed' parent x"
      using Suc.IH [OF walk] same_editor_ok [OF s2 Suc.prems(2)] copy_on_before okrelD [OF same_child_thread_by_id two] ok1 by blast
    then have "copy_on ed1 ed' thread x" using copy_on_parent p child_thread_by_id_parent [OF two] by metis
    then show ?thesis using copy_on_before [OF s1 Suc.prems(2)] by simp
  qed
qed simp

lemma import_roots_copy:
  assumes "import_roots ext source visited roots ed = (Inr (Some x), ed')" and "editor_ok ed"
  shows "\<exists>root \<in> set roots. copy_on ed ed' root x"
  using assms
proof (induction roots arbitrary: visited ed)
  case (Cons root roots)
  let ?n = "Suc (bm_len (child_threads (ed_scope ed)))"
  obtain found seen ed1 where walk: "import_walk ?n ext source visited root ed = (Inr (found, seen), ed1)"
    using Cons.prems(1) by (auto simp: run_simps simp del: import_walk.simps)
  have same: "same_lineage ed ed1" using okrelD [OF import_walk_same walk] .
  show ?case
  proof (cases found)
    case (Some y)
    then show ?thesis using Cons.prems walk import_walk_copy [of ?n ext source visited root ed y seen ed1]
      by (auto simp: run_simps simp del: import_walk.simps)
  next
    case None
    then have "import_roots ext source seen roots ed1 = (Inr (Some x), ed')"
      using Cons.prems(1) walk by (auto simp: run_simps simp del: import_walk.simps)
    then have "\<exists>root \<in> set roots. copy_on ed1 ed' root x" using Cons.IH same_editor_ok [OF same Cons.prems(2)] by blast
    then show ?thesis by (auto simp: copy_on_before [OF same Cons.prems(2)])
  qed
qed simp

text \<open>The bound of the search is never reached.\<close>

abbreviation exhausted :: ledger_error where "exhausted \<equiv> Msg ''import walk exhausted''"

lemma existing_turn_runs: "\<exists>found ed'. existing_turn key ed = (Inr found, ed')"
  by (auto simp: existing_turn_def abind_def athen_def aget_def amodify_def aret_def Let_def split: option.splits prod.splits)

lemma child_thread_by_id_runs: "\<exists>found ed'. child_thread_by_id x ed = (Inr found, ed')"
  by (auto simp: child_thread_by_id_def existing_child_thread_def abind_def athen_def aget_def amodify_def aret_def Let_def
      split: option.splits prod.splits)

lemma preserve_inventory_origin_error: "fst (preserve_inventory_origin key source ed) \<noteq> Inl exhausted"
  by (auto simp: preserve_inventory_origin_def abind_def athen_def aget_def amodify_def aret_def alift_def aensure_def ensure_def ok_or_def Let_def
      split: option.splits prod.splits)

lemma import_walk_not_exhausted:
  assumes "editor_ok ed" and "card (child_ids ed - visited) < n"
  shows "fst (import_walk n ext source visited thread ed) \<noteq> Inl exhausted"
  using assms
proof (induction n arbitrary: visited thread ed)
  case (Suc n)
  let ?key = "derived_lookup ext ed ''imported-history-turn'' [thread, ua_id source]"
  obtain found ed1 where one: "existing_turn ?key ed = (Inr found, ed1)" using existing_turn_runs by blast
  obtain child ed2 where two: "child_thread_by_id thread ed1 = (Inr child, ed2)" using child_thread_by_id_runs by blast
  have s1: "same_lineage ed ed1" using okrelD [OF same_existing_turn one] .
  have s2: "same_lineage ed ed2" using same_lineage_trans [OF s1 okrelD [OF same_child_thread_by_id two]] .
  have rest: "fst (import_walk n ext source (insert thread visited) parent ed2) \<noteq> Inl exhausted"
    if "thread \<notin> visited" "Option.bind child (\<lambda>(_, a). ta_parent_thread_id a) = Some parent" for parent
  proof (rule Suc.IH)
    show "editor_ok ed2" using same_editor_ok [OF s2 Suc.prems(1)] .
    have "thread \<in> child_ids ed1"
      using that(2) child_thread_by_id_parent [OF two]
      by (auto simp: child_ids_def bind_eq_Some_conv find_child_def dest!: find_eq_Some_D)
    then have "thread \<in> child_ids ed - visited" using child_ids_same [OF s1 Suc.prems(1)] that(1) by simp
    moreover have "child_ids ed - insert thread visited = child_ids ed - visited - {thread}" by blast
    moreover have "finite (child_ids ed - visited)" by (simp add: child_ids_def)
    ultimately have "card (child_ids ed - insert thread visited) < card (child_ids ed - visited)"
      by (simp only: card_Diff1_less)
    then show "card (child_ids ed2 - insert thread visited) < n"
      using Suc.prems(2) child_ids_same [OF s2 Suc.prems(1)] by simp
  qed
  show ?case using one two rest preserve_inventory_origin_error [of ?key source ed1]
    by (auto simp: abind_def athen_def aget_def aret_def aensure_def alift_def ensure_def split: option.splits prod.splits sum.splits)
qed simp

lemma import_roots_not_exhausted:
  assumes "editor_ok ed"
  shows "fst (import_roots ext source visited roots ed) \<noteq> Inl exhausted"
  using assms
proof (induction roots arbitrary: visited ed)
  case (Cons root roots)
  let ?n = "Suc (bm_len (child_threads (ed_scope ed)))"
  have "card (child_ids ed) < ?n"
    using card_image_le [of "set (bm_values (child_threads (ed_scope ed)))" ct_id] card_length [of "bm_values (child_threads (ed_scope ed))"]
    by (simp add: child_ids_def bm_len_def bm_values_def)
  moreover have "card (child_ids ed - visited) \<le> card (child_ids ed)" by (rule card_mono) (auto simp: child_ids_def)
  ultimately have "fst (import_walk ?n ext source visited root ed) \<noteq> Inl exhausted"
    by (intro import_walk_not_exhausted [OF Cons.prems]) linarith
  then show ?case
    using Cons.IH okrelD [OF import_walk_same] same_editor_ok [OF _ Cons.prems]
    by (auto simp: abind_def aget_def aret_def simp del: import_walk.simps split: option.splits prod.splits sum.splits)
qed simp

section \<open>The turn of an item\<close>

text \<open>
  A turn that an item may be attributed to when its own turn is stored: that turn itself, on a thread above the
  request or above its fork source; that turn again, when a completed baseline of the same classifier session lists
  it; or a copy, kept for such a thread.
\<close>

definition classifier_evidence :: "history_import option \<Rightarrow> item_target \<Rightarrow> string \<Rightarrow> bool" where
  "classifier_evidence import target turn \<longleftrightarrow>
     it_request_kind target = ''guardian_classifier''
     \<and> (\<exists>im base. import = Some im \<and> hi_baseline im = Some base \<and> hb_completed base
         \<and> hb_session_id base = it_session_id target \<and> turn \<in> set (hb_lineage_turns base))"

definition kept_copy :: "editor \<Rightarrow> editor \<Rightarrow> item_target \<Rightarrow> string \<Rightarrow> bool" where
  "kept_copy before ed target turn \<longleftrightarrow>
     (\<exists>k h r p. stored_turn ed k turn h r p
        \<and> history_thread_allowed before h (it_thread_id target) (it_forked_from_thread_id target))"

lemma copy_on_kept:
  "copy_on b ed root turn \<Longrightarrow> root = it_thread_id target \<or> it_forked_from_thread_id target = Some root
    \<Longrightarrow> kept_copy b ed target turn"
  unfolding copy_on_def kept_copy_def history_thread_allowed_def is_some_and_def by (elim disjE exE conjE) (simp, blast)+

lemma import_resolve_turn_kept:
  assumes "import_resolve_turn ext im source target ed = (Inr (Some x), ed')" and ok: "editor_ok ed"
  shows "kept_copy ed ed' target x"
proof -
  let ?roots = "it_thread_id target # (case it_forked_from_thread_id target of None \<Rightarrow> [] | Some f \<Rightarrow> [f])"
  let ?key = "derived_lookup ext ed ''imported-history-turn'' [it_thread_id target, ua_id source]"
  obtain found ed1 where one: "import_roots ext source {} ?roots ed = (Inr found, ed1)"
    using assms(1) by (auto simp: import_resolve_turn_def resolve_turn_for_thread_def run_simps simp del: import_roots.simps)
  have s1: "same_lineage ed ed1" using okrelD [OF import_roots_same one] .
  show ?thesis
  proof (cases found)
    case (Some y)
    then have "x = y" "ed' = ed1"
      using assms(1) one by (auto simp: import_resolve_turn_def resolve_turn_for_thread_def run_simps simp del: import_roots.simps)
    then obtain root where "root \<in> set ?roots" "copy_on ed ed' root x" using import_roots_copy one Some ok by blast
    then show ?thesis using copy_on_kept by (auto split: option.splits)
  next
    case None
    obtain owner ed2 a ed3 ed4 where two: "child_thread_by_id (ua_thread_id source) ed1 = (Inr owner, ed2)"
      and three: "turn_with_id ext ?key (it_thread_id target) None None None ed2 = (Inr a, ed3)"
      and four: "preserve_inventory_origin ?key source ed3 = (Inr (), ed4)"
      and five: "\<exists>w. wire_from_upstream ext Turn (ua_id a) ed4 = (Inr w, ed')" and x: "x = ua_id a"
      using assms(1) one None
      by (auto simp: import_resolve_turn_def resolve_turn_for_thread_def run_simps simp del: import_roots.simps split: if_splits)
    have s2: "same_lineage ed ed2" using same_lineage_trans [OF s1 okrelD [OF same_child_thread_by_id two]] .
    have ok2: "editor_ok ed2" using same_editor_ok [OF s2 ok] .
    have ok3: "editor_ok ed3" using steps_ok [OF okrelD [OF step_ops(4) three] ok2] .
    have "edit_steps ext ed3 ed'" using okrelD [OF step_ops(14) four] five okrelD [OF step_ops(12)] by (meson rtranclp_trans)
    then have "stored_turn ed' ?key x (it_thread_id target) (ua_root_turn_id a) (ua_parent_turn_id a)"
      using stored_turn_keeps [OF edit_steps_lineage ok3] turn_with_id_admitted [OF three ok2] x by (auto simp: assigned_turn_def)
    then show ?thesis unfolding kept_copy_def history_thread_allowed_def using thread_is_ancestor_self by blast
  qed
qed

lemma classifier_item_evidence:
  assumes "classifier_history_item_allowed ext im turn target index ed = (Inr True, ed')"
  shows "classifier_evidence (Some im) target turn"
  using assms
  by (auto simp: classifier_history_item_allowed_def classifier_history_source_allowed_def classifier_evidence_def run_simps
      split: if_splits option.splits)

lemma kept_copy_before: "same_lineage b b' \<Longrightarrow> editor_ok b \<Longrightarrow> kept_copy b' ed t x = kept_copy b ed t x"
  by (simp add: kept_copy_def same_history_allowed)

lemma project_item_turn_related:
  assumes run: "project_item_turn ext (Some r) cur target import index ed = (Inr answer, ed')" and ok: "editor_ok ed"
    and kind: "it_request_kind target \<noteq> ''memory''" and other: "cur \<noteq> Some r"
    and key: "turn_key_for_raw ext r ed = (Inr key, ed1)" and stored: "stored_turn ed key turn h root parent"
  shows "\<exists>t. answer = Some t \<and>
    (t = turn \<and> history_thread_allowed ed h (it_thread_id target) (it_forked_from_thread_id target)
     \<or> t = turn \<and> classifier_evidence import target turn \<or> import \<noteq> None \<and> kept_copy ed ed' target t)"
proof -
  have s1: "same_lineage ed ed1" using okrelD [OF same_resolvers(1) key] .
  note ok1 = same_editor_ok [OF s1 ok]
  have "stored_turn ed1 key turn h root parent" using stored_turn_same [OF s1 ok] stored by simp
  then obtain a ed2 where two: "existing_turn key ed1 = (Inr (Some a), ed2)"
    using existing_turn_runs [of key ed1] existing_turn_assigned [OF _ ok1, of key]
    by (fastforce simp: stored_turn_def split: option.splits)
  have a: "ua_id a = turn" "ua_thread_id a = h"
    using existing_turn_assigned [OF two ok1] \<open>stored_turn ed1 key turn h root parent\<close>
    by (auto simp: assigned_turn_def stored_turn_def)
  have s2: "same_lineage ed ed2" using same_lineage_trans [OF s1 okrelD [OF same_existing_turn two]] .
  note ok2 = same_editor_ok [OF s2 ok]
  define related where "related = history_thread_allowed ed2 h (it_thread_id target) (it_forked_from_thread_id target)"
  have related: "related \<Longrightarrow> history_thread_allowed ed h (it_thread_id target) (it_forked_from_thread_id target)"
    by (simp add: related_def same_history_allowed [OF s2 ok])
  let ?check = "case import of
      Some im \<Rightarrow> if related then aret True else classifier_history_item_allowed ext im (ua_id a) target index
    | None \<Rightarrow> aret related"
  let ?search = "\<lambda>allowed. case import of
      Some im \<Rightarrow> if allowed then aret None else import_resolve_turn ext im a target | None \<Rightarrow> aret None"
  obtain allowed ed3 imported ed4 where three: "?check ed2 = (Inr allowed, ed3)" and four: "?search allowed ed3 = (Inr imported, ed4)"
    and rest: "(case imported of Some x \<Rightarrow> aret (Some x) | None \<Rightarrow>
        athen (aensure allowed (Msg ''historical turn belongs to an unrelated thread''))
       (athen (bind_wire_pair ext Turn r turn) (aret (Some turn)))) ed4 = (Inr answer, ed')"
    using run kind other key two by (auto simp: project_item_turn_def run_simps a related_def [symmetric])
  have "okrel same_lineage ?check" unfolding classifier_history_item_allowed_def by (intro same_rules same_lookups)
  from okrelD [OF this three] have s3: "same_lineage ed ed3" using s2 same_lineage_trans by blast
  note ok3 = same_editor_ok [OF s3 ok]
  show ?thesis
  proof (cases imported)
    case (Some x)
    then obtain im where "import = Some im" "import_resolve_turn ext im a target ed3 = (Inr (Some x), ed4)"
      using four by (auto split: option.splits if_splits)
    moreover have "answer = Some x" "ed' = ed4" using rest Some by auto
    ultimately show ?thesis using import_resolve_turn_kept [OF _ ok3, of ext im a target x ed4] kept_copy_before [OF s3 ok, of ed4 target x]
      by simp
  next
    case None
    then have "answer = Some turn" and allowed using rest by (auto simp: run_simps)
    moreover have "related \<or> classifier_evidence import target turn"
      using three \<open>allowed\<close> classifier_item_evidence a(1) by (fastforce split: option.splits if_splits)
    ultimately show ?thesis using related by blast
  qed
qed

section \<open>Properties\<close>

text \<open>
  A demonstration: a session with a root turn, a request on a new child thread with an explicit lineage, whose
  turn names the root turn as its root and parent, and whose input repeats an item of the root turn.
\<close>

definition demo_evidence :: identity_evidence where
  "demo_evidence = \<lparr>ev_installation = None, ev_conversation = Some ''c'', ev_responses_conversation = None, ev_thread = Some ''7nn'',
     ev_parent_thread = Some ''c'', ev_forked_from_thread = None, ev_explicit_thread_lineage = True, ev_turn = Some ''u'',
     ev_root_turn = Some ''7n'', ev_parent_turn = Some ''7n'', ev_turn_started_at_unix_ms = None, ev_items = [],
     ev_new_turn_input = True, ev_window_number = None, ev_request_kind = ''turn'', ev_classifier = False, ev_reviewer = False\<rparr>"

definition demo_rooted :: editor where
  "demo_rooted = snd (turn_with_id demo_edit_ext (demo_key CHR ''r'') ''7'' None None None demo_conversed)"
definition demo_threaded :: editor where
  "demo_threaded = snd (child_thread_with_id demo_edit_ext (demo_key CHR ''t'') ''7'' (Some ''7'') None demo_rooted)"

definition demo_root_turn :: turn_assignment where
  "demo_root_turn = \<lparr>ua_id = ''7n'', ua_thread_id = ''7'', ua_inventory_source_thread_id = None, ua_root_turn_id = ''7n'',
     ua_parent_turn_id = None, ua_started_at_unix_ms = 1000\<rparr>"

definition demo_target :: item_target where
  "demo_target = \<lparr>it_session_id = ''7'', it_thread_id = ''7nn'', it_parent_thread_id = Some ''7'', it_forked_from_thread_id = None,
     it_turn_id = Some ''7nnn'', it_request_kind = ''turn''\<rparr>"

lemma runs_to: "fst p = r \<Longrightarrow> p = (r, snd p)"
  by (cases p) simp

lemma unaliased:
  assumes "wire_ids (ed_scope ed) = bm_empty" and "validate_wire_id x = Inr ()"
  shows "existing_wire_from_downstream ext d x ed = (Inr None, ed)"
  using assms by (simp add: existing_wire_from_downstream_def downstream_entry_def abind_def athen_def)

lemma demo_found:
  "turn_by_id ''7n'' demo_threaded = (Inr (Some (demo_key CHR ''r'', demo_root_turn)), demo_threaded)"
  "existing_turn (demo_key CHR ''r'') demo_threaded = (Inr (Some demo_root_turn), demo_threaded)"
  "child_thread_by_id ''7nn'' demo_threaded = (Inr (Some (demo_key CHR ''t'',
     \<lparr>ta_id = ''7nn'', ta_session_id = ''7'', ta_parent_thread_id = Some ''7'', ta_window_number = 0\<rparr>)), demo_threaded)"
  "wire_ids (ed_scope demo_threaded) = bm_empty" "wire_upstream_index (ed_scope demo_threaded) = bm_empty"
  "thread_is_ancestor demo_threaded ''7'' ''7nn''"
  by code_simp+

lemma demo_plain_ids: "validate_wire_id ''7n'' = Inr ()" "demo_key CHR ''u'' \<noteq> demo_key CHR ''r''"
  by code_simp+

lemma demo_root_keyed: "turn_key_for_raw demo_edit_ext ''7n'' demo_threaded = (Inr (demo_key CHR ''r''), demo_threaded)"
  by (simp add: turn_key_for_raw_def abind_def demo_found)

lemma demo_threaded_ok: "editor_ok demo_threaded"
proof -
  have "fst (turn_with_id demo_edit_ext (demo_key CHR ''r'') ''7'' None None None demo_conversed) = Inr demo_root_turn" by code_simp
  note rooted = runs_to [OF this, folded demo_rooted_def]
  have "fst (child_thread_with_id demo_edit_ext (demo_key CHR ''t'') ''7'' (Some ''7'') None demo_rooted)
    = Inr \<lparr>ta_id = ''7nn'', ta_session_id = ''7'', ta_parent_thread_id = Some ''7'', ta_window_number = 0\<rparr>" by code_simp
  note threaded = runs_to [OF this, folded demo_threaded_def]
  show ?thesis
    using steps_ok [OF okrelD [OF step_ops(2) threaded]] steps_ok [OF okrelD [OF step_ops(4) rooted]] demo_conversed_ok by blast
qed

lemma demo_thread_run:
  "resolve_thread demo_edit_ext demo_evidence ''7'' None demo_threaded = (Inr (''7nn'', Some ''7'', None, 0), demo_threaded)"
  by (simp add: resolve_thread_def demo_evidence_def atraverse_def lineage_parent_def lineage_child_def resolve_existing_child_def
      demo_found abind_def athen_def)

lemma demo_turn_run:
  "\<exists>ed'. resolve_turn demo_edit_ext demo_evidence (demo_key CHR ''u'') ''7nn'' ''7'' None demo_threaded
     = (Inr \<lparr>rt_turn_id = Some ''7nnn'', rt_root_turn_id = Some ''7n'', rt_parent_turn_id = Some ''7n'', rt_started_at_unix_ms = Some 1000\<rparr>, ed')"
proof -
  have "fst (turn_with_id demo_edit_ext (demo_key CHR ''u'') ''7nn'' (Some ''7n'') (Some ''7n'') None demo_threaded)
      = Inr \<lparr>ua_id = ''7nnn'', ua_thread_id = ''7nn'', ua_inventory_source_thread_id = None, ua_root_turn_id = ''7n'',
          ua_parent_turn_id = Some ''7n'', ua_started_at_unix_ms = 1000\<rparr>" by code_simp
  from runs_to [OF this] obtain ed' where "turn_with_id demo_edit_ext (demo_key CHR ''u'') ''7nn'' (Some ''7n'') (Some ''7n'') None
      demo_threaded = (Inr \<lparr>ua_id = ''7nnn'', ua_thread_id = ''7nn'', ua_inventory_source_thread_id = None, ua_root_turn_id = ''7n'',
          ua_parent_turn_id = Some ''7n'', ua_started_at_unix_ms = 1000\<rparr>, ed')" by blast
  then show ?thesis
    by (simp add: resolve_turn_def demo_evidence_def is_memory_def is_prewarm_def child_lineage_def inherited_root_def demo_root_keyed
        unaliased option_or_def resolve_root_def demo_found demo_plain_ids atraverse_def resolve_parent_def Let_def
        admit_turn_def resolved_def abind_def athen_def demo_root_turn_def)
qed

lemma demo_item_run:
  "\<exists>ed'. project_item_turn demo_edit_ext (Some ''7n'') (Some ''u'') demo_target None None demo_threaded = (Inr (Some ''7n''), ed')"
  by (simp add: project_item_turn_def demo_target_def demo_root_keyed demo_found demo_root_turn_def history_thread_allowed_def
      bind_wire_pair_def demo_plain_ids abind_def athen_def)

text \<open>
  C10.  A request is served on a thread of its own session.  Whatever the caller's headers and body claim, and whatever
  is edited afterwards, the thread that \<open>resolve_thread\<close> answers is the root thread of the session or a child thread
  that the ledger stores under this session and with the parent that was answered; a request with an explicit lineage
  always gets a stored child, whose parent is the root thread or again a child of the same session.
\<close>

theorem resolved_thread_in_session:
  assumes "resolve_thread ext ev session owner ed = (Inr (thread, parent, forked, window), ed1)" and "editor_ok ed"
    and "edit_steps ext ed1 ed2"
  shows "(thread = session \<and> parent = None \<or> stored_child ed2 thread session parent)
    \<and> (ev_explicit_thread_lineage ev \<longrightarrow> stored_child ed2 thread session parent \<and> (\<exists>q. parent = Some q \<and> within ed2 session q))"
proof -
  have ok: "editor_ok ed1" using steps_ok [OF okrelD [OF resolve_thread_edits assms(1)] assms(2)] .
  note keep = edit_steps_lineage [OF assms(3)]
  show ?thesis using resolve_thread_stored [OF assms(1,2)] stored_child_keeps [OF keep ok] within_keeps [OF keep ok] by blast
qed

theorem resolved_thread_in_session_witness: "stored_child demo_threaded ''7nn'' ''7'' (Some ''7'')"
  using resolved_thread_in_session [OF demo_thread_run demo_threaded_ok rtranclp.rtrancl_refl] by simp

text \<open>
  C13.  A turn hangs off a root it may use.  When \<open>resolve_turn\<close> answers, the turn is stored under its key with the
  identifiers that were answered, on the thread of the request; unless the turn was known before, its root is itself
  or a stored root turn of the session or of a thread above the request's; and the parent is that root or a stored
  turn of the same root.
\<close>

theorem resolved_turn_rooted:
  assumes "resolve_turn ext ev key thread session reserved ed = (Inr rt, ed')" and "editor_ok ed"
    and "\<not> is_prewarm ev" and "\<not> (is_memory ev \<and> ev_turn ev = None)"
  shows "\<exists>turn h root. rt_turn_id rt = Some turn \<and> rt_root_turn_id rt = Some root
    \<and> stored_turn ed' key turn h root (rt_parent_turn_id rt) \<and> (ev_classifier ev \<or> h = thread)
    \<and> (root = turn \<or> bm_get (turns (ed_scope ed)) key \<noteq> None
       \<or> (\<exists>k rh. stored_turn ed' k root rh root None \<and> (rh = session \<or> thread_is_ancestor ed rh thread)))
    \<and> (\<forall>p. rt_parent_turn_id rt = Some p \<longrightarrow> p = root \<or> (\<exists>k ph q. stored_turn ed' k p ph root q))"
  using resolve_turn_placed [OF assms] unfolding turn_placed_def usable_root_def shares_root_def .

theorem resolved_turn_rooted_witness: "\<exists>ed' k h. stored_turn ed' k ''7n'' h ''7n'' None"
proof -
  obtain ed' where run: "resolve_turn demo_edit_ext demo_evidence (demo_key CHR ''u'') ''7nn'' ''7'' None demo_threaded
     = (Inr \<lparr>rt_turn_id = Some ''7nnn'', rt_root_turn_id = Some ''7n'', rt_parent_turn_id = Some ''7n'', rt_started_at_unix_ms = Some 1000\<rparr>, ed')"
    using demo_turn_run by blast
  have "\<not> is_prewarm demo_evidence" "\<not> (is_memory demo_evidence \<and> ev_turn demo_evidence = None)"
    by (simp_all add: is_prewarm_def is_memory_def demo_evidence_def)
  note placed = resolved_turn_rooted [OF run demo_threaded_ok this]
  have "bm_get (turns (ed_scope demo_threaded)) (demo_key CHR ''u'') = None" by code_simp
  with placed show ?thesis by auto
qed

text \<open>
  C15.  No item is attributed to a turn of an unrelated thread.  When an input item names another turn than the
  current one and that turn is stored, the answer is that turn only if its thread is above the request's thread or
  above the thread the request was forked from, or if the completed baseline of the same classifier session lists it;
  otherwise it is a stored copy that belongs to such a thread.  A stored turn of any other thread is refused.
\<close>

theorem item_turn_related:
  assumes "project_item_turn ext (Some r) cur target import index ed = (Inr answer, ed')" and "editor_ok ed"
    and "it_request_kind target \<noteq> ''memory''" and "cur \<noteq> Some r"
    and "turn_key_for_raw ext r ed = (Inr key, ed1)" and "stored_turn ed key turn h root parent"
  shows "\<exists>t. answer = Some t \<and>
    (t = turn \<and> history_thread_allowed ed h (it_thread_id target) (it_forked_from_thread_id target)
     \<or> t = turn \<and> classifier_evidence import target turn
     \<or> import \<noteq> None \<and> (\<exists>k h' r' p'. stored_turn ed' k t h' r' p'
         \<and> history_thread_allowed ed h' (it_thread_id target) (it_forked_from_thread_id target)))"
  using project_item_turn_related [OF assms] unfolding kept_copy_def .

theorem item_turn_related_witness: "history_thread_allowed demo_threaded ''7'' ''7nn'' None"
proof -
  obtain ed' where run: "project_item_turn demo_edit_ext (Some ''7n'') (Some ''u'') demo_target None None demo_threaded = (Inr (Some ''7n''), ed')"
    using demo_item_run by blast
  have "assigned_turn demo_threaded (demo_key CHR ''r'') demo_root_turn"
    using existing_turn_assigned [OF demo_found(2) demo_threaded_ok] by simp
  then have "stored_turn demo_threaded (demo_key CHR ''r'') ''7n'' ''7'' ''7n'' None"
    by (simp add: assigned_turn_def demo_root_turn_def)
  from item_turn_related [OF run demo_threaded_ok _ _ demo_root_keyed this] show ?thesis
    by (auto simp: demo_target_def classifier_evidence_def)
qed

end
