(* ===== verification/Request_Identity_Correct.thy ===== *)
theory Request_Identity_Correct
  imports Request_Resolution Item_Attribution Wire_Order
begin

text \<open>
  What the resolution of a whole request promises, from the identity it answers to the turns its input items leave
  with.
\<close>

section \<open>Resolving a request is a sequence of edits\<close>

lemma more_step_ops:
  "okrel (edit_steps ext) (installation_id ext mode scoped)"
  "okrel (edit_steps ext) (generated_item ext key prefix turn add)"
  "okrel (edit_steps ext) (observe_turn_started_at key start)"
  "okrel (edit_steps ext) (set_current_turn thread turn')"
  "okrel (edit_steps ext) (observe_window_number thread window)"
  "okrel (edit_steps ext) (begin_compaction key thread)"
  "okrel (edit_steps ext) (required_wire_from_downstream ext d x provider)"
  "okrel (edit_steps ext) (required_response_owner_from_downstream ext x)"
  by (rule steps_op, erule edit_step.intros)+

lemmas request_rules = step_rules more_step_ops resolvers_edit

lemma import_edits:
  "okrel (edit_steps ext) (resolve_turn_for_thread ext import source thread forked)"
  "okrel (edit_steps ext) (known_turn ext raw)"
  unfolding resolve_turn_for_thread_def known_turn_def Let_def by (intro request_rules import_roots_edits)+

lemma trailing_turn_edits: "okrel (edit_steps ext) (trailing_turn ext import thread forked items selected)"
proof (induction items arbitrary: selected)
  case (Cons result earlier)
  have "okrel (edit_steps ext) (execution_turn ext import thread forked source)" for source
    unfolding execution_turn_def by (intro request_rules import_edits)
  then show ?case unfolding trailing_turn.simps by (intro request_rules import_edits Cons)
qed (simp add: okrel_def)

lemma part_edits:
  "okrel (edit_steps ext) (resolve_installation ext mode ev)"
  "okrel (edit_steps ext) (previous_response_owner ext object)"
  "okrel (edit_steps ext) (select_conversation ext cd ev owner)"
  "okrel (edit_steps ext) (bind_evidence ext d raw projected)"
  "okrel (edit_steps ext) (current_turn_raw ext cd plan ev thread forked)"
  "okrel (edit_steps ext) (resolve_turn_key ext cd object ev thread turn_raw)"
  "okrel (edit_steps ext) (atraverse (existing_wire_from_downstream ext Turn) x)"
  "okrel (edit_steps ext) (observe_start ev key turn)"
  "okrel (edit_steps ext) (advance_current_turn ev thread turn)"
  "okrel (edit_steps ext) (observe_window ev thread)"
  "okrel (edit_steps ext) (open_compaction ext cd object ev thread explicit key)"
  unfolding resolve_installation_def previous_response_owner_def select_conversation_def fresh_anchor_def bind_evidence_def
    current_turn_raw_def current_turn_def continued_turn_def fresh_turn_def resolve_turn_key_def turn_anchor_def atraverse_def
    observe_start_def advance_current_turn_def observe_window_def open_compaction_def operation_anchor_def Let_def
  by (intro request_rules trailing_turn_edits)+

lemma resolve_identity_edits: "okrel (edit_steps ext) (resolve_identity ext cd mode ev object plan)"
  unfolding resolve_identity_def by (intro request_rules part_edits resolve_thread_edits resolve_turn_edits)

section \<open>The conversation\<close>

definition stored_conversation :: "editor \<Rightarrow> string \<Rightarrow> bool" where
  "stored_conversation ed session \<longleftrightarrow> (\<exists>k. map_option conv_id (bm_get (conversations (ed_scope ed)) k) = Some session)"

lemma stored_conversation_keeps: "keeps_lineage ed ed' \<Longrightarrow> editor_ok ed \<Longrightarrow> stored_conversation ed s \<Longrightarrow> stored_conversation ed' s"
  unfolding keeps_lineage_def lineage_grows_def stored_conversation_def by blast

lemma conversation_with_id_stored:
  assumes "conversation_with_id ext key reserved ed = (Inr c, ed')" and "editor_ok ed"
  shows "stored_conversation ed' (ca_id c)"
proof -
  have "map_option conv_id (bm_get (conversations (ed_scope ed')) key) = Some (ca_id c)"
    using assms by (auto simp: conversation_with_id_def run_simps ed_scope_update dest!: entry_run)
  then show ?thesis by (auto simp: stored_conversation_def)
qed

lemma conversation_by_id_stored:
  assumes "conversation_by_id x ed = (Inr (Some (k, c)), ed')" and "editor_ok ed"
  shows "stored_conversation ed' (ca_id c)"
proof -
  obtain e where e: "bm_get (conversations (ed_scope ed)) k = Some e" "ca_id c = conv_id e"
    using assms(1) bm_find_key_Some
    by (fastforce simp: conversation_by_id_def run_simps split: option.splits)
  then have "stored_conversation ed (ca_id c)" by (auto simp: stored_conversation_def intro!: exI [of _ k])
  then show ?thesis using stored_conversation_keeps [OF same_keeps [OF okrelD [OF same_conversation_by_id assms(1)]] assms(2)] by blast
qed

lemma or_else_try_Inr:
  "or_else_try first rest ed = (Inr a, ed') \<longleftrightarrow>
    (\<exists>found ed1. first ed = (Inr found, ed1) \<and> (case found of Some b \<Rightarrow> a = b \<and> ed' = ed1 | None \<Rightarrow> rest ed1 = (Inr a, ed')))"
  by (auto simp: or_else_try_def run_simps split: option.splits)

lemma resolve_conversation_stored:
  assumes "resolve_conversation ext raw ed = (Inr c, ed')" and ok: "editor_ok ed"
  shows "stored_conversation ed' (ca_id c)"
proof -
  obtain found ed1 where one: "conversation_by_id raw ed = (Inr found, ed1)"
    using assms(1) by (auto simp: resolve_conversation_def or_else_try_Inr run_simps)
  have s1: "edit_steps ext ed ed1" using okrelD [OF step_ops(6) one] .
  show ?thesis
  proof (cases found)
    case (Some kc)
    then show ?thesis using assms one conversation_by_id_stored [of raw ed "fst kc" "snd kc" ed1]
      by (auto simp: resolve_conversation_def or_else_try_Inr run_simps)
  next
    case None
    obtain projected ed2 where two: "projected_by ext Session raw conversation_by_id ed1 = (Inr projected, ed2)"
      using assms(1) one None by (auto simp: resolve_conversation_def or_else_try_Inr run_simps)
    have "okrel (edit_steps ext) (projected_by ext Session raw conversation_by_id)"
      unfolding projected_by_def by (intro request_rules)
    from okrelD [OF this two] have s2: "edit_steps ext ed ed2" using s1 by (meson rtranclp_trans)
    show ?thesis
    proof (cases projected)
      case (Some b)
      obtain p ed1' k where "existing_wire_from_downstream ext Session raw ed1 = (Inr (Some p), ed1')"
        "conversation_by_id p ed1' = (Inr (Some (k, b)), ed2)"
        using two Some by (auto simp: projected_by_def run_simps split: option.splits)
      then have "stored_conversation ed2 (ca_id b)"
        using conversation_by_id_stored steps_ok [OF okrelD [OF step_ops(10)]] steps_ok [OF s1 ok] by blast
      then show ?thesis using assms(1) one None two Some by (auto simp: resolve_conversation_def or_else_try_Inr run_simps)
    next
      case none: None
      obtain session ed3 thread ed4 ed5 where three: "existing_wire_from_downstream ext Session raw ed2 = (Inr session, ed3)"
        and four: "existing_wire_from_downstream ext Thread raw ed3 = (Inr thread, ed4)"
        and five: "(case option_or session thread of None \<Rightarrow> aret () | Some x \<Rightarrow> abind (child_thread_by_id x)
          (\<lambda>child. aensure (child = None) (Msg ''root thread was an owning child''))) ed4 = (Inr (), ed5)"
        and six: "conversation_with_id ext (ed_lookup ext ed2 ''conversation'' raw) (option_or session thread) ed5 = (Inr c, ed')"
        using assms(1) one None two none by (auto simp: resolve_conversation_def or_else_try_Inr run_simps)
      have "okrel (edit_steps ext) (case option_or session thread of None \<Rightarrow> aret () | Some x \<Rightarrow> abind (child_thread_by_id x)
          (\<lambda>child. aensure (child = None) (Msg ''root thread was an owning child'')))" by (intro request_rules)
      from okrelD [OF this five] have "edit_steps ext ed ed5"
        using s2 okrelD [OF step_ops(10) three] okrelD [OF step_ops(10) four] by (meson rtranclp_trans)
      then show ?thesis using conversation_with_id_stored [OF six] steps_ok ok by blast
    qed
  qed
qed

lemma select_conversation_stored:
  assumes "select_conversation ext cd ev owner ed = (Inr (c, from_previous), ed')" and ok: "editor_ok ed"
  shows "stored_conversation ed' (ca_id c)"
proof (cases "ev_conversation ev")
  case (Some raw)
  then show ?thesis using assms resolve_conversation_stored [of ext raw ed c ed'] by (auto simp: select_conversation_def run_simps)
next
  case None
  show ?thesis
  proof (cases owner)
    case (Some o')
    then show ?thesis using assms None conversation_by_id_stored [of "wo_session_id o'" ed _ c ed']
      by (auto simp: select_conversation_def run_simps)
  next
    case none: None
    have "okrel (edit_steps ext) (required_wire_from_downstream ext Conversation raw True)" "okrel (edit_steps ext) (fresh_anchor ext cd)" for raw
      unfolding fresh_anchor_def by (intro request_rules)+
    note runs = this
    obtain key ed1 where "edit_steps ext ed ed1" "conversation_with_id ext key None ed1 = (Inr c, ed')"
      using assms(1) None none okrelD [OF runs(1)] okrelD [OF runs(2)]
      by (auto simp: select_conversation_def run_simps split: option.splits) blast+
    then show ?thesis using conversation_with_id_stored steps_ok ok by blast
  qed
qed

section \<open>Compaction\<close>

definition marker_for :: "editor \<Rightarrow> pending_compaction \<Rightarrow> bool" where
  "marker_for ed p \<longleftrightarrow> is_some_and (bm_get (compaction_markers (ed_scope ed)) (pc_marker_key p))
     (\<lambda>m. cm_thread_id m = pc_thread_id p \<and> cm_window_number m = pc_target_window p)"

lemma open_compaction_marker:
  assumes "open_compaction ext cd object ev thread explicit key ed = (Inr (Some p), ed')" and ok: "editor_ok ed"
  shows "marker_for ed' p \<and> pc_thread_id p = thread"
proof -
  obtain marker ed1 where one: "operation_anchor ext cd object ev explicit key ed = (Inr marker, ed1)"
    and two: "begin_compaction (pc_marker_key p) thread ed1 = (Inr (pc_target_window p), ed')" and t: "pc_thread_id p = thread"
    using assms(1) by (auto simp: open_compaction_def run_simps split: if_splits)
  have "okrel (edit_steps ext) (operation_anchor ext cd object ev explicit key)"
    unfolding operation_anchor_def fresh_anchor_def by (intro request_rules)
  from steps_ok [OF okrelD [OF this one] ok] have "editor_ok ed1" .
  then have "marker_for ed' p" using two t
    by (auto simp: begin_compaction_def run_simps marker_for_def touch_marker_def ed_scope_update split: option.splits)
  with t show ?thesis by blast
qed

section \<open>The identity\<close>

text \<open>The thread and turn of an identity are the ones the ledger stores for its session.\<close>

definition identity_stored :: "editor \<Rightarrow> identity_evidence \<Rightarrow> resolved_identity \<Rightarrow> bool" where
  "identity_stored ed ev i \<longleftrightarrow>
     stored_conversation ed (ri_session_id i)
     \<and> (ri_thread_id i = ri_session_id i \<and> ri_parent_thread_id i = None
        \<or> stored_child ed (ri_thread_id i) (ri_session_id i) (ri_parent_thread_id i))
     \<and> (is_prewarm ev \<or> is_memory ev \<and> ev_turn ev = None
        \<or> (\<exists>key turn h root. ri_turn_id i = Some turn \<and> ri_root_turn_id i = Some root
             \<and> stored_turn ed key turn h root (ri_parent_turn_id i) \<and> (ev_classifier ev \<or> h = ri_thread_id i)))"

lemma identity_stored_keeps:
  assumes "keeps_lineage ed ed'" and "editor_ok ed" and "identity_stored ed ev i"
  shows "identity_stored ed' ev i"
  using assms(3) stored_conversation_keeps [OF assms(1,2)] stored_child_keeps [OF assms(1,2)] stored_turn_keeps [OF assms(1,2)]
  unfolding identity_stored_def by blast

text \<open>The bindings and observations that follow the turn.\<close>

definition settle ::
    "externals \<Rightarrow> identity_evidence \<Rightarrow> string \<Rightarrow> string option \<Rightarrow> string option \<Rightarrow> string option \<Rightarrow> resolved_turn \<Rightarrow> unit edit" where
  "settle ext ev thread parent forked raw turn =
     athen (bind_evidence ext Turn raw (rt_turn_id turn))
    (athen (advance_current_turn ev thread turn)
    (athen (bind_evidence ext Thread (ev_thread ev) (Some thread))
    (athen (bind_evidence ext Thread (ev_parent_thread ev) parent)
    (athen (bind_evidence ext Thread (ev_forked_from_thread ev) forked)
    (athen (bind_evidence ext Turn (ev_root_turn ev) (rt_root_turn_id turn))
    (athen (bind_evidence ext Turn (ev_parent_turn ev) (rt_parent_turn_id turn))
     (observe_window ev thread)))))))"

lemma settle_edits: "okrel (edit_steps ext) (settle ext ev thread parent forked raw turn)"
  unfolding settle_def by (intro request_rules part_edits)

lemma observe_start_turn:
  assumes "observe_start ev key turn ed = (Inr turn', ed')"
  shows "rt_turn_id turn' = rt_turn_id turn \<and> rt_root_turn_id turn' = rt_root_turn_id turn
    \<and> rt_parent_turn_id turn' = rt_parent_turn_id turn"
  using assms by (auto simp: observe_start_def run_simps split: if_splits option.splits)

lemma resolve_identity_run:
  assumes "resolve_identity ext cd mode ev object plan ed = (Inr (i, pending, raw), ed')"
  obtains owner c from_previous ed1 ed2 t p f w ed3 key reserved ed4 turn ed5 ed6 ed7
  where "edit_steps ext ed ed1" "select_conversation ext cd ev owner ed1 = (Inr (c, from_previous), ed2)"
    and "edit_steps ext ed2 ed3" "resolve_thread ext ev (ca_id c) (if from_previous then owner else None) ed3 = (Inr (t, p, f, w), ed4)"
    and "edit_steps ext ed4 ed5" "resolve_turn ext ev key t (ca_id c) reserved ed5 = (Inr turn, ed6)"
    and "edit_steps ext ed6 ed7" "open_compaction ext cd object ev t (raw \<noteq> None) key ed7 = (Inr pending, ed')"
    and "ri_session_id i = ca_id c" "ri_thread_id i = t" "ri_parent_thread_id i = p" "ri_forked_from_thread_id i = f"
      "ri_turn_id i = rt_turn_id turn" "ri_root_turn_id i = rt_root_turn_id turn" "ri_parent_turn_id i = rt_parent_turn_id turn"
    and "ri_window_number i = (case pending of Some q \<Rightarrow> committed_base q
          | None \<Rightarrow> (case ev_window_number ev of Some x \<Rightarrow> x | None \<Rightarrow> w))"
    and "ri_request_kind i = ev_request_kind ev"
proof -
  obtain inst s1 owner s2 c from_previous s3 s4 t p f w s5 s6 key s7 reserved s8 turn s9 turn' s10 s11
    where r: "resolve_installation ext mode ev ed = (Inr inst, s1)" "previous_response_owner ext object s1 = (Inr owner, s2)"
      "select_conversation ext cd ev owner s2 = (Inr (c, from_previous), s3)"
      "bind_evidence ext Session (ev_conversation ev) (Some (ca_id c)) s3 = (Inr (), s4)"
      "resolve_thread ext ev (ca_id c) (if from_previous then owner else None) s4 = (Inr (t, p, f, w), s5)"
      "current_turn_raw ext cd plan ev t f s5 = (Inr raw, s6)" "resolve_turn_key ext cd object ev t raw s6 = (Inr key, s7)"
      "atraverse (existing_wire_from_downstream ext Turn) raw s7 = (Inr reserved, s8)"
      "resolve_turn ext ev key t (ca_id c) (Option.bind reserved id) s8 = (Inr turn, s9)"
      "observe_start ev key turn s9 = (Inr turn', s10)" "settle ext ev t p f raw turn' s10 = (Inr (), s11)"
      "open_compaction ext cd object ev t (raw \<noteq> None) key s11 = (Inr pending, ed')"
      and i: "i = \<lparr>ri_installation_id = inst, ri_session_id = ca_id c, ri_thread_id = t,
         ri_parent_thread_id = p, ri_forked_from_thread_id = f, ri_turn_id = rt_turn_id turn',
         ri_root_turn_id = rt_root_turn_id turn', ri_parent_turn_id = rt_parent_turn_id turn',
         ri_window_number = (case pending of Some q \<Rightarrow> committed_base q
           | None \<Rightarrow> (case ev_window_number ev of Some x \<Rightarrow> x | None \<Rightarrow> w)),
         ri_request_kind = ev_request_kind ev, ri_turn_started_at_unix_ms = rt_started_at_unix_ms turn'\<rparr>"
    using assms unfolding resolve_identity_def settle_def by (auto simp: run_simps)
  have "edit_steps ext ed s2" using okrelD [OF part_edits(1) r(1)] okrelD [OF part_edits(2) r(2)] by (rule rtranclp_trans)
  moreover have "edit_steps ext s3 s4" using okrelD [OF part_edits(4) r(4)] .
  moreover have "edit_steps ext s5 s8"
    using okrelD [OF part_edits(5) r(6)] okrelD [OF part_edits(6) r(7)] okrelD [OF part_edits(7) r(8)] by (meson rtranclp_trans)
  moreover have "edit_steps ext s9 s11" using okrelD [OF part_edits(8) r(10)] okrelD [OF settle_edits r(11)] by (rule rtranclp_trans)
  ultimately show thesis using that [OF _ r(3) _ r(5) _ r(9) _ r(12)] observe_start_turn [OF r(10)] by (simp add: i)
qed

lemma resolve_identity_stored:
  assumes run: "resolve_identity ext cd mode ev object plan ed = (Inr (i, pending, raw), ed')" and ok: "editor_ok ed"
  shows "identity_stored ed' ev i
    \<and> (\<forall>p. pending = Some p \<longrightarrow> marker_for ed' p \<and> pc_thread_id p = ri_thread_id i \<and> ri_window_number i = committed_base p)"
proof -
  obtain owner c from_previous ed1 ed2 t p f w ed3 key reserved ed4 turn ed5 ed6 ed7
  where one: "edit_steps ext ed ed1" "select_conversation ext cd ev owner ed1 = (Inr (c, from_previous), ed2)"
    and two: "edit_steps ext ed2 ed3" "resolve_thread ext ev (ca_id c) (if from_previous then owner else None) ed3 = (Inr (t, p, f, w), ed4)"
    and three: "edit_steps ext ed4 ed5" "resolve_turn ext ev key t (ca_id c) reserved ed5 = (Inr turn, ed6)"
    and four: "edit_steps ext ed6 ed7" "open_compaction ext cd object ev t (raw \<noteq> None) key ed7 = (Inr pending, ed')"
    and i: "ri_session_id i = ca_id c" "ri_thread_id i = t" "ri_parent_thread_id i = p" "ri_forked_from_thread_id i = f"
      "ri_turn_id i = rt_turn_id turn" "ri_root_turn_id i = rt_root_turn_id turn" "ri_parent_turn_id i = rt_parent_turn_id turn"
    and window: "ri_window_number i = (case pending of Some q \<Rightarrow> committed_base q
          | None \<Rightarrow> (case ev_window_number ev of Some x \<Rightarrow> x | None \<Rightarrow> w))"
    by (rule resolve_identity_run [OF run]) (rule that; assumption)
  note ok1 = steps_ok [OF one(1) ok]
  note ok2 = steps_ok [OF okrelD [OF part_edits(3) one(2)] ok1]
  note ok3 = steps_ok [OF two(1) ok2]
  note ok4 = steps_ok [OF okrelD [OF resolve_thread_edits two(2)] ok3]
  note ok5 = steps_ok [OF three(1) ok4]
  note ok6 = steps_ok [OF okrelD [OF resolve_turn_edits three(2)] ok5]
  note ok7 = steps_ok [OF four(1) ok6]
  have to6: "edit_steps ext ed4 ed6" using three(1) okrelD [OF resolve_turn_edits three(2)] by (rule rtranclp_trans)
  have "edit_steps ext ed2 ed6" using two(1) okrelD [OF resolve_thread_edits two(2)] to6 by (meson rtranclp_trans)
  then have session: "stored_conversation ed6 (ca_id c)"
    using stored_conversation_keeps [OF edit_steps_lineage ok2] select_conversation_stored [OF one(2) ok1] by blast
  have thread: "t = ca_id c \<and> p = None \<or> stored_child ed6 t (ca_id c) p"
    using resolve_thread_stored [OF two(2) ok3] stored_child_keeps [OF edit_steps_lineage [OF to6] ok4] by blast
  have turn: "is_prewarm ev \<or> is_memory ev \<and> ev_turn ev = None
      \<or> (\<exists>key x h root. rt_turn_id turn = Some x \<and> rt_root_turn_id turn = Some root
           \<and> stored_turn ed6 key x h root (rt_parent_turn_id turn) \<and> (ev_classifier ev \<or> h = t))"
    using resolve_turn_placed [OF three(2) ok5] unfolding turn_placed_def by blast
  have "identity_stored ed6 ev i" unfolding identity_stored_def i using session thread turn by blast
  moreover have "edit_steps ext ed6 ed'" using four(1) okrelD [OF part_edits(11) four(2)] by (rule rtranclp_trans)
  ultimately have "identity_stored ed' ev i" using identity_stored_keeps [OF edit_steps_lineage ok6] by blast
  moreover have "marker_for ed' q \<and> pc_thread_id q = ri_thread_id i \<and> ri_window_number i = committed_base q" if "pending = Some q" for q
    using open_compaction_marker [of ext cd object ev t _ key ed7 q ed'] four(2) that ok7 i(2) window by simp
  ultimately show ?thesis by blast
qed

section \<open>The turns of the input items\<close>



















section \<open>Properties\<close>

definition demo_request_codecs :: codecs where
  "demo_request_codecs = \<lparr>to_vec = (\<lambda>_. ''v''), from_str = (\<lambda>_. None), as_bytes = id, new_v5 = id, from_micros = (\<lambda>_. Some ''1'')\<rparr>"

text \<open>A request that names its session and its turn by their identifiers, on the root thread.\<close>

definition demo_plain_evidence :: identity_evidence where
  "demo_plain_evidence = demo_evidence\<lparr>ev_conversation := Some ''7'', ev_thread := None, ev_parent_thread := None,
     ev_explicit_thread_lineage := False, ev_turn := Some ''7n'', ev_root_turn := None, ev_parent_turn := None\<rparr>"

definition demo_root_identity :: "string \<Rightarrow> resolved_identity" where
  "demo_root_identity installation = \<lparr>ri_installation_id = installation, ri_session_id = ''7'', ri_thread_id = ''7'',
     ri_parent_thread_id = None, ri_forked_from_thread_id = None, ri_turn_id = Some ''7n'', ri_root_turn_id = Some ''7n'',
     ri_parent_turn_id = None, ri_window_number = 0, ri_request_kind = ''turn'', ri_turn_started_at_unix_ms = Some 1000\<rparr>"

lemma demo_more_found:
  "conversation_by_id ''7'' demo_threaded = (Inr (Some (demo_key CHR ''c'', \<lparr>ca_id = ''7'', ca_window_number = 0\<rparr>)), demo_threaded)"
  "turn_with_id demo_edit_ext (demo_key CHR ''r'') ''7'' None None None demo_threaded = (Inr demo_root_turn, demo_threaded)"
  "window_number demo_threaded ''7'' = Some 0"
  "validate_wire_id ''7'' = Inr ()"
  by code_simp+

lemma demo_identity_run:
  "\<exists>x ed'. resolve_identity demo_edit_ext demo_request_codecs Device demo_plain_evidence [] None demo_threaded
     = (Inr (demo_root_identity x, None, Some ''7n''), ed')"
proof -
  have "fst (set_current_turn ''7'' ''7n'' demo_threaded) = Inr ()" by code_simp
  from runs_to [OF this] obtain ed' where "set_current_turn ''7'' ''7n'' demo_threaded = (Inr (), ed')" by blast
  then show ?thesis
    by (simp add: resolve_identity_def demo_plain_evidence_def demo_evidence_def resolve_installation_def installation_id_def
        previous_response_owner_def previous_response_def str_of_def atraverse_def select_conversation_def resolve_conversation_def
        or_else_try_def bind_evidence_def bind_wire_pair_def resolve_thread_def implicit_thread_def current_turn_raw_def
        resolve_turn_key_def demo_root_keyed unaliased resolve_turn_def child_lineage_def admit_turn_def is_prewarm_def is_memory_def
        observe_start_def advance_current_turn_def observe_window_def open_compaction_def option_or_def resolved_def
        demo_found demo_more_found demo_plain_ids demo_root_turn_def demo_root_identity_def abind_def athen_def)
qed

text \<open>
  C14.  The identity a request is given is one the ledger stores.  When resolution answers, then now and after any later
  edits the session is a stored conversation, the thread is its root thread or a stored child of the session under the
  answered parent, and, except for prewarming and for memory requests without a turn, the turn is stored with the
  answered root and parent, on the answered thread unless a classifier asked.  A compaction that was opened has a
  stored marker for this thread and its target window, and the request goes out in the window before it.
\<close>

theorem resolved_identity_consistent:
  assumes "resolve_identity ext cd mode ev object plan ed = (Inr (i, pending, raw), ed1)" and "editor_ok ed" and "edit_steps ext ed1 ed2"
  shows "stored_conversation ed2 (ri_session_id i)
     \<and> (ri_thread_id i = ri_session_id i \<and> ri_parent_thread_id i = None
        \<or> stored_child ed2 (ri_thread_id i) (ri_session_id i) (ri_parent_thread_id i))
     \<and> (is_prewarm ev \<or> is_memory ev \<and> ev_turn ev = None
        \<or> (\<exists>key turn h root. ri_turn_id i = Some turn \<and> ri_root_turn_id i = Some root
             \<and> stored_turn ed2 key turn h root (ri_parent_turn_id i) \<and> (ev_classifier ev \<or> h = ri_thread_id i)))
     \<and> (\<forall>p. pending = Some p \<longrightarrow> marker_for ed1 p \<and> pc_thread_id p = ri_thread_id i \<and> ri_window_number i = committed_base p)"
proof -
  note stored = resolve_identity_stored [OF assms(1,2)]
  have "editor_ok ed1" using steps_ok [OF okrelD [OF resolve_identity_edits assms(1)] assms(2)] .
  with stored have "identity_stored ed2 ev i" using identity_stored_keeps [OF edit_steps_lineage [OF assms(3)]] by blast
  with stored show ?thesis unfolding identity_stored_def by blast
qed

theorem resolved_identity_consistent_witness: "\<exists>ed' key. stored_turn ed' key ''7n'' ''7'' ''7n'' None"
proof -
  obtain x ed' where run: "resolve_identity demo_edit_ext demo_request_codecs Device demo_plain_evidence [] None demo_threaded
     = (Inr (demo_root_identity x, None, Some ''7n''), ed')" using demo_identity_run by blast
  have "\<not> is_prewarm demo_plain_evidence" "\<not> is_memory demo_plain_evidence" "\<not> ev_classifier demo_plain_evidence"
    by (simp_all add: demo_plain_evidence_def demo_evidence_def is_prewarm_def is_memory_def)
  with resolved_identity_consistent [OF run demo_threaded_ok rtranclp.rtrancl_refl] show ?thesis
    by (auto simp: demo_root_identity_def)
qed





end
