(* ===== verification/Response_Privacy.thy ===== *)
theory Response_Privacy
  imports Lifecycle_Carriers Json_Value Routing_Store Sse_Reader
begin

text \<open>
  What a client is shown of a provider's errors and header metadata (\<open>response_privacy.rs\<close>,
  \<open>response_retry_advice.rs\<close>), the window of a usage limit (\<open>response_failure.rs\<close>) and hidden reasoning
  (\<open>reasoning_visibility.rs\<close>).
\<close>

section \<open>Parameters\<close>

text \<open>
  Outside the repository: which texts are header values (\<open>HeaderValue::from_str\<close>), which texts are HTTP dates
  (\<open>httpdate\<close>), which delays fit the clock (\<open>Instant::checked_add\<close>), and the text of a decimal number read and
  printed as \<open>f64\<close>, when it is finite and at most a maximum.
\<close>

record privacy_env =
  header_text_ok :: "string \<Rightarrow> bool"
  http_date_ok :: "string \<Rightarrow> bool"
  clock_holds :: "nat \<Rightarrow> bool"
  f64_text :: "string \<Rightarrow> nat \<Rightarrow> string option"

section \<open>Retry advice\<close>

definition retry_after_header :: "privacy_env \<Rightarrow> string \<Rightarrow> string option" where
  "retry_after_header env raw =
     (if MAX_ROUTING_TOKEN_BYTES < length raw then None
      else let text = trim raw;
               valid = (if text \<noteq> [] \<and> list_all is_ascii_digit text
                 then is_some_and (parse_u64 text) (clock_holds env) else http_date_ok env text)
           in if valid then Some raw else None)"

definition scalar_text :: "json \<Rightarrow> string option" where
  "scalar_text v = (case v of JNumber s \<Rightarrow> Some s | JBool b \<Rightarrow> Some (if b then ''true'' else ''false'') | _ \<Rightarrow> None)"

text \<open>One header: later scalar advice overrides earlier advice, a container does not.\<close>

definition advise :: "privacy_env \<Rightarrow> string \<times> json \<Rightarrow> string option \<Rightarrow> string option" where
  "advise env header effective =
     (if \<not> eq_ignore_ascii_case (fst header) ''retry-after'' then effective
      else case snd header of
        JString s \<Rightarrow> if MAX_ROUTING_TOKEN_BYTES < length s then None
          else if header_text_ok env s then Some s else effective
      | v \<Rightarrow> (case scalar_text v of
          Some s \<Rightarrow> if header_text_ok env s then Some s else effective
        | None \<Rightarrow> effective))"

definition advice_from_json :: "privacy_env \<Rightarrow> (string \<times> json) list \<Rightarrow> string option" where
  "advice_from_json env headers = Option.bind (fold (advise env) headers None) (retry_after_header env)"

definition replace_advice :: "string option \<Rightarrow> (string \<times> json) list \<Rightarrow> (string \<times> json) list" where
  "replace_advice advice headers =
     (let headers = filter (\<lambda>(name, _). \<not> eq_ignore_ascii_case name ''retry-after'') headers
      in case advice of Some s \<Rightarrow> obj_insert ''retry-after'' (JString s) headers | None \<Rightarrow> headers)"

section \<open>Headers\<close>

text \<open>\<open>None\<close> stands for \<open>false\<close>: the caller then drops the header.\<close>

function header_value :: "privacy_env \<Rightarrow> string option \<Rightarrow> nat \<Rightarrow> bool \<Rightarrow> json \<Rightarrow> json option" where
  "header_value env alias depth native (JArray vs) =
     (if depth < 8 then map_option JArray (those (map (header_value env alias (depth + 1) native) vs)) else None)"
| "header_value env alias depth native (JString text) =
     (if MAX_ROUTING_TOKEN_BYTES < length text \<or> \<not> header_text_ok env text then None
      else Some (JString (case alias of Some a \<Rightarrow> a | None \<Rightarrow> text)))"
| "header_value env alias depth native (JNumber s) =
     (if native then header_value env alias depth native (JString s) else None)"
| "header_value env alias depth native (JBool b) =
     (if native then header_value env alias depth native (JString (if b then ''true'' else ''false'')) else None)"
| "header_value env alias depth native JNull = None"
| "header_value env alias depth native (JObject xs) = None"
  by pat_completeness auto
termination
  by (relation "measures [\<lambda>(_, _, _, _, v). size v, \<lambda>(_, _, _, _, v). case v of JString _ \<Rightarrow> 0 | _ \<Rightarrow> 1]")
    (auto simp: less_Suc_eq_le size_list_estimation')

definition filter_header :: "privacy_env \<Rightarrow> string \<Rightarrow> string \<times> json \<Rightarrow> (string \<times> json) option" where
  "filter_header env request_id header =
     (case response_header_action (fst header) of
        ActOpaque \<Rightarrow> map_option (Pair (fst header)) (header_value env None 0 True (snd header))
      | ActGatewayRequestAlias \<Rightarrow>
          if request_id \<noteq> [] then map_option (Pair (fst header)) (header_value env (Some request_id) 0 True (snd header)) else None
      | _ \<Rightarrow> None)"

definition filter_headers :: "privacy_env \<Rightarrow> string \<Rightarrow> json \<Rightarrow> json" where
  "filter_headers env request_id value = (case as_object value of
     None \<Rightarrow> JObject []
   | Some headers \<Rightarrow>
       JObject (replace_advice (advice_from_json env headers) (List.map_filter (filter_header env request_id) headers)))"

section \<open>Errors\<close>

definition FAILURE_MESSAGE :: string where "FAILURE_MESSAGE = ''The upstream request failed.''"

definition PUBLIC_CODES :: "string list" where
  "PUBLIC_CODES = [''context_length_exceeded'', ''insufficient_quota'', ''credit_balance_exhausted'',
     ''organization_spend_limit_exceeded'', ''organization_usage_limit_exceeded'', ''project_spend_limit_exceeded'',
     ''usage_not_included'', ''cyber_policy'', ''bio_policy'', ''misalignment_policy_violation'', ''invalid_prompt'',
     ''flex_unavailable'', ''server_is_overloaded'', ''rate_limit_exceeded'', ''slow_down'', ''previous_response_not_found'',
     ''websocket_connection_limit_reached'', ''invalid_request_error'', ''server_error'', ''internal_error'',
     ''invalid_api_key'', ''model_not_found'', ''content_policy_violation'', ''max_output_tokens'', ''content_filter'']"

definition PUBLIC_TYPES :: "string list" where
  "PUBLIC_TYPES = [''invalid_request_error'', ''server_error'', ''authentication_error'', ''permission_error'',
     ''rate_limit_error'', ''tokens'', ''requests'', ''usage_limit_reached'', ''usage_not_included'', ''insufficient_quota'']"

definition PUBLIC_REASONS :: "string list" where
  "PUBLIC_REASONS = [''max_output_tokens'', ''content_filter'', ''interrupted'']"

definition PUBLIC_MEMBERS :: "string list" where
  "PUBLIC_MEMBERS = [''type'', ''error'', ''code'', ''message'', ''response_id'', ''stream_id'', ''sequence_number'',
     ''status'', ''headers'']"

text \<open>The position of a phrase, compared without case, and the text after it.\<close>

fun after_phrase :: "string \<Rightarrow> string \<Rightarrow> string option" where
  "after_phrase phrase s =
     (if length phrase \<le> length s \<and> eq_ignore_ascii_case (take (length phrase) s) phrase then Some (drop (length phrase) s)
      else case s of [] \<Rightarrow> None | _ # rest \<Rightarrow> after_phrase phrase rest)"

declare after_phrase.simps [simp del]

definition delay_byte :: "char \<Rightarrow> bool" where
  "delay_byte c \<longleftrightarrow> is_ascii_digit c \<or> c = CHR ''.''"

definition retry_delay :: "privacy_env \<Rightarrow> string \<Rightarrow> string option" where
  "retry_delay env message =
     Option.bind (after_phrase ''try again in'' message) (\<lambda>tail.
     let tail = trim_start_of WHITE_SPACE tail in
     if tail = [] \<or> \<not> is_ascii_digit (hd tail) then None
     else
       let digits = takeWhile delay_byte tail in
       if 20 < length digits then None
       else
         let unit = trim_start_of WHITE_SPACE (drop (length digits) tail) in
         if 2 \<le> length unit \<and> eq_ignore_ascii_case (take 2 unit) ''ms''
         then map_option (\<lambda>n. n @ ''ms'') (f64_text env digits 86400000)
         else if unit \<noteq> [] \<and> eq_ignore_ascii_case [hd unit] ''s''
         then map_option (\<lambda>n. n @ ''s'') (f64_text env digits 86400)
         else None)"

definition usage_limit_window :: "string option \<Rightarrow> json option \<Rightarrow> nat option" where
  "usage_limit_window kind value =
     (if kind \<noteq> Some ''usage_limit_reached'' then None
      else Option.bind (Option.bind value as_u64) (\<lambda>n. if n < 2 ^ 16 then Some n else None))"

definition public_code :: "json option \<Rightarrow> string" where
  "public_code code = (case str_of code of
     Some c \<Rightarrow> if c \<in> set PUBLIC_CODES then c else ''upstream_response_failed''
   | None \<Rightarrow> ''upstream_response_failed'')"

definition public_error_headers :: "privacy_env \<Rightarrow> (string \<times> json) list \<Rightarrow> (string \<times> json) list" where
  "public_error_headers env headers =
     replace_advice (advice_from_json env headers)
       (List.map_filter (\<lambda>(name, value). if eq_ignore_ascii_case name ''x-retry-metadata''
          then map_option (Pair name) (header_value env None 0 False value) else None) headers)"

text \<open>Decimal text of a 16-bit number.\<close>

fun decimal :: "nat \<Rightarrow> string" where
  "decimal n = (if n < 10 then [char_of (n + 48)] else decimal (n div 10) @ [char_of (n mod 10 + 48)])"

declare decimal.simps [simp del]

definition public_error :: "privacy_env \<Rightarrow> (string \<times> json) list option \<Rightarrow> (string \<times> json) list" where
  "public_error env object =
     (let field = (\<lambda>name. Option.bind object (\<lambda>o'. map_of o' name));
          code = public_code (field ''code'');
          error = [(''code'', JString code), (''message'', JString FAILURE_MESSAGE)];
          error = (case Option.bind (field ''headers'') as_object of
              None \<Rightarrow> error
            | Some headers \<Rightarrow> let headers = public_error_headers env headers in
                if headers = [] then error else obj_insert ''headers'' (JObject headers) error);
          error = (case (if code \<in> {''rate_limit_exceeded'', ''slow_down''}
              then Option.bind (str_of (field ''message'')) (retry_delay env) else None) of
              None \<Rightarrow> error
            | Some delay \<Rightarrow> obj_insert ''message'' (JString (FAILURE_MESSAGE @ '' Try again in '' @ delay @ ''.'')) error)
      in case str_of (field ''type'') of
           None \<Rightarrow> error
         | Some kind \<Rightarrow>
             if kind \<notin> set PUBLIC_TYPES then error
             else let error = obj_insert ''type'' (JString kind) error in
               (case usage_limit_window (Some kind) (field ''limit_window_minutes'') of
                  None \<Rightarrow> error
                | Some minutes \<Rightarrow> obj_insert ''limit_window_minutes'' (JNumber (decimal minutes)) error))"

section \<open>Events\<close>

definition update_member :: "string \<Rightarrow> (json \<Rightarrow> json) \<Rightarrow> (string \<times> json) list \<Rightarrow> (string \<times> json) list" where
  "update_member name f object = (case map_of object name of None \<Rightarrow> object | Some v \<Rightarrow> obj_insert name (f v) object)"

definition public_details :: "json \<Rightarrow> json" where
  "public_details details =
     (if details = JNull then details
      else JObject [(''reason'', JString (case str_of (jget details ''reason'') of
          Some r \<Rightarrow> if r \<in> set PUBLIC_REASONS then r else ''unknown''
        | None \<Rightarrow> ''unknown''))])"

definition drop_member_if :: "string \<Rightarrow> (json \<Rightarrow> bool) \<Rightarrow> (string \<times> json) list \<Rightarrow> (string \<times> json) list" where
  "drop_member_if name bad object = (if is_some_and (map_of object name) bad then obj_remove name object else object)"

text \<open>A flat error event keeps its envelope and correlation members only.\<close>

definition flat_error :: "privacy_env \<Rightarrow> (string \<times> json) list \<Rightarrow> (string \<times> json) list" where
  "flat_error env object =
     (let object = (if obj_contains object ''status'' then object
            else case map_of object ''status_code'' of Some s \<Rightarrow> obj_insert ''status'' s object | None \<Rightarrow> object);
          object = drop_member_if ''error'' (\<lambda>v. v = JNull) object;
          object = (if obj_contains object ''error'' then object
            else let error = JObject (public_error env (Some object)) in
              obj_insert ''message'' (jindex error ''message'') (obj_insert ''code'' (jindex error ''code'') object));
          object = filter (\<lambda>(name, _). name \<in> set PUBLIC_MEMBERS) object;
          object = (if obj_contains object ''error'' then obj_remove ''message'' (obj_remove ''code'' object) else object);
          object = drop_member_if ''status'' (\<lambda>v. is_none_or (as_u64 v) (\<lambda>n. \<not> (100 \<le> n \<and> n \<le> 599))) object;
          object = drop_member_if ''sequence_number'' (\<lambda>v. as_u64 v = None) object;
          object = drop_member_if ''response_id'' (\<lambda>v. as_str v = None) object
      in drop_member_if ''stream_id'' (\<lambda>v. as_str v = None) object)"

definition filter_container :: "privacy_env \<Rightarrow> string \<Rightarrow> (string \<times> json) list \<Rightarrow> (string \<times> json) list" where
  "filter_container env request_id object =
     (let object = update_member ''headers'' (filter_headers env request_id) object;
          object = update_member ''error'' (\<lambda>e. if e = JNull then e else JObject (public_error env (as_object e))) object;
          object = update_member ''incomplete_details'' public_details object
      in if str_of (map_of object ''type'') = Some ''error'' then flat_error env object else object)"

definition filter_response :: "privacy_env \<Rightarrow> string \<Rightarrow> json \<Rightarrow> json" where
  "filter_response env request_id value = (case as_object value of
     None \<Rightarrow> value
   | Some object \<Rightarrow>
       let object = filter_container env request_id object
       in JObject (update_member ''response'' (\<lambda>r. case as_object r of
            Some inner \<Rightarrow> JObject (filter_container env request_id inner) | None \<Rightarrow> r) object))"

text \<open>The failure event the gateway sends itself.\<close>

definition failed_terminal :: "privacy_env \<Rightarrow> json \<Rightarrow> string option \<Rightarrow> json" where
  "failed_terminal env error response_id =
     (let failure = public_error env (as_object (case jget error ''error'' of Some e \<Rightarrow> e | None \<Rightarrow> error));
          failure = (if pointer (JObject failure) [''headers'', ''retry-after''] \<noteq> None then failure
            else case Option.bind (Option.bind (jget error ''headers'') as_object) (advice_from_json env) of
              None \<Rightarrow> failure
            | Some advice \<Rightarrow> obj_insert ''headers'' (JObject (obj_insert ''retry-after'' (JString advice)
                (case Option.bind (map_of failure ''headers'') as_object of Some hs \<Rightarrow> hs | None \<Rightarrow> []))) failure)
      in JObject [(''type'', JString ''response.failed''), (''response'', JObject
           ([(''status'', JString ''failed''), (''error'', JObject failure)]
            @ (case response_id of Some x \<Rightarrow> [(''id'', JString x)] | None \<Rightarrow> [])))])"

section \<open>Hidden reasoning\<close>

datatype reasoning_visibility = Include | Hide

definition ENCRYPTED_REASONING :: string where "ENCRYPTED_REASONING = ''reasoning.encrypted_content''"

definition visibility_read :: "(string \<times> json) list \<Rightarrow> reasoning_visibility option" where
  "visibility_read object = (case map_of object ''include'' of
     None \<Rightarrow> Some Include
   | Some JNull \<Rightarrow> Some Hide
   | Some (JArray vs) \<Rightarrow>
       if list_all (\<lambda>v. as_str v \<noteq> None) vs
       then Some (if list_ex (\<lambda>v. as_str v = Some ENCRYPTED_REASONING) vs then Include else Hide) else None
   | _ \<Rightarrow> None)"

definition ciphertext :: "json \<Rightarrow> json option" where
  "ciphertext item = (if type_of item = Some ''reasoning'' then jget item ''encrypted_content'' else None)"

definition remove_ciphertext :: "json \<Rightarrow> json" where
  "remove_ciphertext item = (case as_object item of
     Some object \<Rightarrow> if type_of item = Some ''reasoning'' then JObject (obj_remove ''encrypted_content'' object) else item
   | None \<Rightarrow> item)"

definition restore_hidden :: "json \<Rightarrow> json \<Rightarrow> json" where
  "restore_hidden caller saved =
     (if is_none_or (ciphertext caller) (\<lambda>v. v = JNull) then
        (case ciphertext saved of
           Some c \<Rightarrow> (case as_object caller of Some object \<Rightarrow> JObject (obj_insert ''encrypted_content'' c object) | None \<Rightarrow> caller)
         | None \<Rightarrow> caller)
      else caller)"

text \<open>
  A member of \<open>value\<close> that is called \<open>response\<close> is hidden in the same way.  Taking it from the value itself is the
  same as taking it after the other members were rewritten, none of which is called \<open>response\<close>.
\<close>

lemma size_jget: "jget v name = Some x \<Longrightarrow> size x < size v"
proof -
  assume "jget v name = Some x"
  then obtain xs where v: "v = JObject xs" and "(name, x) \<in> set xs"
    by (auto simp: jget_def split: json.splits dest: map_of_SomeD)
  then have "size x \<le> size_list (size_prod (\<lambda>_. 0) size) xs"
    by (auto intro: size_list_estimation' simp: prod.size_gen)
  then show ?thesis by (simp add: v)
qed

function hide_response :: "json \<Rightarrow> json" where
  "hide_response value = (case as_object (remove_ciphertext value) of
     None \<Rightarrow> value
   | Some object \<Rightarrow>
       let object = update_member ''output'' (\<lambda>o'. case as_array o' of
              Some items \<Rightarrow> JArray (map remove_ciphertext items) | None \<Rightarrow> o') object;
           object = update_member ''item'' remove_ciphertext object
       in (case jget value ''response'' of
             Some response \<Rightarrow> JObject (obj_insert ''response'' (hide_response response) object)
           | None \<Rightarrow> JObject object))"
  by pat_completeness auto
termination
  by (relation "measure size") (auto intro: size_jget)

declare hide_response.simps [simp del]

definition visibility_filter :: "reasoning_visibility \<Rightarrow> json \<Rightarrow> json" where
  "visibility_filter v value = (case v of Include \<Rightarrow> value | Hide \<Rightarrow> hide_response value)"

end
