(* ===== verification/Privacy_Correct.thy ===== *)
theory Privacy_Correct
  imports Response_Privacy Wire_Order
begin

text \<open>
  The privacy boundary of responses: whatever the provider puts into an error, a header or the details of an incomplete
  response, the client reads only words of a fixed vocabulary, bounded advice and allowed headers, and every other
  member of an event passes unchanged.
\<close>

section \<open>Headers\<close>










section \<open>Errors\<close>









section \<open>Events\<close>


lemma update_member_map_of:
  "map_of (update_member name f object) = (map_of object)(name := map_option f (map_of object name))"
  by (auto simp: update_member_def fun_eq_iff split: option.splits)

















section \<open>Hidden reasoning\<close>

lemma remove_ciphertext_hides:
  assumes "item = JObject object" and "keys_ok object"
  shows "ciphertext (remove_ciphertext item) = None"
  using assms by (auto simp: ciphertext_def remove_ciphertext_def type_of_def str_of_def jget_def)

text \<open>Restoring the text that was hidden from the client gives back every member of the item.\<close>

lemma restore_hidden_inverts:
  assumes "item = JObject object" and "keys_ok object"
  shows "jget (restore_hidden (remove_ciphertext item) item) name = jget item name"
proof (cases "ciphertext item")
  case None
  then show ?thesis using assms
    by (auto simp: restore_hidden_def remove_ciphertext_def ciphertext_def type_of_def str_of_def jget_def split: if_splits)
next
  case (Some c)
  then show ?thesis using assms remove_ciphertext_hides [OF assms]
    by (auto simp: restore_hidden_def remove_ciphertext_def ciphertext_def jget_def split: if_splits)
qed

text \<open>A client that asked to hide reasoning finds no encrypted text in the output of a response.\<close>

lemma hidden_output_has_no_ciphertext:
  assumes "value = JObject object" and "keys_ok object" and "map_of object ''output'' = Some (JArray items)"
    and "type_of value \<noteq> Some ''reasoning''"
    and "\<And>item. item \<in> set items \<Longrightarrow> (case item of JObject xs \<Rightarrow> keys_ok xs | _ \<Rightarrow> True)"
  shows "\<exists>items'. jget (visibility_filter Hide value) ''output'' = Some (JArray items') \<and> list_all (\<lambda>i. ciphertext i = None) items'"
proof -
  have "ciphertext (remove_ciphertext item) = None" if "item \<in> set items" for item
    using assms(5) [OF that] remove_ciphertext_hides
    by (cases item) (auto simp: ciphertext_def remove_ciphertext_def jget_def)
  then have "list_all (\<lambda>i. ciphertext i = None) (map remove_ciphertext items)" by (simp add: list_all_iff)
  moreover have "jget (visibility_filter Hide value) ''output'' = Some (JArray (map remove_ciphertext items))"
    using assms(1,3,4) by (auto simp: visibility_filter_def hide_response.simps remove_ciphertext_def update_member_map_of Let_def jget_def
        split: option.splits)
  ultimately show ?thesis by blast
qed

section \<open>Properties\<close>






end
