(* ===== verification/Spec2Isabelle.thy ===== *)
theory Spec2Isabelle
  imports Ledger_Retention Ledger_Protocols Routing_Correct Vault_Correct Output_Correct Websocket_Correct
    Cache_Correct Sse_Correct Request_Identity_Correct Privacy_Correct
begin

text \<open>
  A verification of the core of mini-sub2api, the Rust process under \<^verbatim>\<open>src/src/core/codex/src\<close> that
  stands between clients and an upstream inference service.  Names of Rust files below are relative to
  that directory.

  \<^bold>\<open>The program.\<close>  A client speaks HTTP or WebSocket; the core forwards its requests under a stored
  credential.  Identifiers never cross in the clear: an identity ledger on disk gives every session,
  thread, turn, item, call and response of a client an identity of the gateway's own, and every
  identifier of the provider an alias.  Requests are rewritten on the way up, events on the way down.
  A socket may continue a response the provider still has instead of sending the whole input again.

  A request says who it is in many places; resolution decides which session, thread and turn it gets.

  \<^bold>\<open>How the parts meet.\<close>  The vault keeps credentials and owns the directory; the ledger store keeps
  one file per account in it; a transaction loads a ledger, runs an edit, prunes, validates and
  replaces the file.  Edits are made of editor operations, among them the alias operations.  The
  translation walks call the alias operations as the carrier tables say; the cache answers for them
  while the ledger file has not changed.  Events come out of the event reader; the evidence of a
  response's output and the socket state are updated from them.

  \<^bold>\<open>Shared theories.\<close>
  \<^item> \<open>Gateway_Prelude\<close>: results as sums, actions \<open>'s \<Rightarrow> ('e + 'a) \<times> 's\<close> that keep the state on an error,
    byte strings, collections of simplification rules.  \<open>Ordered_Map\<close>: \<open>BTreeMap\<close> and \<open>BTreeSet\<close> as
    sorted lists with their laws.  \<open>Json_Value\<close>: \<open>serde_json\<close> values with ordered members, where removal
    moves the last member into the gap.  \<open>Ancestry\<close>: bounded walks along parent pointers.

  \<^bold>\<open>The identity ledger\<close> (C1--C9, C11, C12).
  \<^item> \<open>Ledger_Types\<close> is \<^verbatim>\<open>request_state_types.rs\<close>; \<open>Lookup_Keys\<close> is \<^verbatim>\<open>request_state_lookup.rs\<close>;
    \<open>Ledger_Validation\<close> is \<^verbatim>\<open>request_state_validation.rs\<close>, check by check with its messages.
  \<^item> \<open>Ledger_Prune\<close> and \<open>Prune_Policy\<close> are \<^verbatim>\<open>request_state_prune.rs\<close> and \<^verbatim>\<open>request_state_prune_policy.rs\<close>.
    \<open>Prune_Guarantees\<close>, \<open>Prune_Validity\<close>, \<open>Prune_Steps\<close>, \<open>Prune_Cuts\<close> and \<open>Prune_Correct\<close> show that
    every removal is a cut after which the ledger is still valid, that limits hold afterwards and that
    protected entries survive; \<open>Ledger_Retention\<close> states it (C1--C5).
  \<^item> \<open>Ledger_Editor\<close> is \<^verbatim>\<open>request_state_editor.rs\<close> and its siblings \<^verbatim>\<open>_turn\<close>, \<^verbatim>\<open>_existing\<close>, \<^verbatim>\<open>_compaction\<close>
    and \<^verbatim>\<open>request_state_classifier.rs\<close>; \<open>Wire_Ids\<close> is \<^verbatim>\<open>request_state_editor_wire.rs\<close>.  \<open>Editor_Steps\<close>
    gives the step relation \<open>edit_steps\<close> of all operations and what a step keeps; \<open>Editor_Honest\<close> the
    honesty of the flag that skips a write; \<open>Alias_Table\<close> the contract of a reversible table with its two
    interpretations.  \<open>Ledger_Edits\<close> and \<open>Ledger_Protocols\<close> state stability, round trips of aliases and
    compaction (C6--C9, C11, C12), and prove that windows are bounded, that ancestry is reachability and that
    lookup keys are unambiguous.

  \<^bold>\<open>Identity resolution\<close> (C10, C13--C15, C34).
  \<^item> \<open>Identity_Resolution\<close> is \<^verbatim>\<open>request_state_resolution_threads.rs\<close>, \<^verbatim>\<open>request_state_resolution_turn.rs\<close>, the turn
    of an item, and the copies of imported turns of \<^verbatim>\<open>subscription_history_import.rs\<close> and
    \<^verbatim>\<open>subscription_classifier_history.rs\<close>; \<open>Request_Resolution\<close> is \<^verbatim>\<open>request_state_resolution.rs\<close> up to the
    identity, \<^verbatim>\<open>request_state_resolution_items.rs\<close>, \<^verbatim>\<open>subscription_turn.rs\<close> and the parts of \<^verbatim>\<open>agent_message.rs\<close> and
    \<^verbatim>\<open>request_compaction.rs\<close> they call.  Every resolver is an action on the editor and a sequence of its steps.
  \<^item> \<open>Editor_Lineage\<close> shows that no step changes the session and parent of a thread or the thread, root and
    parent of a turn.  \<open>Resolution_Correct\<close> and \<open>Item_Attribution\<close> show that the thread and the turn answered
    are stored for the session and that an item is never attributed to an unrelated turn; \<open>Request_Identity_Correct\<close>
    composes them for a whole request and its input.

  \<^bold>\<open>Durable state\<close> (C16--C25, C27, C28).
  \<^item> \<open>Vault_Files\<close> is \<^verbatim>\<open>vault_io.rs\<close> and the file helpers: a directory of named files on which every
    call may fail, and a write may stop anywhere before the rename.  \<open>Fingerprint_Store\<close> is
    \<^verbatim>\<open>fingerprint.rs\<close>; \<open>Subscription_Aliases\<close> is \<^verbatim>\<open>subscription_aliases.rs\<close>; \<open>Request_State_Store\<close> is
    \<^verbatim>\<open>request_state_store.rs\<close> with \<^verbatim>\<open>request_state_transaction.rs\<close>.  \<open>Store_Frames\<close>, \<open>Store_Guarantees\<close>
    and \<open>Store_Steps\<close> lead to \<open>Store_Correct\<close>: an edit is atomic whatever fails, and the store refines a
    versioned register.
  \<^item> \<open>Routing_Store\<close> is \<^verbatim>\<open>request_state_routing.rs\<close>, with \<open>Routing_Correct\<close>; \<open>Credential_Vault\<close> is
    \<^verbatim>\<open>vault.rs\<close> with \<^verbatim>\<open>vault_lifecycle.rs\<close>, with \<open>Vault_Correct\<close>.

  \<^bold>\<open>Responses and sockets\<close> (C29--C33, C35).
  \<^item> \<open>Output_Lifecycle\<close> is \<^verbatim>\<open>response_output_lifecycle.rs\<close>, \<^verbatim>\<open>response_output.rs\<close>, \<^verbatim>\<open>response_interrupt.rs\<close>
    and the response side of \<^verbatim>\<open>request_compaction.rs\<close>; \<open>Output_Steps\<close> its step relation; \<open>Output_Correct\<close>
    shows that a response counts as complete only when all reported output is accounted for.
  \<^item> \<open>Wire_Order\<close> is \<open>finalize_wire_order\<close>; \<open>Websocket_Reuse\<close> is \<^verbatim>\<open>responses_websocket_projection.rs\<close>
    and \<^verbatim>\<open>responses_websocket_reuse.rs\<close>; \<open>Websocket_State\<close> is \<^verbatim>\<open>responses_websocket_state.rs\<close> with its
    parts.  \<open>Websocket_Steps\<close> and \<open>Websocket_Correct\<close> show that an incremental request extends exactly
    the response that completed last on the socket, and keep phases and budgets.

  \<^bold>\<open>Identifiers on the wire\<close> (C36--C39).
  \<^item> \<open>Lifecycle_Carriers\<close> is \<^verbatim>\<open>lifecycle_carriers.rs\<close> with its five tables, rule by rule;
    \<open>Wire_Translation\<close> is \<^verbatim>\<open>response_wire_ids.rs\<close> and \<^verbatim>\<open>request_wire_ids.rs\<close>, parametric in the identifier
    operation.  \<open>Wire_Shown\<close> runs the same walk on a table instead of the editor, \<open>Wire_Members\<close> splits
    a walk into its members, \<open>Wire_Echo\<close> composes both directions, \<open>Wire_Correct\<close> states the results.
  \<^item> \<open>Response_Cache\<close> is \<^verbatim>\<open>response_id_cache.rs\<close>, \<^verbatim>\<open>response_delta_ids.rs\<close> and \<^verbatim>\<open>response_state_stamp.rs\<close>;
    \<open>Cache_Correct\<close> shows its bounds and that a hit equals the translation.

  \<^bold>\<open>What a client is shown\<close> (C26).
  \<^item> \<open>Response_Privacy\<close> is \<^verbatim>\<open>response_privacy.rs\<close>, \<^verbatim>\<open>response_retry_advice.rs\<close> and \<^verbatim>\<open>reasoning_visibility.rs\<close>;
    \<open>Privacy_Correct\<close> shows that errors and headers leave only words of a fixed vocabulary and bounded advice, that
    other members pass unchanged, and that hidden reasoning can be restored.

  \<^bold>\<open>Reading events\<close> (C40).
  \<^item> \<open>Sse_Reader\<close> is \<^verbatim>\<open>response_sse_reader.rs\<close> and \<^verbatim>\<open>sse_progress.rs\<close> of the protocol crate; \<open>Sse_Correct\<close>
    compares it with the blocks of lines of the whole text.

  \<^bold>\<open>Parameters.\<close>  SHA-256, HMAC, base64, UUIDs and random draws are fields of \<open>externals\<close> and \<open>io_env\<close> or a
  list of draws; HTTP header syntax, dates and the printing of numbers are fields of \<open>privacy_env\<close>; codecs of files and JSON text are records of functions.  What a theorem needs of them
  (a codec reads back what it wrote, a nested text is shorter than the text around it, a MAC has no
  collision) is a hypothesis of that theorem, met by the instances in \<open>Ledger_Demo\<close> and in the witnesses.

  \<^bold>\<open>Bounds.\<close>  Ancestry loops run one round more than the table has entries, as in the code.  Pruning
  and eviction loops are functions with a measure.  The walk over serialized metadata takes a bound on
  the nesting, and the length of the longest text is enough (C38).  Making room in the cache is a partial
  function, shown to return (C39).  The search for an imported turn is bounded by the number of child threads;
  \<open>import_roots_not_exhausted\<close> shows that the bound is never reached.  Reading all events takes one call per byte and one more (C40).
  Sizes are natural numbers; where the code saturates, wraps or checks (windows, revisions, budgets,
  byte counts) the 64-bit bound is written out.

  \<^bold>\<open>Not modelled.\<close>  Asynchronous plumbing: the relay loops of sockets, response streams, the HTTP server
  and client, OAuth and the command line only move values between the modelled parts.  The passes that
  rewrite a request before its final order (\<^verbatim>\<open>request_normalizer.rs\<close> and the emulation files), the reading
  of identity evidence from headers and body and its projection back into them (\<^verbatim>\<open>request_identity*.rs\<close>) and the
  in-memory contexts (\<^verbatim>\<open>subscription_*.rs\<close>) are not modelled, apart from the parts that the ledger store,
  the socket state and resolution consult: evidence, plans and contexts are records of what is read.  The Go coordinator is another program.
\<close>

end
